(* ===== verification/C_Prelude.thy ===== *)
theory C_Prelude
  imports Main "HOL-Library.Word" "HOL-Library.Code_Target_Nat"
begin

text \<open>
  Shared base of the development: the machine integer types of the C sources (LP64 Linux on
  x86\_64, so \<open>unsigned long\<close> and \<open>uint64_t\<close> are 64 bits wide), the collections of simplification
  rules the component theories fill, and the generic facts on words and lists that more than one
  component needs.  The facts on words relate the two idioms the sources use for ring indices,
  \<open>(i + 1) & mask\<close> and \<open>(head - tail) & mask\<close> with \<open>mask = 2^k - 1\<close>, and the test
  \<open>(n & (n - 1)) == 0\<close>, to arithmetic on natural numbers.
\<close>

unbundle bit_operations_syntax

type_synonym u8 = "8 word"
type_synonym u16 = "16 word"
type_synonym u32 = "32 word"
type_synonym u64 = "64 word"

named_theorems clib_simps \<open>evaluation rules of the C library functions\<close>
named_theorems ring_simps \<open>index arithmetic of the ring buffers\<close>
named_theorems timestamp_simps \<open>timestamp conversions and correlation\<close>

subsection \<open>Words as natural numbers\<close>

lemma unat_of_nat_small: "n < 2 ^ LENGTH('a) \<Longrightarrow> unat (of_nat n :: 'a::len word) = n"
  by (simp add: unsigned_of_nat take_bit_nat_eq_self)

lemma unat_ucast_small:
  "unat x < 2 ^ LENGTH('b) \<Longrightarrow> unat (ucast x :: 'b::len word) = unat x" for x :: "'a::len word"
  by (simp add: unsigned_ucast_eq take_bit_nat_eq_self)

lemma u64_bound: "unat (x :: u64) < 18446744073709551616"
  using unsigned_less [of x] by simp

lemma u32_bound: "unat (x :: u32) < 4294967296"
  using unsigned_less [of x] by simp

lemma u16_bound: "unat (x :: u16) < 65536"
  using unsigned_less [of x] by simp

lemma u8_bound: "unat (x :: u8) < 256"
  using unsigned_less [of x] by simp

lemma sint_eq_unat:
  fixes x :: "'a::len word"
  assumes "unat x < 2 ^ (LENGTH('a) - 1)"
  shows "sint x = int (unat x)"
proof -
  have "int (unat x) < int (2 ^ (LENGTH('a) - 1))"
    using assms by (simp only: of_nat_less_iff)
  then have "uint x < 2 ^ (LENGTH('a) - 1)" by simp
  moreover have "- (2 ^ (LENGTH('a) - 1)) \<le> uint x"
    by (rule order_trans [of _ 0]) simp_all
  ultimately show ?thesis by (simp add: sint_uint signed_take_bit_int_eq_self)
qed

lemma u32_sint_small: "unat (x :: u32) < 2 ^ 31 \<Longrightarrow> sint x = int (unat x)"
  using sint_eq_unat [of x] by simp

subsection \<open>Masks that are one less than a power of two\<close>

lemma unat_power_of_2:
  assumes "k < LENGTH('a)"
  shows "unat ((2 :: 'a::len word) ^ k) = 2 ^ k"
proof -
  have "unat ((2 :: 'a word) ^ k) = unat (of_nat (2 ^ k) :: 'a word)"
    by simp
  also have "\<dots> = 2 ^ k"
    using assms by (subst unsigned_of_nat) (simp add: take_bit_nat_eq_self)
  finally show ?thesis .
qed

lemma unat_mask_of_power:
  assumes "k < LENGTH('a)"
  shows "unat ((2 :: 'a::len word) ^ k - 1) = 2 ^ k - 1"
proof -
  have "(1 :: 'a word) \<le> 2 ^ k"
    using assms by (simp add: word_le_nat_alt unat_power_of_2)
  then show ?thesis
    using assms by (simp add: unat_sub unat_power_of_2)
qed

lemma unat_and_mask [ring_simps]:
  fixes x :: "'a::len word"
  shows "unat (x AND (2 ^ k - 1)) = unat x mod 2 ^ k"
proof -
  have "x AND (2 ^ k - 1) = take_bit k x"
    by (simp only: take_bit_eq_mask mask_eq_exp_minus_1)
  then have "unat (x AND (2 ^ k - 1)) = take_bit k (unat x)"
    by (simp only: unsigned_take_bit_eq)
  then show ?thesis
    by (simp only: take_bit_eq_mod)
qed

subsection \<open>The power-of-two test\<close>

lemma nat_and_pred_power_of_2: "and n (n - 1) = 0 \<Longrightarrow> 0 < n \<Longrightarrow> \<exists>k. n = 2 ^ k" for n :: nat
proof (induction n rule: less_induct)
  case (less n)
  show ?case
  proof (cases "even n")
    case True
    then obtain m where m: "n = 2 * m" by blast
    with less.prems have "0 < m" by simp
    with m have pred: "n - 1 = 2 * (m - 1) + 1" by simp
    have "and n (n - 1) = 2 * and m (m - 1)"
      unfolding pred unfolding m by (simp add: and_nat_rec [of "2 * m"])
    with less.prems have "and m (m - 1) = 0" by simp
    with less.IH [of m] m \<open>0 < m\<close> obtain k where "m = 2 ^ k" by auto
    with m have "n = 2 ^ Suc k" by simp
    then show ?thesis by blast
  next
    case False
    then obtain m where m: "n = 2 * m + 1" by (metis oddE)
    have "and n (n - 1) = 2 * m"
      by (simp add: m and_nat_rec [of "Suc (2 * m)"])
    with less.prems m have "n = 2 ^ 0" by simp
    then show ?thesis by blast
  qed
qed

lemma nat_power_of_2_and_pred: "and (2 ^ k) (2 ^ k - 1) = (0 :: nat)"
proof -
  have "and (2 ^ k) (2 ^ k - 1) = take_bit k (2 ^ k :: nat)"
    by (simp only: take_bit_eq_mask mask_eq_exp_minus_1)
  then show ?thesis by (simp only: take_bit_eq_mod mod_self)
qed

lemma word_and_pred_power_of_2:
  fixes n :: "'a::len word"
  assumes "n AND (n - 1) = 0" and "n \<noteq> 0"
  obtains k where "k < LENGTH('a)" and "n = 2 ^ k"
proof -
  have pos: "0 < unat n" using assms(2) by (simp add: unat_gt_0)
  have pred: "unat (n - 1) = unat n - 1"
    using assms(2) by (simp add: unat_minus_one)
  have "unat (n AND (n - 1)) = 0" using assms(1) by simp
  then have "and (unat n) (unat n - 1) = 0"
    by (simp add: unsigned_and_eq pred)
  with pos obtain k where k: "unat n = 2 ^ k"
    using nat_and_pred_power_of_2 by blast
  have "unat n < 2 ^ LENGTH('a)" by (rule unsigned_less)
  then have lt: "k < LENGTH('a)" unfolding k by simp
  moreover have "n = 2 ^ k"
    using k lt by (metis unat_power_of_2 word_unat_eq_iff)
  ultimately show ?thesis by (rule that)
qed

lemma word_power_of_2_and_pred:
  assumes "k < LENGTH('a)"
  shows "(2 :: 'a::len word) ^ k AND (2 ^ k - 1) = 0"
proof -
  have "unat ((2 :: 'a word) ^ k AND (2 ^ k - 1)) = 0"
    using assms by (simp add: unat_and_mask unat_power_of_2)
  then show ?thesis by (simp add: unat_eq_zero)
qed

subsection \<open>Lists\<close>

text \<open>The last \<open>n\<close> elements of a list: what a ring that overwrites its oldest entry holds.\<close>

definition last_n :: "nat \<Rightarrow> 'a list \<Rightarrow> 'a list" where
  "last_n n xs = drop (length xs - n) xs"

lemma length_last_n [simp]: "length (last_n n xs) = min n (length xs)"
  by (auto simp: last_n_def)

lemma last_n_all: "length xs \<le> n \<Longrightarrow> last_n n xs = xs"
  by (simp add: last_n_def)

lemma last_n_snoc_last_n: "last_n n (last_n n xs @ [x]) = last_n n (xs @ [x])"
proof (cases "length xs \<le> n")
  case True
  then show ?thesis by (simp add: last_n_all)
next
  case False
  then have "last_n n xs @ [x] = drop (length xs - n) (xs @ [x])"
    by (simp add: last_n_def)
  then have "last_n n (last_n n xs @ [x]) = drop (Suc (length xs - n)) (xs @ [x])"
    using False by (simp add: last_n_def min_def)
  then show ?thesis
    using False by (simp add: last_n_def Suc_diff_le)
qed

lemma fold_unchanged: "(\<And>i x. g (f i x) = g x) \<Longrightarrow> g (fold f is x) = g x"
  by (induction "is" arbitrary: x) simp_all

end
