(* ===== verification/C_Lib.thy ===== *)
theory C_Lib
  imports C_Prelude
begin

text \<open>
  The part of the C library that the sources use on strings: character classes, decimal output
  (\<open>%u\<close>, \<open>%llu\<close> and the zero padded \<open>%0wllu\<close>), the decimal readers \<open>strtol\<close>, \<open>strtoul\<close>, \<open>atoi\<close> and
  \<open>atoll\<close> of glibc (64 bit \<open>long\<close>, so \<open>strtoll\<close> is \<open>strtol\<close>), \<open>strtok\<close> with one delimiter,
  \<open>strchr\<close>, \<open>strrchr\<close>, \<open>strstr\<close>, \<open>strcspn\<close>, bounded copies and \<open>fgets\<close>.  A C string is the list of its characters
  before the terminating NUL; a buffer of \<open>n\<close> bytes holds a string of at most \<open>n - 1\<close> characters.
  The lemmas at the end are the round trips between decimal output and input.
\<close>

subsection \<open>Characters\<close>

definition char_code :: "char \<Rightarrow> nat" where
  "char_code c = of_char c"

definition is_digit :: "char \<Rightarrow> bool" where
  "is_digit c \<longleftrightarrow> 48 \<le> char_code c \<and> char_code c \<le> 57"

definition digit_val :: "char \<Rightarrow> nat" where
  "digit_val c = char_code c - 48"

definition digit_char :: "nat \<Rightarrow> char" where
  "digit_char d = char_of (48 + d)"

definition isspace :: "char \<Rightarrow> bool" where
  "isspace c \<longleftrightarrow> char_code c = 32 \<or> (9 \<le> char_code c \<and> char_code c \<le> 13)"

subsection \<open>Decimal output\<close>

fun show_dec :: "nat \<Rightarrow> string" where
  "show_dec n = (if n < 10 then [digit_char n] else show_dec (n div 10) @ [digit_char (n mod 10)])"

declare show_dec.simps [simp del]

definition show_pad :: "nat \<Rightarrow> nat \<Rightarrow> string" where
  "show_pad w n = (let s = show_dec n in replicate (w - length s) CHR ''0'' @ s)"

subsection \<open>Decimal input\<close>

fun scan_digits :: "nat \<Rightarrow> string \<Rightarrow> nat \<times> string" where
  "scan_digits acc [] = (acc, [])"
| "scan_digits acc (c # cs) =
     (if is_digit c then scan_digits (10 * acc + digit_val c) cs else (acc, c # cs))"

text \<open>
  White space, an optional sign, then at least one digit: the sign, the magnitude and the rest of
  the string; \<open>None\<close> where no conversion is performed.
\<close>

definition scan_number :: "string \<Rightarrow> (bool \<times> nat \<times> string) option" where
  "scan_number s =
     (let t = dropWhile isspace s;
          neg = (case t of c # _ \<Rightarrow> c = CHR ''-'' | [] \<Rightarrow> False);
          u = (case t of c # cs \<Rightarrow> if c = CHR ''-'' \<or> c = CHR ''+'' then cs else t | [] \<Rightarrow> [])
      in case u of
           c # _ \<Rightarrow> if is_digit c then (let (n, r) = scan_digits 0 u in Some (neg, n, r)) else None
         | [] \<Rightarrow> None)"

text \<open>\<open>strtol\<close>: the value, clamped to the range of \<open>long\<close>, and what \<open>endptr\<close> points to.\<close>

definition strtol :: "string \<Rightarrow> int \<times> string" where
  "strtol s = (case scan_number s of
     None \<Rightarrow> (0, s)
   | Some (neg, n, r) \<Rightarrow>
       (if neg then max (- int n) (- (2 ^ 63)) else min (int n) (2 ^ 63 - 1), r))"

text \<open>\<open>strtoul\<close>: saturates at \<open>ULONG_MAX\<close>; a minus sign negates the result modulo \<open>2^64\<close>.\<close>

definition strtoul :: "string \<Rightarrow> u64 \<times> string" where
  "strtoul s = (case scan_number s of
     None \<Rightarrow> (0, s)
   | Some (neg, n, r) \<Rightarrow>
       (if 2 ^ 64 \<le> n then - 1 else if neg then - of_nat n else of_nat n, r))"

definition atoll :: "string \<Rightarrow> int" where
  "atoll s = fst (strtol s)"

text \<open>\<open>atoi\<close> is \<open>(int) strtol(...)\<close>: the low 32 bits read as a signed number.\<close>

definition atoi :: "string \<Rightarrow> int" where
  "atoi s = sint (word_of_int (fst (strtol s)) :: u32)"

subsection \<open>Searching and splitting\<close>

fun split_on :: "char \<Rightarrow> string \<Rightarrow> string list" where
  "split_on d [] = [[]]"
| "split_on d (c # cs) =
     (if c = d then [] # split_on d cs
      else case split_on d cs of p # ps \<Rightarrow> (c # p) # ps | [] \<Rightarrow> [[c]])"

text \<open>The tokens that successive calls of \<open>strtok(s, "d")\<close> return: the non-empty parts.\<close>

definition strtok_all :: "char \<Rightarrow> string \<Rightarrow> string list" where
  "strtok_all d s = filter (\<lambda>p. p \<noteq> []) (split_on d s)"

text \<open>\<open>strchr\<close>: the string from the first occurrence on.\<close>

definition strchr :: "string \<Rightarrow> char \<Rightarrow> string option" where
  "strchr s d = (let t = dropWhile (\<lambda>c. c \<noteq> d) s in if t = [] then None else Some t)"

text \<open>\<open>strrchr\<close> as a split of the string in front of the last occurrence.\<close>

definition strrchr_split :: "string \<Rightarrow> char \<Rightarrow> (string \<times> string) option" where
  "strrchr_split s d =
     (if d \<in> set s
      then Some (let suf = rev (takeWhile (\<lambda>c. c \<noteq> d) (rev s)) in
                 (take (length s - length suf - 1) s, d # suf))
      else None)"

fun is_prefix :: "string \<Rightarrow> string \<Rightarrow> bool" where
  "is_prefix [] t = True"
| "is_prefix (c # cs) [] = False"
| "is_prefix (c # cs) (d # ds) = (c = d \<and> is_prefix cs ds)"

text \<open>\<open>strstr(hay, needle) != NULL\<close>.\<close>

fun strstr :: "string \<Rightarrow> string \<Rightarrow> bool" where
  "strstr [] needle = (needle = [])"
| "strstr (c # cs) needle = (is_prefix needle (c # cs) \<or> strstr cs needle)"

text \<open>
  \<open>line[strcspn(line, "\r\n")] = 0\<close>; a NUL byte that \<open>fgets\<close> stored ends the string as well.
\<close>

definition line_char :: "char \<Rightarrow> bool" where
  "line_char c \<longleftrightarrow> char_code c \<noteq> 13 \<and> char_code c \<noteq> 10 \<and> char_code c \<noteq> 0"

definition chomp :: "string \<Rightarrow> string" where
  "chomp s = takeWhile line_char s"

subsection \<open>Bounded buffers\<close>

text \<open>
  \<open>strncpy(dest, src, n - 1); dest[n - 1] = 0\<close> on a buffer of \<open>n\<close> bytes, and \<open>snprintf\<close> of a text
  into \<open>n\<close> bytes: both keep the first \<open>n - 1\<close> characters.
\<close>

definition bounded_copy :: "nat \<Rightarrow> string \<Rightarrow> string" where
  "bounded_copy n s = take (n - 1) s"

text \<open>
  \<open>written += snprintf(out + written, max_len - written, ...)\<close> on a buffer of \<open>max_len\<close> bytes that holds \<open>out\<close>.  Once
  \<open>written\<close> exceeds \<open>max_len\<close> the size wraps and the call writes out of bounds (\<open>None\<close>).
\<close>

definition snprintf_at :: "nat \<Rightarrow> string \<times> nat \<Rightarrow> string \<Rightarrow> (string \<times> nat) option" where
  "snprintf_at max_len buf text =
     (let (out, written) = buf
      in if max_len < written then None
         else Some (out @ bounded_copy (max_len - written) text, written + length text))"

subsection \<open>Sorting\<close>

text \<open>\<open>qsort\<close> with a comparison function, as an insertion sort.\<close>

primrec qinsert :: "('a \<Rightarrow> 'a \<Rightarrow> int) \<Rightarrow> 'a \<Rightarrow> 'a list \<Rightarrow> 'a list" where
  "qinsert cmp x [] = [x]"
| "qinsert cmp x (y # ys) = (if cmp x y \<le> 0 then x # y # ys else y # qinsert cmp x ys)"

definition qsort :: "('a \<Rightarrow> 'a \<Rightarrow> int) \<Rightarrow> 'a list \<Rightarrow> 'a list" where
  "qsort cmp xs = foldr (qinsert cmp) xs []"

lemma qsort_sort:
  fixes cmp :: "'a::linorder \<Rightarrow> 'a \<Rightarrow> int"
  assumes "\<And>x y. cmp x y \<le> 0 \<longleftrightarrow> x \<le> y"
  shows "qsort cmp xs = sort xs"
proof -
  have "qinsert cmp x ys = insort x ys" for x ys
    using assms by (induction ys) simp_all
  then show ?thesis by (induction xs) (simp_all add: qsort_def)
qed

subsection \<open>Reading lines\<close>

text \<open>
  One call \<open>fgets(buf, n, fp)\<close> on the unread rest of a file: at most \<open>n - 1\<close> characters, up to and
  including a newline.
\<close>

fun fgets :: "nat \<Rightarrow> string \<Rightarrow> string \<times> string" where
  "fgets 0 s = ([], s)"
| "fgets (Suc n) [] = ([], [])"
| "fgets (Suc n) (c # cs) =
     (if n = 0 then ([], c # cs)
      else if char_code c = 10 then ([c], cs)
      else (let (l, r) = fgets n cs in (c # l, r)))"

lemma fgets_code [code]:
  "fgets n s =
     (if n = 0 then ([], s)
      else case s of
             [] \<Rightarrow> ([], [])
           | c # cs \<Rightarrow>
               (if n = 1 then ([], c # cs)
                else if char_code c = 10 then ([c], cs)
                else (let (l, r) = fgets (n - 1) cs in (c # l, r))))"
  by (cases n; cases s) simp_all

lemma fgets_shrinks: "2 \<le> n \<Longrightarrow> s \<noteq> [] \<Longrightarrow> length (snd (fgets n s)) < length s"
proof (induction n s rule: fgets.induct)
  case (3 n c cs)
  show ?case
  proof (cases "n = 1 \<or> cs = []")
    case True
    then show ?thesis using 3 by (cases cs; cases n) (auto split: prod.splits)
  next
    case False
    with 3 show ?thesis by (auto split: prod.splits)
  qed
qed simp_all

text \<open>The lines that repeated \<open>fgets(line, n, fp)\<close> calls deliver until the end of the file.\<close>

function fgets_lines :: "nat \<Rightarrow> string \<Rightarrow> string list" where
  "fgets_lines n s =
     (if s = [] \<or> n < 2 then [] else (let (l, r) = fgets n s in l # fgets_lines n r))"
  by pat_completeness auto
termination
proof (relation "measure (\<lambda>(n, s). length s)")
  fix n s x l r
  assume "\<not> (s = [] \<or> n < 2)" and "x = fgets n s" and "(l, r) = x"
  then show "((n, r), n, s) \<in> measure (\<lambda>(n, s). length s)"
    using fgets_shrinks [of n s] by (metis case_prod_conv in_measure linorder_not_less snd_conv)
qed simp

declare fgets_lines.simps [simp del]

subsection \<open>Digits\<close>

lemma char_code_digit_char [clib_simps]: "d < 10 \<Longrightarrow> char_code (digit_char d) = 48 + d"
  by (simp add: char_code_def digit_char_def)

lemma is_digit_digit_char [simp]: "d < 10 \<Longrightarrow> is_digit (digit_char d)"
  by (simp add: is_digit_def clib_simps)

lemma digit_val_digit_char [simp]: "d < 10 \<Longrightarrow> digit_val (digit_char d) = d"
  by (simp add: digit_val_def clib_simps)

lemma is_digit_not_space: "is_digit c \<Longrightarrow> \<not> isspace c"
  by (simp add: is_digit_def isspace_def)

lemma is_digit_not_sign: "is_digit c \<Longrightarrow> c \<noteq> CHR ''-'' \<and> c \<noteq> CHR ''+'' \<and> c \<noteq> CHR ''.'' \<and> c \<noteq> CHR '','' \<and> c \<noteq> CHR ''\"'' \<and> c \<noteq> CHR ''N''"
  by (auto simp: is_digit_def char_code_def)

lemma is_digit_line_char: "is_digit c \<Longrightarrow> line_char c"
  by (simp add: is_digit_def line_char_def)

lemma digit_zero [simp]: "is_digit CHR ''0''" "digit_val CHR ''0'' = 0"
  by (simp_all add: is_digit_def digit_val_def char_code_def)

subsection \<open>Decimal output: shape and length\<close>

lemma show_dec_nonempty [simp]: "show_dec n \<noteq> []"
  by (subst show_dec.simps) simp

lemma show_dec_digits: "list_all is_digit (show_dec n)"
proof (induction n rule: show_dec.induct)
  case (1 n)
  then show ?case by (subst show_dec.simps) simp
qed

lemma length_show_dec: "n < 10 ^ k \<Longrightarrow> 0 < k \<Longrightarrow> length (show_dec n) \<le> k"
proof (induction n arbitrary: k rule: show_dec.induct)
  case (1 n)
  show ?case
  proof (cases "n < 10")
    case True
    with "1.prems" show ?thesis by (subst show_dec.simps) simp
  next
    case False
    have "k \<noteq> 1" using False "1.prems"(1) by auto
    with "1.prems"(2) obtain j where j: "k = Suc j" "0 < j"
      by (cases k) auto
    with "1.prems" have "n div 10 < 10 ^ j"
      by (simp add: less_mult_imp_div_less mult.commute)
    with "1.IH" False j have "length (show_dec (n div 10)) \<le> j" by blast
    with False j show ?thesis by (subst show_dec.simps) simp
  qed
qed

lemma length_show_pad: "n < 10 ^ w \<Longrightarrow> 0 < w \<Longrightarrow> length (show_pad w n) = w"
  using length_show_dec [of n w] by (simp add: show_pad_def Let_def)

lemma show_pad_digits: "list_all is_digit (show_pad w n)"
  using show_dec_digits [of n] by (auto simp: show_pad_def Let_def list_all_iff)

lemma show_pad_nonempty [simp]: "show_pad w n \<noteq> []"
  by (simp add: show_pad_def Let_def)

subsection \<open>Reading back what was written\<close>

lemma scan_digits_append:
  "list_all is_digit ds \<Longrightarrow> scan_digits a (ds @ r) = scan_digits (fst (scan_digits a ds)) r"
  by (induction ds arbitrary: a) simp_all

lemma scan_digits_show_dec: "fst (scan_digits a (show_dec n)) = a * 10 ^ length (show_dec n) + n"
proof (induction n arbitrary: a rule: show_dec.induct)
  case (1 n)
  show ?case
  proof (cases "n < 10")
    case True
    then show ?thesis by (simp add: show_dec.simps [of n])
  next
    case False
    then have eq: "show_dec n = show_dec (n div 10) @ [digit_char (n mod 10)]"
      by (simp add: show_dec.simps [of n])
    have "fst (scan_digits a (show_dec n)) =
        10 * (a * 10 ^ length (show_dec (n div 10)) + n div 10) + n mod 10"
      using "1.IH" [OF False] by (simp add: eq scan_digits_append [OF show_dec_digits])
    then show ?thesis by (simp add: eq algebra_simps)
  qed
qed

lemma scan_digits_zeros: "scan_digits 0 (replicate k CHR ''0'' @ r) = scan_digits 0 r"
  by (induction k) simp_all

lemma scan_digits_stop: "(case r of c # _ \<Rightarrow> \<not> is_digit c | [] \<Rightarrow> True) \<Longrightarrow> scan_digits a r = (a, r)"
  by (cases r) simp_all

lemma scan_show_dec:
  assumes "case r of c # _ \<Rightarrow> \<not> is_digit c | [] \<Rightarrow> True"
  shows "scan_digits 0 (show_dec n @ r) = (n, r)"
  using scan_digits_append [OF show_dec_digits, of 0 n r] scan_digits_show_dec [of 0 n]
    scan_digits_stop [OF assms] by simp

lemma scan_show_pad:
  assumes "case r of c # _ \<Rightarrow> \<not> is_digit c | [] \<Rightarrow> True"
  shows "scan_digits 0 (show_pad w n @ r) = (n, r)"
  using scan_show_dec [OF assms] scan_digits_zeros
  by (simp add: show_pad_def Let_def)

lemma scan_number_digits:
  assumes "ds \<noteq> []" and "list_all is_digit ds" and "scan_digits 0 (ds @ r) = (n, t)"
  shows "scan_number (ds @ r) = Some (False, n, t)"
proof -
  obtain c cs where ds: "ds = c # cs" using assms(1) by (cases ds) auto
  with assms(2) have c: "is_digit c" by simp
  then show ?thesis
    using assms(3) ds by (simp add: scan_number_def is_digit_not_space is_digit_not_sign)
qed

lemma scan_number_show_dec:
  assumes "case r of c # _ \<Rightarrow> \<not> is_digit c | [] \<Rightarrow> True"
  shows "scan_number (show_dec n @ r) = Some (False, n, r)"
  by (rule scan_number_digits) (simp_all add: show_dec_digits scan_show_dec assms)

lemma scan_number_show_pad:
  assumes "case r of c # _ \<Rightarrow> \<not> is_digit c | [] \<Rightarrow> True"
  shows "scan_number (show_pad w n @ r) = Some (False, n, r)"
  by (rule scan_number_digits) (simp_all add: show_pad_digits scan_show_pad assms)

lemma strtol_show_dec:
  assumes "case r of c # _ \<Rightarrow> \<not> is_digit c | [] \<Rightarrow> True" and "n < 2 ^ 63"
  shows "strtol (show_dec n @ r) = (int n, r)"
  using assms by (simp add: strtol_def scan_number_show_dec)

lemma atoll_show_dec:
  assumes "case r of c # _ \<Rightarrow> \<not> is_digit c | [] \<Rightarrow> True" and "n < 2 ^ 63"
  shows "atoll (show_dec n @ r) = int n"
  using assms by (simp add: atoll_def strtol_show_dec)

lemma atoll_show_pad:
  assumes "n < 2 ^ 63"
  shows "atoll (show_pad w n) = int n"
  using assms scan_number_show_pad [of "[]" w n] by (simp add: atoll_def strtol_def)

subsection \<open>Splitting\<close>

lemma split_on_nonempty [simp]: "split_on d s \<noteq> []"
  by (cases s) (auto split: list.splits)

lemma split_on_part: "d \<notin> set p \<Longrightarrow> split_on d (p @ d # s) = p # split_on d s"
  by (induction p) auto

lemma split_on_last: "d \<notin> set p \<Longrightarrow> split_on d p = [p]"
  by (induction p) auto

lemma newline_code [clib_simps]: "char_code (CHR 0x0A) = 10"
  by (simp add: char_code_def)

lemma chomp_line: "list_all line_char l \<Longrightarrow> chomp (l @ [CHR 0x0A]) = l"
  by (simp add: chomp_def list_all_iff takeWhile_append2 line_char_def newline_code)

lemma chomp_id: "list_all line_char l \<Longrightarrow> chomp l = l"
  by (simp add: chomp_def list_all_iff takeWhile_eq_all_conv)

lemma fgets_line:
  "list_all line_char l \<Longrightarrow> Suc (length l) < n \<Longrightarrow> fgets n (l @ CHR 0x0A # r) = (l @ [CHR 0x0A], r)"
proof (induction l arbitrary: n)
  case Nil
  then show ?case by (cases n) (auto simp: char_code_def)
next
  case (Cons c l)
  then show ?case by (cases n) (auto simp: line_char_def)
qed

lemma fgets_lines_line:
  assumes "list_all line_char l" and "Suc (length l) < n"
  shows "fgets_lines n (l @ CHR 0x0A # r) = (l @ [CHR 0x0A]) # fgets_lines n r"
  using assms by (subst fgets_lines.simps) (simp add: fgets_line)

lemma fgets_lines_Nil [simp]: "fgets_lines n [] = []"
  by (subst fgets_lines.simps) simp

subsection \<open>Prefixes and substrings\<close>

lemma is_prefix_iff: "is_prefix p s \<longleftrightarrow> take (length p) s = p"
  by (induction p s rule: is_prefix.induct) auto

lemma strstr_self: "is_prefix p s \<Longrightarrow> strstr s p"
  by (cases s; cases p) simp_all

end
