(* ===== verification/Ring_Queue.thy ===== *)
theory Ring_Queue
  imports C_Prelude
begin

text \<open>
  What the three ring buffers of the program share (the CSV ring, the server's return packet queue and the
  statistics ring): an array of \<open>2^k\<close> slots, a read index \<open>r\<close>, a write index \<open>w\<close> and
  \<open>mask = 2^k - 1\<close>, all \<open>uint32_t\<close>.  \<open>ring_contents\<close> is the abstraction function to lists; the
  lemmas say what one push and one pop do to it.  The locale \<open>bounded_fifo\<close> is the contract of a
  bounded queue that refuses when full; its lemmas (batches, arbitrary sequences of operations) are
  proved once and used by every queue that is shown to meet the contract.
\<close>

definition ring_wf :: "'a list \<Rightarrow> u32 \<Rightarrow> u32 \<Rightarrow> u32 \<Rightarrow> bool" where
  "ring_wf buf r w msk \<longleftrightarrow>
     msk + 1 \<noteq> 0 \<and> (msk + 1) AND msk = 0 \<and> length buf = unat msk + 1 \<and> r \<le> msk \<and> w \<le> msk"

definition ring_count :: "u32 \<Rightarrow> u32 \<Rightarrow> u32 \<Rightarrow> nat" where
  "ring_count r w msk = unat ((w - r) AND msk)"

definition ring_contents :: "'a list \<Rightarrow> u32 \<Rightarrow> u32 \<Rightarrow> u32 \<Rightarrow> 'a list" where
  "ring_contents buf r w msk =
     map (\<lambda>i. buf ! unat ((r + of_nat i) AND msk)) [0..<ring_count r w msk]"

subsection \<open>Index arithmetic\<close>

lemma ring_wf_power:
  assumes "ring_wf buf r w msk"
  obtains k where "k < 32" and "msk = 2 ^ k - 1" and "length buf = 2 ^ k"
    and "unat r < 2 ^ k" and "unat w < 2 ^ k"
proof -
  have "(msk + 1) AND (msk + 1 - 1) = 0" and "msk + 1 \<noteq> 0"
    using assms by (simp_all add: ring_wf_def)
  then obtain k where k: "k < LENGTH(32)" "msk + 1 = 2 ^ k"
    by (rule word_and_pred_power_of_2)
  then have msk: "msk = 2 ^ k - 1" by (metis add_diff_cancel_right')
  with k have "unat msk = 2 ^ k - 1" using unat_mask_of_power [where 'a = 32, of k] by simp
  with assms have "length buf = 2 ^ k" "unat r < 2 ^ k" "unat w < 2 ^ k"
    by (auto simp: ring_wf_def word_le_nat_alt le_less_trans Suc_leI)
  with k msk that show ?thesis by simp
qed

lemma u32_mod_power: "k < 32 \<Longrightarrow> (x mod 4294967296) mod 2 ^ k = x mod (2 ^ k :: nat)"
proof -
  assume "k < 32"
  then have "(2 :: nat) ^ k dvd 2 ^ 32" by (intro le_imp_power_dvd) simp
  then show ?thesis by (simp add: mod_mod_cancel)
qed

lemma unat_ring_index:
  assumes "k < 32"
  shows "unat ((r + of_nat i) AND (2 ^ k - 1) :: u32) = (unat r + i) mod 2 ^ k"
proof -
  have "unat (r + of_nat i :: u32) = (unat r + i) mod 4294967296"
    by (simp add: unat_word_ariths unsigned_of_nat take_bit_eq_mod mod_add_right_eq)
  then show ?thesis using assms by (simp add: unat_and_mask u32_mod_power)
qed

lemma unat_ring_next:
  assumes "k < 32"
  shows "unat ((w + 1) AND (2 ^ k - 1) :: u32) = (unat w + 1) mod 2 ^ k"
  using unat_ring_index [OF assms, of w 1] by simp

lemma unat_ring_diff:
  assumes "k < 32" and "unat r < 2 ^ k"
  shows "unat ((w - r) AND (2 ^ k - 1) :: u32) = (unat w + 2 ^ k - unat r) mod 2 ^ k"
proof -
  let ?d = "unat (w - r)"
  have "w = r + of_nat ?d" by simp
  then have "unat w mod 2 ^ k = (unat r + ?d) mod 2 ^ k"
    using assms(1) unat_ring_index [OF assms(1), of r ?d] by (metis unat_and_mask)
  then have "(unat w + (2 ^ k - unat r)) mod 2 ^ k = (unat r + ?d + (2 ^ k - unat r)) mod 2 ^ k"
    by (metis mod_add_left_eq)
  also have "\<dots> = ?d mod 2 ^ k" using assms(2) by simp
  finally show ?thesis using assms(2) by (simp add: unat_and_mask)
qed

lemmas ring_index_simps [ring_simps] = unat_ring_index unat_ring_next unat_ring_diff


subsection \<open>What one push and one pop do to the contents\<close>

lemma ring_contents_nat:
  assumes "k < 32" and "unat r < 2 ^ k"
  shows "ring_contents buf r w (2 ^ k - 1) =
    map (\<lambda>i. buf ! ((unat r + i) mod 2 ^ k)) [0..<(unat w + 2 ^ k - unat r) mod 2 ^ k]"
  using assms by (simp add: ring_contents_def ring_count_def ring_index_simps)

lemma length_ring_contents: "length (ring_contents buf r w msk) = ring_count r w msk"
  by (simp add: ring_contents_def)

lemma ring_count_bound: "ring_count r w msk \<le> unat msk"
  using word_and_le1 [of "w - r" msk]
  by (simp add: ring_count_def word_le_nat_alt and.commute)

lemma ring_count_nat_cases:
  fixes R W N :: nat
  assumes "R < N" and "W < N"
  shows "(W + N - R) mod N = (if R \<le> W then W - R else W + N - R)"
proof (cases "R \<le> W")
  case True
  then have eq: "W + N - R = (W - R) + N" by simp
  have "(W + N - R) mod N = (W - R) mod N" by (simp only: eq mod_add_self2)
  with True assms show ?thesis by simp
next
  case False
  with assms show ?thesis by simp
qed

lemma ring_full_iff:
  assumes "ring_wf buf r w msk"
  shows "(w + 1) AND msk = r \<longleftrightarrow> ring_count r w msk = unat msk"
proof -
  from assms obtain k where k: "k < 32" "msk = 2 ^ k - 1" "unat r < 2 ^ k" "unat w < 2 ^ k"
    by (rule ring_wf_power)
  have "(w + 1) AND msk = r \<longleftrightarrow> (unat w + 1) mod 2 ^ k = unat r"
    using k by (metis unat_ring_next word_unat_eq_iff)
  moreover have "ring_count r w msk = (unat w + 2 ^ k - unat r) mod 2 ^ k"
    using k by (simp add: ring_count_def ring_index_simps)
  moreover have "unat msk = 2 ^ k - 1" using k by (simp add: unat_mask_of_power)
  ultimately show ?thesis
    using k by (cases "unat w + 1 = 2 ^ k") (auto simp: ring_count_nat_cases)
qed

lemma ring_push_contents:
  assumes wf: "ring_wf buf r w msk" and room: "(w + 1) AND msk \<noteq> r"
  shows "ring_contents (buf[unat w := x]) r ((w + 1) AND msk) msk = ring_contents buf r w msk @ [x]"
    and "ring_wf (buf[unat w := x]) r ((w + 1) AND msk) msk"
proof -
  from wf obtain k where k: "k < 32" "msk = 2 ^ k - 1" "length buf = 2 ^ k" "unat r < 2 ^ k" "unat w < 2 ^ k"
    by (rule ring_wf_power)
  let ?N = "2 ^ k :: nat" and ?c = "(unat w + 2 ^ k - unat r) mod 2 ^ k"
  have "(unat w + 1) mod ?N \<noteq> unat r"
    using room k by (metis unat_ring_next word_unat_eq_iff)
  moreover have "(unat w + 1) mod ?N = (if unat w + 1 = ?N then 0 else unat w + 1)"
    using k by simp
  ultimately have c': "((unat w + 1) mod ?N + ?N - unat r) mod ?N = Suc ?c"
    using k ring_count_nat_cases [of "unat r" ?N "unat w"]
      ring_count_nat_cases [of "unat r" ?N "(unat w + 1) mod ?N"]
    by (auto split: if_splits)
  have cN: "Suc ?c \<le> ?N"
    using k by (simp add: Suc_leI)
  have at: "(unat r + ?c) mod ?N = unat w"
    using k by (auto simp: ring_count_nat_cases)
  have other: "unat w \<noteq> (unat r + i) mod ?N" if "i < ?c" for i
    using that k at cN
    by (cases "unat r + i < ?N") (auto simp: ring_count_nat_cases mod_if split: if_splits)
  have "map (\<lambda>i. buf[unat w := x] ! ((unat r + i) mod ?N)) [0..<?c] =
      map (\<lambda>i. buf ! ((unat r + i) mod ?N)) [0..<?c]"
    by (intro map_cong) (auto simp: nth_list_update_neq [OF other])
  then show "ring_contents (buf[unat w := x]) r ((w + 1) AND msk) msk = ring_contents buf r w msk @ [x]"
    using k c' at by (simp add: ring_contents_nat ring_index_simps)
  show "ring_wf (buf[unat w := x]) r ((w + 1) AND msk) msk"
    using wf word_and_le1 [of "w + 1" msk] by (simp add: ring_wf_def and.commute)
qed

lemma ring_pop_contents:
  assumes wf: "ring_wf buf r w msk" and ne: "r \<noteq> w"
  shows "ring_contents buf r w msk = buf ! unat r # ring_contents buf ((r + 1) AND msk) w msk"
    and "ring_wf buf ((r + 1) AND msk) w msk"
proof -
  from wf obtain k where k: "k < 32" "msk = 2 ^ k - 1" "length buf = 2 ^ k" "unat r < 2 ^ k" "unat w < 2 ^ k"
    by (rule ring_wf_power)
  let ?N = "2 ^ k :: nat"
  let ?R' = "(unat r + 1) mod ?N"
  let ?c = "(unat w + ?N - unat r) mod ?N" and ?c' = "(unat w + ?N - ?R') mod ?N"
  have "unat r \<noteq> unat w" using ne by (simp add: word_unat_eq_iff)
  then have c: "?c = Suc ?c'"
    using k by (cases "unat r + 1 = ?N") (auto simp: ring_count_nat_cases)
  have shift: "(unat r + Suc i) mod ?N = (?R' + i) mod ?N" for i
    by (simp add: mod_add_left_eq)
  have "ring_contents buf r w msk =
      buf ! ((unat r + 0) mod ?N) # map (\<lambda>i. buf ! ((unat r + Suc i) mod ?N)) [0..<?c']"
    using k c by (simp only: ring_contents_nat map_upt_Suc)
  also have "\<dots> = buf ! unat r # ring_contents buf ((r + 1) AND msk) w msk"
    using k ring_contents_nat [of k "(r + 1) AND msk" buf w]
    by (simp only: shift unat_ring_next) (simp add: unat_ring_next)
  finally show "ring_contents buf r w msk = buf ! unat r # ring_contents buf ((r + 1) AND msk) w msk" .
  show "ring_wf buf ((r + 1) AND msk) w msk"
    using wf word_and_le1 [of "r + 1" msk] by (simp add: ring_wf_def and.commute)
qed

lemma ring_empty_iff:
  assumes "ring_wf buf r w msk"
  shows "ring_contents buf r w msk = [] \<longleftrightarrow> r = w"
proof
  assume "r = w"
  then show "ring_contents buf r w msk = []"
    by (simp add: ring_contents_def ring_count_def)
next
  assume "ring_contents buf r w msk = []"
  then show "r = w" using ring_pop_contents(1) [OF assms] by fastforce
qed


subsection \<open>The contract of a bounded queue\<close>

datatype 'a qop = Enq 'a | Deq

text \<open>
  A sequence of queue operations: the final queue, the elements that were accepted and the elements
  that were delivered, each in order.
\<close>

fun run_ops :: "('q \<Rightarrow> 'a \<Rightarrow> 'q \<times> bool) \<Rightarrow> ('q \<Rightarrow> ('a \<times> 'q) option) \<Rightarrow> 'q \<Rightarrow> 'a qop list \<Rightarrow> 'q \<times> 'a list \<times> 'a list" where
  "run_ops enq deq q [] = (q, [], [])"
| "run_ops enq deq q (Enq x # ops) =
     (let (q1, ok) = enq q x; (q2, acc, del) = run_ops enq deq q1 ops
      in (q2, (if ok then x # acc else acc), del))"
| "run_ops enq deq q (Deq # ops) =
     (case deq q of
        None \<Rightarrow> run_ops enq deq q ops
      | Some (x, q1) \<Rightarrow> (let (q2, acc, del) = run_ops enq deq q1 ops in (q2, acc, x # del)))"

text \<open>At most \<open>n\<close> dequeues, stopping at the first that finds the queue empty.\<close>

fun deq_upto :: "('q \<Rightarrow> ('a \<times> 'q) option) \<Rightarrow> nat \<Rightarrow> 'q \<Rightarrow> 'a list \<times> 'q" where
  "deq_upto deq 0 q = ([], q)"
| "deq_upto deq (Suc n) q =
     (case deq q of None \<Rightarrow> ([], q) | Some (x, q1) \<Rightarrow> (let (xs, q2) = deq_upto deq n q1 in (x # xs, q2)))"

lemma deq_upto_frame:
  assumes "\<And>q x q'. deq q = Some (x, q') \<Longrightarrow> f q' = f q"
  shows "deq_upto deq n q = (xs, q') \<Longrightarrow> f q' = f q"
proof (induction n arbitrary: q xs)
  case (Suc n)
  then show ?case by (auto split: option.splits prod.splits dest: assms)
qed simp

locale bounded_fifo =
  fixes invar :: "'q \<Rightarrow> bool"
    and contents :: "'q \<Rightarrow> 'a list"
    and room :: "'q \<Rightarrow> nat"
    and enq :: "'q \<Rightarrow> 'a \<Rightarrow> 'q \<times> bool"
    and deq :: "'q \<Rightarrow> ('a \<times> 'q) option"
  assumes enq_room: "invar q \<Longrightarrow> length (contents q) < room q \<Longrightarrow>
      \<exists>q'. enq q x = (q', True) \<and> invar q' \<and> contents q' = contents q @ [x] \<and> room q' = room q"
    and enq_full: "invar q \<Longrightarrow> room q \<le> length (contents q) \<Longrightarrow> enq q x = (q, False)"
    and deq_empty: "invar q \<Longrightarrow> contents q = [] \<Longrightarrow> deq q = None"
    and deq_cons: "invar q \<Longrightarrow> contents q = x # xs \<Longrightarrow>
      \<exists>q'. deq q = Some (x, q') \<and> invar q' \<and> contents q' = xs \<and> room q' = room q"
begin

lemma enq_cases:
  assumes "invar q" and "enq q x = (q', ok)"
  shows "invar q' \<and> room q' = room q \<and> contents q' = contents q @ (if ok then [x] else []) \<and>
    (ok \<longleftrightarrow> length (contents q) < room q)"
  using assms enq_room [of q x] enq_full [of q x] by (cases "length (contents q) < room q") auto

lemma deq_cases:
  assumes "invar q"
  obtains "contents q = []" "deq q = None"
  | x q' where "deq q = Some (x, q')" "invar q'" "contents q = x # contents q'" "room q' = room q"
  using assms deq_empty [of q] deq_cons [of q] by (cases "contents q") auto

lemma run_ops_fifo:
  "invar q \<Longrightarrow> run_ops enq deq q ops = (q', acc, del) \<Longrightarrow>
     invar q' \<and> room q' = room q \<and> contents q @ acc = del @ contents q'"
proof (induction ops arbitrary: q q' acc del)
  case Nil
  then show ?case by simp
next
  case (Cons op ops)
  show ?case
  proof (cases op)
    case (Enq x)
    obtain q1 ok where e: "enq q x = (q1, ok)" by fastforce
    obtain q2 a d where r: "run_ops enq deq q1 ops = (q2, a, d)" by (metis prod_cases3)
    from enq_cases [OF Cons.prems(1) e] Cons.IH [OF _ r] Cons.prems(2) Enq e r show ?thesis
      by (auto split: if_splits)
  next
    case Deq
    from Cons.prems(1) show ?thesis
    proof (cases rule: deq_cases)
      case 1
      with Cons.IH [OF Cons.prems(1)] Cons.prems(2) Deq show ?thesis by simp
    next
      case (2 x q1)
      obtain q2 a d where r: "run_ops enq deq q1 ops = (q2, a, d)" by (metis prod_cases3)
      from Cons.IH [OF _ r] Cons.prems(2) Deq 2 r show ?thesis by auto
    qed
  qed
qed

lemma deq_upto_take:
  "invar q \<Longrightarrow> deq_upto deq n q = (xs, q') \<Longrightarrow>
     xs = take n (contents q) \<and> invar q' \<and> contents q' = drop n (contents q) \<and> room q' = room q"
proof (induction n arbitrary: q q' xs)
  case 0
  then show ?case by simp
next
  case (Suc n)
  from Suc.prems(1) show ?case
  proof (cases rule: deq_cases)
    case 1
    with Suc.prems show ?thesis by simp
  next
    case (2 x q1)
    obtain ys q2 where r: "deq_upto deq n q1 = (ys, q2)" by fastforce
    from Suc.IH [OF _ r] Suc.prems(2) 2 r show ?thesis by auto
  qed
qed

end

end
