(* ===== verification/Spsc_Protocol.thy ===== *)
theory Spsc_Protocol
  imports Ring_Queue
begin

text \<open>
  The concurrent protocol of the two lock-free rings (\<open>csv_enqueue_fast\<close> against
  \<open>csv_dequeue_batch\<close>, and \<open>enqueue_return_packet_request\<close> against \<open>dequeue_return_packet_request\<close>): one producer and one consumer
  thread, every access to shared memory a step of its own, all interleavings, sequentially consistent.
  The producer loads its own index, loads the consumer's index and compares, writes the slot and
  publishes the new index; the consumer does the same with its own.  Ghost lists record
  what was published and what was delivered.
\<close>

datatype 'a producer_pc =
    P_idle
  | P_loaded 'a u32
  | P_room 'a u32 u32
  | P_written 'a u32 u32

datatype 'a consumer_pc =
    C_idle
  | C_loaded u32
  | C_ready u32
  | C_read u32 'a

record 'a spsc =
  sp_buf :: "'a list"
  sp_write :: u32
  sp_read :: u32
  sp_mask :: u32
  sp_producer :: "'a producer_pc"
  sp_consumer :: "'a consumer_pc"
  sp_published :: "'a list"
  sp_delivered :: "'a list"

inductive producer_step :: "'a spsc \<Rightarrow> 'a spsc \<Rightarrow> bool" where
  load_own: "sp_producer s = P_idle \<Longrightarrow>
    producer_step s (s\<lparr>sp_producer := P_loaded x (sp_write s)\<rparr>)"
| refuse: "sp_producer s = P_loaded x cur \<Longrightarrow> (cur + 1) AND sp_mask s = sp_read s \<Longrightarrow>
    producer_step s (s\<lparr>sp_producer := P_idle\<rparr>)"
| admit: "sp_producer s = P_loaded x cur \<Longrightarrow> (cur + 1) AND sp_mask s \<noteq> sp_read s \<Longrightarrow>
    producer_step s (s\<lparr>sp_producer := P_room x cur ((cur + 1) AND sp_mask s)\<rparr>)"
| write_slot: "sp_producer s = P_room x cur nxt \<Longrightarrow>
    producer_step s (s\<lparr>sp_buf := (sp_buf s)[unat cur := x], sp_producer := P_written x cur nxt\<rparr>)"
| publish: "sp_producer s = P_written x cur nxt \<Longrightarrow>
    producer_step s (s\<lparr>sp_write := nxt, sp_producer := P_idle, sp_published := sp_published s @ [x]\<rparr>)"

inductive consumer_step :: "'a spsc \<Rightarrow> 'a spsc \<Rightarrow> bool" where
  load_own_c: "sp_consumer s = C_idle \<Longrightarrow>
    consumer_step s (s\<lparr>sp_consumer := C_loaded (sp_read s)\<rparr>)"
| empty: "sp_consumer s = C_loaded cur \<Longrightarrow> cur = sp_write s \<Longrightarrow>
    consumer_step s (s\<lparr>sp_consumer := C_idle\<rparr>)"
| nonempty: "sp_consumer s = C_loaded cur \<Longrightarrow> cur \<noteq> sp_write s \<Longrightarrow>
    consumer_step s (s\<lparr>sp_consumer := C_ready cur\<rparr>)"
| read_slot: "sp_consumer s = C_ready cur \<Longrightarrow>
    consumer_step s (s\<lparr>sp_consumer := C_read cur (sp_buf s ! unat cur)\<rparr>)"
| release: "sp_consumer s = C_read cur x \<Longrightarrow>
    consumer_step s (s\<lparr>sp_read := (cur + 1) AND sp_mask s, sp_consumer := C_idle,
                      sp_delivered := sp_delivered s @ [x]\<rparr>)"

inductive spsc_reach :: "'a spsc \<Rightarrow> 'a spsc \<Rightarrow> bool" where
  start: "spsc_reach s s"
| produce: "spsc_reach s t \<Longrightarrow> producer_step t u \<Longrightarrow> spsc_reach s u"
| consume: "spsc_reach s t \<Longrightarrow> consumer_step t u \<Longrightarrow> spsc_reach s u"

inductive_cases producer_stepE: "producer_step s t"
inductive_cases consumer_stepE: "consumer_step s t"

definition sp_contents :: "'a spsc \<Rightarrow> 'a list" where
  "sp_contents s = ring_contents (sp_buf s) (sp_read s) (sp_write s) (sp_mask s)"

section \<open>The invariant\<close>

definition producer_ok :: "'a spsc \<Rightarrow> bool" where
  "producer_ok s = (case sp_producer s of
     P_idle \<Rightarrow> True
   | P_loaded x cur \<Rightarrow> cur = sp_write s
   | P_room x cur nxt \<Rightarrow> cur = sp_write s \<and> nxt = (cur + 1) AND sp_mask s \<and> nxt \<noteq> sp_read s
   | P_written x cur nxt \<Rightarrow> cur = sp_write s \<and> nxt = (cur + 1) AND sp_mask s \<and> nxt \<noteq> sp_read s \<and>
       sp_buf s ! unat cur = x)"

definition consumer_ok :: "'a spsc \<Rightarrow> bool" where
  "consumer_ok s = (case sp_consumer s of
     C_idle \<Rightarrow> True
   | C_loaded cur \<Rightarrow> cur = sp_read s
   | C_ready cur \<Rightarrow> cur = sp_read s \<and> cur \<noteq> sp_write s
   | C_read cur x \<Rightarrow> cur = sp_read s \<and> cur \<noteq> sp_write s \<and> x = sp_buf s ! unat cur)"

definition spsc_inv :: "'a spsc \<Rightarrow> bool" where
  "spsc_inv s \<longleftrightarrow> ring_wf (sp_buf s) (sp_read s) (sp_write s) (sp_mask s) \<and> producer_ok s \<and> consumer_ok s \<and>
     sp_published s = sp_delivered s @ sp_contents s"

lemmas spsc_ok_defs = producer_ok_def consumer_ok_def

text \<open>Writing the free slot changes nothing the consumer can see.\<close>

lemma ring_contents_free_slot:
  assumes "ring_wf buf r w msk" and "(w + 1) AND msk \<noteq> r"
  shows "ring_contents (buf[unat w := x]) r w msk = ring_contents buf r w msk"
    and "ring_wf (buf[unat w := x]) r w msk"
proof -
  from assms(1) show wf: "ring_wf (buf[unat w := x]) r w msk" by (simp add: ring_wf_def)
  let ?y = "buf ! unat w"
  have "ring_contents buf r w msk @ [x] = ring_contents (buf[unat w := x]) r w msk @ [x]"
    using ring_push_contents(1) [OF assms, of x] ring_push_contents(1) [OF wf assms(2), of x] by simp
  then show "ring_contents (buf[unat w := x]) r w msk = ring_contents buf r w msk" by simp
qed

lemma ring_index_distinct:
  assumes "ring_wf buf r w msk" and "r \<noteq> w"
  shows "unat r \<noteq> unat w" and "unat w < length buf"
  using assms by (auto simp: ring_wf_def word_le_nat_alt word_unat_eq_iff)

lemma producer_step_inv:
  assumes "spsc_inv s" and "producer_step s t"
  shows "spsc_inv t"
  using assms(2)
proof (cases rule: producer_step.cases)
  case (write_slot x cur nxt)
  have wf: "ring_wf (sp_buf s) (sp_read s) (sp_write s) (sp_mask s)" and p: "cur = sp_write s"
    "nxt = (sp_write s + 1) AND sp_mask s" "nxt \<noteq> sp_read s" and c: "consumer_ok s"
    using assms(1) write_slot by (auto simp: spsc_inv_def producer_ok_def)
  have "unat (sp_write s) < length (sp_buf s)" using wf by (auto simp: ring_wf_def word_le_nat_alt)
  moreover have "consumer_ok t"
    using c write_slot(1) p(1) ring_index_distinct(1) [OF wf]
    by (auto simp: consumer_ok_def split: consumer_pc.splits)
  ultimately show ?thesis
    using assms(1) write_slot p ring_contents_free_slot [OF wf, of x]
    by (auto simp: spsc_inv_def producer_ok_def sp_contents_def)
next
  case (publish x cur nxt)
  have wf: "ring_wf (sp_buf s) (sp_read s) (sp_write s) (sp_mask s)" and p: "cur = sp_write s"
    "nxt = (sp_write s + 1) AND sp_mask s" "nxt \<noteq> sp_read s" "sp_buf s ! unat (sp_write s) = x"
    using assms(1) publish by (auto simp: spsc_inv_def producer_ok_def)
  have same: "(sp_buf s)[unat (sp_write s) := x] = sp_buf s" using p(4) by auto
  have push: "ring_contents (sp_buf s) (sp_read s) nxt (sp_mask s) =
      ring_contents (sp_buf s) (sp_read s) (sp_write s) (sp_mask s) @ [x]"
    "ring_wf (sp_buf s) (sp_read s) nxt (sp_mask s)"
    using ring_push_contents [OF wf, of x] p(2,3) same by auto
  have "consumer_ok t"
    using assms(1) publish(1) p(3) by (auto simp: spsc_inv_def consumer_ok_def split: consumer_pc.splits)
  with assms(1) publish push show ?thesis
    by (auto simp: spsc_inv_def producer_ok_def sp_contents_def)
qed (use assms(1) in \<open>auto simp: spsc_inv_def spsc_ok_defs sp_contents_def split: consumer_pc.splits\<close>)

lemma consumer_step_inv:
  assumes "spsc_inv s" and "consumer_step s t"
  shows "spsc_inv t"
  using assms(2)
proof (cases rule: consumer_step.cases)
  case (release cur x)
  have wf: "ring_wf (sp_buf s) (sp_read s) (sp_write s) (sp_mask s)" and c: "cur = sp_read s"
    "sp_read s \<noteq> sp_write s" "x = sp_buf s ! unat (sp_read s)" and p: "producer_ok s"
    using assms(1) release by (auto simp: spsc_inv_def consumer_ok_def)
  note pop = ring_pop_contents [OF wf c(2)]
  have "(sp_write s + 1) AND sp_mask s \<noteq> (sp_read s + 1) AND sp_mask s"
  proof -
    have "Suc (ring_count ((sp_read s + 1) AND sp_mask s) (sp_write s) (sp_mask s)) \<le> unat (sp_mask s)"
      using arg_cong [OF pop(1), of length] ring_count_bound [of "sp_read s" "sp_write s" "sp_mask s"]
      by (simp only: length_ring_contents list.size)
    then show ?thesis using ring_full_iff [OF pop(2)] by simp
  qed
  then have "producer_ok t"
    using p release(1) c by (auto simp: producer_ok_def split: producer_pc.splits)
  with assms(1) release c pop show ?thesis
    by (auto simp: spsc_inv_def consumer_ok_def sp_contents_def)
qed (use assms(1) in \<open>auto simp: spsc_inv_def spsc_ok_defs sp_contents_def split: producer_pc.splits\<close>)

lemma spsc_reach_inv: "spsc_reach s t \<Longrightarrow> spsc_inv s \<Longrightarrow> spsc_inv t"
  by (induction rule: spsc_reach.induct) (auto intro: producer_step_inv consumer_step_inv)

text \<open>
  A race: the producer is about to write a slot the consumer is about to read, or has read but not
  yet released.
\<close>

definition spsc_race :: "'a spsc \<Rightarrow> bool" where
  "spsc_race s \<longleftrightarrow>
     (case (sp_producer s, sp_consumer s) of
        (P_room x cur nxt, C_ready c) \<Rightarrow> cur = c
      | (P_room x cur nxt, C_read c y) \<Rightarrow> cur = c
      | _ \<Rightarrow> False)"

lemma spsc_inv_no_race: "spsc_inv s \<Longrightarrow> \<not> spsc_race s"
  by (auto simp: spsc_inv_def spsc_race_def spsc_ok_defs split: producer_pc.splits consumer_pc.splits)

lemma spsc_inv_bound: "spsc_inv s \<Longrightarrow> length (sp_contents s) \<le> unat (sp_mask s)"
  using ring_count_bound by (simp add: sp_contents_def length_ring_contents)

lemma spsc_reach_safe:
  assumes "spsc_reach s t" and "spsc_inv s"
  shows "sp_published t = sp_delivered t @ sp_contents t \<and> length (sp_contents t) \<le> unat (sp_mask t) \<and> \<not> spsc_race t"
proof -
  have "spsc_inv t" by (rule spsc_reach_inv [OF assms])
  with spsc_inv_no_race [OF this] spsc_inv_bound [OF this] show ?thesis by (simp add: spsc_inv_def)
qed

section \<open>Uninterrupted runs\<close>

text \<open>
  A quiescent state and the effect of a producer (consumer) that runs through without interruption:
  the operation of the sequential model.
\<close>

definition spsc_view :: "'a list \<Rightarrow> u32 \<Rightarrow> u32 \<Rightarrow> u32 \<Rightarrow> 'a list \<Rightarrow> 'a list \<Rightarrow> 'a spsc" where
  "spsc_view buf r w msk published delivered =
     \<lparr>sp_buf = buf, sp_write = w, sp_read = r, sp_mask = msk, sp_producer = P_idle, sp_consumer = C_idle,
      sp_published = published, sp_delivered = delivered\<rparr>"

lemma spsc_view_inv:
  "ring_wf buf r w msk \<Longrightarrow> published = delivered @ ring_contents buf r w msk \<Longrightarrow>
     spsc_inv (spsc_view buf r w msk published delivered)"
  by (simp add: spsc_inv_def spsc_view_def spsc_ok_defs sp_contents_def)

lemma producer_run_refuse:
  assumes "(w + 1) AND msk = r"
  shows "\<exists>t. producer_step (spsc_view buf r w msk pub del) t \<and> sp_producer t = P_loaded x w \<and>
    producer_step t (spsc_view buf r w msk pub del)"
proof -
  let ?s = "spsc_view buf r w msk pub del"
  let ?t = "?s\<lparr>sp_producer := P_loaded x w\<rparr>"
  have "producer_step ?s ?t" using load_own [of ?s x] by (simp add: spsc_view_def)
  moreover have "producer_step ?t ?s" using refuse [of ?t x w] assms by (simp add: spsc_view_def)
  ultimately show ?thesis by (intro exI [of _ ?t]) simp
qed

lemma producer_run_accept:
  assumes "(w + 1) AND msk \<noteq> r"
  shows "producer_step\<^sup>*\<^sup>* (spsc_view buf r w msk pub del)
    (spsc_view (buf[unat w := x]) r ((w + 1) AND msk) msk (pub @ [x]) del)"
proof -
  let ?n = "(w + 1) AND msk" and ?s = "spsc_view buf r w msk pub del"
  let ?s1 = "?s\<lparr>sp_producer := P_loaded x w\<rparr>" and ?s2 = "?s\<lparr>sp_producer := P_room x w ?n\<rparr>"
  let ?s3 = "?s\<lparr>sp_buf := buf[unat w := x], sp_producer := P_written x w ?n\<rparr>"
  have "producer_step ?s ?s1" using load_own [of ?s x] by (simp add: spsc_view_def)
  moreover have "producer_step ?s1 ?s2" using admit [of ?s1 x w] assms by (simp add: spsc_view_def)
  moreover have "producer_step ?s2 ?s3" using write_slot [of ?s2 x w ?n] by (simp add: spsc_view_def)
  moreover have "producer_step ?s3 (spsc_view (buf[unat w := x]) r ?n msk (pub @ [x]) del)"
    using publish [of ?s3 x w ?n] by (simp add: spsc_view_def)
  ultimately show ?thesis by (meson converse_rtranclp_into_rtranclp rtranclp.rtrancl_refl)
qed

lemma consumer_run_take:
  assumes "r \<noteq> w"
  shows "consumer_step\<^sup>*\<^sup>* (spsc_view buf r w msk pub del)
    (spsc_view buf ((r + 1) AND msk) w msk pub (del @ [buf ! unat r]))"
proof -
  let ?s = "spsc_view buf r w msk pub del"
  let ?s1 = "?s\<lparr>sp_consumer := C_loaded r\<rparr>" and ?s2 = "?s\<lparr>sp_consumer := C_ready r\<rparr>"
  let ?s3 = "?s\<lparr>sp_consumer := C_read r (buf ! unat r)\<rparr>"
  have "consumer_step ?s ?s1" using load_own_c [of ?s] by (simp add: spsc_view_def)
  moreover have "consumer_step ?s1 ?s2" using nonempty [of ?s1 r] assms by (simp add: spsc_view_def)
  moreover have "consumer_step ?s2 ?s3" using read_slot [of ?s2 r] by (simp add: spsc_view_def)
  moreover have "consumer_step ?s3 (spsc_view buf ((r + 1) AND msk) w msk pub (del @ [buf ! unat r]))"
    using release [of ?s3 r "buf ! unat r"] by (simp add: spsc_view_def)
  ultimately show ?thesis by (meson converse_rtranclp_into_rtranclp rtranclp.rtrancl_refl)
qed

lemma producer_run_reach: "producer_step\<^sup>*\<^sup>* s t \<Longrightarrow> spsc_reach s t"
  by (induction rule: rtranclp_induct) (auto intro: spsc_reach.intros)

lemma consumer_run_reach: "consumer_step\<^sup>*\<^sup>* s t \<Longrightarrow> spsc_reach s t"
  by (induction rule: rtranclp_induct) (auto intro: spsc_reach.intros)

end
