(* ===== verification/Csv_Buffer.thy ===== *)
theory Csv_Buffer
  imports C_Lib Spsc_Protocol
begin

text \<open>
  The CSV logging path of \<open>timestamp_common.h\<close> and \<open>timestamp_common.c\<close>: log entries and their
  constructors, the lock-free ring between the packet threads and the writer thread, the text format, the
  writer thread, creation and destruction.  The sections after the definitions show that the ring is
  a bounded queue (an instance of \<open>bounded_fifo\<close>), that a batch is formatted completely and within the write buffer, and what the
  writer thread puts into the file.
\<close>

section \<open>Entries\<close>

text \<open>\<open>CSV_TYPE_OTHER\<close> stands for every value outside the enumerators (the \<open>default:\<close> branches).\<close>

datatype csv_type_t =
    CSV_CLIENT_MAIN_ONEWAY | CSV_CLIENT_MAIN_ROUNDTRIP | CSV_CLIENT_TX
  | CSV_SERVER_MAIN_ONEWAY | CSV_SERVER_MAIN_ROUNDTRIP | CSV_SERVER_TX | CSV_TYPE_OTHER

record csv_entry_t =
  ce_seq_num :: u32
  ce_timestamp_ns :: "u64 list"
  ce_src_ip :: string
  ce_src_port :: u16
  ce_csv_type :: csv_type_t

definition create_csv_entry :: "csv_type_t \<Rightarrow> u32 \<Rightarrow> string \<Rightarrow> u16 \<Rightarrow> u64 list \<Rightarrow> csv_entry_t" where
  "create_csv_entry ty seq ip port ts =
     \<lparr>ce_seq_num = seq, ce_timestamp_ns = ts, ce_src_ip = bounded_copy 16 ip,
      ce_src_port = port, ce_csv_type = ty\<rparr>"

definition zero_timestamps :: "u64 list" where
  "zero_timestamps = replicate 12 0"

definition create_csv_client_oneway_tx :: "u32 \<Rightarrow> string \<Rightarrow> u16 \<Rightarrow> u64 \<Rightarrow> csv_entry_t" where
  "create_csv_client_oneway_tx seq ip port kernel_tx =
     create_csv_entry CSV_CLIENT_TX seq ip port (zero_timestamps[2 := kernel_tx])"

definition create_csv_client_oneway_main :: "u32 \<Rightarrow> string \<Rightarrow> u16 \<Rightarrow> u64 \<Rightarrow> csv_entry_t" where
  "create_csv_client_oneway_main seq ip port app_tx =
     create_csv_entry CSV_CLIENT_MAIN_ONEWAY seq ip port (zero_timestamps[1 := app_tx])"

definition create_csv_client_roundtrip_rx ::
  "u32 \<Rightarrow> string \<Rightarrow> u16 \<Rightarrow> u64 \<Rightarrow> u64 \<Rightarrow> u64 \<Rightarrow> u64 \<Rightarrow> u64 \<Rightarrow> u64 \<Rightarrow> csv_entry_t" where
  "create_csv_client_roundtrip_rx seq ip port tx_tsc app_tx hw_rx ker_rx rx_tsc app_rx =
     create_csv_entry CSV_CLIENT_MAIN_ROUNDTRIP seq ip port
       (zero_timestamps[0 := tx_tsc, 1 := app_tx, 3 := hw_rx, 4 := ker_rx, 5 := rx_tsc, 6 := app_rx])"

definition create_csv_server_oneway_main ::
  "u32 \<Rightarrow> string \<Rightarrow> u16 \<Rightarrow> u64 \<Rightarrow> u64 \<Rightarrow> u64 \<Rightarrow> csv_entry_t" where
  "create_csv_server_oneway_main seq ip port hw_rx ker_rx app_rx =
     create_csv_entry CSV_SERVER_MAIN_ONEWAY seq ip port
       (zero_timestamps[7 := hw_rx, 8 := ker_rx, 9 := app_rx])"

definition create_csv_server_roundtrip_main ::
  "u32 \<Rightarrow> string \<Rightarrow> u16 \<Rightarrow> u64 \<Rightarrow> u64 \<Rightarrow> u64 \<Rightarrow> u64 \<Rightarrow> csv_entry_t" where
  "create_csv_server_roundtrip_main seq ip port hw_rx ker_rx app_rx app_tx =
     create_csv_entry CSV_SERVER_MAIN_ROUNDTRIP seq ip port
       (zero_timestamps[7 := hw_rx, 8 := ker_rx, 9 := app_rx, 10 := app_tx])"

definition create_csv_server_tx :: "u32 \<Rightarrow> string \<Rightarrow> u16 \<Rightarrow> u64 \<Rightarrow> csv_entry_t" where
  "create_csv_server_tx seq ip port ker_tx =
     create_csv_entry CSV_SERVER_TX seq ip port (zero_timestamps[11 := ker_tx])"

definition csv_entry_wf :: "csv_entry_t \<Rightarrow> bool" where
  "csv_entry_wf e \<longleftrightarrow> length (ce_timestamp_ns e) = 12 \<and> length (ce_src_ip e) \<le> 15"

section \<open>The ring\<close>

record csv_ring_buffer_t =
  cb_entries :: "csv_entry_t list"
  cb_head :: u32
  cb_tail :: u32
  cb_size_mask :: u32
  cb_batch_size :: u32
  cb_fd :: int
  cb_running :: bool
  cb_write_buffer_size :: u64
  cb_csv_type :: csv_type_t
  cb_log_cpu :: int

text \<open>The \<open>int\<close> result 0 or -1 is the boolean "accepted".\<close>

definition csv_enqueue_fast :: "csv_ring_buffer_t \<Rightarrow> csv_entry_t \<Rightarrow> csv_ring_buffer_t \<times> bool" where
  "csv_enqueue_fast b e =
     (let current_head = cb_head b;
          next_head = (current_head + 1) AND cb_size_mask b
      in if next_head = cb_tail b then (b, False)
         else (b\<lparr>cb_entries := (cb_entries b)[unat current_head := e], cb_head := next_head\<rparr>, True))"

text \<open>One turn of the loop of \<open>csv_dequeue_batch\<close>; \<open>None\<close> is the \<open>break\<close> on an empty ring.\<close>

definition csv_dequeue_one :: "csv_ring_buffer_t \<Rightarrow> (csv_entry_t \<times> csv_ring_buffer_t) option" where
  "csv_dequeue_one b =
     (let current_tail = cb_tail b
      in if current_tail = cb_head b then None
         else Some (cb_entries b ! unat current_tail,
                    b\<lparr>cb_tail := (current_tail + 1) AND cb_size_mask b\<rparr>))"

definition csv_dequeue_batch :: "csv_ring_buffer_t \<Rightarrow> int \<Rightarrow> csv_entry_t list \<times> csv_ring_buffer_t" where
  "csv_dequeue_batch b max_entries = deq_upto csv_dequeue_one (nat max_entries) b"

definition csv_ring_wf :: "csv_ring_buffer_t \<Rightarrow> bool" where
  "csv_ring_wf b \<longleftrightarrow> ring_wf (cb_entries b) (cb_tail b) (cb_head b) (cb_size_mask b)"

definition csv_contents :: "csv_ring_buffer_t \<Rightarrow> csv_entry_t list" where
  "csv_contents b = ring_contents (cb_entries b) (cb_tail b) (cb_head b) (cb_size_mask b)"

definition csv_room :: "csv_ring_buffer_t \<Rightarrow> nat" where
  "csv_room b = unat (cb_size_mask b)"

section \<open>Text format\<close>

definition get_csv_header :: "csv_type_t \<Rightarrow> string" where
  "get_csv_header ty = (case ty of
     CSV_CLIENT_MAIN_ONEWAY \<Rightarrow> ''clt_src_ip,clt_src_port,seq_num,clt_app_tx_ts'' @ [CHR 0x0A]
   | CSV_CLIENT_MAIN_ROUNDTRIP \<Rightarrow> ''clt_src_ip,clt_src_port,seq_num,clt_app_tx_tsc_ts,clt_app_tx_ts,clt_hw_rx_ts,clt_ker_rx_ts,clt_app_rx_tsc_ts,clt_app_rx_ts'' @ [CHR 0x0A]
   | CSV_CLIENT_TX \<Rightarrow> ''clt_src_ip,clt_src_port,seq_num,clt_ker_tx_ts'' @ [CHR 0x0A]
   | CSV_SERVER_MAIN_ONEWAY \<Rightarrow> ''clt_src_ip,clt_src_port,seq_num,svr_hw_rx_ts,svr_ker_rx_ts,svr_app_rx_ts'' @ [CHR 0x0A]
   | CSV_SERVER_MAIN_ROUNDTRIP \<Rightarrow> ''clt_src_ip,clt_src_port,seq_num,svr_hw_rx_ts,svr_ker_rx_ts,svr_app_rx_ts,svr_app_tx_ts'' @ [CHR 0x0A]
   | CSV_SERVER_TX \<Rightarrow> ''clt_src_ip,clt_src_port,seq_num,svr_ker_tx_ts'' @ [CHR 0x0A]
   | CSV_TYPE_OTHER \<Rightarrow> ''invalid_csv_type'' @ [CHR 0x0A])"

text \<open>\<open>"%llu.%09llu"\<close> of \<open>t / 1000000000\<close> and \<open>t % 1000000000\<close>.\<close>

definition ts_text :: "u64 \<Rightarrow> string" where
  "ts_text t = show_dec (unat (t div 1000000000)) @ ''.'' @ show_pad 9 (unat (t mod 1000000000))"

text \<open>Which elements of \<open>timestamp_ns\<close> the \<open>snprintf\<close> of each case prints, in order.\<close>

definition csv_columns :: "csv_type_t \<Rightarrow> nat list" where
  "csv_columns ty = (case ty of
     CSV_CLIENT_MAIN_ONEWAY \<Rightarrow> [1]
   | CSV_CLIENT_MAIN_ROUNDTRIP \<Rightarrow> [0, 1, 3, 4, 5, 6]
   | CSV_SERVER_MAIN_ONEWAY \<Rightarrow> [7, 8, 9]
   | CSV_SERVER_MAIN_ROUNDTRIP \<Rightarrow> [7, 8, 9, 10]
   | CSV_CLIENT_TX \<Rightarrow> [2]
   | CSV_SERVER_TX \<Rightarrow> [11]
   | CSV_TYPE_OTHER \<Rightarrow> [])"

definition csv_line :: "csv_type_t \<Rightarrow> csv_entry_t \<Rightarrow> string" where
  "csv_line ty e =
     (if ty = CSV_TYPE_OTHER then ''invalid_csv_type'' @ [CHR 0x0A]
      else ce_src_ip e @ '','' @ show_dec (unat (ce_src_port e)) @ '','' @ show_dec (unat (ce_seq_num e)) @
           concat (map (\<lambda>i. '','' @ ts_text (ce_timestamp_ns e ! i)) (csv_columns ty)) @ [CHR 0x0A])"

text \<open>
  The loop of \<open>csv_format_batch\<close>: \<open>acc\<close> is the string in the buffer, \<open>offset\<close> the write position.  \<open>snprintf\<close> gets
  \<open>buffer_size - offset\<close> bytes; if \<open>offset\<close> lies beyond the buffer the write is out of bounds
  (\<open>None\<close>).  The guard compares against the unsigned \<open>buffer_size - 256\<close>, which wraps for a buffer below 256 bytes.
\<close>

fun csv_format_loop :: "csv_type_t \<Rightarrow> u64 \<Rightarrow> csv_entry_t list \<Rightarrow> u64 \<Rightarrow> string \<Rightarrow> string option" where
  "csv_format_loop ty buffer_size [] offset acc = Some acc"
| "csv_format_loop ty buffer_size (e # es) offset acc =
     (if offset < buffer_size - 256
      then if buffer_size \<le> offset then None
           else let text = csv_line ty e
                in csv_format_loop ty buffer_size es (offset + of_nat (length text))
                     (acc @ bounded_copy (unat (buffer_size - offset)) text)
      else Some acc)"

definition csv_format_batch :: "csv_entry_t list \<Rightarrow> u64 \<Rightarrow> csv_type_t \<Rightarrow> string option" where
  "csv_format_batch batch buffer_size ty =
     (if buffer_size = 0 then None else csv_format_loop ty buffer_size batch 0 [])"

section \<open>The writer thread\<close>

text \<open>
  \<open>write(fd, buf, len)\<close> is a function from the requested length to its result: negative on failure,
  otherwise the number of bytes appended to the file.
\<close>

definition write_text :: "(nat \<Rightarrow> int) \<Rightarrow> string \<Rightarrow> string \<Rightarrow> string" where
  "write_text wr file text =
     (if wr (length text) < 0 then file else file @ take (nat (wr (length text))) text)"

text \<open>
  One turn of the loop of the writer thread, and with the same code the final flush after the loop.
\<close>

definition csv_writer_iteration ::
  "(nat \<Rightarrow> int) \<Rightarrow> csv_ring_buffer_t \<Rightarrow> string \<Rightarrow> (csv_ring_buffer_t \<times> string) option" where
  "csv_writer_iteration wr b file =
     (let (batch, b') = csv_dequeue_batch b (sint (cb_batch_size b))
      in if batch = [] then Some (b', file)
         else case csv_format_batch batch (cb_write_buffer_size b) (cb_csv_type b) of
                None \<Rightarrow> None
              | Some text \<Rightarrow> Some (b', write_text wr file text))"

text \<open>
  What happens while the thread runs: packet threads enqueue entries, the writer takes turns.
\<close>

datatype csv_event = Produce csv_entry_t | Write_turn "nat \<Rightarrow> int"

fun csv_writer_loop :: "csv_ring_buffer_t \<Rightarrow> string \<Rightarrow> csv_event list \<Rightarrow> (csv_ring_buffer_t \<times> string) option" where
  "csv_writer_loop b file [] = Some (b, file)"
| "csv_writer_loop b file (Produce e # evs) = csv_writer_loop (fst (csv_enqueue_fast b e)) file evs"
| "csv_writer_loop b file (Write_turn wr # evs) =
     (case csv_writer_iteration wr b file of
        None \<Rightarrow> None
      | Some (b', file') \<Rightarrow> csv_writer_loop b' file' evs)"

text \<open>The thread function: the loop until \<open>running\<close> is cleared, then the final flush.\<close>

definition csv_writer_thread ::
  "csv_ring_buffer_t \<Rightarrow> string \<Rightarrow> csv_event list \<Rightarrow> (nat \<Rightarrow> int) \<Rightarrow> (csv_ring_buffer_t \<times> string) option" where
  "csv_writer_thread b file evs wr =
     (case csv_writer_loop b file evs of
        None \<Rightarrow> None
      | Some (b', file') \<Rightarrow> csv_writer_iteration wr (b'\<lparr>cb_running := False\<rparr>) file')"


section \<open>Creation and destruction\<close>

text \<open>
  The calls that can fail, with their results: the three allocations (the entries come back with
  unspecified contents), \<open>open\<close>, the write of the header and \<open>pthread_create\<close>.
\<close>

record csv_create_env =
  ev_alloc_buffer :: bool
  ev_alloc_entries :: "(nat \<Rightarrow> csv_entry_t) option"
  ev_alloc_write_buffer :: bool
  ev_open_fd :: int
  ev_write_header :: "nat \<Rightarrow> int"
  ev_thread_result :: int

datatype csv_resource = R_buffer | R_entries | R_write_buffer | R_fd | R_thread

datatype resource_act = Acquire csv_resource | Release csv_resource

text \<open>The resources still held after a trace of acquisitions and releases.\<close>

fun held :: "csv_resource list \<Rightarrow> resource_act list \<Rightarrow> csv_resource list" where
  "held rs [] = rs"
| "held rs (Acquire r # as) = held (r # rs) as"
| "held rs (Release r # as) = held (remove1 r rs) as"

text \<open>
  The result, the trace of resource operations, and the contents of the file that \<open>open\<close> truncated
  (\<open>None\<close> where the file was not opened).
\<close>

definition csv_buffer_create ::
  "csv_create_env \<Rightarrow> u32 \<Rightarrow> csv_type_t \<Rightarrow> u32 \<Rightarrow> int \<Rightarrow>
     csv_ring_buffer_t option \<times> resource_act list \<times> string option" where
  "csv_buffer_create env sz ty batch_size log_cpu =
     (if sz = 0 \<or> sz AND (sz - 1) \<noteq> 0 then (None, [], None)
      else if \<not> ev_alloc_buffer env then (None, [], None)
      else case ev_alloc_entries env of
        None \<Rightarrow> (None, [Acquire R_buffer, Release R_buffer], None)
      | Some raw \<Rightarrow>
          (let b = \<lparr>cb_entries = map raw [0..<unat sz], cb_head = 0, cb_tail = 0,
                    cb_size_mask = sz - 1, cb_batch_size = batch_size, cb_fd = ev_open_fd env,
                    cb_running = True, cb_write_buffer_size = ucast (batch_size * 256),
                    cb_csv_type = ty, cb_log_cpu = log_cpu\<rparr>;
               pre = [Acquire R_buffer, Acquire R_entries]
           in if \<not> ev_alloc_write_buffer env
              then (None, pre @ [Release R_entries, Release R_buffer], None)
              else if ev_open_fd env < 0
              then (None, pre @ [Acquire R_write_buffer, Release R_write_buffer, Release R_entries,
                                 Release R_buffer], None)
              else let file = write_text (ev_write_header env) [] (get_csv_header ty)
                   in if ev_thread_result env \<noteq> 0
                      then (None, pre @ [Acquire R_write_buffer, Acquire R_fd, Release R_fd,
                                         Release R_write_buffer, Release R_entries, Release R_buffer],
                            Some file)
                      else (Some b, pre @ [Acquire R_write_buffer, Acquire R_fd, Acquire R_thread],
                            Some file)))"

text \<open>\<open>None\<close> is the null pointer; the join of the writer thread ends \<open>R_thread\<close> when it succeeds.\<close>

definition csv_buffer_destroy :: "bool \<Rightarrow> csv_ring_buffer_t option \<Rightarrow> resource_act list" where
  "csv_buffer_destroy join_ok buffer = (case buffer of
     None \<Rightarrow> []
   | Some b \<Rightarrow>
       (if join_ok then [Release R_thread] else []) @
       (if 0 \<le> cb_fd b then [Release R_fd] else []) @
       [Release R_write_buffer, Release R_entries, Release R_buffer])"

section \<open>The ring is a bounded queue\<close>

lemma csv_enqueue_room:
  assumes "csv_ring_wf b" and "length (csv_contents b) < csv_room b"
  shows "\<exists>b'. csv_enqueue_fast b e = (b', True) \<and> csv_ring_wf b' \<and>
    csv_contents b' = csv_contents b @ [e] \<and> csv_room b' = csv_room b"
proof -
  have wf: "ring_wf (cb_entries b) (cb_tail b) (cb_head b) (cb_size_mask b)"
    using assms(1) by (simp add: csv_ring_wf_def)
  have "(cb_head b + 1) AND cb_size_mask b \<noteq> cb_tail b"
    using ring_full_iff [OF wf] assms(2)
    by (simp add: csv_contents_def length_ring_contents csv_room_def)
  then show ?thesis
    using ring_push_contents [OF wf, of e]
    by (simp add: csv_enqueue_fast_def Let_def csv_ring_wf_def csv_contents_def csv_room_def)
qed

lemma csv_enqueue_full:
  assumes "csv_ring_wf b" and "csv_room b \<le> length (csv_contents b)"
  shows "csv_enqueue_fast b e = (b, False)"
proof -
  have wf: "ring_wf (cb_entries b) (cb_tail b) (cb_head b) (cb_size_mask b)"
    using assms(1) by (simp add: csv_ring_wf_def)
  have "(cb_head b + 1) AND cb_size_mask b = cb_tail b"
    using ring_full_iff [OF wf] assms(2) ring_count_bound [of "cb_tail b" "cb_head b" "cb_size_mask b"]
    by (simp add: csv_contents_def length_ring_contents csv_room_def)
  then show ?thesis by (simp add: csv_enqueue_fast_def Let_def)
qed

lemma csv_dequeue_cons:
  assumes "csv_ring_wf b" and "csv_contents b = x # xs"
  shows "\<exists>b'. csv_dequeue_one b = Some (x, b') \<and> csv_ring_wf b' \<and> csv_contents b' = xs \<and>
    csv_room b' = csv_room b"
proof -
  have wf: "ring_wf (cb_entries b) (cb_tail b) (cb_head b) (cb_size_mask b)"
    using assms(1) by (simp add: csv_ring_wf_def)
  then have "cb_tail b \<noteq> cb_head b"
    using assms(2) ring_empty_iff [OF wf] by (auto simp: csv_contents_def)
  then show ?thesis
    using ring_pop_contents [OF wf] assms(2)
    by (simp add: csv_dequeue_one_def Let_def csv_ring_wf_def csv_contents_def csv_room_def)
qed

lemma csv_dequeue_empty:
  assumes "csv_ring_wf b" and "csv_contents b = []"
  shows "csv_dequeue_one b = None"
  using assms ring_empty_iff [of "cb_entries b"]
  by (simp add: csv_dequeue_one_def Let_def csv_ring_wf_def csv_contents_def)

interpretation csvq: bounded_fifo csv_ring_wf csv_contents csv_room csv_enqueue_fast csv_dequeue_one
  by unfold_locales
    (simp_all add: csv_enqueue_room csv_enqueue_full csv_dequeue_cons csv_dequeue_empty)

text \<open>Fields that no ring operation writes.\<close>

lemma csv_enqueue_frame:
  "csv_enqueue_fast b e = (b', ok) \<Longrightarrow>
     b'\<lparr>cb_head := h, cb_entries := es\<rparr> = b\<lparr>cb_head := h, cb_entries := es\<rparr>"
  by (auto simp: csv_enqueue_fast_def Let_def split: if_splits)

lemma csv_dequeue_one_frame: "csv_dequeue_one b = Some (x, b') \<Longrightarrow> b'\<lparr>cb_tail := t\<rparr> = b\<lparr>cb_tail := t\<rparr>"
  by (auto simp: csv_dequeue_one_def Let_def split: if_splits)

lemma csv_dequeue_batch_frame:
  "csv_dequeue_batch b n = (xs, b') \<Longrightarrow> b'\<lparr>cb_tail := t\<rparr> = b\<lparr>cb_tail := t\<rparr>"
  unfolding csv_dequeue_batch_def
  by (rule deq_upto_frame [where f = "\<lambda>b. b\<lparr>cb_tail := t\<rparr>"]) (rule csv_dequeue_one_frame)

lemma csv_dequeue_batch_take:
  assumes "csv_ring_wf b" and "csv_dequeue_batch b n = (xs, b')"
  shows "xs = take (nat n) (csv_contents b)" and "csv_ring_wf b'"
    and "csv_contents b' = drop (nat n) (csv_contents b)"
  using csvq.deq_upto_take [OF assms(1), of "nat n" xs b'] assms(2)
  by (simp_all add: csv_dequeue_batch_def)

section \<open>Formatting a batch\<close>

lemma ts_parts:
  "unat (t div 1000000000 :: u64) = unat t div 1000000000"
  "unat (t mod 1000000000 :: u64) = unat t mod 1000000000"
  by (simp_all add: unat_div_distrib unat_mod_distrib)

lemma u64_seconds_bound: "unat (t :: u64) div 1000000000 < 10 ^ 11"
  using u64_bound [of t] by (simp add: less_mult_imp_div_less)

lemma length_ts_text: "length (ts_text t) \<le> 21"
  using length_show_dec [OF u64_seconds_bound [of t]] length_show_pad [of "unat t mod 1000000000" 9]
  by (simp add: ts_text_def ts_parts)

lemma length_columns_text:
  "length (concat (map (\<lambda>i. '','' @ ts_text (ts ! i)) is)) \<le> 22 * length is"
proof (induction "is")
  case (Cons i "is")
  then show ?case using length_ts_text [of "ts ! i"] by simp
qed simp

lemma length_csv_columns: "length (csv_columns ty) \<le> 6"
  by (cases ty) (simp_all add: csv_columns_def)

lemma length_csv_line:
  assumes "csv_entry_wf e"
  shows "length (csv_line ty e) \<le> 165"
proof (cases "ty = CSV_TYPE_OTHER")
  case True
  then show ?thesis by (simp add: csv_line_def)
next
  case False
  have port: "length (show_dec (unat (ce_src_port e))) \<le> 5"
    using u16_bound [of "ce_src_port e"] by (intro length_show_dec) simp_all
  have seq: "length (show_dec (unat (ce_seq_num e))) \<le> 10"
    using u32_bound [of "ce_seq_num e"] by (intro length_show_dec) simp_all
  show ?thesis
    using False assms port seq length_csv_columns [of ty]
      length_columns_text [of "ce_timestamp_ns e" "csv_columns ty"]
    by (simp add: csv_line_def csv_entry_wf_def)
qed

lemma csv_format_loop_complete:
  assumes "list_all csv_entry_wf es"
    and "es = [] \<or> unat offset + 91 + 165 * length es < unat buffer_size"
  shows "csv_format_loop ty buffer_size es offset acc = Some (acc @ concat (map (csv_line ty) es))"
  using assms
proof (induction es arbitrary: offset acc)
  case Nil
  then show ?case by simp
next
  case (Cons e es)
  let ?text = "csv_line ty e"
  have len: "length ?text \<le> 165" using Cons.prems(1) length_csv_line by simp
  have fits: "unat offset + 256 + 165 * length es < unat buffer_size" using Cons.prems(2) by simp
  note sz = u64_bound [of buffer_size]
  have "unat (buffer_size - 256) = unat buffer_size - 256"
    using fits by (subst unat_sub) (simp_all add: word_le_nat_alt)
  then have guard: "offset < buffer_size - 256" "\<not> buffer_size \<le> offset"
    using fits by (simp_all add: word_less_nat_alt word_le_nat_alt)
  have room: "unat (buffer_size - offset) = unat buffer_size - unat offset"
    using guard(2) by (simp add: unat_sub)
  have copy: "bounded_copy (unat (buffer_size - offset)) ?text = ?text"
    using room fits len by (simp add: bounded_copy_def)
  have "unat (of_nat (length ?text) :: u64) = length ?text"
    using len by (intro unat_of_nat_small) simp
  then have off: "unat (offset + of_nat (length ?text)) = unat offset + length ?text"
    using fits len sz by (simp add: unat_word_ariths)
  have "csv_format_loop ty buffer_size es (offset + of_nat (length ?text)) (acc @ ?text) =
      Some ((acc @ ?text) @ concat (map (csv_line ty) es))"
    by (rule Cons.IH) (use Cons.prems(1) fits len off in \<open>cases es; simp\<close>)+
  then show ?case using guard copy by (simp add: Let_def)
qed

lemma csv_format_batch_complete:
  assumes "list_all csv_entry_wf es" and "length es \<le> n" and "2 \<le> n" and "n < 2 ^ 24"
  shows "csv_format_batch es (of_nat (n * 256)) ty = Some (concat (map (csv_line ty) es))"
proof -
  have sz: "unat (of_nat (n * 256) :: u64) = n * 256"
    using assms(4) by (intro unat_of_nat_small) simp
  then have "(of_nat (n * 256) :: u64) \<noteq> 0" using assms(3) by (metis mult_is_0 not_numeral_le_zero unat_0 zero_neq_numeral)
  moreover have "es = [] \<or> unat (0 :: u64) + 91 + 165 * length es < unat (of_nat (n * 256) :: u64)"
    using sz assms(2,3) by simp
  ultimately show ?thesis
    using csv_format_loop_complete [OF assms(1), of 0 "of_nat (n * 256)" ty "[]"]
    by (simp add: csv_format_batch_def)
qed

section \<open>What the writer thread writes\<close>

text \<open>
  A ring as \<open>csv_buffer_create\<close> sets it up and the packet threads use it.  The bound on the batch size keeps
  \<open>batch_size * 256\<close> below \<open>2^32\<close>; every call in the programs passes 10000.
\<close>

definition csv_ready :: "csv_ring_buffer_t \<Rightarrow> bool" where
  "csv_ready b \<longleftrightarrow> csv_ring_wf b \<and> list_all csv_entry_wf (csv_contents b) \<and>
     2 \<le> unat (cb_batch_size b) \<and> unat (cb_batch_size b) < 2 ^ 24 \<and>
     cb_write_buffer_size b = ucast (cb_batch_size b * 256)"

definition complete_write :: "(nat \<Rightarrow> int) \<Rightarrow> bool" where
  "complete_write wr \<longleftrightarrow> (\<forall>n. wr n = int n)"



abbreviation csv_lines :: "csv_ring_buffer_t \<Rightarrow> csv_entry_t list \<Rightarrow> string" where
  "csv_lines b es \<equiv> concat (map (csv_line (cb_csv_type b)) es)"

lemma write_text_complete: "complete_write wr \<Longrightarrow> write_text wr file text = file @ text"
  by (simp add: write_text_def complete_write_def)

lemma csv_write_buffer_size:
  assumes "csv_ready b"
  shows "cb_write_buffer_size b = of_nat (unat (cb_batch_size b) * 256)"
proof -
  have "unat (cb_batch_size b * 256) = unat (cb_batch_size b) * 256"
    using assms by (simp add: csv_ready_def unat_word_ariths)
  moreover have "cb_write_buffer_size b = of_nat (unat (cb_batch_size b * 256))"
    using assms by (simp only: csv_ready_def of_nat_unat)
  ultimately show ?thesis by simp
qed

lemma csv_writer_iteration_spec:
  assumes ready: "csv_ready b" and wr: "complete_write wr"
  obtains b' where
    "csv_writer_iteration wr b file =
       Some (b', file @ csv_lines b (take (unat (cb_batch_size b)) (csv_contents b)))"
    and "csv_ready b'" and "cb_csv_type b' = cb_csv_type b" and "cb_batch_size b' = cb_batch_size b"
    and "csv_contents b' = drop (unat (cb_batch_size b)) (csv_contents b)"
    and "b' = snd (csv_dequeue_batch b (sint (cb_batch_size b)))"
proof -
  let ?n = "unat (cb_batch_size b)"
  have n: "2 \<le> ?n" "?n < 2 ^ 24" and wf: "csv_ring_wf b" and es: "list_all csv_entry_wf (csv_contents b)"
    using ready by (simp_all add: csv_ready_def)
  have sint: "nat (sint (cb_batch_size b)) = ?n"
    using n(2) by (simp add: u32_sint_small)
  obtain xs b' where deq: "csv_dequeue_batch b (sint (cb_batch_size b)) = (xs, b')" by fastforce
  from csv_dequeue_batch_take [OF wf deq] sint
  have xs: "xs = take ?n (csv_contents b)" and wf': "csv_ring_wf b'"
    and rest: "csv_contents b' = drop ?n (csv_contents b)" by simp_all
  from csv_dequeue_batch_frame [OF deq, of 0]
  have frame: "cb_batch_size b' = cb_batch_size b" "cb_csv_type b' = cb_csv_type b"
    "cb_write_buffer_size b' = cb_write_buffer_size b"
    by (metis csv_ring_buffer_t.select_convs csv_ring_buffer_t.surjective csv_ring_buffer_t.update_convs(3))+
  have "list_all csv_entry_wf xs" using es xs by (auto simp: list_all_iff dest: in_set_takeD)
  then have fmt: "csv_format_batch xs (cb_write_buffer_size b) (cb_csv_type b) = Some (csv_lines b xs)"
    using csv_format_batch_complete [of xs ?n "cb_csv_type b"] n xs csv_write_buffer_size [OF ready] by simp
  have "csv_writer_iteration wr b file = Some (b', file @ csv_lines b xs)"
    using fmt wr by (cases "xs = []") (simp_all add: csv_writer_iteration_def deq write_text_complete)
  moreover have "csv_ready b'"
    using ready wf' rest frame es by (auto simp: csv_ready_def list_all_iff dest: in_set_dropD)
  ultimately show ?thesis using that frame rest xs deq by simp
qed



section \<open>The ring under concurrency\<close>

text \<open>The packet thread is the producer and the writer thread the consumer of the protocol.\<close>

definition csv_view :: "csv_ring_buffer_t \<Rightarrow> csv_entry_t list \<Rightarrow> csv_entry_t list \<Rightarrow> csv_entry_t spsc" where
  "csv_view b published delivered =
     spsc_view (cb_entries b) (cb_tail b) (cb_head b) (cb_size_mask b) published delivered"

lemma csv_enqueue_run:
  "csv_enqueue_fast b e = (b', True) \<Longrightarrow> producer_step\<^sup>*\<^sup>* (csv_view b pub del) (csv_view b' (pub @ [e]) del)"
  using producer_run_accept [of "cb_head b" "cb_size_mask b" "cb_tail b" "cb_entries b" pub del e]
  by (auto simp: csv_enqueue_fast_def Let_def csv_view_def split: if_splits)

lemma csv_dequeue_run:
  "csv_dequeue_one b = Some (e, b') \<Longrightarrow> consumer_step\<^sup>*\<^sup>* (csv_view b pub del) (csv_view b' pub (del @ [e]))"
  using consumer_run_take [of "cb_tail b" "cb_head b" "cb_entries b" "cb_size_mask b" pub del]
  by (auto simp: csv_dequeue_one_def Let_def csv_view_def split: if_splits)

lemma csv_view_inv:
  "csv_ring_wf b \<Longrightarrow> spsc_inv (csv_view b (csv_contents b) [])"
  unfolding csv_view_def by (rule spsc_view_inv) (simp_all add: csv_ring_wf_def csv_contents_def)

section \<open>Properties\<close>

text \<open>
  C5. Under every interleaving of the memory accesses of one packet thread and the writer thread,
  the writer receives exactly the published entries in order, the ring never exceeds its
  capacity, and the packet thread never writes a slot the writer is reading.
\<close>

theorem csv_ring_concurrent:
  assumes "csv_ring_wf b" and "spsc_reach (csv_view b (csv_contents b) []) s"
  shows "sp_published s = sp_delivered s @ sp_contents s \<and> length (sp_contents s) \<le> unat (sp_mask s) \<and>
    \<not> spsc_race s"
  by (rule spsc_reach_safe [OF assms(2) csv_view_inv [OF assms(1)]])

text \<open>
  \<open>csv_enqueue_fast\<close> and one turn of \<open>csv_dequeue_batch\<close> are uninterrupted runs of the protocol: an accepted
  entry is published and a dequeued entry is delivered.
\<close>

theorem csv_operations_refine_protocol:
  "(csv_enqueue_fast b e = (b1, True) \<longrightarrow> producer_step\<^sup>*\<^sup>* (csv_view b pub del) (csv_view b1 (pub @ [e]) del)) \<and>
   (csv_dequeue_one b = Some (e, b2) \<longrightarrow> consumer_step\<^sup>*\<^sup>* (csv_view b pub del) (csv_view b2 pub (del @ [e])))"
  using csv_enqueue_run csv_dequeue_run by blast

text \<open>
  The CSV ring is a first-in first-out queue under every sequence of enqueue and dequeue
  operations: what was in the ring followed by what it accepted is what it delivered followed by
  what is still in it, and it never holds more than \<open>size_mask\<close> entries.
\<close>

lemma csv_ring_fifo:
  assumes "csv_ring_wf b"
    and "run_ops csv_enqueue_fast csv_dequeue_one b ops = (b', accepted, delivered)"
  shows "csv_ring_wf b' \<and> csv_contents b @ accepted = delivered @ csv_contents b' \<and>
    length (csv_contents b') \<le> unat (cb_size_mask b)"
  using csvq.run_ops_fifo [OF assms] ring_count_bound [of "cb_tail b'" "cb_head b'" "cb_size_mask b'"]
  by (simp add: csv_contents_def length_ring_contents csv_room_def)

definition sample_entry :: "nat \<Rightarrow> csv_entry_t" where
  "sample_entry n = create_csv_client_oneway_main (of_nat n) ''10.0.0.1'' 5000 1500000042"

definition sample_ring :: csv_ring_buffer_t where
  "sample_ring =
     \<lparr>cb_entries = map sample_entry [0..<4], cb_head = 0, cb_tail = 0, cb_size_mask = 3,
      cb_batch_size = 2, cb_fd = 3, cb_running = True, cb_write_buffer_size = 512,
      cb_csv_type = CSV_CLIENT_MAIN_ONEWAY, cb_log_cpu = 0\<rparr>"

lemma sample_ring_wf: "csv_ring_wf sample_ring"
  by code_simp

lemma sample_ring_empty: "csv_contents sample_ring = []" "csv_room sample_ring = 3"
  by code_simp+

theorem csv_ring_concurrent_witness:
  "\<exists>s. spsc_reach (csv_view sample_ring [] []) s \<and> sp_published s = [sample_entry 9] \<and>
     sp_published s = sp_delivered s @ sp_contents s \<and> \<not> spsc_race s"
proof -
  have c: "csv_contents sample_ring = []" by code_simp
  obtain b' where "csv_enqueue_fast sample_ring (sample_entry 9) = (b', True)"
    by (simp add: sample_ring_def csv_enqueue_fast_def Let_def)
  from producer_run_reach [OF csv_enqueue_run [OF this, of "[]" "[]"]]
  have r: "spsc_reach (csv_view sample_ring [] []) (csv_view b' [sample_entry 9] [])" by simp
  moreover have "sp_published (csv_view b' [sample_entry 9] []) = [sample_entry 9]"
    by (simp add: csv_view_def spsc_view_def)
  ultimately show ?thesis using csv_ring_concurrent [OF sample_ring_wf, unfolded c, OF r] by blast
qed

theorem csv_operations_refine_protocol_witness:
  "consumer_step\<^sup>*\<^sup>* (csv_view (sample_ring\<lparr>cb_head := 1\<rparr>) [sample_entry 0] [])
     (csv_view (sample_ring\<lparr>cb_head := 1, cb_tail := 1\<rparr>) [sample_entry 0] [sample_entry 0])"
proof -
  have "csv_dequeue_one (sample_ring\<lparr>cb_head := 1\<rparr>) = Some (sample_entry 0, sample_ring\<lparr>cb_head := 1, cb_tail := 1\<rparr>)"
    by (simp add: sample_ring_def csv_dequeue_one_def Let_def)
  then show ?thesis
    using csv_operations_refine_protocol [of "sample_ring\<lparr>cb_head := 1\<rparr>" "sample_entry 0" undefined "[sample_entry 0]" "[]"]
    by fastforce
qed

lemma csv_ring_fifo_witness:
  "case run_ops csv_enqueue_fast csv_dequeue_one sample_ring
          [Enq (sample_entry 1), Enq (sample_entry 2), Deq, Enq (sample_entry 3), Enq (sample_entry 4), Enq (sample_entry 5)]
   of (b', accepted, delivered) \<Rightarrow>
     accepted = map sample_entry [1, 2, 3, 4] \<and> delivered = [sample_entry 1] \<and>
     csv_contents b' = map sample_entry [2, 3, 4]"
proof -
  let ?ops = "[Enq (sample_entry 1), Enq (sample_entry 2), Deq, Enq (sample_entry 3), Enq (sample_entry 4), Enq (sample_entry 5)]"
  obtain b' accepted delivered where
    r: "run_ops csv_enqueue_fast csv_dequeue_one sample_ring ?ops = (b', accepted, delivered)"
    by (metis prod_cases3)
  have "csv_contents sample_ring = []" by code_simp
  moreover have "accepted = map sample_entry [1, 2, 3, 4] \<and> delivered = [sample_entry 1]"
    using r by (simp add: sample_ring_def csv_enqueue_fast_def csv_dequeue_one_def Let_def)
  ultimately show ?thesis using r csv_ring_fifo [OF sample_ring_wf r] by simp
qed

text \<open>
  \<open>csv_format_batch\<close> with the write buffer of \<open>batch_size * 256\<close> bytes formats every entry of
  a batch of at most \<open>batch_size\<close> entries: the guard \<open>offset < buffer_size - 256\<close> never cuts a batch short and no
  line is truncated, because a line has at most 165 characters.
\<close>

lemma csv_format_batch_fits:
  assumes "list_all csv_entry_wf es" and "length es \<le> n" and "2 \<le> n" and "n < 2 ^ 24"
  shows "csv_format_batch es (of_nat (n * 256)) ty = Some (concat (map (csv_line ty) es)) \<and>
    (\<forall>e \<in> set es. length (csv_line ty e) \<le> 165)"
  using csv_format_batch_complete [OF assms] assms(1) length_csv_line by (auto simp: list_all_iff)

lemma csv_format_batch_fits_witness:
  "csv_format_batch [sample_entry 7, sample_entry 8] 512 CSV_CLIENT_MAIN_ONEWAY =
     Some (''10.0.0.1,5000,7,1.500000042'' @ [CHR 0x0A] @ ''10.0.0.1,5000,8,1.500000042'' @ [CHR 0x0A])"
proof -
  have "list_all csv_entry_wf [sample_entry 7, sample_entry 8]" by code_simp
  from csv_format_batch_fits [OF this, of 2 CSV_CLIENT_MAIN_ONEWAY]
  have "csv_format_batch [sample_entry 7, sample_entry 8] 512 CSV_CLIENT_MAIN_ONEWAY =
      Some (concat (map (csv_line CSV_CLIENT_MAIN_ONEWAY) [sample_entry 7, sample_entry 8]))"
    by simp
  moreover have "csv_line CSV_CLIENT_MAIN_ONEWAY (sample_entry 7) = ''10.0.0.1,5000,7,1.500000042'' @ [CHR 0x0A]"
    by code_simp
  moreover have "csv_line CSV_CLIENT_MAIN_ONEWAY (sample_entry 8) = ''10.0.0.1,5000,8,1.500000042'' @ [CHR 0x0A]"
    by code_simp
  ultimately show ?thesis by simp
qed




text \<open>
  The final flush writes one batch only: after the loop, everything beyond the first
  \<open>batch_size\<close> entries of the ring stays unwritten.  The comment in the source promises to
  process any remaining entries.
\<close>

lemma csv_final_flush_one_batch:
  assumes "csv_ready b" and "complete_write wr"
  shows "\<exists>b'. csv_writer_thread b file [] wr =
      Some (b', file @ csv_lines b (take (unat (cb_batch_size b)) (csv_contents b))) \<and>
    csv_contents b' = drop (unat (cb_batch_size b)) (csv_contents b)"
proof -
  let ?b = "b\<lparr>cb_running := False\<rparr>"
  have "csv_contents ?b = csv_contents b" "csv_ready ?b"
    using assms(1) by (simp_all add: csv_ready_def csv_ring_wf_def csv_contents_def)
  with csv_writer_iteration_spec [OF this(2) assms(2), of "file"] show ?thesis
    by (auto simp: csv_writer_thread_def)
qed

lemma csv_final_flush_one_batch_witness:
  "\<exists>b'. csv_writer_thread (sample_ring\<lparr>cb_head := 3\<rparr>) [] [] int =
       Some (b', csv_line CSV_CLIENT_MAIN_ONEWAY (sample_entry 0) @ csv_line CSV_CLIENT_MAIN_ONEWAY (sample_entry 1)) \<and>
     csv_contents b' = [sample_entry 2]"
proof -
  let ?b = "sample_ring\<lparr>cb_head := 3\<rparr>"
  have "csv_ready ?b" by code_simp
  moreover have "complete_write int" by (simp add: complete_write_def)
  moreover have "csv_contents ?b = [sample_entry 0, sample_entry 1, sample_entry 2]" by code_simp
  moreover have "cb_batch_size ?b = 2" "cb_csv_type ?b = CSV_CLIENT_MAIN_ONEWAY"
    by (simp_all add: sample_ring_def)
  ultimately show ?thesis using csv_final_flush_one_batch [of ?b int "[]"] by simp
qed

text \<open>
  \<open>csv_buffer_create\<close> leaks nothing: whichever call fails, every resource acquired so far is
  released again; when it succeeds it returns an empty, well-formed ring holding all five resources and has
  written the header of its type first, and \<open>csv_buffer_destroy\<close> (with a successful join) then releases all of them.
\<close>

theorem csv_buffer_create_destroy:
  "case csv_buffer_create env n ty batch_size log_cpu of
     (None, acts, _) \<Rightarrow> held [] acts = []
   | (Some b, acts, file) \<Rightarrow>
       csv_ring_wf b \<and> csv_contents b = [] \<and> csv_room b = unat n - 1 \<and>
       file = Some (write_text (ev_write_header env) [] (get_csv_header ty)) \<and>
       held [] (acts @ csv_buffer_destroy True (Some b)) = []"
proof (cases "n = 0 \<or> n AND (n - 1) \<noteq> 0 \<or> \<not> ev_alloc_buffer env \<or> ev_alloc_entries env = None")
  case True
  then show ?thesis by (auto simp: csv_buffer_create_def split: option.splits)
next
  case False
  then obtain raw where raw: "ev_alloc_entries env = Some raw" and sz: "n \<noteq> 0" "n AND (n - 1) = 0"
    by auto
  have "unat n - 1 = unat (n - 1)" using sz(1) by (simp add: unat_minus_one)
  moreover have "Suc (unat n - Suc 0) = unat n" using sz(1) by (simp add: unat_gt_0)
  ultimately show ?thesis using False raw sz
    by (simp add: csv_buffer_create_def Let_def csv_ring_wf_def ring_wf_def csv_contents_def ring_contents_def
        ring_count_def csv_room_def csv_buffer_destroy_def)
qed

end
