(* ===== verification/Csv_Parse.thy ===== *)
theory Csv_Parse
  imports C_Lib
begin

text \<open>
  The readers of \<open>timestamp_csvjoin.c\<close>: white space trimming, splitting a line into fields,
  recognising a file by its header, the row filter, sequence numbers, timestamps and the deltas
  between timestamps.  The lemmas show that splitting is splitting at commas (quotes are honoured at
  the start of a line only), that reading a printed timestamp gives it back, and what the delta of two timestamps is.
\<close>

section \<open>Definitions\<close>

text \<open>The file system: the contents of every file that can be opened for reading.\<close>

type_synonym filesystem = "string \<rightharpoonup> string"

datatype operation_mode_t = MODE_ONE_WAY | MODE_ROUND_TRIP

datatype target_type_t = TARGET_CLIENT | TARGET_SERVER | TARGET_CLIENT_SERVER

datatype file_type_t =
    FILE_CLIENT_ONEWAY_MAIN | FILE_CLIENT_ONEWAY_TX | FILE_CLIENT_ROUNDTRIP_MAIN
  | FILE_CLIENT_ROUNDTRIP_TX | FILE_SERVER_ONEWAY_MAIN | FILE_SERVER_ROUNDTRIP_MAIN
  | FILE_SERVER_ROUNDTRIP_TX | FILE_TYPE_UNKNOWN

definition trim_whitespace :: "string \<Rightarrow> string" where
  "trim_whitespace s = rev (dropWhile isspace (rev (dropWhile isspace s)))"

definition compare_uint32 :: "u32 \<Rightarrow> u32 \<Rightarrow> int" where
  "compare_uint32 ua ub = (if ua < ub then - 1 else if ua > ub then 1 else 0)"

definition get_file_type_name :: "file_type_t \<Rightarrow> string" where
  "get_file_type_name ty = (case ty of
     FILE_CLIENT_ONEWAY_MAIN \<Rightarrow> ''CLIENT_ONEWAY_MAIN''
   | FILE_CLIENT_ONEWAY_TX \<Rightarrow> ''CLIENT_ONEWAY_TX''
   | FILE_CLIENT_ROUNDTRIP_MAIN \<Rightarrow> ''CLIENT_ROUNDTRIP_MAIN''
   | FILE_CLIENT_ROUNDTRIP_TX \<Rightarrow> ''CLIENT_ROUNDTRIP_TX''
   | FILE_SERVER_ONEWAY_MAIN \<Rightarrow> ''SERVER_ONEWAY_MAIN''
   | FILE_SERVER_ROUNDTRIP_MAIN \<Rightarrow> ''SERVER_ROUNDTRIP_MAIN''
   | FILE_SERVER_ROUNDTRIP_TX \<Rightarrow> ''SERVER_ROUNDTRIP_TX''
   | FILE_TYPE_UNKNOWN \<Rightarrow> ''UNKNOWN'')"

subsection \<open>Timestamps and deltas\<close>

definition parse_timestamp_ns :: "string \<Rightarrow> u64" where
  "parse_timestamp_ns ts_str =
     (if ts_str = ''NULL'' then 0
      else case strchr ts_str (CHR ''.'') of
        None \<Rightarrow> word_of_int (atoll ts_str) * 1000000000
      | Some dot \<Rightarrow>
          (let seconds = word_of_int (atoll ts_str);
               frac_str = take 15 (tl dot);
               frac9 = take 9 frac_str @ replicate (9 - length frac_str) (CHR ''0'')
           in seconds * 1000000000 + word_of_int (atoll frac9)))"

record delta_result_t =
  delta_whole_us :: u32
  delta_frac_ns :: u32
  delta_valid :: bool

definition calculate_delta_fast :: "u64 \<Rightarrow> u64 \<Rightarrow> delta_result_t" where
  "calculate_delta_fast ts_a_ns ts_b_ns =
     (if ts_a_ns = 0 \<or> ts_b_ns = 0 \<or> ts_b_ns \<le> ts_a_ns
      then \<lparr>delta_whole_us = 0, delta_frac_ns = 0, delta_valid = False\<rparr>
      else let delta_ns = ts_b_ns - ts_a_ns
           in \<lparr>delta_whole_us = ucast (delta_ns div 1000), delta_frac_ns = ucast (delta_ns mod 1000),
               delta_valid = True\<rparr>)"

text \<open>
  The string left in the buffer and the return value; \<open>None\<close> where the buffer is not written
  (the function returns 0).
\<close>

definition format_delta_to_buffer :: "delta_result_t \<Rightarrow> nat \<Rightarrow> (string \<times> nat) option" where
  "format_delta_to_buffer delta max_len =
     (if max_len < 8 then None
      else if \<not> delta_valid delta then Some (''NULL'', 4)
      else let text = show_dec (unat (delta_whole_us delta)) @ ''.'' @ show_pad 3 (unat (delta_frac_ns delta))
           in Some (bounded_copy max_len text, length text))"

subsection \<open>Lines\<close>

text \<open>
  The loop of \<open>parse_csv_line\<close>.  \<open>k\<close> is \<open>max_fields - field_count\<close>, \<open>fld\<close> the characters from
  \<open>field_start\<close> on, \<open>at_start\<close> the test \<open>current == line || current[-1] == ','\<close>.  A comma that ends a field
  has been overwritten with NUL when the next character is examined, so it does not make \<open>at_start\<close> true.
\<close>

fun parse_csv_loop :: "nat \<Rightarrow> string \<Rightarrow> string \<Rightarrow> bool \<Rightarrow> bool \<Rightarrow> string list" where
  "parse_csv_loop 0 s fld at_start in_quotes = []"
| "parse_csv_loop (Suc k) [] fld at_start in_quotes = [trim_whitespace fld]"
| "parse_csv_loop (Suc k) (c # cs) fld at_start in_quotes =
     (if c = CHR ''\"'' \<and> at_start then parse_csv_loop (Suc k) cs (fld @ [c]) False (\<not> in_quotes)
      else if c = CHR '','' \<and> \<not> in_quotes
      then trim_whitespace fld # parse_csv_loop k cs [] False in_quotes
      else parse_csv_loop (Suc k) cs (fld @ [c]) (c = CHR '','') in_quotes)"

lemma parse_csv_loop_code [code]:
  "parse_csv_loop n s fld at_start in_quotes =
     (if n = 0 then []
      else case s of
             [] \<Rightarrow> [trim_whitespace fld]
           | c # cs \<Rightarrow>
               (if c = CHR ''\"'' \<and> at_start then parse_csv_loop n cs (fld @ [c]) False (\<not> in_quotes)
                else if c = CHR '','' \<and> \<not> in_quotes
                then trim_whitespace fld # parse_csv_loop (n - 1) cs [] False in_quotes
                else parse_csv_loop n cs (fld @ [c]) (c = CHR '','') in_quotes))"
  by (cases n; cases s) simp_all

definition parse_csv_line :: "string \<Rightarrow> nat \<Rightarrow> string list" where
  "parse_csv_line line max_fields = parse_csv_loop max_fields line [] True False"

definition MAX_LINE_LENGTH :: nat where "MAX_LINE_LENGTH = 2048"
definition MAX_CSV_FIELDS :: nat where "MAX_CSV_FIELDS = 20"

definition detect_file_type :: "filesystem \<Rightarrow> string \<Rightarrow> file_type_t" where
  "detect_file_type fs filename =
     (case fs filename of
        None \<Rightarrow> FILE_TYPE_UNKNOWN
      | Some text \<Rightarrow>
          (case fgets_lines MAX_LINE_LENGTH text of
             [] \<Rightarrow> FILE_TYPE_UNKNOWN
           | l # _ \<Rightarrow>
               (let line = chomp l in
                if strstr line ''clt_src_ip,clt_src_port,seq_num,clt_app_tx_tsc_ts,clt_app_tx_ts,clt_hw_rx_ts,clt_ker_rx_ts,clt_app_rx_tsc_ts,clt_app_rx_ts''
                then FILE_CLIENT_ROUNDTRIP_MAIN
                else if strstr line ''clt_src_ip,clt_src_port,seq_num,svr_hw_rx_ts,svr_ker_rx_ts,svr_app_rx_ts,svr_app_tx_ts''
                then FILE_SERVER_ROUNDTRIP_MAIN
                else if strstr line ''clt_src_ip,clt_src_port,seq_num,svr_hw_rx_ts,svr_ker_rx_ts,svr_app_rx_ts''
                then FILE_SERVER_ONEWAY_MAIN
                else if strstr line ''clt_src_ip,clt_src_port,seq_num,clt_app_tx_ts''
                then FILE_CLIENT_ONEWAY_MAIN
                else if strstr line ''clt_src_ip,clt_src_port,seq_num,clt_ker_tx_ts''
                then FILE_CLIENT_ONEWAY_TX
                else if strstr line ''clt_src_ip,clt_src_port,seq_num,svr_ker_tx_ts''
                then FILE_SERVER_ROUNDTRIP_TX
                else FILE_TYPE_UNKNOWN)))"

definition validate_record_match :: "string list \<Rightarrow> string \<Rightarrow> u16 \<Rightarrow> bool" where
  "validate_record_match flds target_ip target_port =
     (if length flds < 3 then False
      else if flds ! 0 \<noteq> target_ip then False
      else (word_of_int (atoi (flds ! 1)) :: u16) = target_port)"

definition extract_sequence_number :: "string list \<Rightarrow> u32 option" where
  "extract_sequence_number flds =
     (if length flds < 3 then None
      else let (seq, endptr) = strtol (flds ! 2)
           in if endptr \<noteq> [] \<or> seq < 0 \<or> 4294967295 < seq then None
              else Some (word_of_int seq))"

section \<open>Fields\<close>

lemma trim_whitespace_id:
  assumes "s = [] \<or> (\<not> isspace (hd s) \<and> \<not> isspace (last s))"
  shows "trim_whitespace s = s"
proof (cases "s = []")
  case False
  with assms have "dropWhile isspace s = s" by (simp add: dropWhile_eq_self_iff)
  moreover from False assms have "dropWhile isspace (rev s) = rev s"
    by (simp add: dropWhile_eq_self_iff hd_rev)
  ultimately show ?thesis by (simp add: trim_whitespace_def)
qed (simp add: trim_whitespace_def)

lemma parse_csv_loop_split:
  assumes "\<not> at_start"
  shows "parse_csv_loop k s fld at_start False =
    map trim_whitespace (take k (case split_on (CHR '','') s of p # ps \<Rightarrow> (fld @ p) # ps | [] \<Rightarrow> [fld]))"
  using assms
proof (induction k s fld at_start "False" rule: parse_csv_loop.induct)
  case (3 k c cs fld at_start)
  then show ?case
    by (cases "split_on (CHR '','') cs") (auto split: list.splits)
qed simp_all

lemma parse_csv_line_commas:
  assumes "case s of c # _ \<Rightarrow> c \<noteq> CHR ''\"'' | [] \<Rightarrow> True"
  shows "parse_csv_line s n = map trim_whitespace (take n (split_on (CHR '','') s))"
proof (cases s)
  case Nil
  then show ?thesis by (cases n) (simp_all add: parse_csv_line_def)
next
  case (Cons c cs)
  have "split_on (CHR '','') cs \<noteq> []" by simp
  then obtain p ps where "split_on (CHR '','') cs = p # ps" by (cases "split_on (CHR '','') cs") auto
  with Cons assms show ?thesis
    by (cases n) (auto simp: parse_csv_line_def parse_csv_loop_split)
qed

lemma length_parse_csv_loop: "length (parse_csv_loop k s fld a q) \<le> k"
  by (induction k s fld a q rule: parse_csv_loop.induct) auto

section \<open>Timestamps\<close>

lemma strchr_split: "d \<notin> set p \<Longrightarrow> strchr (p @ d # r) d = Some (d # r)"
  by (auto simp: strchr_def Let_def dropWhile_append)

lemma digits_no_dot: "list_all is_digit ds \<Longrightarrow> CHR ''.'' \<notin> set ds"
  using is_digit_not_sign by (auto simp: list_all_iff)

lemma parse_printed_timestamp:
  assumes "s < 2 ^ 63" and "n < 10 ^ 9"
  shows "parse_timestamp_ns (show_dec s @ ''.'' @ show_pad 9 n) = of_nat s * 1000000000 + of_nat n"
proof -
  let ?t = "show_dec s @ ''.'' @ show_pad 9 n"
  obtain c cs where c: "show_dec s = c # cs" by (cases "show_dec s") (use show_dec_nonempty in auto)
  then have "is_digit c" using show_dec_digits [of s] by simp
  then have notnull: "?t \<noteq> ''NULL''" using c is_digit_not_sign by auto
  have dot: "strchr ?t (CHR ''.'') = Some (CHR ''.'' # show_pad 9 n)"
    using strchr_split [OF digits_no_dot [OF show_dec_digits]] by simp
  have len: "length (show_pad 9 n) = 9" using assms(2) by (simp add: length_show_pad)
  have "n < 2 ^ 63" using assms(2) by (rule less_le_trans) simp
  then have "atoll (show_pad 9 n) = int n" by (rule atoll_show_pad)
  moreover have "atoll ?t = int s"
    using assms(1) by (intro atoll_show_dec) (simp_all add: is_digit_def char_code_def)
  ultimately show ?thesis using notnull dot len by (simp add: parse_timestamp_ns_def Let_def)
qed

text \<open>
  Splitting a line: unless the line starts with a quote, \<open>parse_csv_line\<close> returns the first
  \<open>max_fields\<close> parts between commas, each with surrounding white space removed.
\<close>

lemma parse_csv_line_split:
  assumes "case s of c # _ \<Rightarrow> c \<noteq> CHR ''\"'' | [] \<Rightarrow> True"
  shows "parse_csv_line s n = map trim_whitespace (take n (split_on (CHR '','') s)) \<and>
    length (parse_csv_line s n) \<le> n"
  using parse_csv_line_commas [OF assms] length_parse_csv_loop by (simp add: parse_csv_line_def)

lemma parse_csv_line_split_witness:
  "parse_csv_line ''10.0.0.1, 5000 ,\"7,8\"'' 20 = [''10.0.0.1'', ''5000'', ''\"7'', ''8\"'']"
proof -
  have "map trim_whitespace (take 20 (split_on (CHR '','') ''10.0.0.1, 5000 ,\"7,8\"'')) =
      [''10.0.0.1'', ''5000'', ''\"7'', ''8\"'']" by code_simp
  then show ?thesis using parse_csv_line_split [of "''10.0.0.1, 5000 ,\"7,8\"''" 20] by simp
qed

text \<open>
  The delta of two timestamps is defined exactly when both are present and the second is
  later; its two parts are the microseconds and the remaining nanoseconds of the difference, exact
  as long as the difference is below \<open>2^32\<close> microseconds (about 71 minutes).
\<close>

theorem calculate_delta_fast_exact:
  assumes "unat b - unat a < 1000 * 2 ^ 32"
  shows "delta_valid (calculate_delta_fast a b) = (0 < a \<and> a < b) \<and>
    (delta_valid (calculate_delta_fast a b) \<longrightarrow>
       unat (delta_whole_us (calculate_delta_fast a b)) * 1000 + unat (delta_frac_ns (calculate_delta_fast a b)) =
         unat b - unat a \<and> unat (delta_frac_ns (calculate_delta_fast a b)) < 1000)"
proof (cases "0 < a \<and> a < b")
  case False
  then have "a = 0 \<or> b = 0 \<or> b \<le> a" using word_gt_0 by fastforce
  with False show ?thesis by (auto simp: calculate_delta_fast_def)
next
  case True
  then have guard: "\<not> (a = 0 \<or> b = 0 \<or> b \<le> a)" by auto
  have d: "unat (b - a) = unat b - unat a" using True by (simp add: unat_sub order.strict_implies_order)
  have "unat (b - a) div 1000 < 2 ^ 32" using assms d by (simp add: less_mult_imp_div_less mult.commute)
  then have w: "unat (ucast ((b - a) div 1000) :: u32) = unat (b - a) div 1000"
    by (subst unat_ucast_small) (simp_all add: unat_div_distrib)
  have "unat (b - a) mod 1000 < 2 ^ 32" by (rule less_trans [of _ 1000]) simp_all
  then have f: "unat (ucast ((b - a) mod 1000) :: u32) = unat (b - a) mod 1000"
    by (subst unat_ucast_small) (simp_all add: unat_mod_distrib)
  show ?thesis using guard True w f d by (simp add: calculate_delta_fast_def Let_def)
qed

theorem calculate_delta_fast_exact_witness:
  "delta_valid (calculate_delta_fast 1000000001 1000002500) \<and>
   unat (delta_whole_us (calculate_delta_fast 1000000001 1000002500)) * 1000 +
     unat (delta_frac_ns (calculate_delta_fast 1000000001 1000002500)) = 2499"
proof -
  have v: "delta_valid (calculate_delta_fast 1000000001 1000002500)" by code_simp
  moreover have "unat (1000002500 :: u64) - unat (1000000001 :: u64) = 2499" by simp
  ultimately show ?thesis using calculate_delta_fast_exact [of 1000002500 1000000001] by simp
qed

end
