(* ===== verification/Getopt.thy ===== *)
theory Getopt
  imports C_Lib
begin

text \<open>
  \<open>getopt_long\<close> of the GNU C library, as the three programs use it: an option string without a
  leading \<open>+\<close>, \<open>-\<close> or \<open>:\<close>, and long options without flag pointers.  Arguments that are not options are permuted behind the options, \<open>--\<close> ends the options, a long option may
  be abbreviated to an unambiguous prefix.  The result is the sequence of values the successive
  calls return, each with \<open>optarg\<close>; every error is the value \<open>?\<close>.
\<close>

datatype arg_kind = No_arg | Req_arg | Opt_arg

type_synonym short_opts = "(char \<times> arg_kind) list"
type_synonym long_opts = "(string \<times> arg_kind \<times> char) list"
type_synonym opt_result = "char \<times> string option"

definition opt_error :: opt_result where
  "opt_error = (CHR ''?'', None)"

text \<open>An exact name wins; otherwise all options the name abbreviates must agree.\<close>

definition find_long :: "long_opts \<Rightarrow> string \<Rightarrow> (arg_kind \<times> char) option" where
  "find_long longs name =
     (case map_of longs name of
        Some r \<Rightarrow> Some r
      | None \<Rightarrow>
          (case map snd (filter (\<lambda>(n, _). is_prefix name n) longs) of
             [] \<Rightarrow> None
           | r # rs \<Rightarrow> if list_all (\<lambda>r'. r' = r) rs then Some r else None))"

text \<open>One argument \<open>-abc\<close>: the results and the arguments that remain.\<close>

fun short_cluster :: "short_opts \<Rightarrow> string \<Rightarrow> string list \<Rightarrow> opt_result list \<times> string list" where
  "short_cluster shorts [] args = ([], args)"
| "short_cluster shorts (c # cs) args =
     (case map_of shorts c of
        None \<Rightarrow> (let (rs, rest) = short_cluster shorts cs args in (opt_error # rs, rest))
      | Some No_arg \<Rightarrow> (let (rs, rest) = short_cluster shorts cs args in ((c, None) # rs, rest))
      | Some Opt_arg \<Rightarrow> ([(c, if cs = [] then None else Some cs)], args)
      | Some Req_arg \<Rightarrow>
          (if cs \<noteq> [] then ([(c, Some cs)], args)
           else case args of [] \<Rightarrow> ([opt_error], []) | a # rest \<Rightarrow> ([(c, Some a)], rest)))"

text \<open>One argument \<open>--name\<close> or \<open>--name=value\<close>.\<close>

definition long_option :: "long_opts \<Rightarrow> string \<Rightarrow> string list \<Rightarrow> opt_result \<times> string list" where
  "long_option longs body args =
     (let name = takeWhile (\<lambda>c. c \<noteq> CHR ''='') body;
          val = (if CHR ''='' \<in> set body then Some (drop (Suc (length name)) body) else None)
      in case find_long longs name of
           None \<Rightarrow> (opt_error, args)
         | Some (Opt_arg, v) \<Rightarrow> ((v, val), args)
         | Some (Req_arg, v) \<Rightarrow>
             (case val of
                Some x \<Rightarrow> ((v, Some x), args)
              | None \<Rightarrow> (case args of [] \<Rightarrow> (opt_error, []) | a # rest \<Rightarrow> ((v, Some a), rest)))
         | Some (No_arg, v) \<Rightarrow> (if val = None then ((v, None), args) else (opt_error, args)))"

lemma short_cluster_shrinks: "length (snd (short_cluster shorts cs args)) \<le> length args"
  by (induction shorts cs args rule: short_cluster.induct) (auto split: option.splits arg_kind.splits list.splits prod.splits)

lemma long_option_shrinks: "length (snd (long_option longs body args)) \<le> length args"
  by (auto simp: long_option_def Let_def split: option.splits arg_kind.splits list.splits)

function getopt_long :: "short_opts \<Rightarrow> long_opts \<Rightarrow> string list \<Rightarrow> opt_result list" where
  "getopt_long shorts longs [] = []"
| "getopt_long shorts longs (a # args) =
     (if a = ''--'' then []
      else if is_prefix ''--'' a then
        (let (r, rest) = long_option longs (drop 2 a) args in r # getopt_long shorts longs rest)
      else if is_prefix ''-'' a \<and> a \<noteq> ''-'' then
        (let (rs, rest) = short_cluster shorts (tl a) args in rs @ getopt_long shorts longs rest)
      else getopt_long shorts longs args)"
  by pat_completeness auto
termination
proof (relation "measure (\<lambda>(shorts, longs, args). length args)")
  show "wf (measure (\<lambda>(shorts, longs, args). length args))" by simp
next
  fix shorts longs a args p r rest
  assume "p = long_option longs (drop 2 a) args" and "(r, rest) = p"
  then have "length rest \<le> length args" using long_option_shrinks [of longs "drop 2 a" args] by (metis snd_conv)
  then show "((shorts, longs, rest), shorts, longs, a # args) \<in> measure (\<lambda>(shorts, longs, args). length args)"
    by simp
next
  fix shorts longs a args p r rest
  assume "p = short_cluster shorts (tl a) args" and "(r, rest) = p"
  then have "length rest \<le> length args" using short_cluster_shrinks [of shorts "tl a" args] by (metis snd_conv)
  then show "((shorts, longs, rest), shorts, longs, a # args) \<in> measure (\<lambda>(shorts, longs, args). length args)"
    by simp
qed simp

lemma takeWhile_not_in: "x \<notin> set xs \<Longrightarrow> takeWhile (\<lambda>c. c \<noteq> x) xs = xs"
  by (auto simp: takeWhile_eq_all_conv)

lemma getopt_long_word:
  assumes "name \<noteq> []" and "CHR ''='' \<notin> set name" and "find_long longs name = Some (No_arg, v)"
  shows "getopt_long shorts longs ((''--'' @ name) # args) = (v, None) # getopt_long shorts longs args"
  using assms by (simp add: long_option_def Let_def takeWhile_not_in)

lemma getopt_long_value:
  assumes "name \<noteq> []" and "CHR ''='' \<notin> set name" and "find_long longs name = Some (Req_arg, v)"
  shows "getopt_long shorts longs ((''--'' @ name) # x # args) = (v, Some x) # getopt_long shorts longs args"
  using assms by (simp add: long_option_def Let_def takeWhile_not_in)

end
