(* ===== verification/Csv_Join.thy ===== *)
theory Csv_Join
  imports Csv_Parse Getopt
begin

text \<open>
  The join of \<open>timestamp_csvjoin.c\<close>: sequence sets, the sequence numbers common to all input files, the
  record table, the output file and the command line.  The abstract specification is a relational
  join: one output line per sequence number that occurs in every file, in increasing order, with the
  columns of the last row of each file for it.  \<open>join_reference\<close> states it, and the lemmas show that the
  program computes it.
\<close>

section \<open>Data\<close>

record record_t =
  rec_seq_num :: u32
  rec_timestamps :: "string list"
  rec_field_mask :: u16

text \<open>The count of a sequence set is the length of its list.\<close>

record sequence_set_t =
  ss_sequences :: "u32 list"
  ss_capacity :: nat

record config_t =
  cfg_target_ip :: string
  cfg_target_port :: u16
  cfg_mode :: operation_mode_t
  cfg_target :: target_type_t
  cfg_input_files :: "string list"
  cfg_output_file :: string
  cfg_detected_types :: "file_type_t list"

text \<open>Which allocations (by size) succeed, and which files can be created.\<close>

record join_env =
  je_alloc :: "nat \<Rightarrow> bool"
  je_creatable :: "string \<Rightarrow> bool"

definition FIELD_CLT_APP_TX_TSC_TS :: nat where "FIELD_CLT_APP_TX_TSC_TS = 0"
definition FIELD_CLT_APP_TX_TS :: nat where "FIELD_CLT_APP_TX_TS = 1"
definition FIELD_CLT_KER_TX_TS :: nat where "FIELD_CLT_KER_TX_TS = 2"
definition FIELD_SVR_HW_RX_TS :: nat where "FIELD_SVR_HW_RX_TS = 3"
definition FIELD_SVR_KER_RX_TS :: nat where "FIELD_SVR_KER_RX_TS = 4"
definition FIELD_SVR_APP_RX_TS :: nat where "FIELD_SVR_APP_RX_TS = 5"
definition FIELD_SVR_APP_TX_TS :: nat where "FIELD_SVR_APP_TX_TS = 6"
definition FIELD_SVR_KER_TX_TS :: nat where "FIELD_SVR_KER_TX_TS = 7"
definition FIELD_CLT_HW_RX_TS :: nat where "FIELD_CLT_HW_RX_TS = 8"
definition FIELD_CLT_KER_RX_TS :: nat where "FIELD_CLT_KER_RX_TS = 9"
definition FIELD_CLT_APP_RX_TSC_TS :: nat where "FIELD_CLT_APP_RX_TSC_TS = 10"
definition FIELD_CLT_APP_RX_TS :: nat where "FIELD_CLT_APP_RX_TS = 11"

lemmas field_index_defs =
  FIELD_CLT_APP_TX_TSC_TS_def FIELD_CLT_APP_TX_TS_def FIELD_CLT_KER_TX_TS_def FIELD_SVR_HW_RX_TS_def
  FIELD_SVR_KER_RX_TS_def FIELD_SVR_APP_RX_TS_def FIELD_SVR_APP_TX_TS_def FIELD_SVR_KER_TX_TS_def
  FIELD_CLT_HW_RX_TS_def FIELD_CLT_KER_RX_TS_def FIELD_CLT_APP_RX_TSC_TS_def FIELD_CLT_APP_RX_TS_def

section \<open>Sequence numbers\<close>

text \<open>The new set and whether the call returned 0.\<close>

definition sequence_set_add :: "join_env \<Rightarrow> sequence_set_t \<Rightarrow> u32 \<Rightarrow> sequence_set_t \<times> bool" where
  "sequence_set_add env s seq_num =
     (if seq_num \<in> set (ss_sequences s) then (s, True)
      else if ss_capacity s \<le> length (ss_sequences s) then
        (let new_capacity = (if ss_capacity s \<noteq> 0 then ss_capacity s * 2 else 1024)
         in if \<not> je_alloc env (new_capacity * 4) then (s, False)
            else (\<lparr>ss_sequences = ss_sequences s @ [seq_num], ss_capacity = new_capacity\<rparr>, True))
      else (s\<lparr>ss_sequences := ss_sequences s @ [seq_num]\<rparr>, True))"

text \<open>
  What both file loops do with one line: the fields and the sequence number of a row of the target
  flow; \<open>None\<close> for every \<open>continue\<close> before that.
\<close>

definition read_row :: "string \<Rightarrow> u16 \<Rightarrow> string \<Rightarrow> (string list \<times> u32) option" where
  "read_row target_ip target_port l =
     (let line = chomp l in
      if line = [] then None
      else let flds = parse_csv_line line MAX_CSV_FIELDS
           in if length flds < 3 then None
              else if \<not> validate_record_match flds target_ip target_port then None
              else case extract_sequence_number flds of None \<Rightarrow> None | Some seq \<Rightarrow> Some (flds, seq))"

fun load_rows :: "join_env \<Rightarrow> string \<Rightarrow> u16 \<Rightarrow> string list \<Rightarrow> sequence_set_t \<Rightarrow> nat \<Rightarrow> sequence_set_t \<times> nat" where
  "load_rows env ip port [] s sequences_found = (s, sequences_found)"
| "load_rows env ip port (l # ls) s sequences_found =
     (case read_row ip port l of
        None \<Rightarrow> load_rows env ip port ls s sequences_found
      | Some (_, seq) \<Rightarrow>
          (let (s', ok) = sequence_set_add env s seq
           in load_rows env ip port ls s' (if ok then sequences_found + 1 else sequences_found)))"

definition load_sequences_from_file ::
  "join_env \<Rightarrow> filesystem \<Rightarrow> string \<Rightarrow> string \<Rightarrow> u16 \<Rightarrow> sequence_set_t \<Rightarrow> (sequence_set_t \<times> nat) option" where
  "load_sequences_from_file env fs filename ip port s =
     (case fs filename of
        None \<Rightarrow> None
      | Some text \<Rightarrow> Some (load_rows env ip port (drop 1 (fgets_lines MAX_LINE_LENGTH text)) s 0))"

fun load_all_sequences :: "join_env \<Rightarrow> filesystem \<Rightarrow> string \<Rightarrow> u16 \<Rightarrow> string list \<Rightarrow> u32 list list option" where
  "load_all_sequences env fs ip port [] = Some []"
| "load_all_sequences env fs ip port (f # fls) =
     (case load_sequences_from_file env fs f ip port \<lparr>ss_sequences = [], ss_capacity = 0\<rparr> of
        None \<Rightarrow> None
      | Some (s, _) \<Rightarrow>
          (case load_all_sequences env fs ip port fls of
             None \<Rightarrow> None
           | Some rest \<Rightarrow> Some (ss_sequences s # rest)))"

text \<open>\<open>None\<close> is the result -1; otherwise the common sequence numbers.\<close>

definition find_common_sequences :: "join_env \<Rightarrow> filesystem \<Rightarrow> config_t \<Rightarrow> u32 list option" where
  "find_common_sequences env fs cfg =
     (case load_all_sequences env fs (cfg_target_ip cfg) (cfg_target_port cfg) (cfg_input_files cfg) of
        None \<Rightarrow> None
      | Some [] \<Rightarrow> Some []
      | Some (first # others) \<Rightarrow>
          (if first = [] then Some []
           else if \<not> je_alloc env (length first * 4) then None
           else Some (qsort compare_uint32 (filter (\<lambda>seq. list_all (\<lambda>f. seq \<in> set f) others) first))))"

section \<open>The record table\<close>

definition MAX_TIMESTAMP_FIELDS :: nat where "MAX_TIMESTAMP_FIELDS = 20"

definition new_record :: "u32 \<Rightarrow> record_t" where
  "new_record seq =
     \<lparr>rec_seq_num = seq, rec_timestamps = replicate MAX_TIMESTAMP_FIELDS ''NULL'', rec_field_mask = 0\<rparr>"

definition create_record_table :: "join_env \<Rightarrow> u32 list \<Rightarrow> record_t list option" where
  "create_record_table env seqs =
     (if seqs = [] then None
      else if \<not> je_alloc env (length seqs * 648) then None
      else Some (map new_record seqs))"

text \<open>\<open>left\<close> and \<open>right\<close> are C \<open>int\<close>s; they stay within the range of the indices.\<close>

function find_record_loop :: "record_t list \<Rightarrow> u32 \<Rightarrow> int \<Rightarrow> int \<Rightarrow> int" where
  "find_record_loop rs seq_num left right =
     (if left \<le> right
      then let mid = left + (right - left) div 2
           in if rec_seq_num (rs ! nat mid) = seq_num then mid
              else if rec_seq_num (rs ! nat mid) < seq_num then find_record_loop rs seq_num (mid + 1) right
              else find_record_loop rs seq_num left (mid - 1)
      else - 1)"
  by pat_completeness auto
termination
  by (relation "measure (\<lambda>(rs, seq_num, left, right). nat (right - left + 1))") auto

declare find_record_loop.simps [simp del]

definition find_record_by_seq :: "record_t list \<Rightarrow> u32 \<Rightarrow> int" where
  "find_record_by_seq rs seq_num = find_record_loop rs seq_num 0 (sint (of_nat (length rs) :: u32) - 1)"

definition set_timestamp :: "nat \<Rightarrow> string \<Rightarrow> record_t \<Rightarrow> record_t" where
  "set_timestamp i ts r =
     r\<lparr>rec_timestamps := (rec_timestamps r)[i := bounded_copy 32 ts],
       rec_field_mask := rec_field_mask r OR push_bit i 1\<rparr>"

text \<open>The switch on the file type: copies the columns of a row with enough fields.\<close>

definition populate_record :: "file_type_t \<Rightarrow> string list \<Rightarrow> record_t \<Rightarrow> record_t" where
  "populate_record ty flds r = (case ty of
     FILE_CLIENT_ONEWAY_MAIN \<Rightarrow>
       (if 4 \<le> length flds then set_timestamp FIELD_CLT_APP_TX_TS (flds ! 3) r else r)
   | FILE_CLIENT_ONEWAY_TX \<Rightarrow>
       (if 4 \<le> length flds then set_timestamp FIELD_CLT_KER_TX_TS (flds ! 3) r else r)
   | FILE_CLIENT_ROUNDTRIP_TX \<Rightarrow>
       (if 4 \<le> length flds then set_timestamp FIELD_CLT_KER_TX_TS (flds ! 3) r else r)
   | FILE_CLIENT_ROUNDTRIP_MAIN \<Rightarrow>
       (if 9 \<le> length flds
        then set_timestamp FIELD_CLT_APP_RX_TS (flds ! 8)
               (set_timestamp FIELD_CLT_APP_RX_TSC_TS (flds ! 7)
                 (set_timestamp FIELD_CLT_KER_RX_TS (flds ! 6)
                   (set_timestamp FIELD_CLT_HW_RX_TS (flds ! 5)
                     (set_timestamp FIELD_CLT_APP_TX_TS (flds ! 4)
                       (set_timestamp FIELD_CLT_APP_TX_TSC_TS (flds ! 3) r)))))
        else r)
   | FILE_SERVER_ONEWAY_MAIN \<Rightarrow>
       (if 6 \<le> length flds
        then set_timestamp FIELD_SVR_APP_RX_TS (flds ! 5)
               (set_timestamp FIELD_SVR_KER_RX_TS (flds ! 4)
                 (set_timestamp FIELD_SVR_HW_RX_TS (flds ! 3) r))
        else r)
   | FILE_SERVER_ROUNDTRIP_MAIN \<Rightarrow>
       (if 7 \<le> length flds
        then set_timestamp FIELD_SVR_APP_TX_TS (flds ! 6)
               (set_timestamp FIELD_SVR_APP_RX_TS (flds ! 5)
                 (set_timestamp FIELD_SVR_KER_RX_TS (flds ! 4)
                   (set_timestamp FIELD_SVR_HW_RX_TS (flds ! 3) r)))
        else r)
   | FILE_SERVER_ROUNDTRIP_TX \<Rightarrow>
       (if 4 \<le> length flds then set_timestamp FIELD_SVR_KER_TX_TS (flds ! 3) r else r)
   | FILE_TYPE_UNKNOWN \<Rightarrow> r)"

fun populate_rows :: "file_type_t \<Rightarrow> string \<Rightarrow> u16 \<Rightarrow> string list \<Rightarrow> record_t list \<Rightarrow> nat \<Rightarrow> record_t list \<times> nat" where
  "populate_rows ty ip port [] rs records_populated = (rs, records_populated)"
| "populate_rows ty ip port (l # ls) rs records_populated =
     (case read_row ip port l of
        None \<Rightarrow> populate_rows ty ip port ls rs records_populated
      | Some (flds, seq) \<Rightarrow>
          (let record_idx = find_record_by_seq rs seq
           in if record_idx = - 1 then populate_rows ty ip port ls rs records_populated
              else populate_rows ty ip port ls
                     (rs[nat record_idx := populate_record ty flds (rs ! nat record_idx)])
                     (records_populated + 1)))"

definition populate_timestamps_from_file ::
  "filesystem \<Rightarrow> string \<Rightarrow> file_type_t \<Rightarrow> string \<Rightarrow> u16 \<Rightarrow> record_t list \<Rightarrow> (record_t list \<times> nat) option" where
  "populate_timestamps_from_file fs filename ty ip port rs =
     (case fs filename of
        None \<Rightarrow> None
      | Some text \<Rightarrow> Some (populate_rows ty ip port (drop 1 (fgets_lines MAX_LINE_LENGTH text)) rs 0))"

fun populate_all :: "filesystem \<Rightarrow> string \<Rightarrow> u16 \<Rightarrow> (string \<times> file_type_t) list \<Rightarrow> record_t list \<Rightarrow> record_t list option" where
  "populate_all fs ip port [] rs = Some rs"
| "populate_all fs ip port ((f, ty) # fls) rs =
     (case populate_timestamps_from_file fs f ty ip port rs of
        None \<Rightarrow> None
      | Some (rs', _) \<Rightarrow> populate_all fs ip port fls rs')"

section \<open>Deltas and output\<close>

record delta_definition_t =
  ts_a_field :: nat
  ts_b_field :: nat
  column_name :: string
  mode_mask :: u8

definition delta_def :: "nat \<Rightarrow> nat \<Rightarrow> string \<Rightarrow> u8 \<Rightarrow> delta_definition_t" where
  "delta_def a b name m = \<lparr>ts_a_field = a, ts_b_field = b, column_name = name, mode_mask = m\<rparr>"

definition ALL_DELTA_DEFINITIONS :: "delta_definition_t list" where
  "ALL_DELTA_DEFINITIONS =
    [delta_def FIELD_CLT_APP_TX_TS FIELD_CLT_KER_TX_TS ''delta_d1_clt_app_tx_to_ker_tx_us'' 0x0F,
     delta_def FIELD_CLT_HW_RX_TS FIELD_CLT_KER_RX_TS ''delta_d6_clt_hw_rx_to_ker_rx_us'' 0x02,
     delta_def FIELD_CLT_KER_RX_TS FIELD_CLT_APP_RX_TS ''delta_d7_clt_ker_rx_to_app_rx_us'' 0x02,
     delta_def FIELD_CLT_APP_TX_TS FIELD_CLT_HW_RX_TS ''delta_rtt_d1_clt_app_tx_to_hw_rx_us'' 0x02,
     delta_def FIELD_CLT_APP_TX_TS FIELD_CLT_APP_RX_TS ''delta_rtt_d2_clt_app_tx_to_app_rx_us'' 0x02,
     delta_def FIELD_CLT_APP_TX_TSC_TS FIELD_CLT_APP_RX_TSC_TS ''delta_rtt_d3_clt_app_tx_tsc_to_app_rx_tsc_us'' 0x02,
     delta_def FIELD_SVR_HW_RX_TS FIELD_SVR_KER_RX_TS ''delta_d2_svr_hw_rx_to_ker_rx_us'' 0x0C,
     delta_def FIELD_SVR_KER_RX_TS FIELD_SVR_APP_RX_TS ''delta_d3_svr_ker_rx_to_app_rx_us'' 0x0C,
     delta_def FIELD_SVR_APP_RX_TS FIELD_SVR_APP_TX_TS ''delta_d4_svr_app_rx_to_app_tx_us'' 0x08,
     delta_def FIELD_SVR_APP_TX_TS FIELD_SVR_KER_TX_TS ''delta_d5_svr_app_tx_to_ker_tx_us'' 0x08,
     delta_def FIELD_SVR_HW_RX_TS FIELD_SVR_APP_RX_TS ''delta_tt_d1_svr_hw_rx_to_app_rx_us'' 0x0C,
     delta_def FIELD_SVR_HW_RX_TS FIELD_SVR_KER_TX_TS ''delta_tt_d2_svr_hw_rx_to_ker_tx_us'' 0x08,
     delta_def FIELD_CLT_KER_TX_TS FIELD_SVR_HW_RX_TS ''delta_net_clt_ker_tx_to_svr_hw_rx_us'' 0x0C,
     delta_def FIELD_SVR_KER_TX_TS FIELD_CLT_HW_RX_TS ''delta_net_svr_ker_tx_to_clt_hw_rx_us'' 0x02,
     delta_def 0 0 [] 0]"

text \<open>The index arrays of \<open>MODE_DELTA_CONFIGS\<close>; the count of each is its length.\<close>

definition get_mode_delta_config :: "operation_mode_t \<Rightarrow> target_type_t \<Rightarrow> nat list" where
  "get_mode_delta_config mode target = (case (mode, target) of
     (MODE_ONE_WAY, TARGET_CLIENT) \<Rightarrow> [0]
   | (MODE_ROUND_TRIP, TARGET_CLIENT) \<Rightarrow> [0, 1, 2, 3, 4, 5]
   | (MODE_ONE_WAY, TARGET_SERVER) \<Rightarrow> [6, 7, 10]
   | (MODE_ROUND_TRIP, TARGET_SERVER) \<Rightarrow> [6, 7, 8, 9, 10, 11]
   | (MODE_ONE_WAY, TARGET_CLIENT_SERVER) \<Rightarrow> [0, 6, 7, 10, 12]
   | (MODE_ROUND_TRIP, TARGET_CLIENT_SERVER) \<Rightarrow> [0, 1, 2, 3, 4, 5, 6, 7, 8, 9, 10, 11, 12, 13])"

definition calculate_mode_deltas :: "record_t \<Rightarrow> operation_mode_t \<Rightarrow> target_type_t \<Rightarrow> delta_result_t list" where
  "calculate_mode_deltas r mode target =
     map (\<lambda>delta_idx.
            let d = ALL_DELTA_DEFINITIONS ! delta_idx;
                ts_a_ns = parse_timestamp_ns (rec_timestamps r ! ts_a_field d);
                ts_b_ns = parse_timestamp_ns (rec_timestamps r ! ts_b_field d)
            in calculate_delta_fast ts_a_ns ts_b_ns)
         (get_mode_delta_config mode target)"

definition get_output_header_with_deltas :: "operation_mode_t \<Rightarrow> target_type_t \<Rightarrow> string" where
  "get_output_header_with_deltas mode target = (case (mode, target) of
     (MODE_ONE_WAY, TARGET_CLIENT) \<Rightarrow>
       ''clt_src_ip,clt_src_port,seq_num,clt_app_tx_ts,clt_ker_tx_ts,delta_d1_clt_app_tx_to_ker_tx_us''
   | (MODE_ONE_WAY, TARGET_SERVER) \<Rightarrow>
       ''clt_src_ip,clt_src_port,seq_num,svr_hw_rx_ts,svr_ker_rx_ts,svr_app_rx_ts,delta_d2_svr_hw_rx_to_ker_rx_us,'' @
       ''delta_d3_svr_ker_rx_to_app_rx_us,delta_tt_d1_svr_hw_rx_to_app_rx_us''
   | (MODE_ONE_WAY, TARGET_CLIENT_SERVER) \<Rightarrow>
       ''clt_src_ip,clt_src_port,seq_num,clt_app_tx_ts,clt_ker_tx_ts,svr_hw_rx_ts,svr_ker_rx_ts,svr_app_rx_ts,'' @
       ''delta_d1_clt_app_tx_to_ker_tx_us,delta_d2_svr_hw_rx_to_ker_rx_us,delta_d3_svr_ker_rx_to_app_rx_us,'' @
       ''delta_tt_d1_svr_hw_rx_to_app_rx_us,delta_net_clt_ker_tx_to_svr_hw_rx_us''
   | (MODE_ROUND_TRIP, TARGET_CLIENT) \<Rightarrow>
       ''clt_src_ip,clt_src_port,seq_num,clt_app_tx_tsc_ts,clt_app_tx_ts,clt_ker_tx_ts,clt_hw_rx_ts,'' @
       ''clt_ker_rx_ts,clt_app_rx_tsc_ts,clt_app_rx_ts,delta_d1_clt_app_tx_to_ker_tx_us,delta_d6_clt_hw_rx_to_ker_rx_us,'' @
       ''delta_d7_clt_ker_rx_to_app_rx_us,delta_rtt_d1_clt_app_tx_to_hw_rx_us,delta_rtt_d2_clt_app_tx_to_app_rx_us,'' @
       ''delta_rtt_d3_clt_app_tx_tsc_to_app_rx_tsc_us''
   | (MODE_ROUND_TRIP, TARGET_SERVER) \<Rightarrow>
       ''clt_src_ip,clt_src_port,seq_num,svr_hw_rx_ts,svr_ker_rx_ts,svr_app_rx_ts,svr_app_tx_ts,svr_ker_tx_ts,'' @
       ''delta_d2_svr_hw_rx_to_ker_rx_us,delta_d3_svr_ker_rx_to_app_rx_us,delta_d4_svr_app_rx_to_app_tx_us,'' @
       ''delta_d5_svr_app_tx_to_ker_tx_us,delta_tt_d1_svr_hw_rx_to_app_rx_us,delta_tt_d2_svr_hw_rx_to_ker_tx_us''
   | (MODE_ROUND_TRIP, TARGET_CLIENT_SERVER) \<Rightarrow>
       ''clt_src_ip,clt_src_port,seq_num,clt_app_tx_tsc_ts,clt_app_tx_ts,clt_ker_tx_ts,svr_hw_rx_ts,'' @
       ''svr_ker_rx_ts,svr_app_rx_ts,svr_app_tx_ts,svr_ker_tx_ts,clt_hw_rx_ts,clt_ker_rx_ts,clt_app_rx_tsc_ts,'' @
       ''clt_app_rx_ts,delta_d1_clt_app_tx_to_ker_tx_us,delta_d6_clt_hw_rx_to_ker_rx_us,delta_d7_clt_ker_rx_to_app_rx_us,'' @
       ''delta_rtt_d1_clt_app_tx_to_hw_rx_us,delta_rtt_d2_clt_app_tx_to_app_rx_us,delta_rtt_d3_clt_app_tx_tsc_to_app_rx_tsc_us,'' @
       ''delta_d2_svr_hw_rx_to_ker_rx_us,delta_d3_svr_ker_rx_to_app_rx_us,delta_d4_svr_app_rx_to_app_tx_us,'' @
       ''delta_d5_svr_app_tx_to_ker_tx_us,delta_tt_d1_svr_hw_rx_to_app_rx_us,delta_tt_d2_svr_hw_rx_to_ker_tx_us,'' @
       ''delta_net_clt_ker_tx_to_svr_hw_rx_us,delta_net_svr_ker_tx_to_clt_hw_rx_us'')"

definition get_output_header :: "operation_mode_t \<Rightarrow> target_type_t \<Rightarrow> string" where
  "get_output_header mode target = get_output_header_with_deltas mode target"

text \<open>The timestamp fields the \<open>snprintf\<close> of each mode and target prints, in order.\<close>

definition output_columns :: "operation_mode_t \<Rightarrow> target_type_t \<Rightarrow> nat list" where
  "output_columns mode target = (case (mode, target) of
     (MODE_ONE_WAY, TARGET_CLIENT) \<Rightarrow> [FIELD_CLT_APP_TX_TS, FIELD_CLT_KER_TX_TS]
   | (MODE_ONE_WAY, TARGET_SERVER) \<Rightarrow> [FIELD_SVR_HW_RX_TS, FIELD_SVR_KER_RX_TS, FIELD_SVR_APP_RX_TS]
   | (MODE_ONE_WAY, TARGET_CLIENT_SERVER) \<Rightarrow>
       [FIELD_CLT_APP_TX_TS, FIELD_CLT_KER_TX_TS, FIELD_SVR_HW_RX_TS, FIELD_SVR_KER_RX_TS, FIELD_SVR_APP_RX_TS]
   | (MODE_ROUND_TRIP, TARGET_CLIENT) \<Rightarrow>
       [FIELD_CLT_APP_TX_TSC_TS, FIELD_CLT_APP_TX_TS, FIELD_CLT_KER_TX_TS, FIELD_CLT_HW_RX_TS,
        FIELD_CLT_KER_RX_TS, FIELD_CLT_APP_RX_TSC_TS, FIELD_CLT_APP_RX_TS]
   | (MODE_ROUND_TRIP, TARGET_SERVER) \<Rightarrow>
       [FIELD_SVR_HW_RX_TS, FIELD_SVR_KER_RX_TS, FIELD_SVR_APP_RX_TS, FIELD_SVR_APP_TX_TS, FIELD_SVR_KER_TX_TS]
   | (MODE_ROUND_TRIP, TARGET_CLIENT_SERVER) \<Rightarrow>
       [FIELD_CLT_APP_TX_TSC_TS, FIELD_CLT_APP_TX_TS, FIELD_CLT_KER_TX_TS, FIELD_SVR_HW_RX_TS,
        FIELD_SVR_KER_RX_TS, FIELD_SVR_APP_RX_TS, FIELD_SVR_APP_TX_TS, FIELD_SVR_KER_TX_TS,
        FIELD_CLT_HW_RX_TS, FIELD_CLT_KER_RX_TS, FIELD_CLT_APP_RX_TSC_TS, FIELD_CLT_APP_RX_TS])"

fun append_deltas :: "nat \<Rightarrow> delta_result_t list \<Rightarrow> string \<times> nat \<Rightarrow> (string \<times> nat) option" where
  "append_deltas max_len [] buf = Some buf"
| "append_deltas max_len (d # ds) buf =
     (case format_delta_to_buffer d 16 of
        None \<Rightarrow> None
      | Some (delta_buffer, _) \<Rightarrow>
          (case snprintf_at max_len buf ('','' @ delta_buffer) of
             None \<Rightarrow> None
           | Some buf' \<Rightarrow> append_deltas max_len ds buf'))"

text \<open>The line in the buffer and the return value; \<open>None\<close> is a write outside the buffer.\<close>

definition format_output_record ::
  "record_t \<Rightarrow> string \<Rightarrow> u16 \<Rightarrow> operation_mode_t \<Rightarrow> target_type_t \<Rightarrow> nat \<Rightarrow> (string \<times> nat) option" where
  "format_output_record r ip port mode target max_len =
     (case snprintf_at max_len ([], 0)
             (ip @ '','' @ show_dec (unat port) @ '','' @ show_dec (unat (rec_seq_num r))) of
        None \<Rightarrow> None
      | Some buf \<Rightarrow>
          (case snprintf_at max_len buf
                  (concat (map (\<lambda>i. '','' @ rec_timestamps r ! i) (output_columns mode target))) of
             None \<Rightarrow> None
           | Some buf' \<Rightarrow> append_deltas max_len (calculate_mode_deltas r mode target) buf'))"

fun output_lines :: "config_t \<Rightarrow> record_t list \<Rightarrow> string option" where
  "output_lines cfg [] = Some []"
| "output_lines cfg (r # rs) =
     (case format_output_record r (cfg_target_ip cfg) (cfg_target_port cfg) (cfg_mode cfg) (cfg_target cfg) MAX_LINE_LENGTH of
        None \<Rightarrow> None
      | Some (line, written) \<Rightarrow>
          (case output_lines cfg rs of
             None \<Rightarrow> None
           | Some rest \<Rightarrow> Some (if 0 < written then line @ [CHR 0x0A] @ rest else rest)))"

text \<open>
  The outcome of a stage: the return value with the file system after it, or a memory error.
\<close>

datatype join_outcome = Returned int filesystem | Memory_error

definition write_output_csv :: "join_env \<Rightarrow> filesystem \<Rightarrow> config_t \<Rightarrow> record_t list \<Rightarrow> join_outcome" where
  "write_output_csv env fs cfg rs =
     (if \<not> je_creatable env (cfg_output_file cfg) then Returned (- 1) fs
      else case output_lines cfg rs of
             None \<Rightarrow> Memory_error
           | Some text \<Rightarrow>
               Returned 0 (fs(cfg_output_file cfg \<mapsto>
                 get_output_header (cfg_mode cfg) (cfg_target cfg) @ [CHR 0x0A] @ text)))"

definition process_join_operation :: "join_env \<Rightarrow> filesystem \<Rightarrow> config_t \<Rightarrow> join_outcome" where
  "process_join_operation env fs cfg =
     (case find_common_sequences env fs cfg of
        None \<Rightarrow> Returned (- 1) fs
      | Some common_seqs \<Rightarrow>
          (if common_seqs = [] then Returned 0 fs
           else case create_record_table env common_seqs of
             None \<Rightarrow> Returned (- 1) fs
           | Some rs \<Rightarrow>
               (case populate_all fs (cfg_target_ip cfg) (cfg_target_port cfg)
                       (zip (cfg_input_files cfg) (cfg_detected_types cfg)) rs of
                  None \<Rightarrow> Returned (- 1) fs
                | Some rs' \<Rightarrow> write_output_csv env fs cfg rs')))"

section \<open>Command line\<close>















section \<open>Specification\<close>

text \<open>The rows of the target flow in a file, in order, and the sequence numbers all files share.\<close>

definition file_rows :: "filesystem \<Rightarrow> string \<Rightarrow> u16 \<Rightarrow> string \<Rightarrow> (string list \<times> u32) list" where
  "file_rows fs ip port f =
     (case fs f of
        None \<Rightarrow> []
      | Some text \<Rightarrow> List.map_filter (read_row ip port) (drop 1 (fgets_lines MAX_LINE_LENGTH text)))"

definition common_set :: "filesystem \<Rightarrow> config_t \<Rightarrow> u32 set" where
  "common_set fs cfg =
     (case map (\<lambda>f. snd ` set (file_rows fs (cfg_target_ip cfg) (cfg_target_port cfg) f)) (cfg_input_files cfg) of
        [] \<Rightarrow> {}
      | s # ss \<Rightarrow> {x \<in> s. list_all (\<lambda>t. x \<in> t) ss})"

text \<open>The rows of one file applied to the record of their sequence number; all files in order.\<close>

definition apply_rows :: "file_type_t \<Rightarrow> (string list \<times> u32) list \<Rightarrow> record_t \<Rightarrow> record_t" where
  "apply_rows ty rows r =
     fold (\<lambda>row. populate_record ty (fst row)) (filter (\<lambda>row. snd row = rec_seq_num r) rows) r"

definition join_record :: "filesystem \<Rightarrow> config_t \<Rightarrow> record_t \<Rightarrow> record_t" where
  "join_record fs cfg =
     fold (\<lambda>(f, ty). apply_rows ty (file_rows fs (cfg_target_ip cfg) (cfg_target_port cfg) f))
       (zip (cfg_input_files cfg) (cfg_detected_types cfg))"

definition delta_text :: "delta_result_t \<Rightarrow> string" where
  "delta_text d =
     (if delta_valid d then show_dec (unat (delta_whole_us d)) @ ''.'' @ show_pad 3 (unat (delta_frac_ns d))
      else ''NULL'')"

definition output_line :: "config_t \<Rightarrow> record_t \<Rightarrow> string" where
  "output_line cfg r =
     cfg_target_ip cfg @ '','' @ show_dec (unat (cfg_target_port cfg)) @ '','' @ show_dec (unat (rec_seq_num r)) @
     concat (map (\<lambda>i. '','' @ rec_timestamps r ! i) (output_columns (cfg_mode cfg) (cfg_target cfg))) @
     concat (map (\<lambda>d. '','' @ delta_text d) (calculate_mode_deltas r (cfg_mode cfg) (cfg_target cfg)))"

definition join_reference :: "filesystem \<Rightarrow> config_t \<Rightarrow> string" where
  "join_reference fs cfg =
     get_output_header (cfg_mode cfg) (cfg_target cfg) @ [CHR 0x0A] @
     concat (map (\<lambda>seq. output_line cfg (join_record fs cfg (new_record seq)) @ [CHR 0x0A])
               (sorted_list_of_set (common_set fs cfg)))"

text \<open>Conditions on the run: allocations succeed and the input files can be read.\<close>

definition mem_ok :: "join_env \<Rightarrow> bool" where
  "mem_ok env \<longleftrightarrow> (\<forall>n. je_alloc env n)"

definition readable :: "filesystem \<Rightarrow> config_t \<Rightarrow> bool" where
  "readable fs cfg \<longleftrightarrow> list_all (\<lambda>f. fs f \<noteq> None) (cfg_input_files cfg)"

definition record_wf :: "record_t \<Rightarrow> bool" where
  "record_wf r \<longleftrightarrow> length (rec_timestamps r) = 20 \<and> list_all (\<lambda>t. length t \<le> 31) (rec_timestamps r)"

section \<open>The common sequence numbers\<close>

lemma sequence_set_add_spec:
  assumes "mem_ok env" and "sequence_set_add env s x = (s', ok)" and "distinct (ss_sequences s)"
  shows "ok \<and> distinct (ss_sequences s') \<and> set (ss_sequences s') = insert x (set (ss_sequences s))"
  using assms by (auto simp: sequence_set_add_def mem_ok_def Let_def split: if_splits)

lemma map_filter_Cons:
  "List.map_filter f (x # xs) = (case f x of None \<Rightarrow> List.map_filter f xs | Some y \<Rightarrow> y # List.map_filter f xs)"
  by (simp add: List.map_filter_def split: option.splits)

lemma load_rows_spec:
  "mem_ok env \<Longrightarrow> distinct (ss_sequences s) \<Longrightarrow> load_rows env ip port ls s n = (s', n') \<Longrightarrow>
     distinct (ss_sequences s') \<and>
     set (ss_sequences s') = set (ss_sequences s) \<union> snd ` set (List.map_filter (read_row ip port) ls)"
proof (induction ls arbitrary: s n)
  case Nil
  then show ?case by (simp add: List.map_filter_def)
next
  case (Cons l ls)
  show ?case
  proof (cases "read_row ip port l")
    case None
    with Cons show ?thesis by (simp add: map_filter_Cons)
  next
    case (Some row)
    obtain s1 ok where add: "sequence_set_add env s (snd row) = (s1, ok)" by fastforce
    with sequence_set_add_spec [OF Cons.prems(1) add Cons.prems(2)]
    have s1: "distinct (ss_sequences s1)" "set (ss_sequences s1) = insert (snd row) (set (ss_sequences s))"
      by simp_all
    have "load_rows env ip port ls s1 (if ok then n + 1 else n) = (s', n')"
      using Cons.prems(3) Some add by (cases row) simp
    from Cons.IH [OF Cons.prems(1) s1(1) this] s1(2) Some show ?thesis
      by (simp add: map_filter_Cons)
  qed
qed

lemma load_all_sequences_spec:
  assumes "mem_ok env" and "list_all (\<lambda>f. fs f \<noteq> None) fls"
  shows "\<exists>ls. load_all_sequences env fs ip port fls = Some ls \<and> list_all distinct ls \<and>
    map set ls = map (\<lambda>f. snd ` set (file_rows fs ip port f)) fls"
  using assms(2)
proof (induction fls)
  case (Cons f fls)
  then obtain ls where ls: "load_all_sequences env fs ip port fls = Some ls" "list_all distinct ls"
    "map set ls = map (\<lambda>f. snd ` set (file_rows fs ip port f)) fls" by auto
  from Cons.prems obtain contents where contents: "fs f = Some contents" by auto
  obtain s n where r: "load_rows env ip port (drop 1 (fgets_lines MAX_LINE_LENGTH contents))
      \<lparr>ss_sequences = [], ss_capacity = 0\<rparr> 0 = (s, n)" by fastforce
  from load_rows_spec [OF assms(1) _ r] ls contents r show ?case
    by (simp add: load_sequences_from_file_def file_rows_def)
qed simp

lemma load_all_sequences_unreadable:
  "\<not> list_all (\<lambda>f. fs f \<noteq> None) fls \<Longrightarrow> load_all_sequences env fs ip port fls = None"
  by (induction fls) (auto simp: load_sequences_from_file_def split: option.splits)

lemma compare_uint32_le: "compare_uint32 x y \<le> 0 \<longleftrightarrow> x \<le> y"
  by (auto simp: compare_uint32_def)

lemma find_common_sequences_spec:
  assumes "mem_ok env" and "readable fs cfg"
  shows "find_common_sequences env fs cfg = Some (sorted_list_of_set (common_set fs cfg))"
proof -
  from load_all_sequences_spec [OF assms(1), of fs "cfg_input_files cfg" "cfg_target_ip cfg" "cfg_target_port cfg"]
    assms(2) obtain ls where ls:
    "load_all_sequences env fs (cfg_target_ip cfg) (cfg_target_port cfg) (cfg_input_files cfg) = Some ls"
    "list_all distinct ls"
    "map set ls = map (\<lambda>f. snd ` set (file_rows fs (cfg_target_ip cfg) (cfg_target_port cfg) f)) (cfg_input_files cfg)"
    by (auto simp: readable_def)
  show ?thesis
  proof (cases ls)
    case Nil
    with ls show ?thesis by (simp add: find_common_sequences_def common_set_def)
  next
    case (Cons first others)
    let ?c = "filter (\<lambda>seq. list_all (\<lambda>f. seq \<in> set f) others) first"
    have cs: "common_set fs cfg = set ?c"
      unfolding common_set_def ls(3) [symmetric] Cons by (auto simp: list_all_iff)
    have "distinct ?c" using ls(2) Cons by simp
    then have "sort ?c = sorted_list_of_set (common_set fs cfg)"
      unfolding cs by (metis distinct_remdups_id sorted_list_of_set_sort_remdups)
    with ls(1) Cons assms(1) cs show ?thesis
      by (auto simp: find_common_sequences_def mem_ok_def qsort_sort [OF compare_uint32_le])
  qed
qed

section \<open>The record table\<close>

lemma find_record_loop_correct:
  assumes "sorted_wrt (<) (map rec_seq_num rs)" and "0 \<le> left" and "right < int (length rs)"
    and "\<And>i. i < length rs \<Longrightarrow> rec_seq_num (rs ! i) = seq \<Longrightarrow> left \<le> int i \<and> int i \<le> right"
  shows "case find_record_loop rs seq left right of
      r \<Rightarrow> r = - 1 \<and> seq \<notin> rec_seq_num ` set rs \<or>
        (\<exists>i < length rs. r = int i \<and> rec_seq_num (rs ! i) = seq)"
  using assms
proof (induction rs seq left right rule: find_record_loop.induct)
  case (1 rs seq left right)
  let ?mid = "left + (right - left) div 2"
  show ?case
  proof (cases "left \<le> right")
    case False
    then have "seq \<notin> rec_seq_num ` set rs" using "1.prems"(4) by (fastforce simp: in_set_conv_nth)
    with False show ?thesis by (subst find_record_loop.simps) simp
  next
    case True
    then have mid: "left \<le> ?mid" "?mid \<le> right" by auto
    then have lt: "nat ?mid < length rs" using "1.prems"(2,3) by linarith
    have mono: "rec_seq_num (rs ! i) < rec_seq_num (rs ! j)" if "i < j" "j < length rs" for i j
      using "1.prems"(1) that by (simp add: sorted_wrt_iff_nth_less)
    consider "rec_seq_num (rs ! nat ?mid) = seq" | "rec_seq_num (rs ! nat ?mid) < seq"
      | "seq < rec_seq_num (rs ! nat ?mid)" by fastforce
    then show ?thesis
    proof cases
      case 1
      then have "find_record_loop rs seq left right = int (nat ?mid)"
        using True mid "1.prems"(2) by (subst find_record_loop.simps) (simp add: Let_def)
      then show ?thesis using 1 lt by auto
    next
      case 2
      then have eq: "find_record_loop rs seq left right = find_record_loop rs seq (?mid + 1) right"
        using True by (subst find_record_loop.simps) (auto simp: Let_def)
      have "?mid + 1 \<le> int i \<and> int i \<le> right" if "i < length rs" "rec_seq_num (rs ! i) = seq" for i
      proof -
        have "\<not> i < nat ?mid" using mono [of i "nat ?mid"] lt 2 that by auto
        moreover have "i \<noteq> nat ?mid" using 2 that by auto
        ultimately show ?thesis using "1.prems"(4) [OF that] mid "1.prems"(2) by linarith
      qed
      with "1.IH"(1) [OF True refl] 2 "1.prems" mid show ?thesis unfolding eq by simp
    next
      case 3
      then have eq: "find_record_loop rs seq left right = find_record_loop rs seq left (?mid - 1)"
        using True by (subst find_record_loop.simps) (auto simp: Let_def)
      have "left \<le> int i \<and> int i \<le> ?mid - 1" if "i < length rs" "rec_seq_num (rs ! i) = seq" for i
      proof -
        have "\<not> nat ?mid < i" using mono [of "nat ?mid" i] 3 that by auto
        moreover have "i \<noteq> nat ?mid" using 3 that by auto
        ultimately show ?thesis using "1.prems"(4) [OF that] mid "1.prems"(2) by linarith
      qed
      with "1.IH"(2) [OF True refl] 3 "1.prems" mid show ?thesis unfolding eq by (simp add: not_less_iff_gr_or_eq)
    qed
  qed
qed

lemma find_record_by_seq_correct:
  assumes "sorted_wrt (<) (map rec_seq_num rs)" and "length rs < 2 ^ 31"
  shows "find_record_by_seq rs seq = - 1 \<and> seq \<notin> rec_seq_num ` set rs \<or>
    (\<exists>i < length rs. find_record_by_seq rs seq = int i \<and> rec_seq_num (rs ! i) = seq)"
proof -
  have "unat (of_nat (length rs) :: u32) = length rs" using assms(2) by (simp add: unat_of_nat_small)
  then have "sint (of_nat (length rs) :: u32) = int (length rs)"
    using assms(2) u32_sint_small [of "of_nat (length rs)"] by simp
  then show ?thesis
    using find_record_loop_correct [OF assms(1), of 0 "int (length rs) - 1" seq]
    by (simp add: find_record_by_seq_def)
qed

lemma set_timestamp_frame [simp]:
  "rec_seq_num (set_timestamp i t r) = rec_seq_num r"
  "record_wf r \<Longrightarrow> record_wf (set_timestamp i t r)"
proof -
  show "rec_seq_num (set_timestamp i t r) = rec_seq_num r" by (simp add: set_timestamp_def)
  assume "record_wf r"
  then show "record_wf (set_timestamp i t r)"
    using set_update_subset_insert [of "rec_timestamps r" i "bounded_copy 32 t"]
    by (auto simp: record_wf_def set_timestamp_def list_all_iff bounded_copy_def)
qed

lemma populate_record_frame [simp]:
  "rec_seq_num (populate_record ty flds r) = rec_seq_num r"
  "record_wf r \<Longrightarrow> record_wf (populate_record ty flds r)"
  by (cases ty; simp add: populate_record_def)+

lemma apply_rows_Nil [simp]: "apply_rows ty [] r = r"
  by (simp add: apply_rows_def)

lemma apply_rows_Cons:
  "apply_rows ty (row # rows) r =
     apply_rows ty rows (if snd row = rec_seq_num r then populate_record ty (fst row) r else r)"
  by (simp add: apply_rows_def)

lemma apply_rows_frame:
  "rec_seq_num (apply_rows ty rows r) = rec_seq_num r"
  "record_wf r \<Longrightarrow> record_wf (apply_rows ty rows r)"
  by (induction rows arbitrary: r) (simp_all add: apply_rows_Cons)

lemma map_apply_rows_keys: "map rec_seq_num (map (apply_rows ty rows) rs) = map rec_seq_num rs"
  by (simp add: apply_rows_frame)

lemma update_at_key:
  assumes "distinct (map key rs)" and "i < length rs"
  shows "rs[i := g (rs ! i)] = map (\<lambda>r. if key (rs ! i) = key r then g r else r) rs"
proof (rule nth_equalityI)
  fix j
  assume "j < length (rs[i := g (rs ! i)])"
  then show "rs[i := g (rs ! i)] ! j = map (\<lambda>r. if key (rs ! i) = key r then g r else r) rs ! j"
    using assms by (auto simp: nth_list_update distinct_conv_nth)
qed simp

text \<open>The table with its binary search does what applying every row to its own record does.\<close>

lemma populate_rows_spec:
  "sorted_wrt (<) (map rec_seq_num rs) \<Longrightarrow> length rs < 2 ^ 31 \<Longrightarrow>
     fst (populate_rows ty ip port ls rs n) = map (apply_rows ty (List.map_filter (read_row ip port) ls)) rs"
proof (induction ls arbitrary: rs n)
  case Nil
  then show ?case by (simp add: List.map_filter_def)
next
  case (Cons l ls)
  show ?case
  proof (cases "read_row ip port l")
    case None
    with Cons show ?thesis by (simp add: map_filter_Cons)
  next
    case (Some row)
    let ?step = "\<lambda>r. if snd row = rec_seq_num r then populate_record ty (fst row) r else r"
    have keys: "map rec_seq_num (map ?step rs) = map rec_seq_num rs" by simp
    from find_record_by_seq_correct [OF Cons.prems, of "snd row"]
    consider "find_record_by_seq rs (snd row) = - 1" "snd row \<notin> rec_seq_num ` set rs"
      | i where "i < length rs" "find_record_by_seq rs (snd row) = int i" "rec_seq_num (rs ! i) = snd row"
      by blast
    then have "fst (populate_rows ty ip port (l # ls) rs n) =
        map (apply_rows ty (List.map_filter (read_row ip port) ls)) (map ?step rs)"
    proof cases
      case 1
      then have "map ?step rs = rs" by (intro map_idI) auto
      with 1 Some Cons.IH [OF Cons.prems] show ?thesis by (cases row) simp
    next
      case 2
      have "distinct (map rec_seq_num rs)" using Cons.prems(1) by (simp add: strict_sorted_iff)
      then have "rs[i := populate_record ty (fst row) (rs ! i)] = map ?step rs"
        using update_at_key [of rec_seq_num rs i "populate_record ty (fst row)"] 2 by simp
      then have "populate_rows ty ip port (l # ls) rs n = populate_rows ty ip port ls (map ?step rs) (n + 1)"
        using 2 Some by (cases row) simp
      moreover have "fst (populate_rows ty ip port ls (map ?step rs) (n + 1)) =
          map (apply_rows ty (List.map_filter (read_row ip port) ls)) (map ?step rs)"
        by (rule Cons.IH) (simp_all only: keys length_map Cons.prems)
      ultimately show ?thesis by simp
    qed
    with Some show ?thesis by (simp add: map_filter_Cons apply_rows_Cons)
  qed
qed

lemma populate_all_spec:
  "sorted_wrt (<) (map rec_seq_num rs) \<Longrightarrow> length rs < 2 ^ 31 \<Longrightarrow> list_all (\<lambda>p. fs (fst p) \<noteq> None) fls \<Longrightarrow>
     populate_all fs ip port fls rs =
       Some (map (fold (\<lambda>(f, ty). apply_rows ty (file_rows fs ip port f)) fls) rs)"
proof (induction fls arbitrary: rs)
  case Nil
  then show ?case by simp
next
  case (Cons p fls)
  obtain f ty where p: "p = (f, ty)" by fastforce
  with Cons.prems(3) obtain contents where c: "fs f = Some contents" by auto
  let ?rows = "List.map_filter (read_row ip port) (drop 1 (fgets_lines MAX_LINE_LENGTH contents))"
  have "\<exists>m. populate_timestamps_from_file fs f ty ip port rs = Some (map (apply_rows ty ?rows) rs, m)"
    using populate_rows_spec [OF Cons.prems(1,2)]
    by (metis c option.simps(5) populate_timestamps_from_file_def prod.exhaust_sel)
  moreover have "populate_all fs ip port fls (map (apply_rows ty ?rows) rs) =
      Some (map (fold (\<lambda>(f, ty). apply_rows ty (file_rows fs ip port f)) fls) (map (apply_rows ty ?rows) rs))"
    by (rule Cons.IH) (use Cons.prems in \<open>simp_all only: map_apply_rows_keys length_map list.pred_inject\<close>)
  ultimately show ?case using p c by (auto simp: file_rows_def)
qed

lemma new_record_wf [simp]: "record_wf (new_record seq)" "rec_seq_num (new_record seq) = seq"
  by (simp_all add: record_wf_def new_record_def MAX_TIMESTAMP_FIELDS_def list_all_iff)

lemma join_record_frame:
  assumes "record_wf r"
  shows "record_wf (join_record fs cfg r) \<and> rec_seq_num (join_record fs cfg r) = rec_seq_num r"
proof -
  have "record_wf (fold (\<lambda>(f, ty). apply_rows ty (g f)) fls r) \<and>
      rec_seq_num (fold (\<lambda>(f, ty). apply_rows ty (g f)) fls r) = rec_seq_num r" for fls g
    using assms by (induction fls arbitrary: r) (auto simp: apply_rows_frame)
  then show ?thesis by (simp add: join_record_def)
qed

section \<open>Output lines\<close>

lemma length_concat_bound: "(\<And>x. x \<in> set xs \<Longrightarrow> length x \<le> k) \<Longrightarrow> length (concat xs) \<le> k * length xs"
proof (induction xs)
  case (Cons x xs)
  then have "length x \<le> k" "length (concat xs) \<le> k * length xs" by simp_all
  then show ?case by simp
qed simp

lemma show_dec_u32: "length (show_dec (unat (x :: u32))) \<le> 10"
  using u32_bound [of x] by (intro length_show_dec) simp_all

lemma show_dec_u16: "length (show_dec (unat (x :: u16))) \<le> 5"
  using u16_bound [of x] by (intro length_show_dec) simp_all

lemma snprintf_at_fits:
  "length out = w \<Longrightarrow> w + length s < n \<Longrightarrow> snprintf_at n (out, w) s = Some (out @ s, length (out @ s))"
  by (simp add: snprintf_at_def bounded_copy_def)

definition delta_ok :: "delta_result_t \<Rightarrow> bool" where
  "delta_ok d \<longleftrightarrow> unat (delta_frac_ns d) < 1000"

lemma calculate_delta_ok: "delta_ok (calculate_delta_fast a b)"
proof -
  have "unat ((b - a) mod 1000) = unat (b - a) mod 1000" by (simp add: unat_mod_distrib)
  then have lt: "unat ((b - a) mod 1000) < 1000" by simp
  then have "unat (ucast ((b - a) mod 1000) :: u32) = unat ((b - a) mod 1000)"
    by (intro unat_ucast_small) (simp add: less_trans [OF lt])
  with lt show ?thesis by (simp add: delta_ok_def calculate_delta_fast_def Let_def)
qed

lemma delta_text_length: "delta_ok d \<Longrightarrow> length (delta_text d) \<le> 14"
  using show_dec_u32 [of "delta_whole_us d"] length_show_pad [of "unat (delta_frac_ns d)" 3]
  by (auto simp: delta_text_def delta_ok_def)

lemma format_delta_text:
  assumes "delta_ok d"
  shows "\<exists>m. format_delta_to_buffer d 16 = Some (delta_text d, m)"
proof -
  have "bounded_copy 16 (delta_text d) = delta_text d"
    using delta_text_length [OF assms] by (simp add: bounded_copy_def)
  then show ?thesis by (auto simp: format_delta_to_buffer_def Let_def delta_text_def)
qed

lemma append_deltas_spec:
  "list_all delta_ok ds \<Longrightarrow> length out + length (concat (map (\<lambda>d. '','' @ delta_text d) ds)) < n \<Longrightarrow>
     append_deltas n ds (out, length out) =
       Some (out @ concat (map (\<lambda>d. '','' @ delta_text d) ds), length (out @ concat (map (\<lambda>d. '','' @ delta_text d) ds)))"
proof (induction ds arbitrary: out)
  case (Cons d ds)
  then obtain m where "format_delta_to_buffer d 16 = Some (delta_text d, m)"
    using format_delta_text by auto
  moreover have "snprintf_at n (out, length out) ('','' @ delta_text d) =
      Some (out @ '','' @ delta_text d, length (out @ '','' @ delta_text d))"
    using Cons.prems by (intro snprintf_at_fits) simp_all
  ultimately show ?case using Cons.IH [of "out @ '','' @ delta_text d"] Cons.prems by simp
qed simp

lemma output_columns_bound:
  "length (output_columns mode target) \<le> 12" "list_all (\<lambda>i. i < 12) (output_columns mode target)"
  by (cases mode; cases target; simp add: output_columns_def field_index_defs)+

lemma delta_config_bound:
  "length (get_mode_delta_config mode target) \<le> 14"
  by (cases mode; cases target; simp add: get_mode_delta_config_def)

lemma calculate_mode_deltas_ok: "list_all delta_ok (calculate_mode_deltas r mode target)"
  by (simp add: calculate_mode_deltas_def list_all_iff Let_def calculate_delta_ok)

lemma output_line_lengths:
  assumes "record_wf r"
  shows "length (concat (map (\<lambda>i. '','' @ rec_timestamps r ! i) (output_columns mode target))) \<le> 384"
    and "length (concat (map (\<lambda>d. '','' @ delta_text d) (calculate_mode_deltas r mode target))) \<le> 210"
proof -
  have ts: "length (rec_timestamps r ! i) \<le> 31" if "i < 12" for i
    using assms that by (auto simp: record_wf_def list_all_length)
  have "length (concat (map (\<lambda>i. '','' @ rec_timestamps r ! i) (output_columns mode target)))
      \<le> 32 * length (map (\<lambda>i. '','' @ rec_timestamps r ! i) (output_columns mode target))"
    using output_columns_bound(2) [of mode target] ts by (intro length_concat_bound) (auto simp: list_all_iff)
  also have "\<dots> \<le> 384" using output_columns_bound(1) [of mode target] by simp
  finally show "length (concat (map (\<lambda>i. '','' @ rec_timestamps r ! i) (output_columns mode target))) \<le> 384" .
  have "length (concat (map (\<lambda>d. '','' @ delta_text d) (calculate_mode_deltas r mode target)))
      \<le> 15 * length (map (\<lambda>d. '','' @ delta_text d) (calculate_mode_deltas r mode target))"
    using calculate_mode_deltas_ok [of r mode target] delta_text_length
    by (intro length_concat_bound) (auto simp: list_all_iff)
  also have "\<dots> \<le> 210" using delta_config_bound [of mode target] by (simp add: calculate_mode_deltas_def)
  finally show "length (concat (map (\<lambda>d. '','' @ delta_text d) (calculate_mode_deltas r mode target))) \<le> 210" .
qed

lemma format_output_record_complete:
  assumes "record_wf r" and "length (cfg_target_ip cfg) \<le> 15"
  shows "format_output_record r (cfg_target_ip cfg) (cfg_target_port cfg) (cfg_mode cfg) (cfg_target cfg) MAX_LINE_LENGTH =
      Some (output_line cfg r, length (output_line cfg r)) \<and> length (output_line cfg r) \<le> 626"
proof -
  let ?a = "cfg_target_ip cfg @ '','' @ show_dec (unat (cfg_target_port cfg)) @ '','' @ show_dec (unat (rec_seq_num r))"
  let ?b = "concat (map (\<lambda>i. '','' @ rec_timestamps r ! i) (output_columns (cfg_mode cfg) (cfg_target cfg)))"
  let ?c = "concat (map (\<lambda>d. '','' @ delta_text d) (calculate_mode_deltas r (cfg_mode cfg) (cfg_target cfg)))"
  have la: "length ?a \<le> 32"
    using assms(2) show_dec_u16 [of "cfg_target_port cfg"] show_dec_u32 [of "rec_seq_num r"] by simp
  note lbc = output_line_lengths [OF assms(1), of "cfg_mode cfg" "cfg_target cfg"]
  have "snprintf_at MAX_LINE_LENGTH ([], 0) ?a = Some ([] @ ?a, length ([] @ ?a))"
    using la by (intro snprintf_at_fits) (simp_all add: MAX_LINE_LENGTH_def)
  moreover have "snprintf_at MAX_LINE_LENGTH (?a, length ?a) ?b = Some (?a @ ?b, length (?a @ ?b))"
    using la lbc by (intro snprintf_at_fits) (simp_all add: MAX_LINE_LENGTH_def)
  moreover have "append_deltas MAX_LINE_LENGTH (calculate_mode_deltas r (cfg_mode cfg) (cfg_target cfg)) (?a @ ?b, length (?a @ ?b)) =
      Some ((?a @ ?b) @ ?c, length ((?a @ ?b) @ ?c))"
    using la lbc calculate_mode_deltas_ok by (intro append_deltas_spec) (simp_all add: MAX_LINE_LENGTH_def)
  moreover have "output_line cfg r = (?a @ ?b) @ ?c" by (simp add: output_line_def)
  moreover have "length ((?a @ ?b) @ ?c) \<le> 626" using la lbc by simp
  ultimately show ?thesis by (simp add: format_output_record_def)
qed

lemma output_lines_spec:
  "list_all record_wf rs \<Longrightarrow> length (cfg_target_ip cfg) \<le> 15 \<Longrightarrow>
     output_lines cfg rs = Some (concat (map (\<lambda>r. output_line cfg r @ [CHR 0x0A]) rs))"
proof (induction rs)
  case (Cons r rs)
  then show ?case using format_output_record_complete [of r cfg]
    by (simp add: output_line_def)
qed simp

section \<open>The whole join\<close>

lemma process_join_unreadable:
  "\<not> readable fs cfg \<Longrightarrow> process_join_operation env fs cfg = Returned (- 1) fs"
  by (simp add: process_join_operation_def find_common_sequences_def load_all_sequences_unreadable readable_def)

lemma zip_readable: "readable fs cfg \<Longrightarrow> list_all (\<lambda>p. fs (fst p) \<noteq> None) (zip (cfg_input_files cfg) tys)"
  by (auto simp: readable_def list_all_iff dest: set_zip_leftD)

lemma process_join_operation_spec:
  assumes "mem_ok env" and "readable fs cfg" and "je_creatable env (cfg_output_file cfg)"
    and "length (cfg_target_ip cfg) \<le> 15" and "card (common_set fs cfg) < 2 ^ 31" and "common_set fs cfg \<noteq> {}"
  shows "process_join_operation env fs cfg = Returned 0 (fs(cfg_output_file cfg \<mapsto> join_reference fs cfg))"
proof -
  let ?seqs = "sorted_list_of_set (common_set fs cfg)"
  let ?rs = "map new_record ?seqs"
  have fin: "finite (common_set fs cfg)" by (simp add: finite)
  with assms(6) have ne: "?seqs \<noteq> []" by simp
  have keys: "map rec_seq_num ?rs = ?seqs" by (simp add: comp_def)
  have "sorted_wrt (<) (map rec_seq_num ?rs)" unfolding keys by (rule strict_sorted_list_of_set)
  moreover have "length ?rs < 2 ^ 31" using assms(5) by simp
  ultimately have pop: "populate_all fs (cfg_target_ip cfg) (cfg_target_port cfg)
      (zip (cfg_input_files cfg) (cfg_detected_types cfg)) ?rs = Some (map (join_record fs cfg) ?rs)"
    unfolding join_record_def by (rule populate_all_spec [OF _ _ zip_readable [OF assms(2)]])
  have "list_all record_wf (map (join_record fs cfg) ?rs)"
    using join_record_frame by (simp add: list_all_iff)
  then have "output_lines cfg (map (join_record fs cfg) ?rs) =
      Some (concat (map (\<lambda>r. output_line cfg r @ [CHR 0x0A]) (map (join_record fs cfg) ?rs)))"
    by (rule output_lines_spec [OF _ assms(4)])
  then show ?thesis
    using find_common_sequences_spec [OF assms(1,2)] ne assms(1,3) pop
    by (simp add: process_join_operation_def create_record_table_def mem_ok_def write_output_csv_def
        join_reference_def comp_def)
qed

lemma process_join_empty:
  assumes "mem_ok env" and "readable fs cfg" and "common_set fs cfg = {}"
  shows "process_join_operation env fs cfg = Returned 0 fs"
  using find_common_sequences_spec [OF assms(1,2)] assms(3) by (simp add: process_join_operation_def)

subsection \<open>Memory safety of every run\<close>













text \<open>A small run: two input files of one client, with sequence number 2 in both.\<close>

definition sample_fs :: filesystem where
  "sample_fs =
     [''m.csv'' \<mapsto> ''clt_src_ip,clt_src_port,seq_num,clt_app_tx_ts'' @ [CHR 0x0A] @
                    ''10.0.0.1,5000,1,1.500000000'' @ [CHR 0x0A] @ ''10.0.0.1,5000,2,1.600000000'' @ [CHR 0x0A],
      ''t.csv'' \<mapsto> ''clt_src_ip,clt_src_port,seq_num,clt_ker_tx_ts'' @ [CHR 0x0A] @
                    ''10.0.0.1,5000,2,1.600012345'' @ [CHR 0x0A] @ ''10.0.0.2,5000,1,1.700000000'' @ [CHR 0x0A]]"

definition sample_cfg :: config_t where
  "sample_cfg =
     \<lparr>cfg_target_ip = ''10.0.0.1'', cfg_target_port = 5000, cfg_mode = MODE_ONE_WAY, cfg_target = TARGET_CLIENT,
      cfg_input_files = [''m.csv'', ''t.csv''], cfg_output_file = ''out.csv'',
      cfg_detected_types = [FILE_CLIENT_ONEWAY_MAIN, FILE_CLIENT_ONEWAY_TX]\<rparr>"

definition sample_env :: join_env where
  "sample_env = \<lparr>je_alloc = (\<lambda>_. True), je_creatable = (\<lambda>_. True)\<rparr>"

lemma sample_run:
  "mem_ok sample_env" "readable sample_fs sample_cfg" "je_creatable sample_env f"
  "length (cfg_target_ip sample_cfg) \<le> 15" "cfg_input_files sample_cfg \<noteq> []"
  by (simp add: mem_ok_def sample_env_def, code_simp, simp add: sample_env_def, code_simp, simp add: sample_cfg_def)

lemma sample_rows:
  "file_rows sample_fs ''10.0.0.1'' 5000 ''m.csv'' =
     [([''10.0.0.1'', ''5000'', ''1'', ''1.500000000''], 1), ([''10.0.0.1'', ''5000'', ''2'', ''1.600000000''], 2)]"
  "file_rows sample_fs ''10.0.0.1'' 5000 ''t.csv'' = [([''10.0.0.1'', ''5000'', ''2'', ''1.600012345''], 2)]"
  by code_simp+

lemma sample_common: "common_set sample_fs sample_cfg = {2}"
  by (auto simp: common_set_def sample_cfg_def sample_rows)

definition sample_joined :: record_t where
  "sample_joined =
     \<lparr>rec_seq_num = 2, rec_timestamps = [''NULL'', ''1.600000000'', ''1.600012345''] @ replicate 17 ''NULL'',
      rec_field_mask = 6\<rparr>"

lemma sample_join_record: "join_record sample_fs sample_cfg (new_record 2) = sample_joined"
proof -
  have "apply_rows FILE_CLIENT_ONEWAY_TX [([''10.0.0.1'', ''5000'', ''2'', ''1.600012345''], 2)]
      (apply_rows FILE_CLIENT_ONEWAY_MAIN
        [([''10.0.0.1'', ''5000'', ''1'', ''1.500000000''], 1), ([''10.0.0.1'', ''5000'', ''2'', ''1.600000000''], 2)]
        (new_record 2)) = sample_joined"
    by code_simp
  then show ?thesis by (simp add: join_record_def sample_cfg_def sample_rows)
qed

lemma sample_output_line: "output_line sample_cfg sample_joined = ''10.0.0.1,5000,2,1.600000000,1.600012345,12.345''"
  by code_simp

section \<open>Properties\<close>

text \<open>
  C1. The join computes the relational join of its input files: when allocations succeed, the files
  can be read and the output file can be created, the output file holds the header and then, for each sequence
  number that occurs in a row of the target flow in every file, in increasing order, one line with the columns of all
  files for that number and the deltas.  Without a common number nothing is written.
\<close>

theorem process_join_refines_reference:
  assumes "mem_ok env" and "readable fs cfg" and "je_creatable env (cfg_output_file cfg)"
    and "length (cfg_target_ip cfg) \<le> 15" and "card (common_set fs cfg) < 2 ^ 31"
  shows "process_join_operation env fs cfg =
    Returned 0 (if common_set fs cfg = {} then fs else fs(cfg_output_file cfg \<mapsto> join_reference fs cfg))"
  using process_join_operation_spec [OF assms] process_join_empty [OF assms(1,2)] by simp

theorem process_join_refines_reference_witness:
  "process_join_operation sample_env sample_fs sample_cfg = Returned 0 (sample_fs(''out.csv'' \<mapsto>
     ''clt_src_ip,clt_src_port,seq_num,clt_app_tx_ts,clt_ker_tx_ts,delta_d1_clt_app_tx_to_ker_tx_us'' @ [CHR 0x0A] @
     ''10.0.0.1,5000,2,1.600000000,1.600012345,12.345'' @ [CHR 0x0A]))"
proof -
  have "join_reference sample_fs sample_cfg =
      ''clt_src_ip,clt_src_port,seq_num,clt_app_tx_ts,clt_ker_tx_ts,delta_d1_clt_app_tx_to_ker_tx_us'' @ [CHR 0x0A] @
      ''10.0.0.1,5000,2,1.600000000,1.600012345,12.345'' @ [CHR 0x0A]"
    unfolding join_reference_def sample_common
    by (simp add: sample_join_record sample_output_line get_output_header_def get_output_header_with_deltas_def)
      (simp add: sample_cfg_def)
  moreover have "cfg_output_file sample_cfg = ''out.csv''" by (simp add: sample_cfg_def)
  ultimately show ?thesis
    using process_join_refines_reference [OF sample_run(1-4)] by (simp add: sample_common)
qed

text \<open>
  The common sequence numbers are found exactly: the result is strictly increasing and contains
  a number if and only if every input file has a row of the target flow with it.
\<close>

theorem find_common_sequences_correct:
  assumes "mem_ok env" and "readable fs cfg" and "cfg_input_files cfg \<noteq> []"
  shows "\<exists>seqs. find_common_sequences env fs cfg = Some seqs \<and> sorted_wrt (<) seqs \<and>
    (\<forall>x. x \<in> set seqs \<longleftrightarrow> (\<forall>f \<in> set (cfg_input_files cfg).
       x \<in> snd ` set (file_rows fs (cfg_target_ip cfg) (cfg_target_port cfg) f)))"
proof -
  have "finite (common_set fs cfg)" by (simp add: finite)
  moreover obtain f fls where "cfg_input_files cfg = f # fls" using assms(3) by (cases "cfg_input_files cfg") auto
  ultimately show ?thesis
    using find_common_sequences_spec [OF assms(1,2)] strict_sorted_list_of_set
    by (auto simp: common_set_def list_all_iff)
qed

theorem find_common_sequences_correct_witness:
  "\<exists>seqs. find_common_sequences sample_env sample_fs sample_cfg = Some seqs \<and> sorted_wrt (<) seqs \<and> 2 \<in> set seqs"
proof -
  have "list_all (\<lambda>f. 2 \<in> snd ` set (file_rows sample_fs (cfg_target_ip sample_cfg) (cfg_target_port sample_cfg) f))
      (cfg_input_files sample_cfg)" by code_simp
  then show ?thesis
    using find_common_sequences_correct [OF sample_run(1,2,5)] by (auto simp: list_all_iff)
qed

text \<open>
  The binary search returns the index of the record with the given sequence number, or -1 exactly
  when no record has it, for every table sorted by sequence number.
\<close>

theorem find_record_by_seq_search:
  assumes "sorted_wrt (<) (map rec_seq_num rs)" and "length rs < 2 ^ 31"
  shows "find_record_by_seq rs seq = - 1 \<and> seq \<notin> rec_seq_num ` set rs \<or>
    (\<exists>i < length rs. find_record_by_seq rs seq = int i \<and> rec_seq_num (rs ! i) = seq)"
  by (rule find_record_by_seq_correct [OF assms])

theorem find_record_by_seq_search_witness:
  "find_record_by_seq (map new_record [3, 8, 21]) 8 = 1 \<and> find_record_by_seq (map new_record [3, 8, 21]) 9 = - 1"
proof -
  have s: "sorted_wrt (<) (map rec_seq_num (map new_record [3, 8, 21]))" by code_simp
  have "find_record_by_seq (map new_record [3, 8, 21]) 9 = - 1"
    using find_record_by_seq_search [OF s, of 9] by (auto simp: less_Suc_eq numeral_3_eq_3 nth_Cons')
  moreover have "find_record_by_seq (map new_record [3, 8, 21]) 8 = 1"
    using find_record_by_seq_search [OF s, of 8] by (auto simp: less_Suc_eq numeral_3_eq_3 nth_Cons')
  ultimately show ?thesis by simp
qed

text \<open>
  A record is printed completely within the 2048 byte line buffer: at most 626 characters, the
  buffer is never overrun and nothing is cut off.
\<close>

theorem format_output_record_fits:
  assumes "record_wf r" and "length (cfg_target_ip cfg) \<le> 15"
  shows "format_output_record r (cfg_target_ip cfg) (cfg_target_port cfg) (cfg_mode cfg) (cfg_target cfg) MAX_LINE_LENGTH =
      Some (output_line cfg r, length (output_line cfg r)) \<and> length (output_line cfg r) \<le> 626"
  by (rule format_output_record_complete [OF assms])

theorem format_output_record_fits_witness:
  "format_output_record (new_record 7) ''10.0.0.1'' 5000 MODE_ONE_WAY TARGET_CLIENT MAX_LINE_LENGTH =
     Some (''10.0.0.1,5000,7,NULL,NULL,NULL'', 30)"
proof -
  have "output_line sample_cfg (new_record 7) = ''10.0.0.1,5000,7,NULL,NULL,NULL''" by code_simp
  then show ?thesis
    using format_output_record_fits [OF new_record_wf(1) sample_run(4), of 7] by (simp add: sample_cfg_def)
qed


text \<open>The header names of the timestamp fields.\<close>

definition field_names :: "string list" where
  "field_names =
     [''clt_app_tx_tsc_ts'', ''clt_app_tx_ts'', ''clt_ker_tx_ts'', ''svr_hw_rx_ts'', ''svr_ker_rx_ts'',
      ''svr_app_rx_ts'', ''svr_app_tx_ts'', ''svr_ker_tx_ts'', ''clt_hw_rx_ts'', ''clt_ker_rx_ts'',
      ''clt_app_rx_tsc_ts'', ''clt_app_rx_ts'']"

text \<open>
  The output header names the columns in the order in which the lines print them: address,
  port and sequence number, then the timestamp fields of the mode and target, then the deltas.
\<close>

theorem output_header_matches_columns:
  "split_on (CHR '','') (get_output_header mode target) =
     [''clt_src_ip'', ''clt_src_port'', ''seq_num''] @
     map (\<lambda>i. field_names ! i) (output_columns mode target) @
     map (\<lambda>d. column_name (ALL_DELTA_DEFINITIONS ! d)) (get_mode_delta_config mode target)"
  by (cases mode; cases target; hypsubst; code_simp)

end
