(* ===== verification/Return_Queue.thy ===== *)
theory Return_Queue
  imports Spsc_Protocol
begin

text \<open>
  The server's queue of return packets (\<open>timestamp_server.c\<close>): requests, creation and destruction,
  enqueue, dequeue and batch dequeue.  It is the second instance of the bounded queue contract
  and of the lock-free protocol; the producer index is \<open>tail\<close> and the consumer index is \<open>head\<close> here.
\<close>

section \<open>Definitions\<close>

text \<open>\<open>struct sockaddr_in\<close> as address and port.\<close>

type_synonym sockaddr_in = "u32 \<times> u16"

record return_packet_request =
  rq_seq_num :: u32
  rq_return_addr :: sockaddr_in
  rq_packet_data :: "u8 list"
  rq_packet_size :: u64
  rq_original_client_src_port :: int

record return_packet_queue =
  rp_requests :: "return_packet_request list"
  rp_head :: u32
  rp_tail :: u32
  rp_size_mask :: u32

text \<open>
  The two allocations: whether the queue structure is available, and the (unspecified) contents of
  the request array.
\<close>

definition create_return_packet_queue ::
  "bool \<Rightarrow> (nat \<Rightarrow> return_packet_request) option \<Rightarrow> u32 \<Rightarrow> return_packet_queue option" where
  "create_return_packet_queue queue_ok raw size0 =
     (let n = (if size0 = 0 \<or> size0 AND (size0 - 1) \<noteq> 0 then 4096 else size0)
      in if \<not> queue_ok then None
         else case raw of
                None \<Rightarrow> None
              | Some f \<Rightarrow> Some \<lparr>rp_requests = map f [0..<unat n], rp_head = 0, rp_tail = 0, rp_size_mask = n - 1\<rparr>)"

definition enqueue_return_packet_request ::
  "return_packet_queue \<Rightarrow> return_packet_request \<Rightarrow> return_packet_queue \<times> bool" where
  "enqueue_return_packet_request q req =
     (let current_tail = rp_tail q;
          next_tail = (current_tail + 1) AND rp_size_mask q
      in if next_tail = rp_head q then (q, False)
         else (q\<lparr>rp_requests := (rp_requests q)[unat current_tail := req], rp_tail := next_tail\<rparr>, True))"

definition dequeue_return_packet_request ::
  "return_packet_queue \<Rightarrow> (return_packet_request \<times> return_packet_queue) option" where
  "dequeue_return_packet_request q =
     (let current_head = rp_head q
      in if current_head = rp_tail q then None
         else Some (rp_requests q ! unat current_head,
                    q\<lparr>rp_head := (current_head + 1) AND rp_size_mask q\<rparr>))"

definition dequeue_return_packet_batch ::
  "return_packet_queue \<Rightarrow> int \<Rightarrow> return_packet_request list \<times> return_packet_queue" where
  "dequeue_return_packet_batch q batch_size = deq_upto dequeue_return_packet_request (nat batch_size) q"

text \<open>The queue depth the transmit thread computes for its adaptive batch size.\<close>

definition queue_depth :: "return_packet_queue \<Rightarrow> u32" where
  "queue_depth q = (rp_tail q - rp_head q) AND rp_size_mask q"

definition return_queue_wf :: "return_packet_queue \<Rightarrow> bool" where
  "return_queue_wf q \<longleftrightarrow> ring_wf (rp_requests q) (rp_head q) (rp_tail q) (rp_size_mask q)"

definition return_queue_contents :: "return_packet_queue \<Rightarrow> return_packet_request list" where
  "return_queue_contents q = ring_contents (rp_requests q) (rp_head q) (rp_tail q) (rp_size_mask q)"

definition return_queue_room :: "return_packet_queue \<Rightarrow> nat" where
  "return_queue_room q = unat (rp_size_mask q)"

section \<open>The queue contract\<close>

lemma return_queue_depth: "unat (queue_depth q) = length (return_queue_contents q)"
  by (simp add: queue_depth_def return_queue_contents_def length_ring_contents ring_count_def)

interpretation returnq: bounded_fifo return_queue_wf return_queue_contents return_queue_room
  enqueue_return_packet_request dequeue_return_packet_request
proof unfold_locales
  fix q x
  assume q: "return_queue_wf q" and l: "length (return_queue_contents q) < return_queue_room q"
  then have wf: "ring_wf (rp_requests q) (rp_head q) (rp_tail q) (rp_size_mask q)" by (simp add: return_queue_wf_def)
  have "(rp_tail q + 1) AND rp_size_mask q \<noteq> rp_head q"
    using ring_full_iff [OF wf] l
    by (simp add: return_queue_contents_def length_ring_contents return_queue_room_def)
  then show "\<exists>q'. enqueue_return_packet_request q x = (q', True) \<and> return_queue_wf q' \<and>
      return_queue_contents q' = return_queue_contents q @ [x] \<and> return_queue_room q' = return_queue_room q"
    using ring_push_contents [OF wf, of x]
    by (simp add: enqueue_return_packet_request_def Let_def return_queue_wf_def return_queue_contents_def return_queue_room_def)
next
  fix q x
  assume q: "return_queue_wf q" and l: "return_queue_room q \<le> length (return_queue_contents q)"
  then have wf: "ring_wf (rp_requests q) (rp_head q) (rp_tail q) (rp_size_mask q)" by (simp add: return_queue_wf_def)
  have "ring_count (rp_head q) (rp_tail q) (rp_size_mask q) = unat (rp_size_mask q)"
    using l ring_count_bound [of "rp_head q" "rp_tail q" "rp_size_mask q"]
    by (simp add: return_queue_contents_def length_ring_contents return_queue_room_def)
  then show "enqueue_return_packet_request q x = (q, False)"
    using ring_full_iff [OF wf] by (simp add: enqueue_return_packet_request_def Let_def)
next
  fix q
  assume "return_queue_wf q" and "return_queue_contents q = []"
  then show "dequeue_return_packet_request q = None"
    using ring_empty_iff by (auto simp: return_queue_wf_def return_queue_contents_def dequeue_return_packet_request_def Let_def)
next
  fix q x xs
  assume q: "return_queue_wf q" and c: "return_queue_contents q = x # xs"
  then have wf: "ring_wf (rp_requests q) (rp_head q) (rp_tail q) (rp_size_mask q)" by (simp add: return_queue_wf_def)
  have ne: "rp_head q \<noteq> rp_tail q"
    using c ring_empty_iff [OF wf] by (simp add: return_queue_contents_def)
  from ring_pop_contents [OF wf ne] c ne show
    "\<exists>q'. dequeue_return_packet_request q = Some (x, q') \<and> return_queue_wf q' \<and>
      return_queue_contents q' = xs \<and> return_queue_room q' = return_queue_room q"
    by (simp add: dequeue_return_packet_request_def Let_def return_queue_wf_def return_queue_contents_def return_queue_room_def)
qed

lemma dequeue_return_packet_batch_take:
  assumes "return_queue_wf q" and "dequeue_return_packet_batch q n = (xs, q')"
  shows "xs = take (nat n) (return_queue_contents q) \<and> return_queue_wf q' \<and>
    return_queue_contents q' = drop (nat n) (return_queue_contents q) \<and> return_queue_room q' = return_queue_room q"
  using returnq.deq_upto_take [OF assms(1)] assms(2) by (simp add: dequeue_return_packet_batch_def)

definition return_view ::
  "return_packet_queue \<Rightarrow> return_packet_request list \<Rightarrow> return_packet_request list \<Rightarrow> return_packet_request spsc" where
  "return_view q published delivered =
     spsc_view (rp_requests q) (rp_head q) (rp_tail q) (rp_size_mask q) published delivered"

lemma return_view_inv: "return_queue_wf q \<Longrightarrow> spsc_inv (return_view q (return_queue_contents q) [])"
  unfolding return_view_def by (rule spsc_view_inv) (simp_all add: return_queue_wf_def return_queue_contents_def)

lemma return_enqueue_run:
  "enqueue_return_packet_request q x = (q', True) \<Longrightarrow>
     producer_step\<^sup>*\<^sup>* (return_view q pub del) (return_view q' (pub @ [x]) del)"
  using producer_run_accept [of "rp_tail q" "rp_size_mask q" "rp_head q" "rp_requests q" pub del x]
  by (auto simp: enqueue_return_packet_request_def Let_def return_view_def split: if_splits)

section \<open>Properties\<close>

text \<open>
  A queue created for any requested size is empty and well formed, with the requested number of
  slots when that is a power of two and 4096 slots otherwise, of which one always stays free.
\<close>

lemma create_return_packet_queue_ok:
  assumes "create_return_packet_queue ok raw n = Some q"
  shows "return_queue_wf q \<and> return_queue_contents q = [] \<and>
    return_queue_room q = (if \<exists>k<32. n = 2 ^ k then unat n else 4096) - 1"
proof -
  let ?n = "if n = 0 \<or> n AND (n - 1) \<noteq> 0 then 4096 else n :: u32"
  have pow: "n \<noteq> 0 \<and> n AND (n - 1) = 0 \<longleftrightarrow> (\<exists>k<32. n = 2 ^ k)"
  proof
    assume "n \<noteq> 0 \<and> n AND (n - 1) = 0"
    then show "\<exists>k<32. n = 2 ^ k" using word_and_pred_power_of_2 [of n] by auto
  next
    assume "\<exists>k<32. n = 2 ^ k"
    then obtain k where k: "k < 32" "n = 2 ^ k" by blast
    then have "unat n = 2 ^ k" using unat_power_of_2 [where 'a = 32, of k] by simp
    then have "n \<noteq> 0" by (metis power_not_zero unat_0 zero_neq_numeral)
    then show "n \<noteq> 0 \<and> n AND (n - 1) = 0" using k word_power_of_2_and_pred [where 'a = 32, of k] by simp
  qed
  have nz: "?n \<noteq> 0" "?n AND (?n - 1) = 0" by auto
  then have "Suc (unat (?n - 1)) = unat ?n" by (simp add: unat_minus_one unat_gt_0)
  moreover have "q = \<lparr>rp_requests = map (the raw) [0..<unat ?n], rp_head = 0, rp_tail = 0, rp_size_mask = ?n - 1\<rparr>"
    using assms by (auto simp: create_return_packet_queue_def Let_def split: if_splits option.splits)
  moreover have "unat (?n - 1) = (if \<exists>k<32. n = 2 ^ k then unat n else 4096) - 1"
    using pow nz(1) by (auto simp: unat_minus_one)
  ultimately show ?thesis using nz
    by (simp add: return_queue_wf_def ring_wf_def return_queue_contents_def ring_contents_def ring_count_def return_queue_room_def)
qed

text \<open>
  C23. The return packet queue is first-in first-out under every sequence of operations, and under
  every interleaving of the memory accesses of the receive loop and the transmit thread it delivers the
  published requests in order, without a data race on a slot.
\<close>

theorem return_queue_fifo_concurrent:
  assumes "return_queue_wf q"
  shows "(run_ops enqueue_return_packet_request dequeue_return_packet_request q ops = (q', accepted, delivered) \<longrightarrow>
      return_queue_contents q @ accepted = delivered @ return_queue_contents q') \<and>
    (spsc_reach (return_view q (return_queue_contents q) []) s \<longrightarrow>
      sp_published s = sp_delivered s @ sp_contents s \<and> \<not> spsc_race s)"
  using returnq.run_ops_fifo [OF assms] spsc_reach_safe [OF _ return_view_inv [OF assms]] by blast

definition sample_request :: "nat \<Rightarrow> return_packet_request" where
  "sample_request n =
     \<lparr>rq_seq_num = of_nat n, rq_return_addr = (0x0A000001, 5000), rq_packet_data = [0, 0, 0, of_nat n, 0, 0, 0, 0],
      rq_packet_size = 4, rq_original_client_src_port = 5000\<rparr>"

definition sample_queue :: return_packet_queue where
  "sample_queue = \<lparr>rp_requests = map sample_request [0..<4], rp_head = 3, rp_tail = 1, rp_size_mask = 3\<rparr>"

lemma create_return_packet_queue_ok_witness:
  "\<exists>q. create_return_packet_queue True (Some sample_request) 4 = Some q \<and> return_queue_wf q \<and> return_queue_contents q = [] \<and>
     return_queue_room q = 3"
proof -
  obtain q where q: "create_return_packet_queue True (Some sample_request) 4 = Some q"
    by (simp add: create_return_packet_queue_def)
  moreover have "\<exists>k<32. (4 :: u32) = 2 ^ k" by (rule exI [of _ 2]) simp
  ultimately show ?thesis using create_return_packet_queue_ok [OF q] by simp
qed

theorem return_queue_fifo_concurrent_witness:
  "case run_ops enqueue_return_packet_request dequeue_return_packet_request sample_queue
          [Deq, Enq (sample_request 7)] of (q', accepted, delivered) \<Rightarrow>
     accepted = [sample_request 7] \<and> delivered = [sample_request 3] \<and>
     return_queue_contents q' = [sample_request 0, sample_request 7]"
proof -
  let ?ops = "[Deq, Enq (sample_request 7)]"
  obtain q' accepted delivered where
    r: "run_ops enqueue_return_packet_request dequeue_return_packet_request sample_queue ?ops = (q', accepted, delivered)"
    by (metis prod_cases3)
  have wf: "return_queue_wf sample_queue" by code_simp
  have "return_queue_contents sample_queue = [sample_request 3, sample_request 0]" by code_simp
  moreover have "accepted = [sample_request 7] \<and> delivered = [sample_request 3]"
    using r by (simp add: sample_queue_def enqueue_return_packet_request_def dequeue_return_packet_request_def Let_def)
  moreover have "return_queue_contents sample_queue @ accepted = delivered @ return_queue_contents q'"
    using return_queue_fifo_concurrent [OF wf] r by blast
  ultimately show ?thesis using r by simp
qed

end
