(* ===== verification/Stats_Collector.thy ===== *)
theory Stats_Collector
  imports Ring_Queue
begin

text \<open>
  The statistics collector of \<open>timestamp_common.h\<close> and \<open>timestamp_common.c\<close>: a ring of recent packets that
  overwrites its oldest entry when full, and the functions that later fill in timestamps of the
  newest entry with a given sequence number.  The lemmas relate the ring to the list of all
  recorded entries: it holds the last \<open>capacity - 1\<close> of them.
\<close>

section \<open>Definitions\<close>

datatype timestamp_mode_t =
    TIMESTAMP_MODE_CLIENT_ONEWAY | TIMESTAMP_MODE_CLIENT_ROUNDTRIP
  | TIMESTAMP_MODE_SERVER_ONEWAY | TIMESTAMP_MODE_SERVER_ROUNDTRIP | TIMESTAMP_MODE_OTHER

datatype stats_mode_type_t =
    STATS_CLIENT_ONEWAY | STATS_CLIENT_ROUNDTRIP | STATS_SERVER_ONEWAY | STATS_SERVER_ROUNDTRIP

record stats_config_t =
  sc_enabled :: bool
  sc_buffer_size :: u32
  sc_bin_width_us :: u32
  sc_max_bins :: u32

record stats_entry_t =
  se_seq_num :: u32
  se_timestamp_ns :: "u64 list"
  se_src_port :: u16
  se_entry_type :: u8
  se_timestamp_mask :: u8

text \<open>An empty buffer list stands for the null pointer; an allocated buffer has at least one slot.\<close>

record stats_collector_t =
  st_buffer :: "stats_entry_t list"
  st_head :: u32
  st_tail :: u32
  st_size_mask :: u32
  st_capacity :: u32
  st_program_mode :: u8
  st_total_entries :: u64
  st_dropped_entries :: u64

definition timestamp_mode_code :: "timestamp_mode_t \<Rightarrow> u8" where
  "timestamp_mode_code m = (case m of
     TIMESTAMP_MODE_CLIENT_ONEWAY \<Rightarrow> 1 | TIMESTAMP_MODE_CLIENT_ROUNDTRIP \<Rightarrow> 2
   | TIMESTAMP_MODE_SERVER_ONEWAY \<Rightarrow> 3 | TIMESTAMP_MODE_SERVER_ROUNDTRIP \<Rightarrow> 4 | TIMESTAMP_MODE_OTHER \<Rightarrow> 0)"

definition stats_mode_code :: "stats_mode_type_t \<Rightarrow> u8" where
  "stats_mode_code m = (case m of
     STATS_CLIENT_ONEWAY \<Rightarrow> 1 | STATS_CLIENT_ROUNDTRIP \<Rightarrow> 2 | STATS_SERVER_ONEWAY \<Rightarrow> 3 | STATS_SERVER_ROUNDTRIP \<Rightarrow> 4)"

definition get_timestamp_mask_for_mode :: "timestamp_mode_t \<Rightarrow> u8" where
  "get_timestamp_mask_for_mode m = (case m of
     TIMESTAMP_MODE_CLIENT_ONEWAY \<Rightarrow> 0x07 | TIMESTAMP_MODE_CLIENT_ROUNDTRIP \<Rightarrow> 0x7F
   | TIMESTAMP_MODE_SERVER_ONEWAY \<Rightarrow> 0x80 | TIMESTAMP_MODE_SERVER_ROUNDTRIP \<Rightarrow> 0xF8 | TIMESTAMP_MODE_OTHER \<Rightarrow> 0)"

definition get_circular_index :: "u32 \<Rightarrow> u32" where
  "get_circular_index seq_num = seq_num mod 50000"

text \<open>
  The loop of \<open>next_power_of_2\<close>.  It ends because a non-zero word becomes zero after at
  most 32 doublings.
\<close>

lemma doubling_measure:
  fixes p :: u32
  assumes "p * 2 \<noteq> 0"
  shows "(LEAST j. p * 2 * 2 ^ j = 0) < (LEAST j. p * 2 ^ j = 0)"
proof -
  have "(2 :: u32) ^ 32 = 0" by (simp only: exp_eq_zero_iff) simp
  then have "p * 2 ^ 32 = 0" by (simp only: mult_zero_right)
  moreover have "p * 2 ^ 0 \<noteq> 0" using assms by auto
  ultimately have "(LEAST j. p * 2 ^ j = 0) = Suc (LEAST j. p * 2 ^ Suc j = 0)"
    by (rule Least_Suc)
  then show ?thesis by (simp add: mult.assoc)
qed

function next_power_loop :: "u32 \<Rightarrow> u32 \<Rightarrow> u32" where
  "next_power_loop pw n =
     (if pw < n
      then let pw' = pw * 2 in if pw' = 0 then 0 else next_power_loop pw' n
      else pw)"
  by pat_completeness auto
termination
  by (relation "measure (\<lambda>(pw, n). LEAST j. pw * 2 ^ j = 0)") (auto simp: doubling_measure)

declare next_power_loop.simps [simp del]

definition next_power_of_2 :: "u32 \<Rightarrow> u32" where
  "next_power_of_2 n =
     (if n = 0 then 1 else if n AND (n - 1) = 0 then n else next_power_loop 1 n)"

text \<open>
  Allocation: \<open>aligned_alloc\<close> with a fallback to \<open>calloc\<close> for the structure and for the buffer; both ways
  the memory is zeroed.
\<close>

definition zero_entry :: stats_entry_t where
  "zero_entry = \<lparr>se_seq_num = 0, se_timestamp_ns = replicate 12 0, se_src_port = 0, se_entry_type = 0, se_timestamp_mask = 0\<rparr>"

definition create_stats_collector ::
  "bool \<times> bool \<Rightarrow> bool \<times> bool \<Rightarrow> u32 \<Rightarrow> stats_mode_type_t \<Rightarrow> stats_collector_t option" where
  "create_stats_collector alloc_stats alloc_buffer buffer_size mode =
     (if buffer_size = 0 then None
      else if \<not> fst alloc_stats \<and> \<not> snd alloc_stats then None
      else let actual_size = next_power_of_2 buffer_size
           in if actual_size = 0 then None
              else if \<not> fst alloc_buffer \<and> \<not> snd alloc_buffer then None
              else Some \<lparr>st_buffer = replicate (unat actual_size) zero_entry, st_head = 0, st_tail = 0,
                         st_size_mask = actual_size - 1, st_capacity = actual_size,
                         st_program_mode = stats_mode_code mode, st_total_entries = 0, st_dropped_entries = 0\<rparr>)"

text \<open>\<open>free\<close> of the buffer and of the structure, in this order, as the list of freed blocks.\<close>

datatype stats_block = Stats_buffer | Stats_structure

definition destroy_stats_collector :: "stats_collector_t \<Rightarrow> stats_block list" where
  "destroy_stats_collector st = (if st_buffer st \<noteq> [] then [Stats_buffer] else []) @ [Stats_structure]"

definition stats_enqueue :: "stats_collector_t \<Rightarrow> stats_entry_t \<Rightarrow> stats_collector_t \<times> bool" where
  "stats_enqueue st e =
     (if st_buffer st = [] then (st, False)
      else let current_head = st_head st;
               next_head = (current_head + 1) AND st_size_mask st;
               st1 = (if next_head = st_tail st
                      then st\<lparr>st_tail := (st_tail st + 1) AND st_size_mask st,
                              st_dropped_entries := st_dropped_entries st + 1\<rparr>
                      else st)
           in (st1\<lparr>st_buffer := (st_buffer st1)[unat current_head := e], st_head := next_head,
                   st_total_entries := st_total_entries st1 + 1\<rparr>, True))"

definition get_buffer_count :: "stats_collector_t \<Rightarrow> u32" where
  "get_buffer_count st = (st_head st - st_tail st) AND st_size_mask st"

definition buffer_has_data :: "stats_collector_t \<Rightarrow> bool" where
  "buffer_has_data st \<longleftrightarrow> 0 < get_buffer_count st"

text \<open>The backwards search of the update functions: the index of the newest matching entry.\<close>

definition stats_search :: "stats_collector_t \<Rightarrow> u32 \<Rightarrow> u32 option" where
  "stats_search st seq_num =
     find (\<lambda>index. se_seq_num (st_buffer st ! unat index) = seq_num)
       (map (\<lambda>i. (st_head st - 1 - of_nat i) AND st_size_mask st) [0..<unat (get_buffer_count st)])"

definition stats_modify :: "stats_collector_t \<Rightarrow> u32 \<Rightarrow> (u64 list \<Rightarrow> u64 list) \<Rightarrow> stats_collector_t" where
  "stats_modify st seq_num upd =
     (case stats_search st seq_num of
        None \<Rightarrow> st
      | Some index \<Rightarrow>
          st\<lparr>st_buffer := (st_buffer st)[unat index :=
            (st_buffer st ! unat index)\<lparr>se_timestamp_ns := upd (se_timestamp_ns (st_buffer st ! unat index))\<rparr>]\<rparr>)"

definition tx_update :: "stats_mode_type_t \<Rightarrow> u64 \<Rightarrow> u64 list \<Rightarrow> u64 list" where
  "tx_update mode ker_tx_ts_ns ts = (case mode of
     STATS_CLIENT_ONEWAY \<Rightarrow> ts[2 := ker_tx_ts_ns]
   | STATS_CLIENT_ROUNDTRIP \<Rightarrow> ts[2 := ker_tx_ts_ns]
   | STATS_SERVER_ONEWAY \<Rightarrow> ts
   | STATS_SERVER_ROUNDTRIP \<Rightarrow> ts[11 := ker_tx_ts_ns])"

definition app_tx_update :: "stats_mode_type_t \<Rightarrow> u64 \<Rightarrow> u64 \<Rightarrow> u64 list \<Rightarrow> u64 list" where
  "app_tx_update mode app_tx_ts_ns tsc_tx_ts_ns ts = (case mode of
     STATS_CLIENT_ONEWAY \<Rightarrow> ts[1 := app_tx_ts_ns]
   | STATS_CLIENT_ROUNDTRIP \<Rightarrow> (if tsc_tx_ts_ns > 0 then ts[0 := tsc_tx_ts_ns] else ts)[1 := app_tx_ts_ns]
   | STATS_SERVER_ONEWAY \<Rightarrow> ts
   | STATS_SERVER_ROUNDTRIP \<Rightarrow> ts[10 := app_tx_ts_ns])"

definition rx_update :: "stats_mode_type_t \<Rightarrow> u64 \<Rightarrow> u64 \<Rightarrow> u64 \<Rightarrow> u64 \<Rightarrow> u64 list \<Rightarrow> u64 list" where
  "rx_update mode hw_rx ker_rx app_rx tsc_rx ts = (case mode of
     STATS_CLIENT_ONEWAY \<Rightarrow> ts
   | STATS_CLIENT_ROUNDTRIP \<Rightarrow>
       (let ts1 = ts[3 := hw_rx, 4 := ker_rx];
            ts2 = (if tsc_rx > 0 then ts1[5 := tsc_rx] else ts1)
        in ts2[6 := app_rx])
   | STATS_SERVER_ONEWAY \<Rightarrow> ts[7 := hw_rx, 8 := ker_rx, 9 := app_rx]
   | STATS_SERVER_ROUNDTRIP \<Rightarrow> ts[7 := hw_rx, 8 := ker_rx, 9 := app_rx])"

text \<open>
  The three update functions act on the global collector, if statistics are enabled and it exists.
\<close>

definition stats_ready :: "stats_config_t \<Rightarrow> stats_collector_t option \<Rightarrow> bool" where
  "stats_ready cfg g = (sc_enabled cfg \<and> (case g of None \<Rightarrow> False | Some st \<Rightarrow> st_buffer st \<noteq> []))"

definition update_stats_buffer_with_tx_timestamp ::
  "stats_config_t \<Rightarrow> u32 \<Rightarrow> u64 \<Rightarrow> stats_mode_type_t \<Rightarrow> stats_collector_t option \<Rightarrow> stats_collector_t option" where
  "update_stats_buffer_with_tx_timestamp cfg seq_num ker_tx mode g =
     (if \<not> stats_ready cfg g then g else map_option (\<lambda>st. stats_modify st seq_num (tx_update mode ker_tx)) g)"

definition update_stats_buffer_with_app_tx_timestamp ::
  "stats_config_t \<Rightarrow> u32 \<Rightarrow> u64 \<Rightarrow> u64 \<Rightarrow> stats_mode_type_t \<Rightarrow> stats_collector_t option \<Rightarrow> stats_collector_t option" where
  "update_stats_buffer_with_app_tx_timestamp cfg seq_num app_tx tsc_tx mode g =
     (if \<not> stats_ready cfg g then g else map_option (\<lambda>st. stats_modify st seq_num (app_tx_update mode app_tx tsc_tx)) g)"

definition update_stats_buffer_with_rx_timestamps ::
  "stats_config_t \<Rightarrow> u32 \<Rightarrow> u64 \<Rightarrow> u64 \<Rightarrow> u64 \<Rightarrow> u64 \<Rightarrow> stats_mode_type_t \<Rightarrow>
     stats_collector_t option \<Rightarrow> stats_collector_t option" where
  "update_stats_buffer_with_rx_timestamps cfg seq_num hw_rx ker_rx app_rx tsc_rx mode g =
     (if \<not> stats_ready cfg g then g
      else map_option (\<lambda>st. stats_modify st seq_num (rx_update mode hw_rx ker_rx app_rx tsc_rx)) g)"

definition minimal_entry :: "u32 \<Rightarrow> u16 \<Rightarrow> timestamp_mode_t \<Rightarrow> stats_entry_t" where
  "minimal_entry seq_num src_port entry_type =
     \<lparr>se_seq_num = seq_num, se_timestamp_ns = replicate 12 0, se_src_port = src_port,
      se_entry_type = timestamp_mode_code entry_type, se_timestamp_mask = get_timestamp_mask_for_mode entry_type\<rparr>"

definition create_minimal_stats_entry ::
  "stats_config_t \<Rightarrow> u32 \<Rightarrow> u16 \<Rightarrow> timestamp_mode_t \<Rightarrow> stats_collector_t option \<Rightarrow> stats_collector_t option" where
  "create_minimal_stats_entry cfg seq_num src_port entry_type g =
     (if \<not> sc_enabled cfg then g
      else map_option (\<lambda>st. fst (stats_enqueue st (minimal_entry seq_num src_port entry_type))) g)"

definition stats_wf :: "stats_collector_t \<Rightarrow> bool" where
  "stats_wf st \<longleftrightarrow> ring_wf (st_buffer st) (st_tail st) (st_head st) (st_size_mask st)"

definition stats_contents :: "stats_collector_t \<Rightarrow> stats_entry_t list" where
  "stats_contents st = ring_contents (st_buffer st) (st_tail st) (st_head st) (st_size_mask st)"

section \<open>The next power of two\<close>

lemma next_power_loop_spec:
  assumes "k < 32" and "k = 0 \<or> 2 ^ (k - 1) < unat n" and "2 ^ m < unat n" and "unat n \<le> 2 ^ Suc m" and "m \<le> 31" and "k \<le> Suc m"
  shows "next_power_loop (2 ^ k) n = (if m = 31 then 0 else 2 ^ Suc m)"
  using assms
proof (induction "Suc m - k" arbitrary: k)
  case 0
  then have k: "k = Suc m" by simp
  then have "m \<noteq> 31" using 0 by simp
  moreover have "unat ((2 :: u32) ^ k) = 2 ^ k" using 0 by (intro unat_power_of_2) simp
  then have "\<not> (2 :: u32) ^ k < n" using 0 k by (simp add: word_less_nat_alt)
  ultimately show ?case using k by (subst next_power_loop.simps) simp
next
  case (Suc d)
  then have km: "k \<le> m" by simp
  have "(2 :: nat) ^ k \<le> 2 ^ m" using km by (simp add: power_increasing)
  also have "\<dots> < unat n" using Suc by simp
  finally have kn: "2 ^ k < unat n" .
  have "unat ((2 :: u32) ^ k) = 2 ^ k" using Suc by (intro unat_power_of_2) simp
  with kn have lt: "(2 :: u32) ^ k < n" by (simp add: word_less_nat_alt)
  have dbl: "(2 :: u32) ^ k * 2 = 2 ^ Suc k" by simp
  show ?case
  proof (cases "k = 31")
    case True
    then have "(2 :: u32) ^ Suc k = 0" by simp
    moreover have "m = 31" using True km Suc by simp
    ultimately show ?thesis using lt dbl by (subst next_power_loop.simps) (simp add: Let_def)
  next
    case False
    then have "unat ((2 :: u32) ^ Suc k) = 2 ^ Suc k" using Suc by (intro unat_power_of_2) simp
    then have nz: "(2 :: u32) ^ Suc k \<noteq> 0" by (metis power_not_zero unat_0 zero_neq_numeral)
    have "next_power_loop (2 ^ Suc k) n = (if m = 31 then 0 else 2 ^ Suc m)"
      using Suc False kn km by (intro Suc.hyps(1)) simp_all
    then show ?thesis using lt dbl nz by (subst next_power_loop.simps) (simp add: Let_def del: power_Suc)
  qed
qed

lemma between_powers:
  fixes x :: nat
  assumes "1 < x"
  obtains m where "2 ^ m < x" and "x \<le> 2 ^ Suc m"
proof -
  have "\<exists>m. 2 ^ m < x \<and> x \<le> 2 ^ Suc m" using assms
  proof (induction x rule: less_induct)
    case (less x)
    show ?case
    proof (cases "x = 2")
      case True
      then show ?thesis by (intro exI [of _ 0]) simp
    next
      case False
      let ?h = "(x + 1) div 2"
      have "1 < ?h" "?h < x" using less.prems False by auto
      with less.IH obtain m where "2 ^ m < ?h" "?h \<le> 2 ^ Suc m" by blast
      then have "2 ^ Suc m < x \<and> x \<le> 2 ^ Suc (Suc m)" by auto
      then show ?thesis by blast
    qed
  qed
  then show ?thesis using that by blast
qed

lemma next_power_of_2_correct:
  assumes "1 \<le> unat n" and "unat n \<le> 2 ^ 31"
  shows "\<exists>k < 32. next_power_of_2 n = 2 ^ k \<and> unat n \<le> 2 ^ k \<and> (k = 0 \<or> 2 ^ (k - 1) < unat n)"
proof (cases "n AND (n - 1) = 0")
  case True
  have "n \<noteq> 0" using assms(1) by auto
  with True obtain k where k: "k < 32" "n = 2 ^ k" using word_and_pred_power_of_2 [of n] by auto
  then have "unat n = 2 ^ k" using unat_power_of_2 [where 'a = 32, of k] by simp
  then show ?thesis using True \<open>n \<noteq> 0\<close> k by (intro exI [of _ k]) (auto simp: next_power_of_2_def)
next
  case False
  then have "n \<noteq> 1" by auto
  then have "1 < unat n" using assms(1) by (metis le_neq_implies_less unat_1 word_unat_eq_iff)
  then obtain m where m: "2 ^ m < unat n" "unat n \<le> 2 ^ Suc m" by (rule between_powers)
  have "(2 :: nat) ^ m < 2 ^ 31" using m(1) assms(2) by simp
  then have m31: "m < 31" using power_less_imp_less_exp [of 2 m 31] by simp
  have "next_power_loop (2 ^ 0) n = 2 ^ Suc m"
    using next_power_loop_spec [of 0 n m] m m31 by simp
  then show ?thesis using False assms(1) m m31
    by (intro exI [of _ "Suc m"]) (auto simp: next_power_of_2_def)
qed

section \<open>Recording\<close>

lemma ring_overwrite:
  assumes wf: "ring_wf buf r w msk" and full: "(w + 1) AND msk = r"
  shows "ring_contents (buf[unat w := e]) ((r + 1) AND msk) ((w + 1) AND msk) msk =
      last_n (unat msk) (ring_contents buf r w msk @ [e])"
    and "ring_wf (buf[unat w := e]) ((r + 1) AND msk) ((w + 1) AND msk) msk"
proof -
  have le: "x AND msk \<le> msk" for x using word_and_le1 [of x msk] by (simp add: and.commute)
  have len: "length (ring_contents buf r w msk) = unat msk"
    using ring_full_iff [OF wf] full by (simp add: length_ring_contents)
  show "ring_wf (buf[unat w := e]) ((r + 1) AND msk) ((w + 1) AND msk) msk"
    using wf le by (simp add: ring_wf_def)
  show "ring_contents (buf[unat w := e]) ((r + 1) AND msk) ((w + 1) AND msk) msk =
      last_n (unat msk) (ring_contents buf r w msk @ [e])"
  proof (cases "msk = 0")
    case True
    then show ?thesis by (simp add: ring_contents_def ring_count_def last_n_def)
  next
    case False
    then have pos: "0 < unat msk" by (simp add: unat_gt_0)
    then have ne: "r \<noteq> w" using len ring_empty_iff [OF wf] by auto
    note pop = ring_pop_contents [OF wf ne]
    have "ring_count ((r + 1) AND msk) w msk < unat msk"
      using arg_cong [OF pop(1), of length] len by (simp add: length_ring_contents)
    then have "(w + 1) AND msk \<noteq> (r + 1) AND msk" using ring_full_iff [OF pop(2)] by simp
    from ring_push_contents(1) [OF pop(2) this] have
      "ring_contents (buf[unat w := e]) ((r + 1) AND msk) ((w + 1) AND msk) msk =
         tl (ring_contents buf r w msk @ [e])" using pop(1) by simp
    also have "\<dots> = last_n (unat msk) (ring_contents buf r w msk @ [e])"
      using len [symmetric] pos by (cases "ring_contents buf r w msk") (simp_all add: last_n_def)
    finally show ?thesis .
  qed
qed

lemma stats_enqueue_spec:
  assumes wf: "stats_wf st" and enq: "stats_enqueue st e = (st', ok)"
  shows "ok \<and> stats_wf st' \<and> st_size_mask st' = st_size_mask st \<and>
    stats_contents st' = last_n (unat (st_size_mask st)) (stats_contents st @ [e]) \<and>
    st_total_entries st' = st_total_entries st + 1 \<and>
    st_dropped_entries st' = st_dropped_entries st +
      (if length (stats_contents st) = unat (st_size_mask st) then 1 else 0)"
proof -
  have rw: "ring_wf (st_buffer st) (st_tail st) (st_head st) (st_size_mask st)" using wf by (simp add: stats_wf_def)
  then have ne: "st_buffer st \<noteq> []" by (auto simp: ring_wf_def)
  have full: "(st_head st + 1) AND st_size_mask st = st_tail st \<longleftrightarrow> length (stats_contents st) = unat (st_size_mask st)"
    using ring_full_iff [OF rw] by (simp add: stats_contents_def length_ring_contents)
  have bound: "length (stats_contents st) \<le> unat (st_size_mask st)"
    using ring_count_bound by (simp add: stats_contents_def length_ring_contents)
  show ?thesis
  proof (cases "(st_head st + 1) AND st_size_mask st = st_tail st")
    case True
    with enq ne full ring_overwrite [OF rw True, of e] show ?thesis
      by (auto simp: stats_enqueue_def Let_def stats_wf_def stats_contents_def)
  next
    case False
    then have "length (stats_contents st) < unat (st_size_mask st)" using bound full by simp
    then have "last_n (unat (st_size_mask st)) (stats_contents st @ [e]) = stats_contents st @ [e]"
      by (simp add: last_n_all)
    with enq ne False full ring_push_contents [OF rw False, of e] show ?thesis
      by (auto simp: stats_enqueue_def Let_def stats_wf_def stats_contents_def)
  qed
qed

text \<open>Recording a list of entries one after the other.\<close>

definition stats_record_all :: "stats_collector_t \<Rightarrow> stats_entry_t list \<Rightarrow> stats_collector_t" where
  "stats_record_all st es = fold (\<lambda>e st. fst (stats_enqueue st e)) es st"

lemma stats_record_all_snoc: "stats_record_all st (es @ [e]) = fst (stats_enqueue (stats_record_all st es) e)"
  by (simp add: stats_record_all_def)

lemma stats_record_all_spec:
  assumes "stats_wf st" and "stats_contents st = []"
  shows "stats_wf (stats_record_all st es) \<and> st_size_mask (stats_record_all st es) = st_size_mask st \<and>
    stats_contents (stats_record_all st es) = last_n (unat (st_size_mask st)) es \<and>
    st_total_entries (stats_record_all st es) = st_total_entries st + of_nat (length es) \<and>
    st_dropped_entries (stats_record_all st es) = st_dropped_entries st + of_nat (length es - unat (st_size_mask st))"
proof (induction es rule: rev_induct)
  case Nil
  then show ?case using assms by (simp add: stats_record_all_def last_n_def)
next
  case (snoc e es)
  let ?st = "stats_record_all st es"
  obtain st' ok where enq: "stats_enqueue ?st e = (st', ok)" by fastforce
  from snoc stats_enqueue_spec [OF _ enq] have
    st': "stats_wf st'" "st_size_mask st' = st_size_mask st"
    "stats_contents st' = last_n (unat (st_size_mask st)) (last_n (unat (st_size_mask st)) es @ [e])"
    "st_total_entries st' = st_total_entries st + of_nat (length es) + 1"
    "st_dropped_entries st' = st_dropped_entries st + of_nat (length es - unat (st_size_mask st)) +
      (if length (last_n (unat (st_size_mask st)) es) = unat (st_size_mask st) then 1 else 0)"
    by simp_all
  have "st_dropped_entries st' = st_dropped_entries st + of_nat (length (es @ [e]) - unat (st_size_mask st))"
    unfolding st'(5) by (cases "unat (st_size_mask st) \<le> length es") (simp_all add: Suc_diff_le)
  with st' enq show ?case by (simp add: stats_record_all_snoc last_n_snoc_last_n)
qed

section \<open>Updating the newest matching entry\<close>

fun update_first :: "('a \<Rightarrow> bool) \<Rightarrow> ('a \<Rightarrow> 'a) \<Rightarrow> 'a list \<Rightarrow> 'a list" where
  "update_first P f [] = []"
| "update_first P f (x # xs) = (if P x then f x # xs else x # update_first P f xs)"

definition update_last :: "('a \<Rightarrow> bool) \<Rightarrow> ('a \<Rightarrow> 'a) \<Rightarrow> 'a list \<Rightarrow> 'a list" where
  "update_last P f xs = rev (update_first P f (rev xs))"

lemma update_found_index:
  assumes "distinct is" and "\<And>i. i \<in> set is \<Longrightarrow> i < length buf"
  shows "map ((!) (case find (\<lambda>i. P (buf ! i)) is of None \<Rightarrow> buf | Some i \<Rightarrow> buf[i := f (buf ! i)])) is =
    update_first P f (map ((!) buf) is)"
  using assms
proof (induction "is")
  case (Cons i "is")
  show ?case
  proof (cases "P (buf ! i)")
    case True
    have "map ((!) (buf[i := f (buf ! i)])) is = map ((!) buf) is"
      using Cons.prems(1) by (intro map_cong refl nth_list_update_neq) auto
    with True Cons.prems show ?thesis by simp
  next
    case False
    have "buf[j := f (buf ! j)] ! i = buf ! i" if "find (\<lambda>i. P (buf ! i)) is = Some j" for j
      using that False by (intro nth_list_update_neq) (auto simp: find_Some_iff)
    with False Cons show ?thesis by (auto split: option.splits)
  qed
qed simp

definition ring_indices :: "u32 \<Rightarrow> u32 \<Rightarrow> u32 \<Rightarrow> u32 list" where
  "ring_indices r w msk = map (\<lambda>i. (r + of_nat i) AND msk) [0..<ring_count r w msk]"

lemma ring_contents_indices: "ring_contents buf r w msk = map ((!) buf) (map unat (ring_indices r w msk))"
  by (simp add: ring_contents_def ring_indices_def)

lemma ring_indices_distinct:
  assumes "ring_wf buf r w msk"
  shows "distinct (map unat (ring_indices r w msk))" and "i \<in> set (map unat (ring_indices r w msk)) \<Longrightarrow> i < length buf"
proof -
  from assms obtain k where k: "k < 32" "msk = 2 ^ k - 1" "length buf = 2 ^ k" "unat r < 2 ^ k" "unat w < 2 ^ k"
    by (rule ring_wf_power)
  have eq: "map unat (ring_indices r w msk) = map (\<lambda>i. (unat r + i) mod 2 ^ k) [0..<ring_count r w msk]"
    using k by (simp add: ring_indices_def ring_index_simps)
  have "ring_count r w msk < 2 ^ k"
    using ring_count_bound [of r w msk] k by (simp add: unat_mask_of_power le_less_trans)
  then have "inj_on (\<lambda>i. (unat r + i) mod 2 ^ k) {0..<ring_count r w msk}"
    using k(4) by (auto simp: inj_on_def mod_if split: if_splits)
  then show "distinct (map unat (ring_indices r w msk))" unfolding eq by (simp add: distinct_map)
  show "i \<in> set (map unat (ring_indices r w msk)) \<Longrightarrow> i < length buf" unfolding eq using k by auto
qed

lemma back_index_nat:
  fixes R W N i :: nat
  assumes "R < N" and "W < N" and "i < (W + N - R) mod N"
  shows "(W + N - Suc i) mod N = (R + ((W + N - R) mod N - 1 - i)) mod N"
proof (cases "R \<le> W")
  case True
  then have "(W + N - R) mod N = W - R" using assms ring_count_nat_cases by simp
  then have "R + ((W + N - R) mod N - 1 - i) = W - Suc i" and "W + N - Suc i = (W - Suc i) + N"
    using assms(3) by simp_all
  then show ?thesis by (metis mod_add_self2)
next
  case False
  then have "(W + N - R) mod N = W + N - R" using assms ring_count_nat_cases by simp
  then have "R + ((W + N - R) mod N - 1 - i) = W + N - Suc i" using assms by simp
  then show ?thesis by simp
qed

lemma ring_back_index:
  assumes "ring_wf buf r w msk" and "i < ring_count r w msk"
  shows "(w - 1 - of_nat i) AND msk = (r + of_nat (ring_count r w msk - 1 - i)) AND msk"
proof -
  from assms(1) obtain k where k: "k < 32" "msk = 2 ^ k - 1" "length buf = 2 ^ k" "unat r < 2 ^ k" "unat w < 2 ^ k"
    by (rule ring_wf_power)
  let ?c = "ring_count r w msk"
  have cN: "?c < 2 ^ k"
    using ring_count_bound [of r w msk] k by (simp add: unat_mask_of_power le_less_trans)
  then have si: "Suc i < 2 ^ k" using assms(2) by simp
  then have "Suc i < 2 ^ 32" using k(1) power_increasing [of k 32 "2 :: nat"] by simp
  then have u: "unat (of_nat (Suc i) :: u32) = Suc i" by (intro unat_of_nat_small) simp
  have c: "?c = (unat w + 2 ^ k - unat r) mod 2 ^ k" using k by (simp add: ring_count_def ring_index_simps)
  have "unat ((w - of_nat (Suc i)) AND msk) = (unat w + 2 ^ k - Suc i) mod 2 ^ k"
    using k unat_ring_diff [of k "of_nat (Suc i)" w] u si by simp
  also have "\<dots> = (unat r + (?c - 1 - i)) mod 2 ^ k"
    using back_index_nat [OF k(4,5)] assms(2) unfolding c by blast
  also have "\<dots> = unat ((r + of_nat (?c - 1 - i)) AND msk)" using k by (simp add: unat_ring_index)
  finally have "(w - of_nat (Suc i)) AND msk = (r + of_nat (?c - 1 - i)) AND msk"
    by (simp add: word_unat_eq_iff)
  then show ?thesis by (simp add: algebra_simps)
qed

lemma search_indices:
  assumes "ring_wf buf r w msk"
  shows "map (\<lambda>i. (w - 1 - of_nat i) AND msk) [0..<ring_count r w msk] = rev (ring_indices r w msk)"
proof (rule nth_equalityI)
  fix i
  assume "i < length (map (\<lambda>i. (w - 1 - of_nat i) AND msk) [0..<ring_count r w msk])"
  then have "i < ring_count r w msk" by simp
  with ring_back_index [OF assms this] show
    "map (\<lambda>i. (w - 1 - of_nat i) AND msk) [0..<ring_count r w msk] ! i = rev (ring_indices r w msk) ! i"
    by (simp add: ring_indices_def rev_nth)
qed (simp add: ring_indices_def)

lemma find_map_unat: "find (\<lambda>x. P (f x)) xs = None \<longleftrightarrow> find P (map f xs) = None"
  "find (\<lambda>x. P (f x)) xs = Some x \<Longrightarrow> find P (map f xs) = Some (f x)"
  by (induction xs) (auto split: if_splits)

lemma stats_modify_spec:
  assumes "stats_wf st"
  shows "stats_contents (stats_modify st seq upd) =
      update_last (\<lambda>e. se_seq_num e = seq) (\<lambda>e. e\<lparr>se_timestamp_ns := upd (se_timestamp_ns e)\<rparr>) (stats_contents st)"
    and "stats_wf (stats_modify st seq upd)" and "st_size_mask (stats_modify st seq upd) = st_size_mask st"
proof -
  have rw: "ring_wf (st_buffer st) (st_tail st) (st_head st) (st_size_mask st)" using assms by (simp add: stats_wf_def)
  let ?ix = "ring_indices (st_tail st) (st_head st) (st_size_mask st)" and ?b = "st_buffer st"
  let ?P = "\<lambda>e. se_seq_num e = seq" and ?f = "\<lambda>e. e\<lparr>se_timestamp_ns := upd (se_timestamp_ns e)\<rparr>"
  have search: "stats_search st seq = find (\<lambda>x. ?P (?b ! unat x)) (rev ?ix)"
    using search_indices [OF rw] by (simp add: stats_search_def get_buffer_count_def ring_count_def)
  have buf: "st_buffer (stats_modify st seq upd) =
      (case find (\<lambda>i. ?P (?b ! i)) (map unat (rev ?ix)) of None \<Rightarrow> ?b | Some i \<Rightarrow> ?b[i := ?f (?b ! i)])"
    using find_map_unat [of "\<lambda>i. ?P (?b ! i)" unat "rev ?ix"] search
    by (auto simp: stats_modify_def split: option.splits)
  have frame: "st_tail (stats_modify st seq upd) = st_tail st" "st_head (stats_modify st seq upd) = st_head st"
    "st_size_mask (stats_modify st seq upd) = st_size_mask st"
    by (simp_all add: stats_modify_def split: option.splits)
  then show "st_size_mask (stats_modify st seq upd) = st_size_mask st" by simp
  have "length (st_buffer (stats_modify st seq upd)) = length ?b"
    by (simp add: stats_modify_def split: option.splits)
  then show "stats_wf (stats_modify st seq upd)" using rw frame by (simp add: stats_wf_def ring_wf_def)
  have "map ((!) (st_buffer (stats_modify st seq upd))) (map unat (rev ?ix)) = update_first ?P ?f (map ((!) ?b) (map unat (rev ?ix)))"
    unfolding buf using ring_indices_distinct [OF rw] by (intro update_found_index) (auto simp: rev_map [symmetric])
  then show "stats_contents (stats_modify st seq upd) = update_last ?P ?f (stats_contents st)"
    using frame unfolding stats_contents_def ring_contents_indices update_last_def
    by (simp only: rev_map [symmetric] rev_rev_ident) (metis rev_map rev_rev_ident)
qed

section \<open>Properties\<close>

lemma power_mask_wf:
  assumes "k < 32"
  shows "ring_wf (replicate (unat ((2 :: u32) ^ k)) x) 0 0 (2 ^ k - 1)"
proof -
  have u: "unat ((2 :: u32) ^ k) = 2 ^ k" using assms by (intro unat_power_of_2) simp
  then have nz: "(2 :: u32) ^ k \<noteq> 0" by (metis power_not_zero unat_0 zero_neq_numeral)
  have "unat ((2 :: u32) ^ k - 1) = 2 ^ k - 1" using assms by (intro unat_mask_of_power) simp
  moreover have "(2 :: u32) ^ k AND (2 ^ k - 1) = 0" using assms by (intro word_power_of_2_and_pred) simp
  ultimately show ?thesis using u nz by (simp add: ring_wf_def)
qed

lemma create_stats_collector_spec:
  assumes "1 \<le> unat n" and "unat n \<le> 2 ^ 31"
  shows "\<exists>st. create_stats_collector (True, a) (True, b) n mode = Some st \<and> stats_wf st \<and> stats_contents st = [] \<and>
    unat n \<le> unat (st_capacity st) \<and> unat (st_capacity st) < 2 * unat n \<and>
    unat (st_size_mask st) = unat (st_capacity st) - 1 \<and> st_total_entries st = 0 \<and> st_dropped_entries st = 0"
proof -
  from next_power_of_2_correct [OF assms] obtain k where k: "k < 32" "next_power_of_2 n = 2 ^ k"
    "unat n \<le> 2 ^ k" "k = 0 \<or> 2 ^ (k - 1) < unat n" by blast
  have u: "unat ((2 :: u32) ^ k) = 2 ^ k" using k(1) by (intro unat_power_of_2) simp
  then have nz: "(2 :: u32) ^ k \<noteq> 0" by (metis power_not_zero unat_0 zero_neq_numeral)
  have "n \<noteq> 0" using assms(1) by auto
  moreover have "unat ((2 :: u32) ^ k - 1) = 2 ^ k - 1" using k(1) by (intro unat_mask_of_power) simp
  moreover have "(2 :: nat) ^ k < 2 * unat n" using k(4) assms(1) by (cases k) auto
  ultimately show ?thesis using k u nz power_mask_wf [OF k(1), of zero_entry]
    by (simp add: create_stats_collector_def Let_def stats_wf_def stats_contents_def ring_contents_def ring_count_def)
qed

text \<open>
  \<open>create_stats_collector\<close> for a buffer size from 1 to \<open>2^31\<close> yields an empty, well-formed ring
  whose capacity is the smallest power of two that is at least the requested size.
\<close>

theorem create_stats_collector_capacity:
  assumes "1 \<le> unat n" and "unat n \<le> 2 ^ 31"
  shows "\<exists>st. create_stats_collector (True, a) (True, b) n mode = Some st \<and> stats_wf st \<and> stats_contents st = [] \<and>
    st_capacity st AND (st_capacity st - 1) = 0 \<and> unat n \<le> unat (st_capacity st) \<and> unat (st_capacity st) < 2 * unat n"
proof -
  from create_stats_collector_spec [OF assms, of a b mode] obtain st where st:
    "create_stats_collector (True, a) (True, b) n mode = Some st" "stats_wf st" "stats_contents st = []"
    "unat n \<le> unat (st_capacity st)" "unat (st_capacity st) < 2 * unat n"
    "unat (st_size_mask st) = unat (st_capacity st) - 1" by blast
  from st(1) have "st_size_mask st = st_capacity st - 1"
    by (auto simp: create_stats_collector_def Let_def split: if_splits)
  then have "st_capacity st AND (st_capacity st - 1) = 0" using st(2) by (simp add: stats_wf_def ring_wf_def)
  with st show ?thesis by blast
qed

theorem create_stats_collector_capacity_witness:
  "\<exists>st. create_stats_collector (True, False) (True, False) 100 STATS_CLIENT_ONEWAY = Some st \<and> stats_wf st \<and>
     stats_contents st = [] \<and> 100 \<le> unat (st_capacity st) \<and> unat (st_capacity st) < 200"
  using create_stats_collector_capacity [of 100 False False STATS_CLIENT_ONEWAY] by auto

text \<open>
  C19. The statistics ring keeps the most recent packets: after any sequence of recorded entries it holds the
  last \<open>capacity - 1\<close> of them in order, \<open>total_entries\<close> counts all of them and \<open>dropped_entries\<close> those that
  were overwritten.
\<close>

theorem stats_ring_keeps_latest:
  assumes "stats_wf st" and "stats_contents st = []"
  shows "stats_contents (stats_record_all st es) = last_n (unat (st_size_mask st)) es \<and>
    st_total_entries (stats_record_all st es) = st_total_entries st + of_nat (length es) \<and>
    st_dropped_entries (stats_record_all st es) =
      st_dropped_entries st + of_nat (length es - length (stats_contents (stats_record_all st es)))"
proof -
  have "length es - unat (st_size_mask st) = length es - length (last_n (unat (st_size_mask st)) es)" by simp
  then show ?thesis using stats_record_all_spec [OF assms, of es] by (simp only:)
qed

definition sample_collector :: stats_collector_t where
  "sample_collector =
     \<lparr>st_buffer = replicate 4 zero_entry, st_head = 0, st_tail = 0, st_size_mask = 3, st_capacity = 4,
      st_program_mode = 1, st_total_entries = 0, st_dropped_entries = 0\<rparr>"

definition sample_minimal :: "nat \<Rightarrow> stats_entry_t" where
  "sample_minimal n = minimal_entry (of_nat n) 5000 TIMESTAMP_MODE_CLIENT_ROUNDTRIP"

theorem stats_ring_keeps_latest_witness:
  "stats_contents (stats_record_all sample_collector (map sample_minimal [1, 2, 3, 4, 5])) = map sample_minimal [3, 4, 5] \<and>
   st_dropped_entries (stats_record_all sample_collector (map sample_minimal [1, 2, 3, 4, 5])) = 2"
proof -
  have "stats_wf sample_collector" "stats_contents sample_collector = []" by code_simp+
  moreover have "unat (st_size_mask sample_collector) = 3" "st_dropped_entries sample_collector = 0" by code_simp+
  ultimately show ?thesis
    using stats_ring_keeps_latest [of sample_collector "map sample_minimal [1, 2, 3, 4, 5]"] by (simp add: last_n_def)
qed

text \<open>
  The three update functions change the timestamps of the newest entry with the given sequence number and
  nothing else; older entries with the same number, after a wrap of the sequence space, are left alone.
\<close>

theorem stats_update_newest:
  assumes "stats_wf st" and "sc_enabled cfg"
  shows "map_option stats_contents (update_stats_buffer_with_tx_timestamp cfg seq ker_tx mode (Some st)) =
      Some (update_last (\<lambda>e. se_seq_num e = seq)
        (\<lambda>e. e\<lparr>se_timestamp_ns := tx_update mode ker_tx (se_timestamp_ns e)\<rparr>) (stats_contents st)) \<and>
    map_option stats_contents (update_stats_buffer_with_app_tx_timestamp cfg seq app_tx tsc_tx mode (Some st)) =
      Some (update_last (\<lambda>e. se_seq_num e = seq)
        (\<lambda>e. e\<lparr>se_timestamp_ns := app_tx_update mode app_tx tsc_tx (se_timestamp_ns e)\<rparr>) (stats_contents st)) \<and>
    map_option stats_contents (update_stats_buffer_with_rx_timestamps cfg seq hw ker app tsc mode (Some st)) =
      Some (update_last (\<lambda>e. se_seq_num e = seq)
        (\<lambda>e. e\<lparr>se_timestamp_ns := rx_update mode hw ker app tsc (se_timestamp_ns e)\<rparr>) (stats_contents st))"
proof -
  have "st_buffer st \<noteq> []" using assms(1) by (auto simp: stats_wf_def ring_wf_def)
  then show ?thesis using assms(2) stats_modify_spec(1) [OF assms(1)]
    by (simp add: update_stats_buffer_with_tx_timestamp_def update_stats_buffer_with_app_tx_timestamp_def
        update_stats_buffer_with_rx_timestamps_def stats_ready_def)
qed

theorem stats_update_newest_witness:
  "map_option stats_contents (update_stats_buffer_with_tx_timestamp
       \<lparr>sc_enabled = True, sc_buffer_size = 4, sc_bin_width_us = 10, sc_max_bins = 10\<rparr> 7 99 STATS_CLIENT_ONEWAY
       (Some (stats_record_all sample_collector (map sample_minimal [7, 8, 7])))) =
     Some [sample_minimal 7, sample_minimal 8, (sample_minimal 7)\<lparr>se_timestamp_ns := [0, 0, 99, 0, 0, 0, 0, 0, 0, 0, 0, 0]\<rparr>]"
proof -
  let ?st = "stats_record_all sample_collector (map sample_minimal [7, 8, 7])"
  have "stats_wf ?st" by code_simp
  moreover have "update_last (\<lambda>e. se_seq_num e = 7)
      (\<lambda>e. e\<lparr>se_timestamp_ns := tx_update STATS_CLIENT_ONEWAY 99 (se_timestamp_ns e)\<rparr>) (stats_contents ?st) =
      [sample_minimal 7, sample_minimal 8, (sample_minimal 7)\<lparr>se_timestamp_ns := [0, 0, 99, 0, 0, 0, 0, 0, 0, 0, 0, 0]\<rparr>]"
    by code_simp
  ultimately show ?thesis
    using stats_update_newest [of ?st "\<lparr>sc_enabled = True, sc_buffer_size = 4, sc_bin_width_us = 10, sc_max_bins = 10\<rparr>" 7 99 STATS_CLIENT_ONEWAY]
    by simp
qed

end
