(* ===== verification/Binary64.thy ===== *)
theory Binary64
  imports C_Prelude Complex_Main "HOL-Library.Log_Nat"
begin

text \<open>
  The C type \<open>double\<close> as the statistics code uses it: a double is the rational number it stands for,
  and every arithmetic operation is the exact operation followed by rounding to 53 significant
  bits, ties to even.  The values of this program lie between \<open>10^-3\<close> and \<open>10^19\<close>, far from the limits of the
  exponent, so neither subnormal numbers nor infinities occur.  The locale \<open>fp_rounding\<close> names the three laws the proofs
  use; \<open>fl64\<close> meets them.
\<close>

definition round_even :: "rat \<Rightarrow> int" where
  "round_even x =
     (let f = \<lfloor>x\<rfloor>; d = x - of_int f
      in if d < 1 / 2 then f else if 1 / 2 < d then f + 1 else if even f then f else f + 1)"

text \<open>The binary exponent of a positive number.\<close>

definition fexp :: "rat \<Rightarrow> int" where
  "fexp x =
     (let (p, q) = quotient_of x; k = int (floorlog 2 (nat p)) - int (floorlog 2 (nat q))
      in if 2 powi k \<le> x then k else k - 1)"

definition fl64 :: "rat \<Rightarrow> rat" where
  "fl64 x =
     (if x = 0 then 0
      else let e = fexp \<bar>x\<bar> - 52 in of_int (round_even (x / 2 powi e)) * 2 powi e)"

section \<open>Rounding to an integer\<close>

lemma round_even_bounds: "\<lfloor>x\<rfloor> \<le> round_even x" "round_even x \<le> \<lfloor>x\<rfloor> + 1"
  by (simp_all add: round_even_def Let_def)

lemma round_even_int [simp]: "round_even (of_int n) = n"
  by (simp add: round_even_def)

lemma round_even_error: "\<bar>of_int (round_even x) - x\<bar> \<le> 1 / 2"
  using floor_correct [of x] by (auto simp: round_even_def Let_def abs_le_iff)

lemma round_even_mono:
  assumes "x \<le> y"
  shows "round_even x \<le> round_even y"
proof (cases "\<lfloor>x\<rfloor> = \<lfloor>y\<rfloor>")
  case True
  with assms show ?thesis by (auto simp: round_even_def Let_def)
next
  case False
  then have "\<lfloor>x\<rfloor> + 1 \<le> \<lfloor>y\<rfloor>" using floor_mono [OF assms] by simp
  then show ?thesis using round_even_bounds(2) [of x] round_even_bounds(1) [of y] by simp
qed

section \<open>The exponent\<close>

lemma powi_less_iff: "(2 :: rat) powi m < 2 powi n \<longleftrightarrow> m < n"
  using power_int_strict_increasing [of m n "2 :: rat"] power_int_increasing [of n m "2 :: rat"]
  by (cases "m < n") auto

lemma powi_le_iff: "(2 :: rat) powi m \<le> 2 powi n \<longleftrightarrow> m \<le> n"
  using powi_less_iff [of n m] by (simp add: not_less [symmetric])

lemma floorlog_rat_bounds:
  assumes "0 < (n :: nat)"
  shows "(2 :: rat) powi (int (floorlog 2 n) - 1) \<le> of_nat n" and "(of_nat n :: rat) < 2 powi int (floorlog 2 n)"
proof -
  have b: "2 ^ (floorlog 2 n - 1) \<le> n" "n < 2 ^ floorlog 2 n"
    using floorlog_bounds [of n 2] assms by simp_all
  have pos: "0 < floorlog 2 n" using assms by (simp add: floorlog_def)
  have "(of_nat (2 ^ (floorlog 2 n - 1)) :: rat) \<le> of_nat n" using b(1) by (simp only: of_nat_le_iff)
  moreover have "int (floorlog 2 n) - 1 = int (floorlog 2 n - 1)" using pos by simp
  ultimately show "(2 :: rat) powi (int (floorlog 2 n) - 1) \<le> of_nat n"
    by (simp only: power_int_of_nat of_nat_power of_nat_numeral)
  have "(of_nat n :: rat) < of_nat (2 ^ floorlog 2 n)" using b(2) by (simp only: of_nat_less_iff)
  then show "(of_nat n :: rat) < 2 powi int (floorlog 2 n)"
    by (simp only: power_int_of_nat of_nat_power of_nat_numeral)
qed

lemma fexp_bounds:
  assumes "0 < x"
  shows "2 powi (fexp x) \<le> x" and "x < 2 powi (fexp x + 1)"
proof -
  obtain p q where pq: "quotient_of x = (p, q)" by fastforce
  have q: "0 < q" using quotient_of_denom_pos [OF pq] .
  have x: "x = of_int p / of_int q" using quotient_of_div [OF pq] .
  with assms q have p: "0 < p" by (simp add: zero_less_divide_iff)
  let ?a = "int (floorlog 2 (nat p))" and ?b = "int (floorlog 2 (nat q))"
  have pr: "2 powi (?a - 1) \<le> (of_int p :: rat)" "(of_int p :: rat) < 2 powi ?a"
    using floorlog_rat_bounds [of "nat p"] p by simp_all
  have qr: "2 powi (?b - 1) \<le> (of_int q :: rat)" "(of_int q :: rat) < 2 powi ?b"
    using floorlog_rat_bounds [of "nat q"] q by simp_all
  have pw: "(2 :: rat) powi m / 2 powi n = 2 powi (m - n)" for m n by (simp add: power_int_diff)
  have "2 powi (?a - 1) / 2 powi ?b \<le> x"
    unfolding x using pr(1) qr(2) q p by (intro frac_le) simp_all
  then have lo: "2 powi (?a - ?b - 1) \<le> x" unfolding pw by (simp only: diff_right_commute)
  have "x < 2 powi ?a / 2 powi (?b - 1)"
    unfolding x using pr(2) qr(1) p by (intro frac_less) simp_all
  moreover have "?a - (?b - 1) = ?a - ?b + 1" by simp
  ultimately have hi: "x < 2 powi (?a - ?b + 1)" unfolding pw by (simp only:)
  show "2 powi (fexp x) \<le> x" using lo by (simp add: fexp_def pq Let_def)
  show "x < 2 powi (fexp x + 1)" using hi by (simp add: fexp_def pq Let_def)
qed

lemma fexp_unique:
  assumes "2 powi k \<le> x" and "x < 2 powi (k + 1)"
  shows "fexp x = k"
proof -
  have pos: "0 < x" using assms(1) by (rule less_le_trans [rotated]) simp
  have "2 powi (fexp x) < (2 :: rat) powi (k + 1)" "2 powi k < (2 :: rat) powi (fexp x + 1)"
    using fexp_bounds [OF pos] assms by simp_all
  then have "fexp x < k + 1" "k < fexp x + 1"
    by (simp_all only: powi_less_iff)
  then show ?thesis by simp
qed

lemma fexp_mono:
  assumes "0 < x" and "x \<le> y"
  shows "fexp x \<le> fexp y"
proof -
  have "2 powi (fexp x) < (2 :: rat) powi (fexp y + 1)"
    using fexp_bounds [OF assms(1)] fexp_bounds [of y] assms by simp
  then show ?thesis by (simp add: powi_less_iff)
qed

section \<open>The rounding function\<close>

lemma powi_positive: "0 < (2 :: rat) powi k"
  by simp

lemma powi_shift: "(2 :: rat) powi k / 2 powi (k - 52) = 2 ^ 52" "(2 :: rat) powi (k + 1) / 2 powi (k - 52) = 2 ^ 53"
proof -
  have "(2 :: rat) powi k / 2 powi (k - 52) = 2 powi (k - (k - 52))" by (rule power_int_diff [symmetric]) simp
  then show "(2 :: rat) powi k / 2 powi (k - 52) = 2 ^ 52" by (simp add: power_int_numeral)
  have "(2 :: rat) powi (k + 1) / 2 powi (k - 52) = 2 powi (k + 1 - (k - 52))" by (rule power_int_diff [symmetric]) simp
  then show "(2 :: rat) powi (k + 1) / 2 powi (k - 52) = 2 ^ 53" by (simp add: power_int_numeral)
qed

lemma fl64_positive: "0 < x \<Longrightarrow> fl64 x = of_int (round_even (x / 2 powi (fexp x - 52))) * 2 powi (fexp x - 52)"
  by (simp add: fl64_def Let_def)

lemma fl64_zero [simp]: "fl64 0 = 0"
  by (simp add: fl64_def)

lemma fl64_binade:
  assumes "0 < x"
  shows "2 powi (fexp x) \<le> fl64 x" and "fl64 x \<le> 2 powi (fexp x + 1)"
proof -
  let ?u = "(2 :: rat) powi (fexp x - 52)"
  have "2 powi (fexp x) / ?u \<le> x / ?u" "x / ?u \<le> 2 powi (fexp x + 1) / ?u"
    using fexp_bounds [OF assms] by (simp_all add: divide_right_mono)
  then have "of_int (2 ^ 52) \<le> x / ?u" "x / ?u \<le> of_int (2 ^ 53)"
    by (simp_all only: powi_shift of_int_power of_int_numeral)
  from this [THEN round_even_mono] have r: "2 ^ 52 \<le> round_even (x / ?u)" "round_even (x / ?u) \<le> 2 ^ 53"
    by (simp_all only: round_even_int)
  have "2 powi (fexp x) = 2 ^ 52 * ?u" "2 powi (fexp x + 1) = 2 ^ 53 * ?u"
    using powi_shift [of "fexp x"] by (simp_all add: field_simps)
  moreover have "(of_int (2 ^ 52) :: rat) \<le> of_int (round_even (x / ?u))" "(of_int (round_even (x / ?u)) :: rat) \<le> of_int (2 ^ 53)"
    using r by (simp_all only: of_int_le_iff)
  ultimately show "2 powi (fexp x) \<le> fl64 x" and "fl64 x \<le> 2 powi (fexp x + 1)"
    by (simp_all only: fl64_positive [OF assms] of_int_power of_int_numeral mult_right_mono powi_positive less_imp_le)
qed

lemma fl64_mono:
  assumes "0 \<le> x" and "x \<le> y"
  shows "fl64 x \<le> fl64 y"
proof (cases "x = 0")
  case True
  show ?thesis
  proof (cases "y = 0")
    case False
    then have "0 < y" using assms True by simp
    then have "2 powi (fexp y) \<le> fl64 y" by (rule fl64_binade)
    moreover have "0 < (2 :: rat) powi (fexp y)" by simp
    ultimately show ?thesis unfolding True fl64_zero by (rule less_imp_le [OF less_le_trans, rotated])
  qed (use True in simp)
next
  case False
  then have pos: "0 < x" "0 < y" using assms by auto
  show ?thesis
  proof (cases "fexp x = fexp y")
    case True
    have "x / 2 powi (fexp y - 52) \<le> y / 2 powi (fexp y - 52)" using assms(2) by (simp add: divide_right_mono)
    then have "(of_int (round_even (x / 2 powi (fexp y - 52))) :: rat) \<le> of_int (round_even (y / 2 powi (fexp y - 52)))"
      by (simp only: of_int_le_iff round_even_mono)
    then show ?thesis using True by (simp add: fl64_positive [OF pos(1)] fl64_positive [OF pos(2)] mult_right_mono)
  next
    case False
    then have "fexp x + 1 \<le> fexp y" using fexp_mono [OF pos(1) assms(2)] by simp
    then have "(2 :: rat) powi (fexp x + 1) \<le> 2 powi (fexp y)" by (simp add: powi_le_iff)
    then show ?thesis using fl64_binade(2) [OF pos(1)] fl64_binade(1) [OF pos(2)] by simp
  qed
qed

lemma fl64_exact_nat:
  assumes "n \<le> 2 ^ 53"
  shows "fl64 (of_nat n) = of_nat n"
proof (cases "n = 0")
  case False
  then have pos: "0 < (of_nat n :: rat)" by simp
  let ?k = "fexp (of_nat n)"
  have "(2 :: rat) powi ?k \<le> of_nat n" using fexp_bounds [OF pos] by simp
  also have "\<dots> \<le> of_nat (2 ^ 53)" using assms by (simp only: of_nat_le_iff)
  also have "\<dots> = 2 powi 53" by (simp add: power_int_numeral)
  finally have k53: "?k \<le> 53" by (simp only: powi_le_iff)
  show ?thesis
  proof (cases "?k = 53")
    case True
    then have "(2 :: rat) powi 53 \<le> of_nat n" using fexp_bounds(1) [OF pos] by simp
    then have "(of_nat (2 ^ 53) :: rat) \<le> of_nat n" by (simp add: power_int_numeral)
    then have "n = 2 ^ 53" using assms by (simp only: of_nat_le_iff)
    then have "(of_nat n :: rat) / 2 powi (?k - 52) = of_int (2 ^ 52)" unfolding True by simp
    then have "fl64 (of_nat n) = of_nat n / 2 powi (?k - 52) * 2 powi (?k - 52)"
      unfolding fl64_positive [OF pos] by (simp only: round_even_int)
    then show ?thesis by simp
  next
    case False
    then have j: "?k - 52 = - int (nat (52 - ?k))" using k53 by simp
    have "(2 :: rat) powi (?k - 52) = inverse (2 ^ nat (52 - ?k))"
      unfolding j by (simp only: power_int_minus power_int_of_nat)
    then have "(of_nat n :: rat) / 2 powi (?k - 52) = of_int (int n * 2 ^ nat (52 - ?k))"
      by (simp add: divide_inverse)
    then have "fl64 (of_nat n) = of_nat n / 2 powi (?k - 52) * 2 powi (?k - 52)"
      unfolding fl64_positive [OF pos] by (simp only: round_even_int)
    then show ?thesis by simp
  qed
qed simp

lemma fl64_error:
  assumes "0 \<le> x"
  shows "\<bar>fl64 x - x\<bar> \<le> x / 2 ^ 53"
proof (cases "x = 0")
  case False
  then have pos: "0 < x" using assms by simp
  let ?u = "(2 :: rat) powi (fexp x - 52)"
  have "\<bar>of_int (round_even (x / ?u)) - x / ?u\<bar> * ?u \<le> 1 / 2 * ?u"
    using round_even_error by (rule mult_right_mono) simp
  moreover have "\<bar>of_int (round_even (x / ?u)) - x / ?u\<bar> * ?u = \<bar>fl64 x - x\<bar>"
  proof -
    have "fl64 x - x = (of_int (round_even (x / ?u)) - x / ?u) * ?u"
      by (simp add: fl64_positive [OF pos] left_diff_distrib)
    then show ?thesis by (simp add: abs_mult)
  qed
  moreover have "?u = 2 powi (fexp x) / 2 ^ 52"
    using powi_shift(1) [of "fexp x"] by (simp add: field_simps)
  ultimately have "\<bar>fl64 x - x\<bar> \<le> 1 / 2 * (2 powi (fexp x) / 2 ^ 52)" by (simp only:)
  then have "\<bar>fl64 x - x\<bar> \<le> 2 powi (fexp x) / 2 ^ 53" by simp
  also have "\<dots> \<le> x / 2 ^ 53" using fexp_bounds(1) [OF pos] by (simp add: divide_right_mono)
  finally show ?thesis .
qed simp

section \<open>The laws the statistics rely on\<close>

locale fp_rounding =
  fixes rnd :: "rat \<Rightarrow> rat"
  assumes rnd_mono: "0 \<le> x \<Longrightarrow> x \<le> y \<Longrightarrow> rnd x \<le> rnd y"
    and rnd_nat: "n \<le> 2 ^ 53 \<Longrightarrow> rnd (of_nat n) = of_nat n"
    and rnd_error: "0 \<le> x \<Longrightarrow> rnd x \<le> x + x / 2 ^ 53"
begin

lemma rnd_nonneg: "0 \<le> x \<Longrightarrow> 0 \<le> rnd x"
  using rnd_mono [of 0 x] rnd_nat [of 0] by simp

text \<open>
  The integer part of a quotient \<open>n / (a * b)\<close> that is computed with a rounding after each division is
  exact when the operands are small enough.
\<close>

lemma floor_two_divisions:
  assumes "0 < a" and "0 < b" and "a * b \<le> 10 ^ 6" and "n \<le> 10 ^ 9"
  shows "\<lfloor>rnd (rnd (of_nat n / of_nat a) / of_nat b)\<rfloor> = int (n div (a * b))"
proof (rule floor_unique)
  let ?m = "n div (a * b)" and ?x = "of_nat n / of_nat a :: rat"
  have ab: "0 < a * b" using assms by simp
  have "?m * b \<le> 2 ^ 53"
  proof -
    have "?m * b \<le> ?m * (a * b)" using assms(1) by simp
    also have "\<dots> \<le> n" by (rule div_times_less_eq_dividend)
    finally show ?thesis using assms(4) by simp
  qed
  have "?m * b * a \<le> n" using div_times_less_eq_dividend [of n "a * b"] by (simp add: mult.assoc mult.commute)
  then have "of_nat (?m * b * a) \<le> (of_nat n :: rat)" by (simp only: of_nat_le_iff)
  then have "of_nat (?m * b) \<le> ?x" using assms(1) by (simp add: le_divide_eq)
  then have "rnd (of_nat (?m * b)) \<le> rnd ?x" by (rule rnd_mono [rotated]) simp
  then have "of_nat ?m * of_nat b \<le> rnd ?x" using rnd_nat [OF \<open>?m * b \<le> 2 ^ 53\<close>] by simp
  then have "of_nat ?m \<le> rnd ?x / of_nat b" using assms(2) by (simp add: le_divide_eq)
  then have "rnd (of_nat ?m) \<le> rnd (rnd ?x / of_nat b)" by (rule rnd_mono [rotated]) simp
  moreover have "?m \<le> 2 ^ 53" using le_trans [OF div_le_dividend assms(4)] by (rule le_trans) simp
  ultimately show "of_int (int ?m) \<le> rnd (rnd ?x / of_nat b)" using rnd_nat by simp
  have x0: "0 \<le> ?x" by simp
  have up: "rnd (rnd ?x / of_nat b) \<le> of_nat n / of_nat (a * b) * (1 + 1 / 2 ^ 53) * (1 + 1 / 2 ^ 53)"
  proof -
    have "rnd ?x / of_nat b \<le> (?x + ?x / 2 ^ 53) / of_nat b"
      using rnd_error [OF x0] by (rule divide_right_mono) simp
    also have "\<dots> = of_nat n / of_nat (a * b) * (1 + 1 / 2 ^ 53)" by (simp add: field_simps)
    finally have "rnd ?x / of_nat b * (1 + 1 / 2 ^ 53) \<le> of_nat n / of_nat (a * b) * (1 + 1 / 2 ^ 53) * (1 + 1 / 2 ^ 53)"
      by (rule mult_right_mono) simp
    moreover have "rnd (rnd ?x / of_nat b) \<le> rnd ?x / of_nat b * (1 + 1 / 2 ^ 53)"
      using rnd_error [of "rnd ?x / of_nat b"] rnd_nonneg [OF x0] by (simp add: distrib_left)
    ultimately show ?thesis by simp
  qed
  have nlt: "n + 1 \<le> (?m + 1) * (a * b)"
    using ab dividend_less_times_div [of "a * b" n] by (simp add: Suc_leI mult.commute)
  have "of_nat n * ((1 + 1 / 2 ^ 53) * (1 + 1 / 2 ^ 53)) < (of_nat (n + 1) :: rat)"
  proof -
    have "of_nat n * ((1 + 1 / 2 ^ 53) * (1 + 1 / 2 ^ 53) - 1) \<le> (10 ^ 9 :: rat) * ((1 + 1 / 2 ^ 53) * (1 + 1 / 2 ^ 53) - 1)"
      using of_nat_le_iff [of n "10 ^ 9", where 'a = rat] assms(4) by (intro mult_right_mono) simp_all
    also have "\<dots> < 1" by simp
    finally show ?thesis by (simp add: right_diff_distrib)
  qed
  also have "(of_nat (n + 1) :: rat) \<le> of_nat ((?m + 1) * (a * b))" using nlt by (simp only: of_nat_le_iff)
  finally have fin: "of_nat n * ((1 + 1 / 2 ^ 53) * (1 + 1 / 2 ^ 53)) < (of_nat (?m + 1) * of_nat (a * b) :: rat)"
    by (simp only: of_nat_mult)
  have "0 < (of_nat (a * b) :: rat)" using ab by (simp only: of_nat_0_less_iff)
  with fin have "of_nat n * ((1 + 1 / 2 ^ 53) * (1 + 1 / 2 ^ 53)) / of_nat (a * b) < (of_nat (?m + 1) :: rat)"
    by (simp only: pos_divide_less_eq)
  with up show "rnd (rnd ?x / of_nat b) < of_int (int ?m) + 1"
    by (simp add: mult.assoc)
qed

end

interpretation fl: fp_rounding fl64
proof unfold_locales
  show "0 \<le> x \<Longrightarrow> x \<le> y \<Longrightarrow> fl64 x \<le> fl64 y" for x y by (rule fl64_mono)
  show "n \<le> 2 ^ 53 \<Longrightarrow> fl64 (of_nat n) = of_nat n" for n by (rule fl64_exact_nat)
  show "0 \<le> x \<Longrightarrow> fl64 x \<le> x + x / 2 ^ 53" for x using fl64_error [of x] by linarith
qed

end
