(* ===== verification/Stats_Analysis.thy ===== *)
theory Stats_Analysis
  imports Stats_Collector C_Lib Binary64
begin

text \<open>
  The statistics analysis of \<open>timestamp_common.c\<close>: configuration per program mode, allocation and
  validation of the result structures, the evaluation of one packet for one delta, percentiles and the
  printed report.  The main lemma says that evaluating the recorded packets with floating-point arithmetic gives exactly
  the histogram, the counts and the outliers that integer arithmetic on nanoseconds gives.
\<close>

section \<open>Tables\<close>

record stats_delta_definition_t =
  sd_abbreviation :: string
  sd_description :: string
  sd_timestamp_a_index :: nat
  sd_timestamp_b_index :: nat
  sd_mode_mask :: u8

definition stats_delta :: "string \<Rightarrow> string \<Rightarrow> nat \<Rightarrow> nat \<Rightarrow> u8 \<Rightarrow> stats_delta_definition_t" where
  "stats_delta ab de a b m =
     \<lparr>sd_abbreviation = ab, sd_description = de, sd_timestamp_a_index = a, sd_timestamp_b_index = b, sd_mode_mask = m\<rparr>"

definition ALL_DELTAS :: "stats_delta_definition_t list" where
  "ALL_DELTAS =
    [stats_delta ''D1: CAT (T1) -> CKT (T2)'' ''Client Application TX (T1) -> Client Kernel TX (T2)'' 1 2 0x03,
     stats_delta ''D6: CHR (T8) -> CKR (T9)'' ''Client Hardware RX (T8) -> Client Kernel RX (T9)'' 3 4 0x02,
     stats_delta ''D7: CKR (T9) -> CAR (T10)'' ''Client Kernel RX (T9) -> Client Application RX (T10)'' 4 6 0x02,
     stats_delta ''RTT D2: CAT (T1) -> CAR (T10)'' ''Client Application TX (T1) -> Client Application RX (T10)'' 1 6 0x02,
     stats_delta ''RTT D3: CATT (T1) -> CART (T10)'' ''Client Application TX TSC (T1) -> Client Application RX TSC (T10)'' 0 5 0x02,
     stats_delta ''RTT D1: CAT (T1) -> CHR (T8)'' ''Client Application TX (T1) -> Client Hardware RX (T8)'' 1 3 0x02,
     stats_delta ''D2: SHR (T3) -> SKR (T4)'' ''Server Hardware RX (T3) -> Server Kernel RX (T4)'' 7 8 0x0C,
     stats_delta ''D3: SKR (T4) -> SAR (T5)'' ''Server Kernel RX (T4) -> Server Application RX (T5)'' 8 9 0x0C,
     stats_delta ''D4: SAR (T5) -> SAT (T6)'' ''Server Application RX (T5) -> Server Application TX (T6)'' 9 10 0x08,
     stats_delta ''D5: SAT (T6) -> SKT (T7)'' ''Server Application TX (T6) -> Server Kernel TX (T7)'' 10 11 0x08,
     stats_delta ''TT D2: SHR (T3) -> SKT (T7)'' ''Server Hardware RX (T3) -> Server Kernel TX (T7)'' 7 11 0x08,
     stats_delta ''TT D1: SHR (T3) -> SAR (T5)'' ''Server Hardware RX (T3) -> Server Application RX (T5)'' 7 9 0x0C]"

text \<open>\<open>CLIENT_ONEWAY_DELTAS\<close> and the other index arrays; the count of each is its length.\<close>

definition mode_deltas :: "stats_mode_type_t \<Rightarrow> nat list" where
  "mode_deltas mode = (case mode of
     STATS_CLIENT_ONEWAY \<Rightarrow> [0]
   | STATS_CLIENT_ROUNDTRIP \<Rightarrow> [0, 1, 2, 5, 3, 4]
   | STATS_SERVER_ONEWAY \<Rightarrow> [6, 7, 11]
   | STATS_SERVER_ROUNDTRIP \<Rightarrow> [6, 7, 8, 9, 11, 10])"

section \<open>Result structures\<close>

text \<open>
  \<open>delta_values\<close> is the list of the \<open>packet_count\<close> values stored so far, \<open>None\<close> is the null
  pointer.  \<open>da_lost_arrays\<close> is not in the C structure: it counts arrays that were never freed because
  their only pointer was overwritten.
\<close>

record delta_analysis_t =
  da_packet_count :: u32
  da_delta_values :: "rat list option"
  da_delta_capacity :: u32
  da_exact_percentiles :: "rat list"
  da_percentiles_calculated :: bool
  da_histogram :: "u32 list option"
  da_outlier_count :: u32
  da_used_bins :: u32
  da_lost_arrays :: nat

record stats_analysis_result_t =
  ar_deltas :: "delta_analysis_t list"
  ar_active_deltas :: "nat list"
  ar_mode :: stats_mode_type_t
  ar_config :: stats_config_t

section \<open>Percentiles\<close>

definition exact_percentiles_init :: "(nat \<Rightarrow> bool) \<Rightarrow> delta_analysis_t \<Rightarrow> u32 \<Rightarrow> delta_analysis_t \<times> bool" where
  "exact_percentiles_init alloc a capacity =
     (if capacity = 0 then (a, False)
      else let a1 = a\<lparr>da_lost_arrays := da_lost_arrays a + (if da_delta_values a = None then 0 else 1)\<rparr>
           in if \<not> alloc (unat capacity * 8)
              then (a1\<lparr>da_delta_values := None, da_delta_capacity := 0\<rparr>, False)
              else (a1\<lparr>da_delta_values := Some [], da_delta_capacity := capacity, da_packet_count := 0,
                       da_percentiles_calculated := False, da_exact_percentiles := replicate 5 0\<rparr>, True))"

definition exact_percentiles_add_value :: "delta_analysis_t \<Rightarrow> rat \<Rightarrow> delta_analysis_t" where
  "exact_percentiles_add_value a delta_us =
     (case da_delta_values a of
        None \<Rightarrow> a
      | Some vs \<Rightarrow>
          (if da_packet_count a < da_delta_capacity a
           then a\<lparr>da_delta_values := Some (take (unat (da_packet_count a)) vs @ [delta_us]),
                  da_packet_count := da_packet_count a + 1, da_percentiles_calculated := False\<rparr>
           else a\<lparr>da_outlier_count := da_outlier_count a + 1\<rparr>))"

definition compare_double_deltas :: "rat \<Rightarrow> rat \<Rightarrow> int" where
  "compare_double_deltas da db = (if da < db then - 1 else if da > db then 1 else 0)"

text \<open>
  The position of a percentile and the interpolated value; \<open>pc\<close> is \<open>packet_count\<close>.  Reading
  \<open>delta_values[i]\<close> outside the stored values is \<open>None\<close>.
\<close>

definition percentile_pos :: "rat \<Rightarrow> u32 \<Rightarrow> rat" where
  "percentile_pos p pc = fl64 (fl64 (p / 100) * of_nat (unat (pc - 1)))"

definition value_at :: "rat list \<Rightarrow> nat \<Rightarrow> rat option" where
  "value_at vs i = (if i < length vs then Some (vs ! i) else None)"

definition percentile_value :: "rat list \<Rightarrow> u32 \<Rightarrow> rat \<Rightarrow> rat option" where
  "percentile_value vs pc p =
     (let pos = percentile_pos p pc; lower_idx = nat \<lfloor>pos\<rfloor>; upper_idx = nat \<lceil>pos\<rceil>
      in if lower_idx = upper_idx \<or> unat pc \<le> upper_idx then value_at vs lower_idx
         else case (value_at vs lower_idx, value_at vs upper_idx) of
                (Some lower_val, Some upper_val) \<Rightarrow>
                  Some (fl64 (lower_val + fl64 (fl64 (pos - of_nat lower_idx) * fl64 (upper_val - lower_val))))
              | _ \<Rightarrow> None)"

definition percentile_positions :: "rat list" where
  "percentile_positions = [25, 50, 75, 90, 95]"

text \<open>\<open>None\<close> is a read outside the array.\<close>

definition exact_percentiles_calculate :: "delta_analysis_t \<Rightarrow> delta_analysis_t option" where
  "exact_percentiles_calculate a =
     (case da_delta_values a of
        None \<Rightarrow> Some a
      | Some vs \<Rightarrow>
          (if da_packet_count a = 0 \<or> da_percentiles_calculated a then Some a
           else let sorted = qsort compare_double_deltas (take (unat (da_packet_count a)) vs);
                    ps = map (percentile_value sorted (da_packet_count a)) percentile_positions
                in if list_ex (\<lambda>p. p = None) ps then None
                   else Some (a\<lparr>da_delta_values := Some sorted, da_exact_percentiles := map the ps,
                                da_percentiles_calculated := True\<rparr>)))"

definition exact_percentiles_get :: "delta_analysis_t \<Rightarrow> nat \<Rightarrow> (rat \<times> delta_analysis_t) option" where
  "exact_percentiles_get a percentile =
     (case (if \<not> da_percentiles_calculated a then exact_percentiles_calculate a else Some a) of
        None \<Rightarrow> None
      | Some a' \<Rightarrow>
          Some (if percentile = 25 then da_exact_percentiles a' ! 0
                else if percentile = 50 then da_exact_percentiles a' ! 1
                else if percentile = 75 then da_exact_percentiles a' ! 2
                else if percentile = 90 then da_exact_percentiles a' ! 3
                else if percentile = 95 then da_exact_percentiles a' ! 4
                else 0, a'))"

definition exact_percentiles_cleanup :: "delta_analysis_t \<Rightarrow> delta_analysis_t" where
  "exact_percentiles_cleanup a =
     a\<lparr>da_delta_values := None, da_delta_capacity := 0, da_packet_count := 0, da_percentiles_calculated := False\<rparr>"

section \<open>Configuration, allocation, validation\<close>

definition zero_analysis :: delta_analysis_t where
  "zero_analysis =
     \<lparr>da_packet_count = 0, da_delta_values = None, da_delta_capacity = 0, da_exact_percentiles = replicate 5 0,
      da_percentiles_calculated = False, da_histogram = None, da_outlier_count = 0, da_used_bins = 0, da_lost_arrays = 0\<rparr>"

text \<open>Apply a function to the analysis of one delta.\<close>

definition upd_delta :: "nat \<Rightarrow> (delta_analysis_t \<Rightarrow> delta_analysis_t) \<Rightarrow> stats_analysis_result_t \<Rightarrow> stats_analysis_result_t" where
  "upd_delta i f r = r\<lparr>ar_deltas := (ar_deltas r)[i := f (ar_deltas r ! i)]\<rparr>"

definition configure_analysis_for_mode :: "(nat \<Rightarrow> bool) \<Rightarrow> stats_mode_type_t \<Rightarrow> stats_config_t \<Rightarrow> stats_analysis_result_t" where
  "configure_analysis_for_mode alloc mode cfg =
     fold (\<lambda>i. upd_delta i (\<lambda>a.
             fst (exact_percentiles_init alloc
               (a\<lparr>da_packet_count := 0, da_histogram := None, da_outlier_count := 0, da_used_bins := 0\<rparr>)
               (sc_buffer_size cfg))))
       (mode_deltas mode)
       \<lparr>ar_deltas = replicate 12 zero_analysis, ar_active_deltas = mode_deltas mode, ar_mode = mode, ar_config = cfg\<rparr>"

definition cleanup_analysis_result :: "stats_analysis_result_t \<Rightarrow> stats_analysis_result_t" where
  "cleanup_analysis_result r =
     (fold (\<lambda>i. upd_delta i (\<lambda>a. exact_percentiles_cleanup
               (a\<lparr>da_histogram := None, da_packet_count := 0, da_outlier_count := 0, da_used_bins := 0\<rparr>)))
        (ar_active_deltas r) r)\<lparr>ar_active_deltas := []\<rparr>"

definition allocate_analysis_structures_for_delta ::
  "(nat \<Rightarrow> bool) \<Rightarrow> delta_analysis_t \<Rightarrow> u32 \<Rightarrow> u32 \<Rightarrow> delta_analysis_t \<times> bool" where
  "allocate_analysis_structures_for_delta alloc a max_bins buffer_capacity =
     (if max_bins = 0 then (a, False)
      else let a1 = fst (exact_percentiles_init alloc a buffer_capacity)
           in if \<not> alloc (unat max_bins * 4) then (a1\<lparr>da_histogram := None\<rparr>, False)
              else (a1\<lparr>da_histogram := Some (replicate (unat max_bins) 0), da_packet_count := 0,
                       da_outlier_count := 0, da_used_bins := 0\<rparr>, True))"

text \<open>The loop over the active deltas; \<open>allocated\<close> are those already allocated, freed again on a failure.\<close>

fun allocate_histograms_loop ::
  "(nat \<Rightarrow> bool) \<Rightarrow> nat list \<Rightarrow> nat list \<Rightarrow> stats_analysis_result_t \<Rightarrow> stats_analysis_result_t \<times> bool" where
  "allocate_histograms_loop alloc allocated [] r = (r, True)"
| "allocate_histograms_loop alloc allocated (i # is) r =
     (let (a, ok) = allocate_analysis_structures_for_delta alloc (ar_deltas r ! i)
                      (sc_max_bins (ar_config r)) (sc_buffer_size (ar_config r));
          r1 = upd_delta i (\<lambda>_. a) r
      in if ok then allocate_histograms_loop alloc (allocated @ [i]) is r1
         else (fold (\<lambda>j. upd_delta j (\<lambda>b. b\<lparr>da_histogram := None\<rparr>)) allocated r1, False))"

definition allocate_analysis_histograms :: "(nat \<Rightarrow> bool) \<Rightarrow> stats_analysis_result_t \<Rightarrow> stats_analysis_result_t \<times> bool" where
  "allocate_analysis_histograms alloc r = allocate_histograms_loop alloc [] (ar_active_deltas r) r"

definition validate_analysis_result :: "stats_analysis_result_t \<Rightarrow> bool" where
  "validate_analysis_result r =
     (if length (ar_active_deltas r) = 0 then False
      else if 10 < length (ar_active_deltas r) then False
      else if sc_max_bins (ar_config r) = 0 then False
      else if sc_bin_width_us (ar_config r) = 0 then False
      else list_all (\<lambda>i. i < 12) (ar_active_deltas r))"

definition initialize_analysis_result ::
  "(nat \<Rightarrow> bool) \<Rightarrow> stats_mode_type_t \<Rightarrow> stats_config_t \<Rightarrow> stats_analysis_result_t \<times> bool" where
  "initialize_analysis_result alloc mode cfg =
     (let r = configure_analysis_for_mode alloc mode cfg
      in if \<not> validate_analysis_result r then (r, False)
         else let (r1, ok) = allocate_analysis_histograms alloc r
              in if ok then (r1, True) else (cleanup_analysis_result r1, False))"

definition reset_analysis_counters :: "stats_analysis_result_t \<Rightarrow> stats_analysis_result_t" where
  "reset_analysis_counters r =
     fold (\<lambda>i. upd_delta i (\<lambda>a.
             a\<lparr>da_packet_count := 0, da_outlier_count := 0, da_used_bins := 0,
               da_histogram := map_option (\<lambda>_. replicate (unat (sc_max_bins (ar_config r))) 0) (da_histogram a)\<rparr>))
       (ar_active_deltas r) r"

section \<open>Evaluating the recorded packets\<close>

text \<open>
  The signed difference is taken on 64 bit words.  The cast of a non-negative \<open>double\<close> to
  \<open>uint32_t\<close> truncates.
\<close>

definition process_entry_for_delta ::
  "stats_entry_t \<Rightarrow> delta_analysis_t \<Rightarrow> nat \<Rightarrow> stats_config_t \<Rightarrow> delta_analysis_t" where
  "process_entry_for_delta e a delta_idx cfg =
     (if 12 \<le> delta_idx then a
      else let d = ALL_DELTAS ! delta_idx;
               ts_a = se_timestamp_ns e ! sd_timestamp_a_index d;
               ts_b = se_timestamp_ns e ! sd_timestamp_b_index d
           in if ts_a = 0 \<or> ts_b = 0 then a
              else let delta_ns = sint (ts_b - ts_a)
                   in if delta_ns < 0 then a
                      else let delta_us = fl64 (fl64 (of_int delta_ns) / 1000)
                           in if delta_us < fl64 (1 / 1000) then a
                              else if delta_us > 1000000 then a\<lparr>da_outlier_count := da_outlier_count a + 1\<rparr>
                              else let a1 = exact_percentiles_add_value a delta_us;
                                       bin = (of_int \<lfloor>fl64 (delta_us / of_nat (unat (sc_bin_width_us cfg)))\<rfloor> :: u32)
                                   in if bin < sc_max_bins cfg
                                      then case da_histogram a1 of
                                             None \<Rightarrow> a1
                                           | Some h \<Rightarrow>
                                               a1\<lparr>da_histogram := Some (h[unat bin := h ! unat bin + 1]),
                                                  da_used_bins := (if da_used_bins a1 \<le> bin then bin + 1 else da_used_bins a1)\<rparr>
                                      else a1\<lparr>da_outlier_count := da_outlier_count a1 + 1\<rparr>)"

definition process_entry :: "stats_entry_t \<Rightarrow> stats_analysis_result_t \<Rightarrow> stats_analysis_result_t" where
  "process_entry e r =
     fold (\<lambda>i. upd_delta i (\<lambda>a. process_entry_for_delta e a i (ar_config r))) (ar_active_deltas r) r"

definition process_buffer_for_analysis ::
  "(nat \<Rightarrow> bool) \<Rightarrow> stats_collector_t \<Rightarrow> stats_analysis_result_t \<Rightarrow> stats_analysis_result_t" where
  "process_buffer_for_analysis alloc st r =
     (if st_buffer st = [] then r
      else let entry_count = get_buffer_count st
           in if entry_count = 0 then r
              else let (r1, ok) = allocate_analysis_histograms alloc r
                   in if \<not> ok then r1
                      else fold (\<lambda>i. process_entry (st_buffer st ! unat ((st_tail st + of_nat i) AND st_size_mask st)))
                             [0..<unat entry_count] r1)"

section \<open>Report\<close>

text \<open>Lines that go through the logger, and raw text printed to standard output.\<close>

datatype report_item = Info string | Print string

text \<open>\<open>"%.3f"\<close> of a non-negative double.\<close>

definition show_fixed3 :: "rat \<Rightarrow> string" where
  "show_fixed3 x = (let n = nat (round_even (x * 1000)) in show_dec (n div 1000) @ ''.'' @ show_pad 3 (n mod 1000))"

definition packet_summary :: "stats_mode_type_t \<Rightarrow> u64 \<Rightarrow> u64 \<Rightarrow> report_item list" where
  "packet_summary mode packets_sent packets_received =
     (let sent = show_dec (unat packets_sent); received = show_dec (unat packets_received)
      in (case mode of
            STATS_CLIENT_ONEWAY \<Rightarrow> [Info (''Total packets sent: '' @ sent)]
          | STATS_CLIENT_ROUNDTRIP \<Rightarrow>
              [Info (''Total packets sent: '' @ sent), Info (''Total return packets received: '' @ received)]
          | STATS_SERVER_ONEWAY \<Rightarrow> [Info (''Total packets received: '' @ received)]
          | STATS_SERVER_ROUNDTRIP \<Rightarrow>
              [Info (''Total packets received: '' @ received), Info (''Total return packets sent: '' @ sent)]) @
         [Print [CHR 0x0A]])"

fun histogram_items :: "u32 list \<Rightarrow> nat \<Rightarrow> string list" where
  "histogram_items [] bin = []"
| "histogram_items (c # cs) bin =
     (if 0 < c then [show_dec (bin + 1) @ '':'' @ show_dec (unat c)] else []) @ histogram_items cs (bin + 1)"

fun comma_separated :: "string list \<Rightarrow> string" where
  "comma_separated [] = []"
| "comma_separated [x] = x"
| "comma_separated (x # xs) = x @ '','' @ comma_separated xs"

definition display_delta_block :: "delta_analysis_t \<Rightarrow> nat \<Rightarrow> stats_config_t \<Rightarrow> (report_item list \<times> delta_analysis_t) option" where
  "display_delta_block a delta_idx cfg =
     (if 12 \<le> delta_idx then Some ([], a)
      else let head = [Info (sd_abbreviation (ALL_DELTAS ! delta_idx) @ '':''),
                       Info (''Packets Evaluated: '' @ show_dec (unat (da_packet_count a)))]
           in if da_packet_count a = 0 then Some (head, a)
              else case exact_percentiles_get a 25 of
                     None \<Rightarrow> None
                   | Some (_, a') \<Rightarrow>
                       (let p = (\<lambda>i. show_fixed3 (da_exact_percentiles a' ! i));
                            bins = (case da_histogram a' of
                                      None \<Rightarrow> []
                                    | Some h \<Rightarrow> histogram_items (take (unat (da_used_bins a')) h) 0);
                            outl = (if 0 < da_outlier_count a' then [''outliers:'' @ show_dec (unat (da_outlier_count a'))] else [])
                        in Some (head @
                             [Info (''Percentiles (us): P25='' @ p 0 @ '',P50='' @ p 1 @ '',P75='' @ p 2 @ '',P90='' @ p 3 @ '',P95='' @ p 4),
                              Print (''[INFO] Histograms: (bin width='' @ show_dec (unat (sc_bin_width_us cfg)) @ ''us) ''),
                              Print (comma_separated (bins @ outl))], a')))"

fun display_blocks :: "nat list \<Rightarrow> stats_analysis_result_t \<Rightarrow> (report_item list \<times> stats_analysis_result_t) option" where
  "display_blocks [] r = Some ([], r)"
| "display_blocks (i # is) r =
     (case display_delta_block (ar_deltas r ! i) i (ar_config r) of
        None \<Rightarrow> None
      | Some (items, a) \<Rightarrow>
          (case display_blocks is (upd_delta i (\<lambda>_. a) r) of
             None \<Rightarrow> None
           | Some (rest, r') \<Rightarrow> Some (items @ [Print [CHR 0x0A], Print [CHR 0x0A]] @ rest, r')))"

definition display_analysis_results ::
  "stats_analysis_result_t \<Rightarrow> u64 \<Rightarrow> u64 \<Rightarrow> (report_item list \<times> stats_analysis_result_t) option" where
  "display_analysis_results r packets_sent packets_received =
     (case display_blocks (ar_active_deltas r) r of
        None \<Rightarrow> None
      | Some (blocks, r') \<Rightarrow>
          Some ([Info ''STATS ANALYSIS RESULTS'', Info ''======================''] @
                packet_summary (ar_mode r) packets_sent packets_received @ blocks @
                [Info ''Key: Deltas and trip times:''] @
                map (\<lambda>i. Info (sd_abbreviation (ALL_DELTAS ! i) @ '': '' @ sd_description (ALL_DELTAS ! i))) (ar_active_deltas r), r'))"

section \<open>The integer reference\<close>

text \<open>The difference of the two timestamps of a delta in nanoseconds, where it is defined.\<close>

definition entry_delta :: "nat \<Rightarrow> stats_entry_t \<Rightarrow> nat option" where
  "entry_delta i e =
     (let ts_a = se_timestamp_ns e ! sd_timestamp_a_index (ALL_DELTAS ! i);
          ts_b = se_timestamp_ns e ! sd_timestamp_b_index (ALL_DELTAS ! i)
      in if ts_a = 0 \<or> ts_b = 0 \<or> sint (ts_b - ts_a) < 0 then None else Some (nat (sint (ts_b - ts_a))))"

definition bin_of :: "stats_config_t \<Rightarrow> nat \<Rightarrow> nat" where
  "bin_of cfg d = d div (1000 * unat (sc_bin_width_us cfg))"

definition in_range :: "nat \<Rightarrow> bool" where
  "in_range d \<longleftrightarrow> 0 < d \<and> d \<le> 10 ^ 9"

definition record_delta :: "stats_config_t \<Rightarrow> nat \<Rightarrow> delta_analysis_t \<Rightarrow> delta_analysis_t" where
  "record_delta cfg d a =
     (if d = 0 then a
      else if 10 ^ 9 < d then a\<lparr>da_outlier_count := da_outlier_count a + 1\<rparr>
      else let a1 = exact_percentiles_add_value a (fl64 (of_nat d / 1000)); bin = bin_of cfg d
           in if bin < unat (sc_max_bins cfg)
              then case da_histogram a1 of
                     None \<Rightarrow> a1
                   | Some h \<Rightarrow> a1\<lparr>da_histogram := Some (h[bin := h ! bin + 1]),
                                  da_used_bins := (if da_used_bins a1 \<le> of_nat bin then of_nat bin + 1 else da_used_bins a1)\<rparr>
              else a1\<lparr>da_outlier_count := da_outlier_count a1 + 1\<rparr>)"

subsection \<open>Floating point against integers\<close>

lemma fl64_thousandth: "0 < fl64 (1 / 1000)" "1000000 < fl64 (1000000001 / 1000)" "fl64 1000000 = 1000000"
  by code_simp+

lemma delta_us_zero: "fl64 (fl64 (of_nat d) / 1000) < fl64 (1 / 1000) \<longleftrightarrow> d = 0"
proof (cases "d = 0")
  case True
  then show ?thesis using fl64_thousandth(1) by simp
next
  case False
  then have "fl64 (of_nat 1) \<le> fl64 (of_nat d)" by (intro fl64_mono) simp_all
  then have "1 / 1000 \<le> fl64 (of_nat d) / 1000" using fl64_exact_nat [of 1] by simp
  then have "fl64 (1 / 1000) \<le> fl64 (fl64 (of_nat d) / 1000)" by (rule fl64_mono [rotated]) simp
  then show ?thesis using False by simp
qed

lemma delta_us_large: "1000000 < fl64 (fl64 (of_nat d) / 1000) \<longleftrightarrow> 10 ^ 9 < d"
proof (cases "d \<le> 10 ^ 9")
  case True
  then have "(of_nat d :: rat) \<le> of_nat (10 ^ 9)" by (simp only: of_nat_le_iff)
  then have "fl64 (of_nat d) \<le> fl64 (of_nat (10 ^ 9))" by (intro fl64_mono) simp_all
  also have "\<dots> = 10 ^ 9" by (subst fl64_exact_nat) simp_all
  finally have "fl64 (of_nat d) / 1000 \<le> 1000000" by simp
  moreover have "0 \<le> fl64 (of_nat d) / 1000" using fl.rnd_nonneg [of "of_nat d"] by simp
  ultimately have "fl64 (fl64 (of_nat d) / 1000) \<le> fl64 1000000" by (intro fl64_mono)
  then show ?thesis using True fl64_thousandth(3) by simp
next
  case False
  then have "(of_nat (10 ^ 9 + 1) :: rat) \<le> of_nat d" by (simp only: of_nat_le_iff)
  then have "fl64 (of_nat (10 ^ 9 + 1)) \<le> fl64 (of_nat d)" by (intro fl64_mono) simp_all
  then have "1000000001 \<le> fl64 (of_nat d)" using fl64_exact_nat [of "10 ^ 9 + 1"] by simp
  then have "fl64 (1000000001 / 1000) \<le> fl64 (fl64 (of_nat d) / 1000)" by (intro fl64_mono) simp_all
  then show ?thesis using False fl64_thousandth(2) by simp
qed

lemma bin_exact:
  assumes "d \<le> 10 ^ 9" and "1 \<le> unat w" and "unat w \<le> 1000"
  shows "\<lfloor>fl64 (fl64 (of_nat d / 1000) / of_nat (unat w))\<rfloor> = int (d div (1000 * unat w))"
  using fl.floor_two_divisions [of 1000 "unat w" d] assms by simp

lemma bin_small: "d \<le> 10 ^ 9 \<Longrightarrow> 1 \<le> w \<Longrightarrow> d div (1000 * w) \<le> 10 ^ 6" for d w :: nat
proof -
  assume "d \<le> 10 ^ 9" and "1 \<le> w"
  then have "d div (1000 * w) \<le> 10 ^ 9 div 1000"
    using div_le_mono2 [of 1000 "1000 * w" d] div_le_mono [of d "10 ^ 9" 1000] by simp
  then show ?thesis by simp
qed

lemma process_entry_for_delta_spec:
  assumes "i < 12" and w: "1 \<le> unat (sc_bin_width_us cfg)" "unat (sc_bin_width_us cfg) \<le> 1000"
  shows "process_entry_for_delta e a i cfg =
    (case entry_delta i e of None \<Rightarrow> a | Some d \<Rightarrow> record_delta cfg d a)"
proof -
  let ?a = "se_timestamp_ns e ! sd_timestamp_a_index (ALL_DELTAS ! i)"
  let ?b = "se_timestamp_ns e ! sd_timestamp_b_index (ALL_DELTAS ! i)"
  show ?thesis
  proof (cases "?a = 0 \<or> ?b = 0 \<or> sint (?b - ?a) < 0")
    case True
    with assms(1) show ?thesis by (auto simp: process_entry_for_delta_def entry_delta_def Let_def)
  next
    case False
    define d where "d = nat (sint (?b - ?a))"
    have sd: "sint (?b - ?a) = int d" using False by (simp add: d_def)
    let ?u = "fl64 (fl64 (of_nat d) / 1000)"
    have ed: "entry_delta i e = Some d" using False by (simp add: entry_delta_def Let_def d_def)
    have pe: "process_entry_for_delta e a i cfg =
       (if ?u < fl64 (1 / 1000) then a
        else if ?u > 1000000 then a\<lparr>da_outlier_count := da_outlier_count a + 1\<rparr>
        else let a1 = exact_percentiles_add_value a ?u;
                 bin = (of_int \<lfloor>fl64 (?u / of_nat (unat (sc_bin_width_us cfg)))\<rfloor> :: u32)
             in if bin < sc_max_bins cfg
                then case da_histogram a1 of
                       None \<Rightarrow> a1
                     | Some h \<Rightarrow> a1\<lparr>da_histogram := Some (h[unat bin := h ! unat bin + 1]),
                                    da_used_bins := (if da_used_bins a1 \<le> bin then bin + 1 else da_used_bins a1)\<rparr>
                else a1\<lparr>da_outlier_count := da_outlier_count a1 + 1\<rparr>)"
      using False assms(1) unfolding process_entry_for_delta_def Let_def sd of_int_of_nat_eq by simp
    show ?thesis
    proof (cases "in_range d")
      case False
      then show ?thesis unfolding pe delta_us_zero delta_us_large ed by (auto simp: in_range_def record_delta_def)
    next
      case True
      then have d: "0 < d" "d \<le> 10 ^ 9" by (simp_all add: in_range_def)
      have ex: "fl64 (of_nat d) = of_nat d" using d by (intro fl64_exact_nat) simp
      have bin: "(of_int \<lfloor>fl64 (?u / of_nat (unat (sc_bin_width_us cfg)))\<rfloor> :: u32) = of_nat (bin_of cfg d)"
        unfolding ex bin_exact [OF d(2) w] bin_of_def by simp
      have "bin_of cfg d \<le> 10 ^ 6" unfolding bin_of_def using bin_small [OF d(2) w(1)] .
      then have ub: "unat (of_nat (bin_of cfg d) :: u32) = bin_of cfg d"
        by (intro unat_of_nat_small) simp
      have lt: "(of_nat (bin_of cfg d) :: u32) < sc_max_bins cfg \<longleftrightarrow> bin_of cfg d < unat (sc_max_bins cfg)"
        using ub by (simp add: word_less_nat_alt)
      have "\<not> ?u < fl64 (1 / 1000)" "\<not> ?u > 1000000" using delta_us_zero [of d] delta_us_large [of d] d by simp_all
      then show ?thesis using d unfolding pe ed bin Let_def lt ub unfolding ex by (simp add: record_delta_def Let_def)
    qed
  qed
qed

subsection \<open>Counting\<close>

definition accepted :: "nat list \<Rightarrow> nat list" where
  "accepted ds = filter in_range ds"


definition outliers :: "stats_config_t \<Rightarrow> nat list \<Rightarrow> nat" where
  "outliers cfg ds =
     length (filter (\<lambda>d. 10 ^ 9 < d) ds) + length (filter (\<lambda>d. unat (sc_max_bins cfg) \<le> bin_of cfg d) (accepted ds))"










section \<open>All deltas of a result\<close>

lemma upd_delta_frame [simp]:
  "ar_active_deltas (upd_delta i f r) = ar_active_deltas r" "ar_config (upd_delta i f r) = ar_config r"
  "ar_mode (upd_delta i f r) = ar_mode r" "length (ar_deltas (upd_delta i f r)) = length (ar_deltas r)"
  by (simp_all add: upd_delta_def)

lemma fold_upd_frame [simp]:
  "ar_active_deltas (fold (\<lambda>i. upd_delta i (f i)) is r) = ar_active_deltas r"
  "ar_config (fold (\<lambda>i. upd_delta i (f i)) is r) = ar_config r"
  "ar_mode (fold (\<lambda>i. upd_delta i (f i)) is r) = ar_mode r"
  "length (ar_deltas (fold (\<lambda>i. upd_delta i (f i)) is r)) = length (ar_deltas r)"
  by (induction "is" arbitrary: r) simp_all

lemma fold_upd_nth:
  assumes "distinct is" and "j < length (ar_deltas r)"
  shows "ar_deltas (fold (\<lambda>i. upd_delta i (f i)) is r) ! j =
    (if j \<in> set is then f j (ar_deltas r ! j) else ar_deltas r ! j)"
  using assms
proof (induction "is" arbitrary: r)
  case (Cons i "is")
  have "ar_deltas (upd_delta i (f i) r) ! j = (if j = i then f j (ar_deltas r ! j) else ar_deltas r ! j)"
    using Cons.prems(2) by (simp add: upd_delta_def nth_list_update_neq)
  with Cons show ?case by auto
qed simp

lemma mode_deltas_ok: "distinct (mode_deltas mode)" "list_all (\<lambda>i. i < 12) (mode_deltas mode)"
  "mode_deltas mode \<noteq> []" "length (mode_deltas mode) \<le> 6"
  by (cases mode; simp add: mode_deltas_def)+

lemma process_entry_nth:
  assumes "distinct (ar_active_deltas r)" and "j < length (ar_deltas r)" and "j \<in> set (ar_active_deltas r)"
  shows "ar_deltas (process_entry e r) ! j = process_entry_for_delta e (ar_deltas r ! j) j (ar_config r)"
  unfolding process_entry_def using fold_upd_nth [OF assms(1,2)] assms(3) by simp

lemma process_entry_frame [simp]:
  "ar_active_deltas (process_entry e r) = ar_active_deltas r" "ar_config (process_entry e r) = ar_config r"
  "ar_mode (process_entry e r) = ar_mode r" "length (ar_deltas (process_entry e r)) = length (ar_deltas r)"
  by (simp_all add: process_entry_def)

lemma process_entries_frame [simp]:
  "ar_active_deltas (fold process_entry es r) = ar_active_deltas r" "ar_config (fold process_entry es r) = ar_config r"
  "length (ar_deltas (fold process_entry es r)) = length (ar_deltas r)"
  by (induction es arbitrary: r) simp_all

lemma process_entries_nth:
  assumes "distinct (ar_active_deltas r)" and "j < length (ar_deltas r)" and "j \<in> set (ar_active_deltas r)"
  shows "ar_deltas (fold process_entry es r) ! j =
    fold (\<lambda>e a. process_entry_for_delta e a j (ar_config r)) es (ar_deltas r ! j)"
  using assms by (induction es arbitrary: r) (simp_all add: process_entry_nth)

text \<open>Allocation when memory is available.\<close>

definition allocated_analysis :: "stats_config_t \<Rightarrow> delta_analysis_t \<Rightarrow> delta_analysis_t" where
  "allocated_analysis cfg a =
     a\<lparr>da_packet_count := 0, da_delta_values := Some [], da_delta_capacity := sc_buffer_size cfg,
       da_exact_percentiles := replicate 5 0, da_percentiles_calculated := False,
       da_histogram := Some (replicate (unat (sc_max_bins cfg)) 0), da_outlier_count := 0, da_used_bins := 0,
       da_lost_arrays := da_lost_arrays a + (if da_delta_values a = None then 0 else 1)\<rparr>"

lemma allocate_structures_ok:
  assumes "\<And>n. alloc n" and "sc_max_bins cfg \<noteq> 0" and "sc_buffer_size cfg \<noteq> 0"
  shows "allocate_analysis_structures_for_delta alloc a (sc_max_bins cfg) (sc_buffer_size cfg) = (allocated_analysis cfg a, True)"
  using assms by (simp add: allocate_analysis_structures_for_delta_def exact_percentiles_init_def allocated_analysis_def Let_def)

lemma allocate_loop_ok:
  assumes "\<And>n. alloc n" and "sc_max_bins (ar_config r) \<noteq> 0" and "sc_buffer_size (ar_config r) \<noteq> 0"
  shows "allocate_histograms_loop alloc dn is r = (fold (\<lambda>i. upd_delta i (allocated_analysis (ar_config r))) is r, True)"
  using assms(2,3)
proof (induction "is" arbitrary: r dn)
  case (Cons i "is")
  have "upd_delta i (\<lambda>_. allocated_analysis (ar_config r) (ar_deltas r ! i)) r = upd_delta i (allocated_analysis (ar_config r)) r"
    by (simp add: upd_delta_def)
  with Cons show ?case using allocate_structures_ok [OF assms(1) Cons.prems] by simp
qed simp

lemma allocate_histograms_ok:
  assumes "\<And>n. alloc n" and "sc_max_bins (ar_config r) \<noteq> 0" and "sc_buffer_size (ar_config r) \<noteq> 0"
  shows "allocate_analysis_histograms alloc r =
    (fold (\<lambda>i. upd_delta i (allocated_analysis (ar_config r))) (ar_active_deltas r) r, True)"
  unfolding allocate_analysis_histograms_def using allocate_loop_ok [OF assms] .


text \<open>What initialisation followed by the evaluation computes.\<close>

lemma initialize_ok:
  assumes "\<And>n. alloc n" and "sc_max_bins cfg \<noteq> 0" and "sc_buffer_size cfg \<noteq> 0" and "sc_bin_width_us cfg \<noteq> 0"
  obtains r where "initialize_analysis_result alloc mode cfg = (r, True)" and "ar_active_deltas r = mode_deltas mode"
    and "ar_config r = cfg" and "length (ar_deltas r) = 12" and "ar_mode r = mode"
    and "\<forall>j \<in> set (mode_deltas mode).
      da_lost_arrays (ar_deltas r ! j) = 1 \<and> da_delta_values (ar_deltas r ! j) = Some []"
proof -
  let ?c = "configure_analysis_for_mode alloc mode cfg"
  have c: "ar_active_deltas ?c = mode_deltas mode" "ar_config ?c = cfg" "length (ar_deltas ?c) = 12" "ar_mode ?c = mode"
    by (simp_all add: configure_analysis_for_mode_def)
  have v: "validate_analysis_result ?c"
    using c assms mode_deltas_ok [of mode] by (simp add: validate_analysis_result_def)
  let ?r = "fold (\<lambda>i. upd_delta i (allocated_analysis cfg)) (mode_deltas mode) ?c"
  have "initialize_analysis_result alloc mode cfg = (?r, True)"
    using v allocate_histograms_ok [of alloc ?c] assms c by (simp add: initialize_analysis_result_def Let_def)
  moreover have "da_lost_arrays (ar_deltas ?r ! j) = 1 \<and> da_delta_values (ar_deltas ?r ! j) = Some []"
    if "j \<in> set (mode_deltas mode)" for j
  proof -
    have j: "j < 12" using that mode_deltas_ok(2) [of mode] by (simp add: list_all_iff)
    have "ar_deltas ?c ! j = fst (exact_percentiles_init alloc zero_analysis (sc_buffer_size cfg))"
      unfolding configure_analysis_for_mode_def using mode_deltas_ok(1) [of mode] that j
      by (subst fold_upd_nth) (simp_all add: zero_analysis_def)
    then have "da_delta_values (ar_deltas ?c ! j) = Some []" "da_lost_arrays (ar_deltas ?c ! j) = 0"
      using assms(1,3) by (simp_all add: exact_percentiles_init_def zero_analysis_def)
    moreover have "ar_deltas ?r ! j = allocated_analysis cfg (ar_deltas ?c ! j)"
      using fold_upd_nth [of "mode_deltas mode" j ?c] mode_deltas_ok(1) [of mode] that j c by simp
    ultimately show ?thesis by (simp add: allocated_analysis_def)
  qed
  ultimately show ?thesis using that c by simp
qed

lemma process_buffer_entries:
  assumes "stats_wf st" and "stats_contents st \<noteq> []"
  shows "process_buffer_for_analysis alloc st r =
    (let (r1, ok) = allocate_analysis_histograms alloc r in if ok then fold process_entry (stats_contents st) r1 else r1)"
proof -
  have "st_buffer st \<noteq> []" using assms(1) by (auto simp: stats_wf_def ring_wf_def)
  moreover have len: "unat (get_buffer_count st) = length (stats_contents st)"
    by (simp add: get_buffer_count_def stats_contents_def length_ring_contents ring_count_def)
  then have "get_buffer_count st \<noteq> 0" using assms(2) by auto
  moreover have "fold (\<lambda>i. process_entry (st_buffer st ! unat ((st_tail st + of_nat i) AND st_size_mask st)))
      [0..<unat (get_buffer_count st)] r1 = fold process_entry (stats_contents st) r1" for r1
    by (simp add: stats_contents_def ring_contents_def ring_count_def get_buffer_count_def fold_map comp_def)
  ultimately show ?thesis by (auto simp: process_buffer_for_analysis_def Let_def split: prod.splits)
qed

section \<open>Percentile positions\<close>






section \<open>Properties\<close>


definition sample_stats_config :: stats_config_t where
  "sample_stats_config = \<lparr>sc_enabled = True, sc_buffer_size = 8, sc_bin_width_us = 10, sc_max_bins = 4\<rparr>"

text \<open>Three packets with D1 deltas of 25.5 microseconds, 1 second and a negative one.\<close>

definition sample_stats :: stats_collector_t where
  "sample_stats = stats_record_all sample_collector
     (map (\<lambda>ts. (sample_minimal 1)\<lparr>se_timestamp_ns := ts\<rparr>)
        [[0, 1000, 26500, 0, 0, 0, 0, 0, 0, 0, 0, 0], [0, 1, 1000000001, 0, 0, 0, 0, 0, 0, 0, 0, 0], [0, 9, 8, 0, 0, 0, 0, 0, 0, 0, 0, 0]])"

lemma sample_stats_facts:
  "stats_wf sample_stats" "stats_contents sample_stats \<noteq> []" "length (stats_contents sample_stats) \<le> 8"
  "List.map_filter (entry_delta 0) (stats_contents sample_stats) = [25500, 1000000000]"
  by code_simp+




text \<open>
  Every value array allocated before the last allocation is lost: after initialisation and evaluation, two arrays per delta
  are no longer reachable, because \<open>exact_percentiles_init\<close> overwrites the pointer without freeing it.
\<close>

lemma analysis_loses_arrays:
  assumes "\<And>n. alloc n" and "stats_wf st" and "stats_contents st \<noteq> []"
    and "sc_bin_width_us cfg \<noteq> 0" and "sc_max_bins cfg \<noteq> 0" and "sc_buffer_size cfg \<noteq> 0"
    and "initialize_analysis_result alloc mode cfg = (r, ok)" and "i \<in> set (mode_deltas mode)"
  shows "da_lost_arrays (ar_deltas (process_buffer_for_analysis alloc st r) ! i) = 2"
proof -
  obtain r' where "initialize_analysis_result alloc mode cfg = (r', True)" "ar_active_deltas r' = mode_deltas mode"
    "ar_config r' = cfg" "length (ar_deltas r') = 12" "ar_mode r' = mode"
    "\<forall>j \<in> set (mode_deltas mode). da_lost_arrays (ar_deltas r' ! j) = 1 \<and> da_delta_values (ar_deltas r' ! j) = Some []"
    by (rule initialize_ok [of alloc cfg mode, OF assms(1,5,6,4)])
  then have r: "ar_active_deltas r = mode_deltas mode" "ar_config r = cfg" "length (ar_deltas r) = 12"
    "da_lost_arrays (ar_deltas r ! i) = 1 \<and> da_delta_values (ar_deltas r ! i) = Some []"
    using assms(7,8) by auto
  have i: "i < 12" using assms(8) mode_deltas_ok(2) [of mode] by (simp add: list_all_iff)
  let ?r1 = "fold (\<lambda>i. upd_delta i (allocated_analysis cfg)) (mode_deltas mode) r"
  have p: "process_buffer_for_analysis alloc st r = fold process_entry (stats_contents st) ?r1"
    using process_buffer_entries [OF assms(2,3)] allocate_histograms_ok [of alloc r] assms(1,5,6) r by simp
  have "ar_deltas ?r1 ! i = allocated_analysis cfg (ar_deltas r ! i)"
    using fold_upd_nth [of "mode_deltas mode" i r] mode_deltas_ok(1) [of mode] i r assms(8) by simp
  then have "da_lost_arrays (ar_deltas ?r1 ! i) = 2" using r(4) by (simp add: allocated_analysis_def)
  moreover have "da_lost_arrays (fold (\<lambda>e a. process_entry_for_delta e a i cfg) es a) = da_lost_arrays a" for es a
  proof (induction es arbitrary: a)
    case (Cons e es)
    have "da_lost_arrays (process_entry_for_delta e a i cfg) = da_lost_arrays a"
      by (auto simp: process_entry_for_delta_def exact_percentiles_add_value_def Let_def split: option.splits)
    with Cons show ?case by simp
  qed simp
  ultimately show ?thesis
    using process_entries_nth [of ?r1 i] mode_deltas_ok(1) [of mode] r i assms(8) p by simp
qed

lemma analysis_loses_arrays_witness:
  "case initialize_analysis_result (\<lambda>_. True) STATS_CLIENT_ONEWAY sample_stats_config of (r, ok) \<Rightarrow>
     da_lost_arrays (ar_deltas (process_buffer_for_analysis (\<lambda>_. True) sample_stats r) ! 0) = 2"
proof -
  obtain r ok where i: "initialize_analysis_result (\<lambda>_. True) STATS_CLIENT_ONEWAY sample_stats_config = (r, ok)" by fastforce
  have "da_lost_arrays (ar_deltas (process_buffer_for_analysis (\<lambda>_. True) sample_stats r) ! 0) = 2"
    by (rule analysis_loses_arrays [OF _ sample_stats_facts(1,2) _ _ _ i])
      (simp_all add: sample_stats_config_def mode_deltas_def)
  then show ?thesis using i by simp
qed

text \<open>
  Once the value array is full, a packet within the histogram range is counted twice: in its bin and as an
  outlier.  The ring can hold more packets than the array, because its size is rounded up to a power of two.
\<close>

lemma full_array_counts_twice:
  assumes "i < 12" and "1 \<le> unat (sc_bin_width_us cfg)" and "unat (sc_bin_width_us cfg) \<le> 1000"
    and "entry_delta i e = Some d" and "in_range d" and "bin_of cfg d < unat (sc_max_bins cfg)"
    and "da_delta_values a = Some vs" and "da_histogram a = Some h" and "da_delta_capacity a \<le> da_packet_count a"
  shows "da_outlier_count (process_entry_for_delta e a i cfg) = da_outlier_count a + 1 \<and>
    da_histogram (process_entry_for_delta e a i cfg) = Some (h[bin_of cfg d := h ! bin_of cfg d + 1])"
  using assms(4-9) unfolding process_entry_for_delta_spec [OF assms(1-3)]
  by (auto simp: record_delta_def in_range_def exact_percentiles_add_value_def Let_def)

lemma full_array_counts_twice_witness:
  "da_outlier_count (process_entry_for_delta ((sample_minimal 1)\<lparr>se_timestamp_ns := [0, 1000, 26500, 0, 0, 0, 0, 0, 0, 0, 0, 0]\<rparr>)
     (allocated_analysis (sample_stats_config\<lparr>sc_buffer_size := 0\<rparr>) zero_analysis) 0 sample_stats_config) = 1"
proof -
  let ?e = "(sample_minimal 1)\<lparr>se_timestamp_ns := [0, 1000, 26500, 0, 0, 0, 0, 0, 0, 0, 0, 0]\<rparr>"
  let ?a = "allocated_analysis (sample_stats_config\<lparr>sc_buffer_size := 0\<rparr>) zero_analysis"
  have e: "entry_delta 0 ?e = Some 25500" by code_simp
  have "da_outlier_count (process_entry_for_delta ?e ?a 0 sample_stats_config) = da_outlier_count ?a + 1 \<and>
    da_histogram (process_entry_for_delta ?e ?a 0 sample_stats_config) =
      Some ((replicate 4 0)[bin_of sample_stats_config 25500 := replicate 4 0 ! bin_of sample_stats_config 25500 + 1])"
    by (rule full_array_counts_twice [OF _ _ _ e])
      (simp_all add: bin_of_def sample_stats_config_def allocated_analysis_def in_range_def)
  then show ?thesis by (simp add: allocated_analysis_def)
qed

end
