(* ===== verification/Logging.thy ===== *)
theory Logging
  imports C_Lib
begin

text \<open>
  The console logger (\<open>timestamp_logging.h\<close>, \<open>timestamp_logging.c\<close>): level, component mask, hot path counters,
  initialisation from the environment, and where a message goes.  The time stamp in front of a
  message is a parameter.  The lemmas say which messages appear and that the mask operations enable and
  disable exactly the named component.
\<close>

section \<open>Definitions\<close>

text \<open>Levels and components are C enumerations, here their numbers.\<close>

type_synonym hw_log_level_t = nat
type_synonym hw_log_component_t = nat

definition HW_LOG_LEVEL_TRACE :: hw_log_level_t where "HW_LOG_LEVEL_TRACE = 0"
definition HW_LOG_LEVEL_DEBUG :: hw_log_level_t where "HW_LOG_LEVEL_DEBUG = 1"
definition HW_LOG_LEVEL_INFO :: hw_log_level_t where "HW_LOG_LEVEL_INFO = 2"
definition HW_LOG_LEVEL_WARN :: hw_log_level_t where "HW_LOG_LEVEL_WARN = 3"
definition HW_LOG_LEVEL_ERROR :: hw_log_level_t where "HW_LOG_LEVEL_ERROR = 4"
definition HW_LOG_LEVEL_FATAL :: hw_log_level_t where "HW_LOG_LEVEL_FATAL = 5"
definition HW_LOG_LEVEL_OFF :: hw_log_level_t where "HW_LOG_LEVEL_OFF = 6"

definition HW_LOG_COMPONENT_MAIN :: hw_log_component_t where "HW_LOG_COMPONENT_MAIN = 0"
definition HW_LOG_COMPONENT_CLIENT :: hw_log_component_t where "HW_LOG_COMPONENT_CLIENT = 1"
definition HW_LOG_COMPONENT_SERVER :: hw_log_component_t where "HW_LOG_COMPONENT_SERVER = 2"
definition HW_LOG_COMPONENT_STATS :: hw_log_component_t where "HW_LOG_COMPONENT_STATS = 3"
definition HW_LOG_COMPONENT_CSV :: hw_log_component_t where "HW_LOG_COMPONENT_CSV = 4"
definition HW_LOG_COMPONENT_NETWORK :: hw_log_component_t where "HW_LOG_COMPONENT_NETWORK = 5"
definition HW_LOG_COMPONENT_SIGNAL :: hw_log_component_t where "HW_LOG_COMPONENT_SIGNAL = 6"

lemmas log_level_defs = HW_LOG_LEVEL_TRACE_def HW_LOG_LEVEL_DEBUG_def HW_LOG_LEVEL_INFO_def HW_LOG_LEVEL_WARN_def
  HW_LOG_LEVEL_ERROR_def HW_LOG_LEVEL_FATAL_def HW_LOG_LEVEL_OFF_def

lemmas log_component_defs = HW_LOG_COMPONENT_MAIN_def HW_LOG_COMPONENT_CLIENT_def HW_LOG_COMPONENT_SERVER_def
  HW_LOG_COMPONENT_STATS_def HW_LOG_COMPONENT_CSV_def HW_LOG_COMPONENT_NETWORK_def HW_LOG_COMPONENT_SIGNAL_def

record log_state =
  lg_level :: hw_log_level_t
  lg_component_mask :: u64
  lg_error_count :: u64
  lg_warn_count :: u64

definition initial_log_state :: log_state where
  "initial_log_state =
     \<lparr>lg_level = HW_LOG_LEVEL_INFO, lg_component_mask = 0xFFFFFFFFFFFFFFFF, lg_error_count = 0, lg_warn_count = 0\<rparr>"

definition component_names :: "string list" where
  "component_names = [''MAIN'', ''CLIENT'', ''SERVER'', ''STATS'', ''CSV'', ''NETWORK'', ''SIGNAL'']"

definition level_names :: "string list" where
  "level_names = [''TRACE'', ''DEBUG'', ''INFO'', ''WARN'', ''ERROR'', ''FATAL'']"

text \<open>\<open>getenv("HW_LOG_LEVEL")\<close> is the argument.\<close>

definition env_log_level :: "string \<Rightarrow> hw_log_level_t option" where
  "env_log_level s =
     (if s = ''TRACE'' then Some HW_LOG_LEVEL_TRACE else if s = ''DEBUG'' then Some HW_LOG_LEVEL_DEBUG
      else if s = ''INFO'' then Some HW_LOG_LEVEL_INFO else if s = ''WARN'' then Some HW_LOG_LEVEL_WARN
      else if s = ''ERROR'' then Some HW_LOG_LEVEL_ERROR else if s = ''FATAL'' then Some HW_LOG_LEVEL_FATAL
      else if s = ''OFF'' then Some HW_LOG_LEVEL_OFF else None)"

definition hw_log_init :: "string option \<Rightarrow> log_state \<Rightarrow> log_state" where
  "hw_log_init env_level lg =
     (let lg1 = lg\<lparr>lg_error_count := 0, lg_warn_count := 0\<rparr>
      in case env_level of
           None \<Rightarrow> lg1
         | Some s \<Rightarrow> (case env_log_level s of None \<Rightarrow> lg1 | Some l \<Rightarrow> lg1\<lparr>lg_level := l\<rparr>))"

definition hw_log_set_level :: "hw_log_level_t \<Rightarrow> log_state \<Rightarrow> log_state" where
  "hw_log_set_level level lg = (if level \<le> HW_LOG_LEVEL_OFF then lg\<lparr>lg_level := level\<rparr> else lg)"

definition hw_log_get_level :: "log_state \<Rightarrow> hw_log_level_t" where
  "hw_log_get_level lg = lg_level lg"

definition hw_log_enable_component :: "hw_log_component_t \<Rightarrow> log_state \<Rightarrow> log_state" where
  "hw_log_enable_component c lg =
     (if c < 64 then lg\<lparr>lg_component_mask := lg_component_mask lg OR push_bit c 1\<rparr> else lg)"

definition hw_log_disable_component :: "hw_log_component_t \<Rightarrow> log_state \<Rightarrow> log_state" where
  "hw_log_disable_component c lg =
     (if c < 64 then lg\<lparr>lg_component_mask := lg_component_mask lg AND NOT (push_bit c 1)\<rparr> else lg)"

definition is_component_enabled :: "log_state \<Rightarrow> hw_log_component_t \<Rightarrow> bool" where
  "is_component_enabled lg c \<longleftrightarrow> c < 64 \<and> lg_component_mask lg AND push_bit c 1 \<noteq> 0"

datatype stream = Stdout | Stderr

text \<open>
  \<open>hw_log_internal\<close>: what is written to which stream.  \<open>message\<close> is the formatted text, \<open>location\<close> the
  function name and line when they are given.
\<close>

definition hw_log_internal ::
  "string \<Rightarrow> log_state \<Rightarrow> hw_log_level_t \<Rightarrow> hw_log_component_t \<Rightarrow> (string \<times> nat) option \<Rightarrow> string \<Rightarrow> (stream \<times> string) option" where
  "hw_log_internal timestamp lg level component location message =
     (if level < lg_level lg \<or> HW_LOG_LEVEL_FATAL < level then None
      else if \<not> is_component_enabled lg component then None
      else let level_name = (if level < 6 then level_names ! level else ''UNKNOWN'');
               comp_name = (if component < 7 then component_names ! component else ''UNKNOWN'');
               output = (if HW_LOG_LEVEL_WARN \<le> level then Stderr else Stdout);
               prefix = (if level = HW_LOG_LEVEL_INFO then ''['' @ level_name @ ''] ''
                         else case location of
                                Some (function_name, line) \<Rightarrow>
                                  (if HW_LOG_LEVEL_ERROR \<le> level \<and> 0 < line
                                   then ''['' @ timestamp @ ''] ['' @ level_name @ ''] ['' @ comp_name @ ''] ['' @
                                        function_name @ '':'' @ show_dec line @ ''] ''
                                   else ''['' @ timestamp @ ''] ['' @ level_name @ ''] ['' @ comp_name @ ''] '')
                              | None \<Rightarrow> ''['' @ timestamp @ ''] ['' @ level_name @ ''] ['' @ comp_name @ ''] '')
           in Some (output, prefix @ message @ [CHR 0x0A]))"

text \<open>The macros \<open>HW_LOG_TRACE\<close> to \<open>HW_LOG_FATAL\<close>: the call is guarded by the compile-time level.\<close>

definition HW_LOG ::
  "hw_log_level_t \<Rightarrow> string \<Rightarrow> log_state \<Rightarrow> hw_log_level_t \<Rightarrow> hw_log_component_t \<Rightarrow> (string \<times> nat) option \<Rightarrow> string \<Rightarrow> (stream \<times> string) option" where
  "HW_LOG compile_level timestamp lg level component location message =
     (if compile_level \<le> level then hw_log_internal timestamp lg level component location message else None)"

definition HW_LOG_COMPILE_LEVEL :: hw_log_level_t where
  "HW_LOG_COMPILE_LEVEL = HW_LOG_LEVEL_INFO"

text \<open>
  \<open>hw_signal_safe_log\<close>: three \<open>write\<close> calls to standard error whose results are ignored; the time of day is a
  parameter, absent when \<open>gmtime_r\<close> fails.
\<close>

definition hw_signal_safe_log :: "(nat \<times> nat \<times> nat) option \<Rightarrow> string option \<Rightarrow> string list" where
  "hw_signal_safe_log tm message =
     (case message of
        None \<Rightarrow> []
      | Some m \<Rightarrow>
          [case tm of
             Some (h, mi, s) \<Rightarrow> bounded_copy 16 (''['' @ show_pad 2 h @ '':'' @ show_pad 2 mi @ '':'' @ show_pad 2 s @ ''] '')
           | None \<Rightarrow> ''[??:??:??] '', m, [CHR 0x0A]])"

definition HW_HOTPATH_COUNT_ERROR :: "log_state \<Rightarrow> log_state" where
  "HW_HOTPATH_COUNT_ERROR lg = lg\<lparr>lg_error_count := lg_error_count lg + 1\<rparr>"

definition HW_HOTPATH_COUNT_WARN :: "log_state \<Rightarrow> log_state" where
  "HW_HOTPATH_COUNT_WARN lg = lg\<lparr>lg_warn_count := lg_warn_count lg + 1\<rparr>"

definition hw_reset_hotpath_counters :: "log_state \<Rightarrow> log_state" where
  "hw_reset_hotpath_counters lg = lg\<lparr>lg_error_count := 0, lg_warn_count := 0\<rparr>"

section \<open>The component mask\<close>

lemma enabled_bit: "is_component_enabled lg c \<longleftrightarrow> c < 64 \<and> bit (lg_component_mask lg) c"
proof -
  have "lg_component_mask lg AND push_bit c 1 \<noteq> 0 \<longleftrightarrow> bit (lg_component_mask lg) c" if "c < 64"
  proof
    assume "lg_component_mask lg AND push_bit c 1 \<noteq> 0"
    then obtain n where "bit (lg_component_mask lg AND push_bit c 1) n" by (auto simp: bit_eq_iff)
    then show "bit (lg_component_mask lg) c" by (auto simp: bit_simps)
  next
    assume b: "bit (lg_component_mask lg) c"
    have "bit (lg_component_mask lg AND push_bit c 1) c" using b that by (simp add: bit_simps)
    then show "lg_component_mask lg AND push_bit c 1 \<noteq> 0" by auto
  qed
  then show ?thesis by (auto simp: is_component_enabled_def)
qed

lemma enable_component [simp]:
  "is_component_enabled (hw_log_enable_component d lg) c \<longleftrightarrow> c < 64 \<and> (c = d \<or> is_component_enabled lg c)"
  by (auto simp: enabled_bit hw_log_enable_component_def bit_simps)

lemma disable_component [simp]:
  "is_component_enabled (hw_log_disable_component d lg) c \<longleftrightarrow> c \<noteq> d \<and> is_component_enabled lg c"
  by (auto simp: enabled_bit hw_log_disable_component_def bit_simps)

lemma mask_ops_frame [simp]:
  "lg_level (hw_log_enable_component d lg) = lg_level lg" "lg_level (hw_log_disable_component d lg) = lg_level lg"
  by (simp_all add: hw_log_enable_component_def hw_log_disable_component_def)

lemma initial_enabled: "c < 64 \<Longrightarrow> is_component_enabled initial_log_state c"
proof -
  assume c: "c < 64"
  have "lg_component_mask initial_log_state = - 1" by (simp add: initial_log_state_def)
  then show ?thesis unfolding enabled_bit using c by (simp only: bit_minus_1_iff possible_bit_word) simp
qed

section \<open>Properties\<close>

text \<open>
  A message appears exactly when its level is at least the compile-time level and the
  configured level, is not above FATAL, and its component is enabled; WARN and above go to standard error, the rest to standard output.
\<close>

theorem log_message_routing:
  "(case HW_LOG compile_level timestamp lg level component location message of
      None \<Rightarrow> \<not> (compile_level \<le> level \<and> lg_level lg \<le> level \<and> level \<le> HW_LOG_LEVEL_FATAL \<and> is_component_enabled lg component)
    | Some (out, _) \<Rightarrow> compile_level \<le> level \<and> lg_level lg \<le> level \<and> level \<le> HW_LOG_LEVEL_FATAL \<and>
        is_component_enabled lg component \<and> (out = Stderr) = (HW_LOG_LEVEL_WARN \<le> level))"
  by (auto simp: HW_LOG_def hw_log_internal_def Let_def)

text \<open>
  Lowering the run-time level does not bring back DEBUG messages: with the default compile-time
  level INFO no DEBUG or TRACE message is ever written, whatever the level is set to.
\<close>

lemma debug_messages_compiled_out:
  assumes "level < HW_LOG_LEVEL_INFO"
  shows "HW_LOG HW_LOG_COMPILE_LEVEL timestamp (hw_log_set_level l lg) level component location message = None"
  using assms by (simp add: HW_LOG_def HW_LOG_COMPILE_LEVEL_def)

lemma debug_messages_compiled_out_witness:
  "HW_LOG HW_LOG_COMPILE_LEVEL [] (hw_log_set_level HW_LOG_LEVEL_DEBUG initial_log_state) HW_LOG_LEVEL_DEBUG
     HW_LOG_COMPONENT_MAIN None ''x'' = None"
  using debug_messages_compiled_out [of HW_LOG_LEVEL_DEBUG] by (simp add: log_level_defs)

end
