(* ===== verification/Config.thy ===== *)
theory Config
  imports Logging Getopt Stats_Collector
begin

text \<open>
  Command lines of \<open>timestamp_client.c\<close> and \<open>timestamp_server.c\<close>: the shared parsers for the statistics
  argument, log level and log components, the names of the CSV files, and both \<open>main\<close> functions up to the point where
  they dispatch to a mode.  \<open>None\<close> is the exit with \<open>EXIT_FAILURE\<close>.
\<close>

section \<open>Shared parsers\<close>

definition parse_buffer_size :: "string \<Rightarrow> u64 option" where
  "parse_buffer_size token =
     (let (n, endptr) = strtoul token
      in case endptr of
           [] \<Rightarrow> Some n
         | c # _ \<Rightarrow>
             (if c = CHR ''M'' \<or> c = CHR ''m'' then Some (n * 1000000)
              else if c = CHR ''K'' \<or> c = CHR ''k'' then Some (n * 1000)
              else None))"

fun parse_stats_tokens :: "string list \<Rightarrow> stats_config_t \<Rightarrow> stats_config_t option" where
  "parse_stats_tokens [] cfg = Some cfg"
| "parse_stats_tokens (token # tokens) cfg =
     (if is_prefix ''bw='' token then
        (let bin_width = fst (strtoul (drop 3 token))
         in if bin_width < 1 \<or> 1000 < bin_width then None
            else parse_stats_tokens tokens (cfg\<lparr>sc_bin_width_us := ucast bin_width\<rparr>))
      else if is_prefix ''bn='' token then
        (let bin_count = fst (strtoul (drop 3 token))
         in if bin_count < 10 \<or> 10000 < bin_count then None
            else parse_stats_tokens tokens (cfg\<lparr>sc_max_bins := ucast bin_count\<rparr>))
      else None)"

text \<open>\<open>alloc\<close> tells whether \<open>strdup\<close> succeeds.\<close>

definition parse_stats_argument :: "bool \<Rightarrow> string \<Rightarrow> stats_config_t \<Rightarrow> stats_config_t option" where
  "parse_stats_argument alloc arg cfg =
     (if \<not> alloc then None
      else case strtok_all (CHR '','') arg of
             [] \<Rightarrow> Some cfg
           | token # tokens \<Rightarrow>
               (case parse_buffer_size token of
                  None \<Rightarrow> None
                | Some n \<Rightarrow>
                    (if n < 10000 \<or> 10000000 < n then None
                     else parse_stats_tokens tokens (cfg\<lparr>sc_buffer_size := ucast n\<rparr>))))"

definition parse_log_level :: "string \<Rightarrow> hw_log_level_t option" where
  "parse_log_level s =
     (if s = ''DEBUG'' then Some HW_LOG_LEVEL_DEBUG else if s = ''INFO'' then Some HW_LOG_LEVEL_INFO
      else if s = ''WARN'' then Some HW_LOG_LEVEL_WARN else if s = ''ERROR'' then Some HW_LOG_LEVEL_ERROR else None)"

definition trim_blanks :: "string \<Rightarrow> string" where
  "trim_blanks s =
     (let blank = (\<lambda>c. char_code c = 32 \<or> char_code c = 9) in rev (dropWhile blank (rev (dropWhile blank s))))"

definition component_of_name :: "string \<Rightarrow> hw_log_component_t option" where
  "component_of_name s =
     (if s = ''MAIN'' then Some HW_LOG_COMPONENT_MAIN else if s = ''CLIENT'' then Some HW_LOG_COMPONENT_CLIENT
      else if s = ''SERVER'' then Some HW_LOG_COMPONENT_SERVER else if s = ''STATS'' then Some HW_LOG_COMPONENT_STATS
      else if s = ''CSV'' then Some HW_LOG_COMPONENT_CSV else if s = ''NETWORK'' then Some HW_LOG_COMPONENT_NETWORK
      else if s = ''SIGNAL'' then Some HW_LOG_COMPONENT_SIGNAL else None)"

fun enable_components :: "string list \<Rightarrow> log_state \<Rightarrow> log_state option" where
  "enable_components [] lg = Some lg"
| "enable_components (token # tokens) lg =
     (case component_of_name (trim_blanks token) of
        None \<Rightarrow> None
      | Some c \<Rightarrow> enable_components tokens (hw_log_enable_component c lg))"

definition disable_all_components :: "log_state \<Rightarrow> log_state" where
  "disable_all_components lg =
     fold hw_log_disable_component
       [HW_LOG_COMPONENT_MAIN, HW_LOG_COMPONENT_CLIENT, HW_LOG_COMPONENT_SERVER, HW_LOG_COMPONENT_STATS,
        HW_LOG_COMPONENT_CSV, HW_LOG_COMPONENT_NETWORK, HW_LOG_COMPONENT_SIGNAL] lg"

definition parse_log_components :: "bool \<Rightarrow> string \<Rightarrow> log_state \<Rightarrow> log_state option" where
  "parse_log_components alloc comp_str lg =
     (if \<not> alloc then None else enable_components (strtok_all (CHR '','') comp_str) (disable_all_components lg))"

section \<open>File names and shared options\<close>

definition tx_csv_filename_of :: "string \<Rightarrow> string" where
  "tx_csv_filename_of csv_filename =
     (case strrchr_split csv_filename (CHR ''.'') of
        Some (stem, ext) \<Rightarrow> bounded_copy 256 (stem @ ''_tx'' @ ext)
      | None \<Rightarrow> bounded_copy 256 (csv_filename @ ''_tx.csv''))"

record prog_config =
  pc_csv_enabled :: bool
  pc_csv_filename :: string
  pc_tx_csv_filename :: string
  pc_log_cpu :: int
  pc_stats :: stats_config_t
  pc_tx_timestamp_cpu :: int
  pc_log :: log_state

definition default_stats :: stats_config_t where
  "default_stats = \<lparr>sc_enabled = False, sc_buffer_size = 5000000, sc_bin_width_us = 10, sc_max_bins = 1000\<rparr>"

definition initial_prog_config :: prog_config where
  "initial_prog_config =
     \<lparr>pc_csv_enabled = False, pc_csv_filename = [], pc_tx_csv_filename = [], pc_log_cpu = 0, pc_stats = default_stats,
      pc_tx_timestamp_cpu = 0, pc_log = initial_log_state\<rparr>"

text \<open>
  The options \<open>C\<close>, \<open>L\<close>, \<open>S\<close>, \<open>l\<close>, \<open>c\<close> and \<open>X\<close>, which both programs treat alike.  \<open>default_name\<close> is the name built from the
  program and the process id.
\<close>

definition common_option :: "bool \<Rightarrow> string \<Rightarrow> opt_result \<Rightarrow> prog_config \<Rightarrow> prog_config option" where
  "common_option alloc default_name opt pc =
     (let c = fst opt; optarg = snd opt; arg = (case optarg of Some a \<Rightarrow> a | None \<Rightarrow> [])
      in if c = CHR ''C'' then
           (let name = bounded_copy 256 (case optarg of Some a \<Rightarrow> a | None \<Rightarrow> default_name)
            in Some (pc\<lparr>pc_csv_enabled := True, pc_csv_filename := name, pc_tx_csv_filename := tx_csv_filename_of name\<rparr>))
         else if c = CHR ''L'' then
           (if atoi arg < 0 then None else Some (pc\<lparr>pc_log_cpu := atoi arg\<rparr>))
         else if c = CHR ''S'' then
           (let st = (pc_stats pc)\<lparr>sc_enabled := True\<rparr>
            in case optarg of
                 Some a \<Rightarrow> map_option (\<lambda>st'. pc\<lparr>pc_stats := st'\<rparr>) (parse_stats_argument alloc a st)
               | None \<Rightarrow> Some (pc\<lparr>pc_stats := st\<lparr>sc_buffer_size := 5000000, sc_bin_width_us := 10, sc_max_bins := 1000\<rparr>\<rparr>))
         else if c = CHR ''l'' then
           map_option (\<lambda>l. pc\<lparr>pc_log := hw_log_set_level l (pc_log pc)\<rparr>) (parse_log_level arg)
         else if c = CHR ''c'' then
           map_option (\<lambda>lg. pc\<lparr>pc_log := lg\<rparr>) (parse_log_components alloc arg (pc_log pc))
         else if c = CHR ''X'' then
           (if atoi arg < 0 then None else Some (pc\<lparr>pc_tx_timestamp_cpu := atoi arg\<rparr>))
         else None)"

text \<open>The collector, if statistics are enabled; \<open>None\<close> when it cannot be created.\<close>

definition init_stats :: "bool \<Rightarrow> stats_config_t \<Rightarrow> stats_mode_type_t \<Rightarrow> stats_collector_t option option" where
  "init_stats stats_alloc cfg mode =
     (if \<not> sc_enabled cfg then Some None
      else map_option Some (create_stats_collector (stats_alloc, stats_alloc) (stats_alloc, stats_alloc) (sc_buffer_size cfg) mode))"

section \<open>The client\<close>

record client_options =
  co_dest_ip :: "string option"
  co_dest_port :: int
  co_pps :: int
  co_packet_size :: int
  co_duration_seconds :: int
  co_tx_cpu :: int
  co_rx_cpu :: int
  co_rx_port :: int
  co_round_trip :: bool
  co_one_way :: bool
  co_tx_interface :: "string option"
  co_rx_interface :: "string option"
  co_config :: prog_config

definition initial_client_options :: client_options where
  "initial_client_options =
     \<lparr>co_dest_ip = None, co_dest_port = 0, co_pps = 0, co_packet_size = 0, co_duration_seconds = 0, co_tx_cpu = 4,
      co_rx_cpu = 5, co_rx_port = 0, co_round_trip = False, co_one_way = False, co_tx_interface = None,
      co_rx_interface = None, co_config = initial_prog_config\<rparr>"

definition client_shorts :: short_opts where
  "client_shorts = map (\<lambda>c. (c, Req_arg)) ''iprsItTRxLnlcX'' @ map (\<lambda>c. (c, No_arg)) ''owh'' @ map (\<lambda>c. (c, Opt_arg)) ''CS''"

definition client_longs :: long_opts where
  "client_longs =
    [(''dst-ip'', Req_arg, CHR ''i''), (''dst-port'', Req_arg, CHR ''p''), (''pps'', Req_arg, CHR ''r''),
     (''pkt-size'', Req_arg, CHR ''s''), (''tx-interface'', Req_arg, CHR ''I''), (''time'', Req_arg, CHR ''t''),
     (''tx-cpu'', Req_arg, CHR ''T''), (''rx-cpu'', Req_arg, CHR ''R''), (''rx-port'', Req_arg, CHR ''x''),
     (''round-trip'', No_arg, CHR ''o''), (''one-way'', No_arg, CHR ''w''), (''output-csv'', Opt_arg, CHR ''C''),
     (''log-cpu'', Req_arg, CHR ''L''), (''rx-interface'', Req_arg, CHR ''n''), (''stats'', Opt_arg, CHR ''S''),
     (''log-level'', Req_arg, CHR ''l''), (''log-component'', Req_arg, CHR ''c''), (''tx-timestamp-cpu'', Req_arg, CHR ''X''),
     (''help'', No_arg, CHR ''h'')]"

definition client_option :: "bool \<Rightarrow> string \<Rightarrow> opt_result \<Rightarrow> client_options \<Rightarrow> client_options option" where
  "client_option alloc default_name opt co =
     (let c = fst opt; arg = (case snd opt of Some a \<Rightarrow> a | None \<Rightarrow> [])
      in if c = CHR ''i'' then Some (co\<lparr>co_dest_ip := Some arg\<rparr>)
         else if c = CHR ''p'' then Some (co\<lparr>co_dest_port := atoi arg\<rparr>)
         else if c = CHR ''r'' then Some (co\<lparr>co_pps := atoi arg\<rparr>)
         else if c = CHR ''s'' then Some (co\<lparr>co_packet_size := atoi arg\<rparr>)
         else if c = CHR ''I'' then Some (co\<lparr>co_tx_interface := Some arg\<rparr>)
         else if c = CHR ''t'' then Some (co\<lparr>co_duration_seconds := atoi arg\<rparr>)
         else if c = CHR ''T'' then Some (co\<lparr>co_tx_cpu := atoi arg\<rparr>)
         else if c = CHR ''R'' then Some (co\<lparr>co_rx_cpu := atoi arg\<rparr>)
         else if c = CHR ''x'' then Some (co\<lparr>co_rx_port := atoi arg\<rparr>)
         else if c = CHR ''o'' then Some (co\<lparr>co_round_trip := True\<rparr>)
         else if c = CHR ''w'' then Some (co\<lparr>co_one_way := True\<rparr>)
         else if c = CHR ''n'' then Some (co\<lparr>co_rx_interface := Some arg\<rparr>)
         else map_option (\<lambda>pc. co\<lparr>co_config := pc\<rparr>) (common_option alloc default_name opt (co_config co)))"

fun client_parse :: "bool \<Rightarrow> string \<Rightarrow> opt_result list \<Rightarrow> client_options \<Rightarrow> client_options option" where
  "client_parse alloc default_name [] co = Some co"
| "client_parse alloc default_name (opt # opts) co =
     (case client_option alloc default_name opt co of
        None \<Rightarrow> None
      | Some co' \<Rightarrow> client_parse alloc default_name opts co')"

definition client_validate :: "client_options \<Rightarrow> client_options option" where
  "client_validate co =
     (if pc_log_cpu (co_config co) \<noteq> 0 \<and> \<not> pc_csv_enabled (co_config co) then None
      else if \<not> co_one_way co \<and> \<not> co_round_trip co then None
      else if co_one_way co \<and> co_round_trip co then None
      else if co_dest_ip co = None \<or> co_dest_port co = 0 \<or> co_pps co = 0 \<or> co_packet_size co = 0 then None
      else if co_dest_port co \<le> 0 \<or> 65535 < co_dest_port co then None
      else if co_pps co \<le> 0 \<or> co_packet_size co < 12 then None
      else if 1500 < co_packet_size co then None
      else if co_duration_seconds co < 0 then None
      else if 0 < co_rx_port co \<and> (co_rx_port co \<le> 0 \<or> 65535 < co_rx_port co) then None
      else if co_one_way co \<and> (co_rx_cpu co \<noteq> 5 \<or> 0 < co_rx_port co \<or> co_rx_interface co \<noteq> None) then None
      else if co_round_trip co \<and> co_rx_port co = 0 then None
      else if co_round_trip co \<and> co_rx_interface co = None then None
      else if co_one_way co then Some (if co_tx_cpu co \<noteq> 4 then co\<lparr>co_rx_cpu := 5\<rparr> else co)
      else if co_tx_cpu co \<noteq> 4 \<and> co_rx_cpu co = 5 then None
      else if co_tx_cpu co = 4 \<and> co_rx_cpu co \<noteq> 5 then None
      else Some co)"

text \<open>
  \<open>main\<close> of the client up to the dispatch: the options and the statistics collector, if one was requested.  \<open>hw_log_init\<close>
  runs after the command line was parsed.
\<close>

definition client_main ::
  "bool \<Rightarrow> bool \<Rightarrow> string option \<Rightarrow> string \<Rightarrow> string list \<Rightarrow> (client_options \<times> stats_collector_t option) option" where
  "client_main alloc stats_alloc env_level default_name args =
     (case client_parse alloc default_name (getopt_long client_shorts client_longs args) initial_client_options of
        None \<Rightarrow> None
      | Some co0 \<Rightarrow>
          (case client_validate co0 of
             None \<Rightarrow> None
           | Some co \<Rightarrow>
               (let pc = co_config co;
                    co1 = co\<lparr>co_config := pc\<lparr>pc_log := hw_log_init env_level (pc_log pc)\<rparr>\<rparr>
                in map_option (\<lambda>st. (co1, st))
                     (init_stats stats_alloc (pc_stats pc)
                        (if co_one_way co then STATS_CLIENT_ONEWAY else STATS_CLIENT_ROUNDTRIP)))))"

section \<open>The server\<close>

record server_options =
  so_rx_if_name :: "string option"
  so_tx_if_name :: "string option"
  so_port :: int
  so_one_way :: bool
  so_round_trip :: bool
  so_rx_cpu :: int
  so_tx_cpu :: int
  so_time_seconds :: int
  so_config :: prog_config

definition initial_server_options :: server_options where
  "initial_server_options =
     \<lparr>so_rx_if_name = None, so_tx_if_name = None, so_port = 0, so_one_way = False, so_round_trip = False, so_rx_cpu = 4,
      so_tx_cpu = 5, so_time_seconds = 0, so_config = initial_prog_config\<rparr>"

definition server_shorts :: short_opts where
  "server_shorts = map (\<lambda>c. (c, Req_arg)) ''ipLtxyTlcX'' @ map (\<lambda>c. (c, No_arg)) ''orh'' @ map (\<lambda>c. (c, Opt_arg)) ''CS''"

definition server_longs :: long_opts where
  "server_longs =
    [(''rx-interface'', Req_arg, CHR ''i''), (''port'', Req_arg, CHR ''p''), (''output-csv'', Opt_arg, CHR ''C''),
     (''log-cpu'', Req_arg, CHR ''L''), (''one-way'', No_arg, CHR ''o''), (''round-trip'', No_arg, CHR ''r''),
     (''tx-interface'', Req_arg, CHR ''t''), (''rx-cpu'', Req_arg, CHR ''x''), (''tx-cpu'', Req_arg, CHR ''y''),
     (''time'', Req_arg, CHR ''T''), (''stats'', Opt_arg, CHR ''S''), (''log-level'', Req_arg, CHR ''l''),
     (''log-component'', Req_arg, CHR ''c''), (''tx-timestamp-cpu'', Req_arg, CHR ''X''), (''help'', No_arg, CHR ''h'')]"

definition server_option :: "bool \<Rightarrow> string \<Rightarrow> opt_result \<Rightarrow> server_options \<Rightarrow> server_options option" where
  "server_option alloc default_name opt so =
     (let c = fst opt; arg = (case snd opt of Some a \<Rightarrow> a | None \<Rightarrow> [])
      in if c = CHR ''i'' then Some (so\<lparr>so_rx_if_name := Some arg\<rparr>)
         else if c = CHR ''p'' then Some (so\<lparr>so_port := atoi arg\<rparr>)
         else if c = CHR ''o'' then Some (so\<lparr>so_one_way := True\<rparr>)
         else if c = CHR ''r'' then Some (so\<lparr>so_round_trip := True\<rparr>)
         else if c = CHR ''t'' then Some (so\<lparr>so_tx_if_name := Some arg\<rparr>)
         else if c = CHR ''x'' then Some (so\<lparr>so_rx_cpu := atoi arg\<rparr>)
         else if c = CHR ''y'' then Some (so\<lparr>so_tx_cpu := atoi arg\<rparr>)
         else if c = CHR ''T'' then Some (so\<lparr>so_time_seconds := atoi arg\<rparr>)
         else map_option (\<lambda>pc. so\<lparr>so_config := pc\<rparr>) (common_option alloc default_name opt (so_config so)))"

fun server_parse :: "bool \<Rightarrow> string \<Rightarrow> opt_result list \<Rightarrow> server_options \<Rightarrow> server_options option" where
  "server_parse alloc default_name [] so = Some so"
| "server_parse alloc default_name (opt # opts) so =
     (case server_option alloc default_name opt so of
        None \<Rightarrow> None
      | Some so' \<Rightarrow> server_parse alloc default_name opts so')"

definition server_validate :: "server_options \<Rightarrow> bool" where
  "server_validate so =
     (if pc_log_cpu (so_config so) \<noteq> 0 \<and> \<not> pc_csv_enabled (so_config so) then False
      else if so_rx_if_name so = None \<or> so_port so = 0 then False
      else if so_time_seconds so < 0 then False
      else if so_one_way so \<and> so_round_trip so then False
      else if \<not> so_one_way so \<and> \<not> so_round_trip so then False
      else if so_round_trip so \<and> so_tx_if_name so = None then False
      else if so_port so \<le> 0 \<or> 65535 < so_port so then False
      else if so_one_way so then so_tx_cpu so = 5 \<and> pc_tx_timestamp_cpu (so_config so) = 0
      else if so_rx_cpu so \<noteq> 4 \<and> so_tx_cpu so = 5 then False
      else if so_tx_cpu so \<noteq> 5 \<and> so_rx_cpu so = 4 then False
      else True)"

definition server_main ::
  "bool \<Rightarrow> bool \<Rightarrow> string option \<Rightarrow> string \<Rightarrow> string list \<Rightarrow> (server_options \<times> stats_collector_t option) option" where
  "server_main alloc stats_alloc env_level default_name args =
     (case server_parse alloc default_name (getopt_long server_shorts server_longs args) initial_server_options of
        None \<Rightarrow> None
      | Some so \<Rightarrow>
          (if \<not> server_validate so then None
           else let pc = so_config so;
                    so1 = so\<lparr>so_config := pc\<lparr>pc_log := hw_log_init env_level (pc_log pc)\<rparr>\<rparr>
                in map_option (\<lambda>st. (so1, st))
                     (init_stats stats_alloc (pc_stats pc)
                        (if so_one_way so then STATS_SERVER_ONEWAY else STATS_SERVER_ROUNDTRIP))))"

section \<open>Bounds of the parsed configuration\<close>

definition stats_config_ok :: "stats_config_t \<Rightarrow> bool" where
  "stats_config_ok cfg \<longleftrightarrow>
     10000 \<le> unat (sc_buffer_size cfg) \<and> unat (sc_buffer_size cfg) \<le> 10000000 \<and>
     1 \<le> unat (sc_bin_width_us cfg) \<and> unat (sc_bin_width_us cfg) \<le> 1000 \<and>
     10 \<le> unat (sc_max_bins cfg) \<and> unat (sc_max_bins cfg) \<le> 10000"

lemma ucast_range:
  fixes x :: u64
  assumes "\<not> (x < of_nat a \<or> of_nat b < x)" and "a < 2 ^ 32" and "b < 2 ^ 32"
  shows "a \<le> unat (ucast x :: u32) \<and> unat (ucast x :: u32) \<le> b"
proof -
  have "unat (of_nat a :: u64) = a" "unat (of_nat b :: u64) = b" using assms(2,3) by (simp_all add: unat_of_nat_small)
  then have r: "a \<le> unat x" "unat x \<le> b" using assms(1) by (simp_all add: word_less_nat_alt not_less)
  then have "unat (ucast x :: u32) = unat x" using assms(3) by (intro unat_ucast_small) simp
  with r show ?thesis by simp
qed

lemma parse_stats_tokens_ok:
  "stats_config_ok cfg \<Longrightarrow> parse_stats_tokens tokens cfg = Some cfg' \<Longrightarrow> stats_config_ok cfg'"
proof (induction tokens cfg rule: parse_stats_tokens.induct)
  case (2 token tokens cfg)
  let ?v = "fst (strtoul (drop 3 token))"
  have bw: "stats_config_ok (cfg\<lparr>sc_bin_width_us := ucast ?v\<rparr>)" if "\<not> (?v < 1 \<or> 1000 < ?v)"
    using "2.prems"(1) ucast_range [of ?v 1 1000] that by (simp add: stats_config_ok_def)
  have bn: "stats_config_ok (cfg\<lparr>sc_max_bins := ucast ?v\<rparr>)" if "\<not> (?v < 10 \<or> 10000 < ?v)"
    using "2.prems"(1) ucast_range [of ?v 10 10000] that by (simp add: stats_config_ok_def)
  show ?case
  proof (cases "is_prefix ''bw='' token")
    case True
    with "2.prems"(2) have ok: "\<not> (?v < 1 \<or> 1000 < ?v)" by (auto simp: Let_def split: if_splits)
    with True "2.prems"(2) have "parse_stats_tokens tokens (cfg\<lparr>sc_bin_width_us := ucast ?v\<rparr>) = Some cfg'"
      by (simp add: Let_def)
    with "2.IH"(1) [OF True refl ok] bw [OF ok] show ?thesis by blast
  next
    case False
    with "2.prems"(2) have bnp: "is_prefix ''bn='' token" by (auto split: if_splits)
    with False "2.prems"(2) have ok: "\<not> (?v < 10 \<or> 10000 < ?v)" by (auto simp: Let_def split: if_splits)
    with False bnp "2.prems"(2) have "parse_stats_tokens tokens (cfg\<lparr>sc_max_bins := ucast ?v\<rparr>) = Some cfg'"
      by (simp add: Let_def)
    with "2.IH"(2) [OF False bnp refl ok] bn [OF ok] show ?thesis by blast
  qed
qed simp

lemma parse_stats_argument_ok:
  assumes "stats_config_ok cfg" and "parse_stats_argument alloc arg cfg = Some cfg'"
  shows "stats_config_ok cfg'"
proof (cases "strtok_all (CHR '','') arg")
  case Nil
  with assms show ?thesis by (simp add: parse_stats_argument_def split: if_splits)
next
  case (Cons token tokens)
  with assms(2) obtain n where n: "parse_buffer_size token = Some n" "\<not> (n < 10000 \<or> 10000000 < n)"
    "parse_stats_tokens tokens (cfg\<lparr>sc_buffer_size := ucast n\<rparr>) = Some cfg'"
    by (auto simp: parse_stats_argument_def split: if_splits option.splits)
  have "stats_config_ok (cfg\<lparr>sc_buffer_size := ucast n\<rparr>)"
    using assms(1) ucast_range [of n 10000 10000000] n(2) by (simp add: stats_config_ok_def)
  then show ?thesis using n(3) by (rule parse_stats_tokens_ok)
qed

lemma default_stats_ok: "stats_config_ok default_stats"
  by (simp add: stats_config_ok_def default_stats_def)

lemma stats_config_ok_enabled [simp]: "stats_config_ok (cfg\<lparr>sc_enabled := b\<rparr>) = stats_config_ok cfg"
  by (simp add: stats_config_ok_def)

lemma common_option_stats:
  "stats_config_ok (pc_stats pc) \<Longrightarrow> common_option alloc name opt pc = Some pc' \<Longrightarrow> stats_config_ok (pc_stats pc')"
  by (auto simp: common_option_def Let_def stats_config_ok_def [of "_\<lparr>sc_buffer_size := _, sc_bin_width_us := _, sc_max_bins := _\<rparr>"]
      split: if_splits option.splits dest: parse_stats_argument_ok [rotated])



lemma server_option_stats:
  "stats_config_ok (pc_stats (so_config so)) \<Longrightarrow> server_option alloc name opt so = Some so' \<Longrightarrow>
     stats_config_ok (pc_stats (so_config so'))"
  by (auto simp: server_option_def Let_def split: if_splits dest: common_option_stats)

lemma server_parse_stats:
  "stats_config_ok (pc_stats (so_config so)) \<Longrightarrow> server_parse alloc name opts so = Some so' \<Longrightarrow>
     stats_config_ok (pc_stats (so_config so'))"
  by (induction opts arbitrary: so) (auto split: option.splits dest: server_option_stats)

lemma initial_stats_ok:
  "stats_config_ok (pc_stats (co_config initial_client_options))" "stats_config_ok (pc_stats (so_config initial_server_options))"
  by (simp_all add: initial_client_options_def initial_server_options_def initial_prog_config_def default_stats_ok)

lemma init_stats_enabled: "init_stats a cfg mode = Some st \<Longrightarrow> (st = None) = (\<not> sc_enabled cfg)"
  by (auto simp: init_stats_def split: if_splits)

lemma client_main_cases:
  assumes "client_main alloc stats_alloc env_level name args = Some (co, st)"
  obtains co0 co1 where "client_parse alloc name (getopt_long client_shorts client_longs args) initial_client_options = Some co0"
    and "client_validate co0 = Some co1"
    and "co = co1\<lparr>co_config := (co_config co1)\<lparr>pc_log := hw_log_init env_level (pc_log (co_config co1))\<rparr>\<rparr>"
    and "(st = None) = (\<not> sc_enabled (pc_stats (co_config co1)))"
  using assms by (auto simp: client_main_def Let_def split: option.splits dest: init_stats_enabled)

section \<open>Properties\<close>

text \<open>
  A statistics argument that is accepted leaves the configuration within its documented ranges: 10 000 to
  10 000 000 entries, bins of 1 to 1000 microseconds, 10 to 10 000 bins.
\<close>

theorem parse_stats_argument_bounds:
  assumes "stats_config_ok cfg" and "parse_stats_argument alloc arg cfg = Some cfg'"
  shows "stats_config_ok cfg'"
  by (rule parse_stats_argument_ok [OF assms])

theorem parse_stats_argument_bounds_witness:
  "\<exists>cfg'. parse_stats_argument True ''2M,bw=25,bn=50'' default_stats = Some cfg' \<and> sc_buffer_size cfg' = 2000000 \<and>
     sc_bin_width_us cfg' = 25 \<and> stats_config_ok cfg'"
proof -
  have "parse_stats_argument True ''2M,bw=25,bn=50'' default_stats =
      Some \<lparr>sc_enabled = False, sc_buffer_size = 2000000, sc_bin_width_us = 25, sc_max_bins = 50\<rparr>" by code_simp
  from this parse_stats_argument_bounds [OF default_stats_ok this] show ?thesis by simp
qed


definition sample_client_args :: "string list" where
  "sample_client_args =
     [''--dst-ip'', ''10.0.0.2'', ''--dst-port'', ''9000'', ''--pps'', ''1000'', ''--pkt-size'', ''64'', ''--round-trip'',
      ''--rx-port'', ''-5'', ''--rx-interface'', ''eth0'', ''--output-csv=run.csv'', ''--log-level'', ''ERROR'']"

text \<open>The parsed options do not contain a statistics request, so no collector is created.\<close>

definition sample_client :: client_options where
  "sample_client = initial_client_options
     \<lparr>co_dest_ip := Some ''10.0.0.2'', co_dest_port := 9000, co_pps := 1000, co_packet_size := 64, co_round_trip := True,
      co_rx_port := - 5, co_rx_interface := Some ''eth0'',
      co_config := initial_prog_config\<lparr>pc_csv_enabled := True, pc_csv_filename := ''run.csv'', pc_tx_csv_filename := ''run_tx.csv'',
        pc_log := initial_log_state\<lparr>lg_level := HW_LOG_LEVEL_ERROR\<rparr>\<rparr>\<rparr>"

lemma sample_client_main: "client_main True True None [] sample_client_args = Some (sample_client, None)"
  by code_simp


text \<open>
  The range check of the receive port misses negative numbers: \<open>--rx-port -5\<close> is accepted in round-trip mode,
  although the error message asks for a port between 1 and 65535.
\<close>

lemma negative_rx_port_accepted:
  "\<exists>co. client_main True True None [] sample_client_args = Some (co, None) \<and> co_rx_port co = - 5"
proof -
  have "co_rx_port sample_client = - 5" by (simp add: sample_client_def)
  then show ?thesis using sample_client_main by blast
qed

text \<open>
  The environment variable wins over the command line: because the logger is initialised after the options were parsed, a
  valid \<open>HW_LOG_LEVEL\<close> replaces the level given with \<open>--log-level\<close>.
\<close>

lemma env_level_overrides_option:
  assumes "client_main alloc stats_alloc (Some s) name args = Some (co, st)" and "env_log_level s = Some l"
  shows "lg_level (pc_log (co_config co)) = l"
proof -
  from assms(1) obtain co1 where
    "co = co1\<lparr>co_config := (co_config co1)\<lparr>pc_log := hw_log_init (Some s) (pc_log (co_config co1))\<rparr>\<rparr>"
    by (rule client_main_cases)
  then show ?thesis using assms(2) by (simp add: hw_log_init_def Let_def)
qed

lemma env_level_overrides_option_witness:
  "\<exists>co st. client_main True True (Some ''INFO'') [] sample_client_args = Some (co, st) \<and>
     lg_level (pc_log (co_config co)) = HW_LOG_LEVEL_INFO"
proof -
  have "client_main True True (Some ''INFO'') [] sample_client_args \<noteq> None" by code_simp
  then obtain co st where m: "client_main True True (Some ''INFO'') [] sample_client_args = Some (co, st)" by fastforce
  moreover have "env_log_level ''INFO'' = Some HW_LOG_LEVEL_INFO" by code_simp
  ultimately show ?thesis using env_level_overrides_option [OF m] by blast
qed

text \<open>
  A server that starts has a valid configuration: exactly one mode, a receive interface, a port from 1 to 65535, a
  non-negative run time, statistics within their ranges, and in round-trip mode a transmit interface.
\<close>

theorem server_main_validated:
  assumes "server_main alloc stats_alloc env_level name args = Some (so, st)"
  shows "so_one_way so \<noteq> so_round_trip so \<and> so_rx_if_name so \<noteq> None \<and> 1 \<le> so_port so \<and> so_port so \<le> 65535 \<and>
    0 \<le> so_time_seconds so \<and> stats_config_ok (pc_stats (so_config so)) \<and>
    (st = None) = (\<not> sc_enabled (pc_stats (so_config so))) \<and> (so_round_trip so \<longrightarrow> so_tx_if_name so \<noteq> None)"
proof -
  from assms obtain so0 where s:
    "server_parse alloc name (getopt_long server_shorts server_longs args) initial_server_options = Some so0"
    "server_validate so0" "so = so0\<lparr>so_config := (so_config so0)\<lparr>pc_log := hw_log_init env_level (pc_log (so_config so0))\<rparr>\<rparr>"
    "(st = None) = (\<not> sc_enabled (pc_stats (so_config so0)))"
    by (auto simp: server_main_def Let_def split: option.splits if_splits dest: init_stats_enabled)
  have "stats_config_ok (pc_stats (so_config so0))" by (rule server_parse_stats [OF initial_stats_ok(2) s(1)])
  then show ?thesis using s(2,4) unfolding s(3) by (auto simp: server_validate_def split: if_splits)
qed

theorem server_main_validated_witness:
  "\<exists>so st. server_main True True None [] [''-i'', ''eth0'', ''-p'', ''9000'', ''--one-way''] = Some (so, st) \<and>
     1 \<le> so_port so \<and> so_port so \<le> 65535"
proof -
  have "server_main True True None [] [''-i'', ''eth0'', ''-p'', ''9000'', ''--one-way''] \<noteq> None" by code_simp
  then obtain so st where m: "server_main True True None [] [''-i'', ''eth0'', ''-p'', ''9000'', ''--one-way''] = Some (so, st)"
    by fastforce
  then show ?thesis using server_main_validated [OF m] by blast
qed

lemma disable_all_enabled: "is_component_enabled (disable_all_components lg) c \<longleftrightarrow> 7 \<le> c \<and> is_component_enabled lg c"
  by (auto simp: disable_all_components_def log_component_defs)

lemma enable_components_spec:
  "enable_components tokens lg = Some lg' \<Longrightarrow> c < 64 \<Longrightarrow>
     is_component_enabled lg' c \<longleftrightarrow>
       Some c \<in> (component_of_name \<circ> trim_blanks) ` set tokens \<or> is_component_enabled lg c"
  by (induction tokens arbitrary: lg) (auto split: option.splits)

text \<open>
  After \<open>--log-component\<close> exactly the listed components are enabled, among the seven the program knows.
\<close>

lemma parse_log_components_exact:
  assumes "parse_log_components alloc s lg = Some lg'" and "c < 7"
  shows "is_component_enabled lg' c \<longleftrightarrow>
    Some c \<in> (component_of_name \<circ> trim_blanks) ` set (strtok_all (CHR '','') s)"
  using assms enable_components_spec [of "strtok_all (CHR '','') s" "disable_all_components lg" lg' c]
  by (auto simp: parse_log_components_def disable_all_enabled split: if_splits)

lemma parse_log_components_exact_witness:
  "\<exists>lg'. parse_log_components True ''CSV, STATS'' initial_log_state = Some lg' \<and>
     is_component_enabled lg' HW_LOG_COMPONENT_CSV \<and> \<not> is_component_enabled lg' HW_LOG_COMPONENT_MAIN"
proof -
  have "parse_log_components True ''CSV, STATS'' initial_log_state \<noteq> None" by code_simp
  then obtain lg' where m: "parse_log_components True ''CSV, STATS'' initial_log_state = Some lg'" by fastforce
  have t: "map (component_of_name \<circ> trim_blanks) (strtok_all (CHR '','') ''CSV, STATS'') = [Some 4, Some 3]" by code_simp
  then have "(component_of_name \<circ> trim_blanks) ` set (strtok_all (CHR '','') ''CSV, STATS'') = {Some 4, Some 3}"
    by (metis list.set(1) list.set(2) list.set_map)
  then show ?thesis
    using m parse_log_components_exact [OF m, of 4] parse_log_components_exact [OF m, of 0] by (simp add: log_component_defs)
qed

lemma strrchr_split_append:
  assumes "strrchr_split s d = Some (stem, ext)"
  shows "s = stem @ ext" and "\<exists>e. ext = d # e \<and> d \<notin> set e"
proof -
  have d: "d \<in> set s" using assms by (auto simp: strrchr_split_def split: if_splits)
  let ?suf = "rev (takeWhile (\<lambda>c. c \<noteq> d) (rev s))"
  have st: "stem = take (length s - length ?suf - 1) s" "ext = d # ?suf"
    using assms d by (auto simp: strrchr_split_def Let_def)
  have "dropWhile (\<lambda>c. c \<noteq> d) (rev s) \<noteq> []" using d by simp
  then obtain x rest where dw: "dropWhile (\<lambda>c. c \<noteq> d) (rev s) = x # rest" by (cases "dropWhile (\<lambda>c. c \<noteq> d) (rev s)") auto
  then have "x = d" using hd_dropWhile [of "\<lambda>c. c \<noteq> d" "rev s"] by simp
  then have "rev s = takeWhile (\<lambda>c. c \<noteq> d) (rev s) @ d # rest"
    using takeWhile_dropWhile_id [of "\<lambda>c. c \<noteq> d" "rev s"] dw by simp
  from arg_cong [OF this, of rev] have split: "s = rev rest @ d # ?suf" by simp
  from arg_cong [OF this, of length] have len: "length s - length ?suf - 1 = length (rev rest)" by simp
  have "stem = rev rest" unfolding st(1) len by (subst split) simp
  then show "s = stem @ ext" using st(2) split by simp
  show "\<exists>e. ext = d # e \<and> d \<notin> set e" using st(2) by (auto dest: set_takeWhileD)
qed

text \<open>
  The transmit log never overwrites the main log: for a CSV file name of at most 248 characters the derived
  name is the stem, \<open>_tx\<close> and the extension (or \<open>_tx.csv\<close> without one) and differs from the given name.
\<close>

lemma tx_csv_filename_distinct:
  assumes "length name \<le> 248"
  shows "tx_csv_filename_of name \<noteq> name \<and>
    (case strrchr_split name (CHR ''.'') of
       Some (stem, ext) \<Rightarrow> name = stem @ ext \<and> tx_csv_filename_of name = stem @ ''_tx'' @ ext
     | None \<Rightarrow> tx_csv_filename_of name = name @ ''_tx.csv'')"
proof (cases "strrchr_split name (CHR ''.'')")
  case None
  then show ?thesis using assms by (simp add: tx_csv_filename_of_def bounded_copy_def)
next
  case (Some p)
  obtain stem ext where p: "p = (stem, ext)" by fastforce
  from Some p have s: "strrchr_split name (CHR ''.'') = Some (stem, ext)" by simp
  note a = strrchr_split_append(1) [OF s]
  then have "bounded_copy 256 (stem @ ''_tx'' @ ext) = stem @ ''_tx'' @ ext"
    using assms by (simp add: bounded_copy_def)
  moreover have "length (stem @ ''_tx'' @ ext) \<noteq> length name" using a by simp
  ultimately show ?thesis using s a by (auto simp: tx_csv_filename_of_def)
qed

lemma tx_csv_filename_distinct_witness:
  "tx_csv_filename_of ''run.v2.csv'' = ''run.v2_tx.csv'' \<and> tx_csv_filename_of ''run.v2.csv'' \<noteq> ''run.v2.csv''"
proof -
  have "strrchr_split ''run.v2.csv'' (CHR ''.'') = Some (''run.v2'', ''.csv'')" by code_simp
  then show ?thesis using tx_csv_filename_distinct [of "''run.v2.csv''"] by simp
qed

end
