(* ===== verification/Net_Packet.thy ===== *)
theory Net_Packet
  imports Stats_Analysis Csv_Buffer
begin

text \<open>
  What the packet engines of client and server share: the sequence number in network byte order
  in the first bytes of a packet, \<open>struct timespec\<close> and its conversion to nanoseconds, the control messages of
  \<open>recvmsg\<close> and the two functions that scan them, the conversion of time stamp counter values, the hybrid
  check of the run time, and the calibration and rate report of \<open>timestamp_common.c\<close>.  A packet is the list of its bytes;
  the results of the system calls and the readings of the clocks are arguments.
\<close>

section \<open>Constants and rings\<close>

definition MAX_SEQUENCE_NUMBERS :: nat where "MAX_SEQUENCE_NUMBERS = 50000"
definition BATCH_SIZE :: nat where "BATCH_SIZE = 128"
definition TX_TIMESTAMP_BATCH_SIZE :: nat where "TX_TIMESTAMP_BATCH_SIZE = 256"

text \<open>A ring that may be absent; the result of the enqueue is ignored, as everywhere in the engines.\<close>

definition csv_offer :: "csv_entry_t \<Rightarrow> csv_ring_buffer_t option \<Rightarrow> csv_ring_buffer_t option" where
  "csv_offer e = map_option (\<lambda>b. fst (csv_enqueue_fast b e))"

text \<open>A ring that was empty, was offered \<open>xs\<close> and has room for \<open>r\<close> entries; nothing has been taken out.\<close>

definition ring_holds :: "nat \<Rightarrow> csv_entry_t list \<Rightarrow> csv_ring_buffer_t option \<Rightarrow> bool" where
  "ring_holds r xs ob \<longleftrightarrow> (\<exists>b. ob = Some b \<and> csv_ring_wf b \<and> csv_room b = r \<and> csv_contents b = take r xs)"

lemma ring_holds_offer:
  assumes "ring_holds r xs ob"
  shows "ring_holds r (xs @ [e]) (csv_offer e ob)"
proof -
  from assms obtain b where b: "ob = Some b" "csv_ring_wf b" "csv_room b = r" "csv_contents b = take r xs"
    unfolding ring_holds_def by blast
  obtain b' ok where e: "csv_enqueue_fast b e = (b', ok)" by fastforce
  from csvq.enq_cases [OF b(2) e] b have "csv_ring_wf b'" "csv_room b' = r" "csv_contents b' = take r (xs @ [e])"
    by (auto split: if_splits)
  then show ?thesis using b(1) e by (simp add: ring_holds_def csv_offer_def)
qed

section \<open>Bytes of a packet\<close>

text \<open>The bytes that \<open>memcpy\<close> of \<open>htonl(w)\<close> stores, and \<open>ntohl\<close> of the four bytes at an offset.\<close>

definition htonl_bytes :: "u32 \<Rightarrow> u8 list" where
  "htonl_bytes w = [ucast (drop_bit 24 w), ucast (drop_bit 16 w), ucast (drop_bit 8 w), ucast w]"

definition ntohl_at :: "nat \<Rightarrow> u8 list \<Rightarrow> u32" where
  "ntohl_at k bs =
     push_bit 24 (ucast (bs ! k)) OR push_bit 16 (ucast (bs ! (k + 1))) OR
     push_bit 8 (ucast (bs ! (k + 2))) OR ucast (bs ! (k + 3))"

text \<open>\<open>memcpy\<close> into a buffer.\<close>

definition put_bytes :: "nat \<Rightarrow> u8 list \<Rightarrow> u8 list \<Rightarrow> u8 list" where
  "put_bytes k bs buf = take k buf @ bs @ drop (k + length bs) buf"

lemma length_htonl_bytes [simp]: "length (htonl_bytes w) = 4"
  by (simp add: htonl_bytes_def)

lemma length_put_bytes [simp]: "k + length bs \<le> length buf \<Longrightarrow> length (put_bytes k bs buf) = length buf"
  by (simp add: put_bytes_def)

lemma word32_of_bytes:
  fixes w :: u32
  shows "push_bit 24 (ucast (ucast (drop_bit 24 w) :: u8)) OR push_bit 16 (ucast (ucast (drop_bit 16 w) :: u8)) OR
    push_bit 8 (ucast (ucast (drop_bit 8 w) :: u8)) OR ucast (ucast w :: u8) = w" (is "?bytes = w")
proof (rule bit_word_eqI)
  fix n assume "n < LENGTH(32)"
  then consider "n < 8" | "8 \<le> n" "n < 16" | "16 \<le> n" "n < 24" | "24 \<le> n" "n < 32" by fastforce
  then show "bit ?bytes n = bit w n"
    by cases (auto simp: bit_or_iff bit_push_bit_iff bit_ucast_iff bit_drop_bit_eq)
qed

lemma ntohl_htonl: "ntohl_at (length xs) (xs @ htonl_bytes w @ ys) = w"
  by (simp add: ntohl_at_def htonl_bytes_def nth_append word32_of_bytes numeral_2_eq_2 numeral_3_eq_3)

lemma ntohl_put_bytes [timestamp_simps]: "k \<le> length buf \<Longrightarrow> ntohl_at k (put_bytes k (htonl_bytes w) buf) = w"
  using ntohl_htonl [of "take k buf" w "drop (k + 4) buf"] by (simp add: put_bytes_def)

lemma ntohl_at_take: "k + 4 \<le> n \<Longrightarrow> k + 4 \<le> length bs \<Longrightarrow> ntohl_at k (take n bs) = ntohl_at k bs"
  by (simp add: ntohl_at_def)

lemma ntohl_put_later: "k + 4 \<le> j \<Longrightarrow> j \<le> length buf \<Longrightarrow> ntohl_at k (put_bytes j bs buf) = ntohl_at k buf"
  by (simp add: ntohl_at_def put_bytes_def nth_append)

section \<open>Timestamps and control messages\<close>

text \<open>Both fields of \<open>struct timespec\<close> are 64 bits wide; the nanosecond sum is computed in \<open>unsigned long long\<close>.\<close>

record timespec =
  tv_sec :: u64
  tv_nsec :: u64

definition zero_timespec :: timespec where
  "zero_timespec = \<lparr>tv_sec = 0, tv_nsec = 0\<rparr>"

definition timespec_ns :: "timespec \<Rightarrow> u64" where
  "timespec_ns ts = tv_sec ts * 1000000000 + tv_nsec ts"

text \<open>The control messages the programs distinguish; \<open>Timestamping\<close> carries the three entries of \<open>scm_timestamping64\<close>.\<close>

datatype cmsg = Ip_recverr u32 | Timestamping timespec timespec timespec | Other_cmsg

text \<open>
  The timestamps of a received packet, hardware first: those of the first timestamping message; without one the
  two variables keep their values.
\<close>

fun extract_rx_timestamps :: "cmsg list \<Rightarrow> timespec \<times> timespec \<Rightarrow> (timespec \<times> timespec) \<times> bool" where
  "extract_rx_timestamps [] ts = (ts, False)"
| "extract_rx_timestamps (Timestamping ts0 ts1 ts2 # cs) ts = ((ts2, ts0), True)"
| "extract_rx_timestamps (Ip_recverr d # cs) ts = extract_rx_timestamps cs ts"
| "extract_rx_timestamps (Other_cmsg # cs) ts = extract_rx_timestamps cs ts"

text \<open>
  The result of one \<open>recvmsg\<close> on the error queue: nothing queued, another error, or a queued packet with its
  control messages.  \<open>recvmsg\<close> copies at most 64 bytes of the packet.
\<close>

datatype errq_result = EQ_again | EQ_error | EQ_msg "u8 list" "cmsg list"

fun scan_errq :: "u8 list \<Rightarrow> cmsg list \<Rightarrow> u32 \<times> timespec \<Rightarrow> u32 \<times> timespec" where
  "scan_errq packet_data [] (seq_num, kernel_tx_ts) = (seq_num, kernel_tx_ts)"
| "scan_errq packet_data (Ip_recverr kernel_seq # cs) (seq_num, kernel_tx_ts) =
     scan_errq packet_data cs
       ((if 46 \<le> length packet_data then ntohl_at 42 packet_data
         else if 4 \<le> length packet_data then ntohl_at 0 packet_data
         else kernel_seq), kernel_tx_ts)"
| "scan_errq packet_data (Timestamping ts0 ts1 ts2 # cs) (seq_num, kernel_tx_ts) = scan_errq packet_data cs (seq_num, ts0)"
| "scan_errq packet_data (Other_cmsg # cs) (seq_num, kernel_tx_ts) = scan_errq packet_data cs (seq_num, kernel_tx_ts)"

definition errq_event :: "u8 list \<Rightarrow> cmsg list \<Rightarrow> u32 \<times> timespec" where
  "errq_event bytes cs = scan_errq (take 64 bytes) cs (0, zero_timespec)"

text \<open>
  \<open>process_tx_timestamps_in_main_thread\<close>, which client and server each have with their own treatment \<open>handle\<close> of a message: at most
  256 turns, given the results of the successive \<open>recvmsg\<close> calls, after which the queue is empty.  It returns the number of
  processed timestamps and the remaining results.
\<close>

fun errq_loop :: "(u8 list \<Rightarrow> cmsg list \<Rightarrow> 's \<Rightarrow> 's \<times> nat) \<Rightarrow> nat \<Rightarrow> errq_result list \<Rightarrow> 's \<Rightarrow> 's \<times> nat \<times> errq_result list" where
  "errq_loop handle 0 q s = (s, 0, q)"
| "errq_loop handle (Suc n) [] s = (s, 0, [])"
| "errq_loop handle (Suc n) (EQ_again # q) s = (s, 0, q)"
| "errq_loop handle (Suc n) (EQ_error # q) s = errq_loop handle n q s"
| "errq_loop handle (Suc n) (EQ_msg bytes cmsgs # q) s =
     (let (s1, k) = handle bytes cmsgs s; (s2, m, q') = errq_loop handle n q s1 in (s2, k + m, q'))"

lemma errq_loop_code [code]:
  "errq_loop handle n q s =
     (if n = 0 then (s, 0, q)
      else case q of
             [] \<Rightarrow> (s, 0, [])
           | EQ_again # q' \<Rightarrow> (s, 0, q')
           | EQ_error # q' \<Rightarrow> errq_loop handle (n - 1) q' s
           | EQ_msg bytes cmsgs # q' \<Rightarrow>
               (let (s1, k) = handle bytes cmsgs s; (s2, m, q'') = errq_loop handle (n - 1) q' s1 in (s2, k + m, q'')))"
  by (cases "(handle, n, q, s)" rule: errq_loop.cases) simp_all

definition process_errq ::
  "(u8 list \<Rightarrow> cmsg list \<Rightarrow> 's \<Rightarrow> 's \<times> nat) \<Rightarrow> ('s \<Rightarrow> bool) \<Rightarrow> errq_result list \<Rightarrow> 's \<Rightarrow> 's \<times> nat \<times> errq_result list" where
  "process_errq handle active q s = (if \<not> active s then (s, 0, q) else errq_loop handle TX_TIMESTAMP_BATCH_SIZE q s)"

lemma errq_loop_consumes: "errq_loop handle n q s = (s', m, q') \<Longrightarrow> m = 0 \<and> length q' \<le> length q \<or> length q' < length q"
proof (induction handle n q s arbitrary: s' m q' rule: errq_loop.induct)
  case (5 handle n bytes cmsgs q s)
  obtain s1 k where t: "handle bytes cmsgs s = (s1, k)" by fastforce
  obtain s2 j q2 where l: "errq_loop handle n q s1 = (s2, j, q2)" by (metis prod_cases3)
  from 5(1) [OF t [symmetric] refl l] 5(2) t l show ?case by auto
qed fastforce+

text \<open>The drain loop at the end of a run: calls until one of them processes nothing.\<close>

function drain_errq ::
  "(u8 list \<Rightarrow> cmsg list \<Rightarrow> 's \<Rightarrow> 's \<times> nat) \<Rightarrow> ('s \<Rightarrow> bool) \<Rightarrow> errq_result list \<Rightarrow> 's \<Rightarrow> 's \<times> errq_result list" where
  "drain_errq handle active q s =
     (let (s', batch_processed, q') = process_errq handle active q s
      in if batch_processed > 0 then drain_errq handle active q' s' else (s', q'))"
  by auto

termination drain_errq
proof (relation "measure (\<lambda>(h, a, q, s). length q)", goal_cases)
  case (2 handle active q s p s' p2 batch q')
  then have "errq_loop handle TX_TIMESTAMP_BATCH_SIZE q s = (s', batch, q')"
    by (auto simp: process_errq_def split: if_splits)
  with 2 errq_loop_consumes show ?case by fastforce
qed simp

section \<open>The run time check\<close>

text \<open>
  The hybrid check at the top of the four packet loops: the clock is read in every 50th turn and when enough cycles have
  passed since the last reading.  \<open>limited\<close> says whether a run time was given, \<open>expired\<close> whether a clock reading is past it;
  \<open>None\<close> is the end of the loop.
\<close>

definition run_time_check :: "bool \<Rightarrow> (int \<Rightarrow> bool) \<Rightarrow> u64 \<Rightarrow> u64 \<Rightarrow> int \<Rightarrow> u64 \<Rightarrow> u64 \<times> u64 \<Rightarrow> (u64 \<times> u64) option" where
  "run_time_check limited expired max_cycles cycles now cycles' loop =
     (let loop_counter = fst loop + 1; last_time_check_cycles = snd loop;
          should_check_time = (loop_counter mod 50 = 0 \<or> max_cycles \<le> cycles - last_time_check_cycles)
      in if should_check_time \<and> limited then
           (if expired now then None else Some (loop_counter, cycles'))
         else Some (loop_counter, last_time_check_cycles))"

section \<open>Time stamp counter values\<close>

text \<open>The C conversion of a double to an integer drops the fraction.\<close>

definition trunc_double :: "rat \<Rightarrow> int" where
  "trunc_double x = (if 0 \<le> x then \<lfloor>x\<rfloor> else \<lceil>x\<rceil>)"

text \<open>
  \<open>ref_time\<close> and \<open>ref_tsc\<close> are the readings the function takes itself; the sums stay far below \<open>2^63\<close>.
\<close>

definition tsc_total_ns :: "rat \<Rightarrow> timespec \<Rightarrow> u64 \<Rightarrow> u64 \<Rightarrow> int" where
  "tsc_total_ns cpu_freq_ghz ref_time ref_tsc tsc_cycles =
     (let tsc_diff = sint (tsc_cycles - ref_tsc);
          time_diff_ns = fl64 (fl64 (of_int tsc_diff) / cpu_freq_ghz);
          total_ns = sint (tv_sec ref_time) * 1000000000 + sint (tv_nsec ref_time) + trunc_double time_diff_ns
      in if total_ns < 0 then 0 else total_ns)"

definition tsc_to_timespec :: "rat \<Rightarrow> timespec \<times> u64 \<Rightarrow> u64 \<Rightarrow> timespec" where
  "tsc_to_timespec cpu_freq_ghz ref tsc_cycles =
     (if tsc_cycles = 0 then zero_timespec
      else let total_ns = tsc_total_ns cpu_freq_ghz (fst ref) (snd ref) tsc_cycles
           in \<lparr>tv_sec = of_int (total_ns div 1000000000), tv_nsec = of_int (total_ns mod 1000000000)\<rparr>)"

definition calibrate_cpu_freq :: "timespec \<Rightarrow> u64 \<Rightarrow> timespec \<Rightarrow> u64 \<Rightarrow> rat" where
  "calibrate_cpu_freq start cycles_start stop cycles_end =
     (let time_diff = fl64 (fl64 (of_int (sint (tv_sec stop) - sint (tv_sec start))) +
                            fl64 (fl64 (of_int (sint (tv_nsec stop) - sint (tv_nsec start))) / 1000000000));
          cycles_diff = cycles_end - cycles_start
      in fl64 (fl64 (fl64 (of_nat (unat cycles_diff)) / time_diff) / 1000000000))"

section \<open>The packet rate report\<close>

record stats_state_t =
  ss_last_sent :: u64
  ss_last_received :: u64
  ss_last_time :: int
  ss_current_sent_pps :: u64
  ss_current_received_pps :: u64
  ss_stats_ready :: bool

text \<open>The SIGALRM handler, given the packet counters and the clock.\<close>

definition stats_signal_handler_hotpath :: "u64 \<Rightarrow> u64 \<Rightarrow> int \<Rightarrow> stats_state_t \<Rightarrow> stats_state_t" where
  "stats_signal_handler_hotpath current_sent current_received current_time s =
     (let time_diff = current_time - ss_last_time s;
          sent_diff = current_sent - ss_last_sent s;
          received_diff = current_received - ss_last_received s;
          s1 = (if time_diff > 0 \<and> ss_last_time s > 0 \<and> (sent_diff > 0 \<or> received_diff > 0) then
                  s\<lparr>ss_current_sent_pps := sent_diff div of_int time_diff,
                    ss_current_received_pps := received_diff div of_int time_diff, ss_stats_ready := True\<rparr>
                else s)
      in s1\<lparr>ss_last_sent := current_sent, ss_last_received := current_received, ss_last_time := current_time\<rparr>)"

text \<open>The line printed, if any, as elapsed time, send rate and receive rate; a rate that is zero is not printed.\<close>

definition display_stats_if_ready :: "int \<Rightarrow> int \<Rightarrow> stats_state_t \<Rightarrow> (int \<times> u64 option \<times> u64 option) option \<times> stats_state_t" where
  "display_stats_if_ready now program_start_time s =
     (if \<not> ss_stats_ready s then (None, s)
      else let sent_pps = ss_current_sent_pps s; received_pps = ss_current_received_pps s; elapsed = now - program_start_time
           in ((if sent_pps > 0 \<or> received_pps > 0
                then Some (elapsed, (if sent_pps > 0 then Some sent_pps else None), (if received_pps > 0 then Some received_pps else None))
                else None), s\<lparr>ss_stats_ready := False\<rparr>))"

definition setup_stats_reporting_hotpath :: "int \<Rightarrow> int \<times> stats_state_t" where
  "setup_stats_reporting_hotpath now =
     (now, \<lparr>ss_last_sent = 0, ss_last_received = 0, ss_last_time = now, ss_current_sent_pps = 0,
            ss_current_received_pps = 0, ss_stats_ready = False\<rparr>)"

section \<open>The final report\<close>

text \<open>
  The end of the four engines when statistics are enabled: \<open>alloc_result\<close> says whether the result structure could be
  allocated, the outer \<open>None\<close> that a percentile was read out of range, the inner \<open>None\<close> that there is no report.  The
  collector is released in every case.
\<close>

definition stats_mode_of_code :: "u8 \<Rightarrow> stats_mode_type_t option" where
  "stats_mode_of_code c =
     (if c = 1 then Some STATS_CLIENT_ONEWAY else if c = 2 then Some STATS_CLIENT_ROUNDTRIP
      else if c = 3 then Some STATS_SERVER_ONEWAY else if c = 4 then Some STATS_SERVER_ROUNDTRIP else None)"

definition final_stats_report ::
  "(nat \<Rightarrow> bool) \<Rightarrow> bool \<Rightarrow> stats_config_t \<Rightarrow> stats_collector_t option \<Rightarrow> u64 \<Rightarrow> u64 \<Rightarrow> report_item list option option" where
  "final_stats_report alloc alloc_result cfg g packets_sent packets_received =
     (case g of
        Some st \<Rightarrow>
          (if sc_enabled cfg \<and> buffer_has_data st \<and> alloc_result then
             (case stats_mode_of_code (st_program_mode st) of
                None \<Rightarrow> Some None
              | Some mode \<Rightarrow>
                  (case initialize_analysis_result alloc mode cfg of
                     (r, ok) \<Rightarrow>
                       if ok then map_option (\<lambda>(items, r'). Some items)
                                    (display_analysis_results (process_buffer_for_analysis alloc st r) packets_sent packets_received)
                       else Some None))
           else Some None)
      | None \<Rightarrow> Some None)"

lemma circular_index_nat: "j < 2 ^ 32 \<Longrightarrow> unat (get_circular_index (of_nat j)) = j mod MAX_SEQUENCE_NUMBERS"
  by (simp add: get_circular_index_def MAX_SEQUENCE_NUMBERS_def unat_mod unat_of_nat_small)

lemma different_slots:
  fixes j n k :: nat
  assumes "j < n" and "n < j + k"
  shows "j mod k \<noteq> n mod k"
proof
  assume "j mod k = n mod k"
  then have "k dvd n - j" 
    using assms(1) mod_eq_dvd_iff_nat [of j n k] by (simp add: eq_commute)
  then show False using assms by (auto dest: dvd_imp_le)
qed

section \<open>Draining the error queue\<close>

definition is_message :: "errq_result \<Rightarrow> bool" where
  "is_message m = (case m of EQ_msg _ _ \<Rightarrow> True | _ \<Rightarrow> False)"

lemma errq_loop_unchanged:
  assumes "\<And>bytes cmsgs s s' k. handle bytes cmsgs s = (s', k) \<Longrightarrow> g s' = g s"
  shows "errq_loop handle n q s = (s', m, q') \<Longrightarrow> g s' = g s"
  using assms
proof (induction handle n q s arbitrary: s' m q' rule: errq_loop.induct)
  case (5 handle n bytes cmsgs q s)
  obtain s1 k where t: "handle bytes cmsgs s = (s1, k)" by fastforce
  obtain s2 j q2 where l: "errq_loop handle n q s1 = (s2, j, q2)" by (metis prod_cases3)
  from 5(1) [OF t [symmetric] refl l 5(3)] 5(3) [OF t] 5(2) t l show ?case by auto
qed auto

lemma process_errq_unchanged:
  assumes "\<And>bytes cmsgs s s' k. handle bytes cmsgs s = (s', k) \<Longrightarrow> g s' = g s" and "process_errq handle active q s = (s', m, q')"
  shows "g s' = g s"
proof (cases "active s")
  case True
  with assms(2) have "errq_loop handle TX_TIMESTAMP_BATCH_SIZE q s = (s', m, q')" by (simp add: process_errq_def)
  from errq_loop_unchanged [OF assms(1) this] show ?thesis .
qed (use assms(2) in \<open>simp add: process_errq_def\<close>)

text \<open>
  The contract of a program that logs its timestamps: in a state whose log stands for the messages \<open>ms\<close>, a message is
  processed, counted once and appended.
\<close>

locale errq_logger =
  fixes handle :: "u8 list \<Rightarrow> cmsg list \<Rightarrow> 's \<Rightarrow> 's \<times> nat"
    and active :: "'s \<Rightarrow> bool"
    and logged :: "'a \<Rightarrow> errq_result list \<Rightarrow> 's \<Rightarrow> bool"
  assumes logs: "logged a ms s \<Longrightarrow> handle bytes cmsgs s = (s', k) \<Longrightarrow> k = 1 \<and> logged a (ms @ [EQ_msg bytes cmsgs]) s'"
    and logged_active: "logged a ms s \<Longrightarrow> active s"
begin

lemma loop_logs:
  assumes "logged a ms s" and "list_all is_message q" and "errq_loop handle n q s = (s', m, q')"
  shows "m = min n (length q) \<and> q' = drop n q \<and> logged a (ms @ take n q) s'"
  using assms
proof (induction q arbitrary: n s ms s' m q')
  case Nil
  then show ?case by (cases n) auto
next
  case (Cons x q)
  then obtain bytes cmsgs where x: "x = EQ_msg bytes cmsgs" by (auto simp: is_message_def split: errq_result.splits)
  obtain s1 k where t: "handle bytes cmsgs s = (s1, k)" by fastforce
  note 1 = logs [OF Cons.prems(1) t]
  show ?case
  proof (cases n)
    case 0
    with Cons.prems show ?thesis by simp
  next
    case (Suc i)
    obtain s2 j q2 where l: "errq_loop handle i q s1 = (s2, j, q2)" by (metis prod_cases3)
    from Cons.IH [OF conjunct2 [OF 1] _ l] Cons.prems(2) have "j = min i (length q)" "q2 = drop i q"
      "logged a ((ms @ [EQ_msg bytes cmsgs]) @ take i q) s2" by simp_all
    with 1 t l Cons.prems(3) x Suc show ?thesis by simp
  qed
qed

lemma drain_logs:
  assumes "logged a ms s" and "list_all is_message q"
  shows "\<exists>s'. drain_errq handle active q s = (s', []) \<and> logged a (ms @ q) s'"
  using assms
proof (induction "length q" arbitrary: q s ms rule: less_induct)
  case less
  obtain s1 m q1 where p: "process_errq handle active q s = (s1, m, q1)" by (metis prod_cases3)
  then have "errq_loop handle TX_TIMESTAMP_BATCH_SIZE q s = (s1, m, q1)"
    using logged_active [OF less.prems(1)] by (simp add: process_errq_def)
  from loop_logs [OF less.prems this] have 1: "m = min TX_TIMESTAMP_BATCH_SIZE (length q)" "q1 = drop TX_TIMESTAMP_BATCH_SIZE q"
    "logged a (ms @ take TX_TIMESTAMP_BATCH_SIZE q) s1" by simp_all
  show ?case
  proof (cases "q = []")
    case True
    with p 1 show ?thesis by (simp add: drain_errq.simps [of handle active q] TX_TIMESTAMP_BATCH_SIZE_def)
  next
    case False
    have "length q1 < length q" using False 1(2) by (simp add: TX_TIMESTAMP_BATCH_SIZE_def)
    moreover have "list_all is_message q1" using 1(2) less.prems(2) by (auto simp: list_all_iff dest: in_set_dropD)
    ultimately obtain s' where "drain_errq handle active q1 s1 = (s', [])" "logged a ((ms @ take TX_TIMESTAMP_BATCH_SIZE q) @ q1) s'"
      using less.hyps [OF _ 1(3)] by blast
    moreover have "m > 0" using False 1(1) by (simp add: TX_TIMESTAMP_BATCH_SIZE_def)
    ultimately show ?thesis using p 1(2) by (auto simp: drain_errq.simps [of handle active q])
  qed
qed

end

section \<open>The run time is respected\<close>

text \<open>The checks of successive turns, each with its readings of cycle counter and clock.\<close>

fun run_time_checks :: "bool \<Rightarrow> (int \<Rightarrow> bool) \<Rightarrow> u64 \<Rightarrow> (u64 \<times> int \<times> u64) list \<Rightarrow> u64 \<times> u64 \<Rightarrow> (u64 \<times> u64) option" where
  "run_time_checks limited expired max_cycles [] loop = Some loop"
| "run_time_checks limited expired max_cycles ((cycles, now, cycles') # rs) loop =
     (case run_time_check limited expired max_cycles cycles now cycles' loop of
        None \<Rightarrow> None
      | Some loop' \<Rightarrow> run_time_checks limited expired max_cycles rs loop')"

lemma run_time_checks_due:
  assumes "list_all (\<lambda>(c, now, c'). expired now) rs" and "k < length rs" and "(fst loop + of_nat (Suc k)) mod 50 = 0"
  shows "run_time_checks True expired max_cycles rs loop = None"
  using assms
proof (induction rs arbitrary: loop k)
  case (Cons r rs)
  obtain c now c' where r: "r = (c, now, c')" by (cases r)
  show ?case
  proof (cases k)
    case 0
    with Cons.prems r show ?thesis by (simp add: run_time_check_def Let_def)
  next
    case (Suc j)
    have rest: "run_time_checks True expired max_cycles rs loop' = None" if "fst loop' = fst loop + 1" for loop'
    proof (rule Cons.IH)
      show "list_all (\<lambda>(c, now, c'). expired now) rs" "j < length rs" using Cons.prems Suc by simp_all
      show "(fst loop' + of_nat (Suc j)) mod 50 = 0" using Cons.prems(3) Suc that by (simp add: add.assoc)
    qed
    show ?thesis
    proof (cases "run_time_check True expired max_cycles c now c' loop")
      case (Some loop')
      then have "fst loop' = fst loop + 1" by (auto simp: run_time_check_def Let_def split: if_splits)
      with rest Some show ?thesis by (simp add: r)
    qed (simp add: r)
  qed
qed simp

lemma some_turn_is_due: "\<exists>k < 50. (c + of_nat (Suc k)) mod 50 = (0 :: u64)"
proof -
  define u where "u = unat c"
  have u: "u < 2 ^ 64" unfolding u_def using unsigned_less [of c] by simp
  have val: "unat ((c + of_nat (Suc k)) mod 50) = ((u + Suc k) mod 2 ^ 64) mod 50" if "k < 50" for k
    using that by (simp add: unat_mod unat_word_ariths(1) u_def unsigned_of_nat take_bit_eq_mod mod_add_right_eq del: of_nat_Suc)
  show ?thesis
  proof (cases "u + 50 < 2 ^ 64")
    case True
    define q r where "q = u div 50" and "r = u mod 50"
    have u': "u = 50 * q + r" and r: "r < 50" unfolding q_def r_def by simp_all
    let ?k = "49 - r"
    have "u + Suc ?k = 50 * (q + 1)" unfolding u' using r by simp
    then have "(u + Suc ?k) mod 50 = 0" by (simp only: mod_mult_self1_is_0)
    moreover have "(u + Suc ?k) mod 2 ^ 64 = u + Suc ?k" using True r by simp
    ultimately have "unat ((c + of_nat (Suc ?k)) mod 50) = 0" using val [of ?k] by simp
    then show ?thesis by (intro exI [of _ ?k]) (simp add: unat_eq_zero)
  next
    case False
    let ?k = "2 ^ 64 - u - 1"
    have "?k < 50" using False by simp
    moreover have "(u + Suc ?k) mod 2 ^ 64 = 0" using u by simp
    ultimately have "unat ((c + of_nat (Suc ?k)) mod 50) = 0" using val [of ?k] by simp
    then show ?thesis using \<open>?k < 50\<close> by (intro exI [of _ ?k]) (simp add: unat_eq_zero)
  qed
qed

text \<open>
  C33. A packet loop with a run time ends within 50 turns once the run time is over, whatever the readings of the cycle
  counter are and even where the 64-bit turn counter wraps around; it does not end before.
\<close>

theorem run_time_respected:
  "(50 \<le> length rs \<and> list_all (\<lambda>(c, now, c'). expired now) rs \<longrightarrow> run_time_checks True expired max_cycles rs loop = None) \<and>
   (list_all (\<lambda>(c, now, c'). \<not> limited \<or> \<not> expired now) rs \<longrightarrow> run_time_checks limited expired max_cycles rs loop \<noteq> None)"
proof (intro conjI impI; (elim conjE)?)
  assume len: "50 \<le> length rs" and ex: "list_all (\<lambda>(c, now, c'). expired now) rs"
  obtain k where k: "k < 50" and due: "(fst loop + of_nat (Suc k)) mod 50 = 0" 
    using some_turn_is_due [of "fst loop"] by (elim exE conjE)
  show "run_time_checks True expired max_cycles rs loop = None"
    by (rule run_time_checks_due [OF ex less_le_trans [OF k len] due])
next
  assume "list_all (\<lambda>(c, now, c'). \<not> limited \<or> \<not> expired now) rs"
  then show "run_time_checks limited expired max_cycles rs loop \<noteq> None"
  proof (induction rs arbitrary: loop)
    case (Cons r rs)
    then have "run_time_check limited expired max_cycles (fst r) (fst (snd r)) (snd (snd r)) loop \<noteq> None"
      by (auto simp: run_time_check_def Let_def split_beta)
    with Cons show ?case by (cases r) auto
  qed simp
qed

theorem run_time_respected_witness:
  "run_time_checks True (\<lambda>now. 100 \<le> now) 1000 (replicate 50 (0, 200, 0)) (7, 0) = None \<and>
   run_time_checks True (\<lambda>now. 100 \<le> now) 1000 (replicate 3 (5000, 20, 5000)) (7, 0) \<noteq> None"
  using run_time_respected [of "replicate 50 (0, 200, 0)" "\<lambda>now. 100 \<le> now" 1000 "(7, 0)" True]
    run_time_respected [of "replicate 3 (5000, 20, 5000)" "\<lambda>now. 100 \<le> now" 1000 "(7, 0)" True]
  by (simp add: list_all_iff)

section \<open>Conversion of time stamp counter values\<close>

lemma round_even_minus: "round_even (- x) = - round_even x"
proof (cases "x = of_int \<lfloor>x\<rfloor>")
  case True
  then show ?thesis by (metis of_int_minus round_even_int)
next
  case False
  have "\<lfloor>- x\<rfloor> = - \<lfloor>x\<rfloor> - 1"
  proof (rule floor_unique)
    show "of_int (- \<lfloor>x\<rfloor> - 1) \<le> - x" using floor_correct [of x] by simp
    have "of_int \<lfloor>x\<rfloor> < x" using of_int_floor_le [of x] False by (metis order_le_imp_less_or_eq)
    then show "- x < of_int (- \<lfloor>x\<rfloor> - 1) + 1" by simp
  qed
  then show ?thesis by (auto simp: round_even_def Let_def)
qed

lemma fl64_minus: "fl64 (- x) = - fl64 x"
  using round_even_minus [of "x / 2 powi (fexp \<bar>x\<bar> - 52)"] by (simp add: fl64_def Let_def)

lemma fl64_mono_all: "x \<le> y \<Longrightarrow> fl64 x \<le> fl64 y"
proof -
  assume le: "x \<le> y"
  consider "0 \<le> x" | "y \<le> 0" | "x \<le> 0" "0 \<le> y" by linarith
  then show ?thesis
  proof cases
    case 1
    then show ?thesis by (rule fl.rnd_mono [OF _ le])
  next
    case 2
    then have "fl64 (- y) \<le> fl64 (- x)" using le by (intro fl.rnd_mono) simp_all
    then show ?thesis by (simp add: fl64_minus)
  next
    case 3
    then show ?thesis using fl.rnd_nonneg [of y] fl.rnd_nonneg [of "- x"] by (simp add: fl64_minus)
  qed
qed

lemma trunc_double_mono: "x \<le> y \<Longrightarrow> trunc_double x \<le> trunc_double y"
  by (auto simp: trunc_double_def floor_mono ceiling_mono intro: order_trans [of _ 0])

lemma tsc_total_ns_nonneg: "0 \<le> tsc_total_ns f rt rc t"
  by (simp add: tsc_total_ns_def Let_def)

lemma tsc_total_ns_mono:
  assumes "0 < f" and "sint (t1 - rc) \<le> sint (t2 - rc)"
  shows "tsc_total_ns f rt rc t1 \<le> tsc_total_ns f rt rc t2"
proof -
  have "fl64 (of_int (sint (t1 - rc))) \<le> fl64 (of_int (sint (t2 - rc)))" 
    using assms(2) by (intro fl64_mono_all) (simp only: of_int_le_iff)
  then have "trunc_double (fl64 (fl64 (of_int (sint (t1 - rc))) / f)) \<le> trunc_double (fl64 (fl64 (of_int (sint (t2 - rc))) / f))"
    using trunc_double_mono [OF fl64_mono_all [OF divide_right_mono [OF _ less_imp_le [OF assms(1)]]]] by blast
  then show ?thesis by (simp add: tsc_total_ns_def Let_def)
qed

text \<open>
  A nonzero counter value is converted to a normalised timestamp whose nanoseconds are exactly the computed
  total; relative to one reading of the clocks the conversion is monotonic in the counter, and the counter value of the reading
  itself gives the time of the reading.  Zero, the value for a disabled counter, becomes the zero timestamp.
\<close>

theorem tsc_conversion_sound:
  assumes "0 < f"
  shows "tsc_to_timespec f (rt, rc) 0 = zero_timespec \<and>
    (t \<noteq> 0 \<longrightarrow> timespec_ns (tsc_to_timespec f (rt, rc) t) = of_int (tsc_total_ns f rt rc t) \<and>
       unat (tv_nsec (tsc_to_timespec f (rt, rc) t)) < 1000000000) \<and>
    (sint (t - rc) \<le> sint (t' - rc) \<longrightarrow> tsc_total_ns f rt rc t \<le> tsc_total_ns f rt rc t') \<and>
    (0 \<le> sint (tv_sec rt) \<and> 0 \<le> sint (tv_nsec rt) \<longrightarrow>
       tsc_total_ns f rt rc rc = sint (tv_sec rt) * 1000000000 + sint (tv_nsec rt))"
proof (intro conjI impI; (elim conjE)?)
  show "tsc_to_timespec f (rt, rc) 0 = zero_timespec" by (simp add: tsc_to_timespec_def)
next
  assume t: "t \<noteq> 0"
  let ?n = "tsc_total_ns f rt rc t"
  have "of_int (?n div 1000000000) * 1000000000 + of_int (?n mod 1000000000) = (of_int (?n div 1000000000 * 1000000000 + ?n mod 1000000000) :: u64)"
    by (simp only: of_int_add of_int_mult of_int_numeral)
  then show "timespec_ns (tsc_to_timespec f (rt, rc) t) = of_int ?n"
    using t by (simp add: timespec_ns_def tsc_to_timespec_def Let_def)
  have "nat (?n mod 1000000000) < 1000000000" by (simp add: nat_less_iff)
  then have "unat (of_nat (nat (?n mod 1000000000)) :: u64) < 1000000000"
    by (subst unat_of_nat_small) simp_all
  also have "(of_nat (nat (?n mod 1000000000)) :: u64) = of_int (?n mod 1000000000)"
    by (subst of_int_of_nat_eq [symmetric]) simp
  finally show "unat (tv_nsec (tsc_to_timespec f (rt, rc) t)) < 1000000000"
    using t by (simp add: tsc_to_timespec_def Let_def)
next
  assume "sint (t - rc) \<le> sint (t' - rc)"
  then show "tsc_total_ns f rt rc t \<le> tsc_total_ns f rt rc t'" by (rule tsc_total_ns_mono [OF assms])
next
  assume "0 \<le> sint (tv_sec rt)" "0 \<le> sint (tv_nsec rt)"
  then show "tsc_total_ns f rt rc rc = sint (tv_sec rt) * 1000000000 + sint (tv_nsec rt)"
    by (simp add: tsc_total_ns_def Let_def trunc_double_def)
qed

theorem tsc_conversion_sound_witness:
  "timespec_ns (tsc_to_timespec 3 (\<lparr>tv_sec = 5, tv_nsec = 7\<rparr>, 4000) 1000) = of_int (tsc_total_ns 3 \<lparr>tv_sec = 5, tv_nsec = 7\<rparr> 4000 1000)"
  using tsc_conversion_sound [of 3 "\<lparr>tv_sec = 5, tv_nsec = 7\<rparr>" 4000 1000 0] by simp

section \<open>Rates\<close>

text \<open>
  A tick of the rate report after a positive time difference and with packets counted since the last tick announces
  rates that differ from the exact quotient by less than one packet per second, in both directions, and every
  tick remembers the counters for the next one.
\<close>

theorem rate_report_exact:
  fixes sent received :: nat
  assumes "0 < ss_last_time s" and "ss_last_time s < now" and "now - ss_last_time s < 2 ^ 63"
    and "unat (ss_last_sent s) + sent < 2 ^ 64" and "unat (ss_last_received s) + received < 2 ^ 64" and "0 < sent + received"
  defines "s' \<equiv> stats_signal_handler_hotpath (ss_last_sent s + of_nat sent) (ss_last_received s + of_nat received) now s"
    and "dt \<equiv> nat (now - ss_last_time s)"
  shows "ss_stats_ready s' \<and>
    unat (ss_current_sent_pps s') = sent div dt \<and> unat (ss_current_received_pps s') = received div dt \<and>
    ss_last_sent s' = ss_last_sent s + of_nat sent \<and> ss_last_received s' = ss_last_received s + of_nat received \<and>
    ss_last_time s' = now"
proof -
  have dt: "int dt = now - ss_last_time s" and "0 < dt" using assms(2) by (simp_all add: dt_def)
  then have dtw: "of_int (now - ss_last_time s) = (of_nat dt :: u64)" by (metis of_int_of_nat_eq)
  have "int dt < 2 ^ 63" using assms(3) dt by simp
  then have "dt < 2 ^ 64" by simp
  then have udt: "unat (of_nat dt :: u64) = dt" by (simp add: unat_of_nat_small)
  have us: "unat (of_nat sent :: u64) = sent" "unat (of_nat received :: u64) = received"
    using assms(4,5) by (simp_all add: unat_of_nat_small)
  have "0 < (of_nat sent :: u64) \<or> 0 < (of_nat received :: u64)" using assms(6) us by (auto simp: word_less_nat_alt)
  then show ?thesis using assms(1,2) udt us unfolding s'_def stats_signal_handler_hotpath_def Let_def dtw
    by (simp add: unat_div)
qed

theorem rate_report_exact_witness:
  "unat (ss_current_sent_pps (stats_signal_handler_hotpath 3500 0 102 (snd (setup_stats_reporting_hotpath 100)))) = 1750"
  using rate_report_exact [of "snd (setup_stats_reporting_hotpath 100)" 102 3500 0]
  by (simp add: setup_stats_reporting_hotpath_def)

end
