(* ===== verification/Client.thy ===== *)
theory Client
  imports Net_Packet Csv_Buffer
begin

text \<open>
  The packet engine of the client, \<open>timestamp_client.c\<close>: the arrays that correlate a sequence number with its send
  timestamps, the send loops of the one-way and the round-trip mode, the thread that collects kernel
  send timestamps from the error queue of the socket, and the thread that receives return packets.  A run is a sequence of turns of
  the three threads; within a turn the model is sequential.  The results of \<open>sendmmsg\<close> and \<open>recvmsg\<close> and all clock readings
  are data of the turns.
\<close>

section \<open>State\<close>

text \<open>Null pointers are \<open>None\<close>.  \<open>client_src_port\<close> is stored with the 16 bits that are used of it.\<close>

record client_state =
  cs_src_ip :: string
  cs_src_port :: u16
  cs_csv_enabled :: bool
  cs_stats_config :: stats_config_t
  cs_stats :: "stats_collector_t option"
  cs_tx_csv_buffer :: "csv_ring_buffer_t option"
  cs_csv_buffer :: "csv_ring_buffer_t option"
  cs_app_tx_timestamps :: "timespec list option"
  cs_app_tx_tsc_values :: "u64 list option"
  cs_cpu_freq_ghz :: rat
  cs_tsc_reliable :: bool
  cs_seq_num :: u32
  cs_total_packets_sent :: u64
  cs_g_packets_sent :: u64
  cs_g_packets_received :: u64
  cs_g_tx_timestamp_processed :: u64
  cs_rx_running :: bool
  cs_local_packets_received :: u64

definition on_stats ::
  "(stats_config_t \<Rightarrow> stats_collector_t option \<Rightarrow> stats_collector_t option) \<Rightarrow> client_state \<Rightarrow> client_state" where
  "on_stats f cs = cs\<lparr>cs_stats := f (cs_stats_config cs) (cs_stats cs)\<rparr>"

section \<open>Correlation arrays\<close>


definition cleanup_tx_correlation :: "client_state \<Rightarrow> client_state" where
  "cleanup_tx_correlation cs = cs\<lparr>cs_app_tx_timestamps := None, cs_app_tx_tsc_values := None\<rparr>"

definition store_tx_timestamp :: "u32 \<Rightarrow> timespec \<Rightarrow> client_state \<Rightarrow> client_state" where
  "store_tx_timestamp seq_num app_tx_ts cs =
     cs\<lparr>cs_app_tx_timestamps := map_option (\<lambda>a. a[unat (get_circular_index seq_num) := app_tx_ts]) (cs_app_tx_timestamps cs)\<rparr>"

definition store_tx_timestamps :: "u32 \<Rightarrow> timespec \<Rightarrow> u64 \<Rightarrow> client_state \<Rightarrow> client_state" where
  "store_tx_timestamps seq_num app_tx_ts tsc_value cs =
     (case (cs_app_tx_timestamps cs, cs_app_tx_tsc_values cs) of
        (Some a, Some b) \<Rightarrow>
          (let index = unat (get_circular_index seq_num)
           in cs\<lparr>cs_app_tx_timestamps := Some (a[index := app_tx_ts]), cs_app_tx_tsc_values := Some (b[index := tsc_value])\<rparr>)
      | _ \<Rightarrow> cs)"

section \<open>Kernel send timestamps\<close>

text \<open>One message of the error queue; the number says whether it counts as processed.\<close>

definition client_tx_timestamp :: "u8 list \<Rightarrow> cmsg list \<Rightarrow> client_state \<Rightarrow> client_state \<times> nat" where
  "client_tx_timestamp bytes cmsgs cs =
     (let (seq_num, kernel_tx_ts) = errq_event bytes cmsgs;
          logged = (cs_csv_enabled cs \<and> cs_tx_csv_buffer cs \<noteq> None);
          cs1 = (if logged then
                   cs\<lparr>cs_tx_csv_buffer := csv_offer (create_csv_client_oneway_tx seq_num (cs_src_ip cs) (cs_src_port cs)
                                                      (timespec_ns kernel_tx_ts)) (cs_tx_csv_buffer cs)\<rparr>
                 else cs);
          cs2 = (case cs_stats cs1 of
                   None \<Rightarrow> cs1
                 | Some st \<Rightarrow>
                     on_stats (\<lambda>cfg. update_stats_buffer_with_tx_timestamp cfg seq_num (timespec_ns kernel_tx_ts)
                                       (if st_program_mode st = stats_mode_code STATS_CLIENT_ONEWAY
                                        then STATS_CLIENT_ONEWAY else STATS_CLIENT_ROUNDTRIP)) cs1)
      in (cs2, if logged then 1 else 0))"

definition client_tx_active :: "client_state \<Rightarrow> bool" where
  "client_tx_active cs = (cs_tx_csv_buffer cs \<noteq> None \<or> sc_enabled (cs_stats_config cs))"

definition process_tx_timestamps_in_main_thread ::
  "errq_result list \<Rightarrow> client_state \<Rightarrow> client_state \<times> nat \<times> errq_result list" where
  "process_tx_timestamps_in_main_thread = process_errq client_tx_timestamp client_tx_active"

text \<open>One turn of \<open>tx_timestamp_processing_thread\<close>; the check of the queue's health only logs.\<close>

definition client_tx_timestamp_turn :: "errq_result list \<Rightarrow> client_state \<Rightarrow> client_state" where
  "client_tx_timestamp_turn q cs =
     (let (cs1, processed, _) = process_tx_timestamps_in_main_thread q cs
      in if processed > 0 then cs1\<lparr>cs_g_tx_timestamp_processed := cs_g_tx_timestamp_processed cs1 + of_nat processed\<rparr> else cs1)"

text \<open>The drain at the end of a run.\<close>

definition client_drain :: "errq_result list \<Rightarrow> client_state \<Rightarrow> client_state \<times> errq_result list" where
  "client_drain = drain_errq client_tx_timestamp client_tx_active"

section \<open>Sending\<close>

record send_params =
  sp_pps :: int
  sp_rx_port :: int
  sp_end_time :: int
  sp_max_cycles_between_checks :: u64

text \<open>
  What one turn of a send loop observes: the shutdown flag, the readings of the run time check, for each packet of the batch
  the system time and the cycle counter, the references of the conversions of counter values in the order of the calls, and
  the result of \<open>sendmmsg\<close>, where a negative result comes with the test for \<open>EAGAIN\<close>.
\<close>

record send_turn =
  tn_graceful_shutdown :: bool
  tn_cycles :: u64
  tn_now :: int
  tn_cycles_after :: u64
  tn_system_time :: "nat \<Rightarrow> timespec"
  tn_tsc :: "nat \<Rightarrow> u64"
  tn_tsc_refs :: "nat \<Rightarrow> timespec \<times> u64"
  tn_sent :: int
  tn_would_block :: bool

text \<open>The state of a send loop: the counters of the run time check and the packet buffers besides the client's state.\<close>

record send_loop =
  sl_client :: client_state
  sl_check :: "u64 \<times> u64"
  sl_buffers :: "u8 list list"

text \<open>A packet handed to the kernel, with the timestamps captured for it.\<close>

type_synonym sent_packet = "u8 list \<times> timespec \<times> u64"

definition batch_count_of :: "int \<Rightarrow> nat" where
  "batch_count_of pps = (if int BATCH_SIZE \<le> pps then BATCH_SIZE else 1)"

definition oneway_packet :: "u32 \<Rightarrow> u8 list \<Rightarrow> u8 list" where
  "oneway_packet current_seq packet = put_bytes 0 (htonl_bytes current_seq) packet"

definition roundtrip_packet :: "int \<Rightarrow> u32 \<Rightarrow> u8 list \<Rightarrow> u8 list" where
  "roundtrip_packet rx_port current_seq packet =
     put_bytes 4 (htonl_bytes (of_int rx_port)) (put_bytes 0 (htonl_bytes current_seq) packet)"

definition fill_batch :: "(u32 \<Rightarrow> u8 list \<Rightarrow> u8 list) \<Rightarrow> nat \<Rightarrow> u32 \<Rightarrow> u8 list list \<Rightarrow> u8 list list" where
  "fill_batch build batch_count seq_num buffers =
     map (\<lambda>i. if i < batch_count then build (seq_num + of_nat i) (buffers ! i) else buffers ! i) [0..<length buffers]"

text \<open>Statistics and log entry of one sent packet in one-way mode.\<close>

definition oneway_account :: "u32 \<Rightarrow> timespec \<Rightarrow> client_state \<Rightarrow> client_state" where
  "oneway_account current_seq app_tx_ts cs =
     (let ns = timespec_ns app_tx_ts;
          cs1 = on_stats (\<lambda>cfg. create_minimal_stats_entry cfg current_seq (cs_src_port cs) TIMESTAMP_MODE_CLIENT_ONEWAY) cs;
          cs2 = on_stats (\<lambda>cfg. update_stats_buffer_with_app_tx_timestamp cfg current_seq ns 0 STATS_CLIENT_ONEWAY) cs1
      in if cs_csv_enabled cs2 then
           cs2\<lparr>cs_csv_buffer := csv_offer (create_csv_client_oneway_main current_seq (cs_src_ip cs2) (cs_src_port cs2) ns)
                                  (cs_csv_buffer cs2)\<rparr>
         else cs2)"

definition oneway_process :: "send_turn \<Rightarrow> nat \<Rightarrow> client_state \<Rightarrow> client_state" where
  "oneway_process tn sent cs =
     (let seq_num = cs_seq_num cs;
          cs1 = fold (\<lambda>i. oneway_account (seq_num + of_nat i) (tn_system_time tn i)) [0..<sent] cs
      in fold (\<lambda>i. store_tx_timestamp (seq_num + of_nat i) (tn_system_time tn i)) [0..<sent] cs1)"

text \<open>
  Statistics of one sent packet in round-trip mode.  The counter value is converted twice, once for the seconds and once for the
  nanoseconds, each time relative to a new reading of the clocks.
\<close>

definition roundtrip_account :: "(timespec \<times> u64) \<Rightarrow> (timespec \<times> u64) \<Rightarrow> u32 \<Rightarrow> timespec \<Rightarrow> u64 \<Rightarrow> client_state \<Rightarrow> client_state" where
  "roundtrip_account ref1 ref2 current_seq app_tx_ts tsc_tx cs =
     (let cs1 = on_stats (\<lambda>cfg. create_minimal_stats_entry cfg current_seq (cs_src_port cs) TIMESTAMP_MODE_CLIENT_ROUNDTRIP) cs;
          tsc_ns = tv_sec (tsc_to_timespec (cs_cpu_freq_ghz cs) ref1 tsc_tx) * 1000000000 +
                   tv_nsec (tsc_to_timespec (cs_cpu_freq_ghz cs) ref2 tsc_tx)
      in on_stats (\<lambda>cfg. update_stats_buffer_with_app_tx_timestamp cfg current_seq (timespec_ns app_tx_ts) tsc_ns
                          STATS_CLIENT_ROUNDTRIP) cs1)"

definition tsc_captured :: "client_state \<Rightarrow> u64 \<Rightarrow> u64" where
  "tsc_captured cs tsc = (if cs_tsc_reliable cs then tsc else 0)"

definition roundtrip_process :: "send_turn \<Rightarrow> nat \<Rightarrow> client_state \<Rightarrow> client_state" where
  "roundtrip_process tn sent cs =
     (let seq_num = cs_seq_num cs;
          cs1 = fold (\<lambda>i. store_tx_timestamps (seq_num + of_nat i) (tn_system_time tn i) (tsc_captured cs (tn_tsc tn i))) [0..<sent] cs
      in fold (\<lambda>i. roundtrip_account (tn_tsc_refs tn (2 * i)) (tn_tsc_refs tn (2 * i + 1)) (seq_num + of_nat i)
                     (tn_system_time tn i) (tsc_captured cs (tn_tsc tn i))) [0..<sent] cs1)"

definition count_sent :: "nat \<Rightarrow> client_state \<Rightarrow> client_state" where
  "count_sent sent cs =
     cs\<lparr>cs_seq_num := cs_seq_num cs + of_nat sent, cs_total_packets_sent := cs_total_packets_sent cs + of_nat sent,
        cs_g_packets_sent := cs_g_packets_sent cs + of_nat sent\<rparr>"

text \<open>
  One turn of a send loop: the new state, the packets handed to the kernel, and whether the loop goes on.
  The two modes differ in the packets and in what is done for the sent ones.
\<close>

definition client_send_turn ::
  "(u32 \<Rightarrow> u8 list \<Rightarrow> u8 list) \<Rightarrow> (send_turn \<Rightarrow> nat \<Rightarrow> client_state \<Rightarrow> client_state) \<Rightarrow> send_params \<Rightarrow> send_turn \<Rightarrow> send_loop \<Rightarrow>
     send_loop \<times> sent_packet list \<times> bool" where
  "client_send_turn build process p tn sl =
     (if tn_graceful_shutdown tn then (sl, [], False)
      else case run_time_check (0 < sp_end_time p) (\<lambda>now. sp_end_time p \<le> now) (sp_max_cycles_between_checks p)
                  (tn_cycles tn) (tn_now tn) (tn_cycles_after tn) (sl_check sl) of
             None \<Rightarrow> (sl, [], False)
           | Some check \<Rightarrow>
               (let cs = sl_client sl;
                    buffers = fill_batch build (batch_count_of (sp_pps p)) (cs_seq_num cs) (sl_buffers sl);
                    sl1 = sl\<lparr>sl_check := check, sl_buffers := buffers\<rparr>
                in if tn_sent tn < 0 then (sl1, [], tn_would_block tn)
                   else let sent = nat (tn_sent tn)
                        in (sl1\<lparr>sl_client := count_sent sent (process tn sent cs)\<rparr>,
                            map (\<lambda>i. (buffers ! i, tn_system_time tn i, tsc_captured cs (tn_tsc tn i))) [0..<sent], True)))"

definition client_oneway_turn :: "send_params \<Rightarrow> send_turn \<Rightarrow> send_loop \<Rightarrow> send_loop \<times> sent_packet list \<times> bool" where
  "client_oneway_turn = client_send_turn oneway_packet oneway_process"

definition client_roundtrip_turn :: "send_params \<Rightarrow> send_turn \<Rightarrow> send_loop \<Rightarrow> send_loop \<times> sent_packet list \<times> bool" where
  "client_roundtrip_turn p = client_send_turn (roundtrip_packet (sp_rx_port p)) roundtrip_process p"

section \<open>Receiving return packets\<close>

text \<open>
  The result of \<open>recvmsg\<close> in the receive thread: nothing usable, with the test of \<open>errno\<close> for another try, or a packet,
  of which the buffer takes four bytes.  The references are those of the two conversions of counter values.
\<close>

datatype rx_result = Rx_none bool | Rx_packet "u8 list" "cmsg list"

record rx_turn =
  rx_result :: rx_result
  rx_tsc :: u64
  rx_app_ts :: timespec
  rx_tsc_refs :: "(timespec \<times> u64) \<times> (timespec \<times> u64)"

text \<open>The send timestamps of a sequence number, as the receive thread looks them up.\<close>

definition lookup_tx_timestamps :: "client_state \<Rightarrow> u32 \<Rightarrow> (timespec \<times> u64) option" where
  "lookup_tx_timestamps cs seq_num =
     (case (cs_app_tx_timestamps cs, cs_app_tx_tsc_values cs) of
        (Some a, Some b) \<Rightarrow> (let index = unat (get_circular_index seq_num) in Some (a ! index, b ! index))
      | _ \<Rightarrow> None)"

definition rx_packet_entry :: "rx_turn \<Rightarrow> u8 list \<Rightarrow> cmsg list \<Rightarrow> client_state \<Rightarrow> csv_entry_t" where
  "rx_packet_entry rx packet_data cmsgs cs =
     (let ((hw, ker), _) = extract_rx_timestamps cmsgs (zero_timespec, zero_timespec);
          seq_num = ntohl_at 0 packet_data;
          conv = tsc_to_timespec (cs_cpu_freq_ghz cs);
          (app_tx, tx_tsc) = (case lookup_tx_timestamps cs seq_num of
                                None \<Rightarrow> (zero_timespec, zero_timespec)
                              | Some (ts, tsc) \<Rightarrow> (ts, conv (fst (rx_tsc_refs rx)) tsc));
          rx_tsc_ts = conv (snd (rx_tsc_refs rx)) (tsc_captured cs (rx_tsc rx))
      in create_csv_client_roundtrip_rx seq_num (cs_src_ip cs) (cs_src_port cs) (timespec_ns tx_tsc) (timespec_ns app_tx)
           (timespec_ns hw) (timespec_ns ker) (timespec_ns rx_tsc_ts) (timespec_ns (rx_app_ts rx)))"

definition client_rx_turn :: "rx_turn \<Rightarrow> client_state \<Rightarrow> client_state" where
  "client_rx_turn rx cs =
     (if \<not> cs_rx_running cs then cs
      else case rx_result rx of
             Rx_none retry \<Rightarrow> (if retry then cs else cs\<lparr>cs_rx_running := False\<rparr>)
           | Rx_packet bytes cmsgs \<Rightarrow>
               (let packet_data = take 4 bytes
                in if length packet_data < 4 then cs
                   else let ((hw, ker), _) = extract_rx_timestamps cmsgs (zero_timespec, zero_timespec);
                            seq_num = ntohl_at 0 packet_data;
                            rx_tsc_ts = tsc_to_timespec (cs_cpu_freq_ghz cs) (snd (rx_tsc_refs rx)) (tsc_captured cs (rx_tsc rx));
                            cs1 = on_stats (\<lambda>cfg. update_stats_buffer_with_rx_timestamps cfg seq_num (timespec_ns hw) (timespec_ns ker)
                                              (timespec_ns (rx_app_ts rx)) (timespec_ns rx_tsc_ts) STATS_CLIENT_ROUNDTRIP) cs;
                            cs2 = (if cs_csv_enabled cs then
                                     cs1\<lparr>cs_csv_buffer := csv_offer (rx_packet_entry rx packet_data cmsgs cs) (cs_csv_buffer cs1)\<rparr>
                                   else cs1)
                        in cs2\<lparr>cs_local_packets_received := cs_local_packets_received cs2 + 1,
                               cs_g_packets_received := cs_g_packets_received cs2 + 1\<rparr>))"

section \<open>Runs\<close>

text \<open>Turns of the send loop, of the timestamp thread and of the receive thread in any order, up to the end of the send loop.\<close>

datatype client_event = Send send_turn | Tx_timestamps "errq_result list" | Receive rx_turn

fun client_run ::
  "(send_turn \<Rightarrow> send_loop \<Rightarrow> send_loop \<times> sent_packet list \<times> bool) \<Rightarrow> client_event list \<Rightarrow> send_loop \<Rightarrow> send_loop \<times> sent_packet list" where
  "client_run turn [] sl = (sl, [])"
| "client_run turn (Send tn # evs) sl =
     (let (sl1, out, go) = turn tn sl
      in if go then (let (sl2, rest) = client_run turn evs sl1 in (sl2, out @ rest)) else (sl1, out))"
| "client_run turn (Tx_timestamps q # evs) sl =
     client_run turn evs (sl\<lparr>sl_client := client_tx_timestamp_turn q (sl_client sl)\<rparr>)"
| "client_run turn (Receive rx # evs) sl =
     client_run turn evs (sl\<lparr>sl_client := client_rx_turn rx (sl_client sl)\<rparr>)"

text \<open>What \<open>sendmmsg\<close> documents: it never reports more packets than it was given.\<close>

definition event_ok :: "send_params \<Rightarrow> client_event \<Rightarrow> bool" where
  "event_ok p ev = (case ev of Send tn \<Rightarrow> tn_sent tn \<le> int (batch_count_of (sp_pps p)) | _ \<Rightarrow> True)"

text \<open>The packet buffers after their allocation: all bytes zero.\<close>

definition start_buffers :: "nat \<Rightarrow> u8 list list" where
  "start_buffers packet_size = replicate BATCH_SIZE (replicate packet_size 0)"

text \<open>The end of a run: the arguments of the statistics report; the second count is the result of the receive thread.\<close>

definition client_oneway_report :: "(nat \<Rightarrow> bool) \<Rightarrow> bool \<Rightarrow> client_state \<Rightarrow> report_item list option option" where
  "client_oneway_report alloc alloc_result cs =
     final_stats_report alloc alloc_result (cs_stats_config cs) (cs_stats cs) (cs_total_packets_sent cs) 0"

definition client_roundtrip_report :: "(nat \<Rightarrow> bool) \<Rightarrow> bool \<Rightarrow> client_state \<Rightarrow> report_item list option option" where
  "client_roundtrip_report alloc alloc_result cs =
     final_stats_report alloc alloc_result (cs_stats_config cs) (cs_stats cs) (cs_total_packets_sent cs) (cs_local_packets_received cs)"

section \<open>What the parts of a turn leave unchanged\<close>

text \<open>The fields that only the send loop's bookkeeping changes, and the configuration.\<close>

definition client_frame :: "client_state \<Rightarrow> string \<times> u16 \<times> bool \<times> stats_config_t \<times> rat \<times> bool \<times> u32 \<times> u64" where
  "client_frame cs = (cs_src_ip cs, cs_src_port cs, cs_csv_enabled cs, cs_stats_config cs, cs_cpu_freq_ghz cs, cs_tsc_reliable cs,
     cs_seq_num cs, cs_total_packets_sent cs)"

definition client_arrays :: "client_state \<Rightarrow> timespec list option \<times> u64 list option" where
  "client_arrays cs = (cs_app_tx_timestamps cs, cs_app_tx_tsc_values cs)"

lemma on_stats_frame [simp]:
  "client_frame (on_stats f cs) = client_frame cs" "client_arrays (on_stats f cs) = client_arrays cs"
  "cs_csv_buffer (on_stats f cs) = cs_csv_buffer cs" "cs_tx_csv_buffer (on_stats f cs) = cs_tx_csv_buffer cs"
  "cs_csv_enabled (on_stats f cs) = cs_csv_enabled cs" "cs_src_ip (on_stats f cs) = cs_src_ip cs"
  "cs_src_port (on_stats f cs) = cs_src_port cs" "cs_stats_config (on_stats f cs) = cs_stats_config cs"
  "cs_stats (on_stats f cs) = f (cs_stats_config cs) (cs_stats cs)" "cs_rx_running (on_stats f cs) = cs_rx_running cs"
  by (simp_all add: on_stats_def client_frame_def client_arrays_def)

lemma csv_buffers_frame [simp]:
  "client_frame (cs\<lparr>cs_csv_buffer := b\<rparr>) = client_frame cs" "client_frame (cs\<lparr>cs_tx_csv_buffer := b\<rparr>) = client_frame cs"
  "client_arrays (cs\<lparr>cs_csv_buffer := b\<rparr>) = client_arrays cs" "client_arrays (cs\<lparr>cs_tx_csv_buffer := b\<rparr>) = client_arrays cs"
  by (simp_all add: client_frame_def client_arrays_def)

lemma oneway_account_frame [simp]:
  "client_frame (oneway_account s ts cs) = client_frame cs" "client_arrays (oneway_account s ts cs) = client_arrays cs"
  "cs_rx_running (oneway_account s ts cs) = cs_rx_running cs"
  by (simp_all add: oneway_account_def Let_def)

lemma roundtrip_account_frame [simp]:
  "client_frame (roundtrip_account r1 r2 s ts tsc cs) = client_frame cs"
  "client_arrays (roundtrip_account r1 r2 s ts tsc cs) = client_arrays cs"
  by (simp_all add: roundtrip_account_def Let_def)

lemma store_frame [simp]:
  "client_frame (store_tx_timestamp s ts cs) = client_frame cs"
  "client_frame (store_tx_timestamps s ts tsc cs) = client_frame cs"
  "cs_csv_buffer (store_tx_timestamp s ts cs) = cs_csv_buffer cs"
  "cs_stats (store_tx_timestamp s ts cs) = cs_stats cs" "cs_rx_running (store_tx_timestamp s ts cs) = cs_rx_running cs"
  by (simp_all add: store_tx_timestamp_def store_tx_timestamps_def client_frame_def Let_def split: option.splits)

lemma count_sent_frame [simp]:
  "client_arrays (count_sent n cs) = client_arrays cs" "cs_csv_buffer (count_sent n cs) = cs_csv_buffer cs"
  "cs_stats (count_sent n cs) = cs_stats cs" "cs_rx_running (count_sent n cs) = cs_rx_running cs"
  "cs_src_ip (count_sent n cs) = cs_src_ip cs" "cs_src_port (count_sent n cs) = cs_src_port cs"
  "cs_csv_enabled (count_sent n cs) = cs_csv_enabled cs" "cs_stats_config (count_sent n cs) = cs_stats_config cs"
  by (simp_all add: count_sent_def client_arrays_def)

lemma oneway_process_frame [simp]: "client_frame (oneway_process tn n cs) = client_frame cs"
  by (simp add: oneway_process_def Let_def fold_unchanged [where g = client_frame])

lemma roundtrip_process_frame [simp]: "client_frame (roundtrip_process tn n cs) = client_frame cs"
  by (simp add: roundtrip_process_def Let_def fold_unchanged [where g = client_frame])

lemma client_tx_timestamp_frame:
  "client_tx_timestamp bytes cmsgs cs = (cs', k) \<Longrightarrow> client_frame cs' = client_frame cs \<and> client_arrays cs' = client_arrays cs \<and>
     cs_csv_buffer cs' = cs_csv_buffer cs \<and> cs_rx_running cs' = cs_rx_running cs"
  by (auto simp: client_tx_timestamp_def Let_def split: prod.splits if_splits option.splits)

lemma client_process_unchanged:
  assumes "process_tx_timestamps_in_main_thread q cs = (cs', m, q')"
  shows "client_frame cs' = client_frame cs" "client_arrays cs' = client_arrays cs" "cs_csv_buffer cs' = cs_csv_buffer cs"
    "cs_rx_running cs' = cs_rx_running cs"
  using process_errq_unchanged [OF _ assms [unfolded process_tx_timestamps_in_main_thread_def], of client_frame]
    process_errq_unchanged [OF _ assms [unfolded process_tx_timestamps_in_main_thread_def], of client_arrays]
    process_errq_unchanged [OF _ assms [unfolded process_tx_timestamps_in_main_thread_def], of cs_csv_buffer]
    process_errq_unchanged [OF _ assms [unfolded process_tx_timestamps_in_main_thread_def], of cs_rx_running]
  by (simp_all add: client_tx_timestamp_frame)

lemma client_tx_timestamp_turn_frame [simp]:
  "client_frame (client_tx_timestamp_turn q cs) = client_frame cs"
  "client_arrays (client_tx_timestamp_turn q cs) = client_arrays cs"
  "cs_csv_buffer (client_tx_timestamp_turn q cs) = cs_csv_buffer cs"
  "cs_rx_running (client_tx_timestamp_turn q cs) = cs_rx_running cs"
proof -
  obtain cs1 m q' where p: "process_tx_timestamps_in_main_thread q cs = (cs1, m, q')" by (metis prod_cases3)
  have g: "client_frame (cs1\<lparr>cs_g_tx_timestamp_processed := x\<rparr>) = client_frame cs1"
    "client_arrays (cs1\<lparr>cs_g_tx_timestamp_processed := x\<rparr>) = client_arrays cs1" for x
    by (simp_all add: client_frame_def client_arrays_def)
  note u = client_process_unchanged [OF p]
  show "client_frame (client_tx_timestamp_turn q cs) = client_frame cs"
    "client_arrays (client_tx_timestamp_turn q cs) = client_arrays cs"
    "cs_csv_buffer (client_tx_timestamp_turn q cs) = cs_csv_buffer cs"
    "cs_rx_running (client_tx_timestamp_turn q cs) = cs_rx_running cs"
    by (simp_all add: client_tx_timestamp_turn_def p g u)
qed

lemma client_rx_turn_frame [simp]:
  "client_frame (client_rx_turn rx cs) = client_frame cs" "client_arrays (client_rx_turn rx cs) = client_arrays cs"
proof -
  have more: "client_frame (cs\<lparr>cs_local_packets_received := x, cs_g_packets_received := y\<rparr>) = client_frame cs"
    "client_arrays (cs\<lparr>cs_local_packets_received := x, cs_g_packets_received := y\<rparr>) = client_arrays cs"
    "client_frame (cs\<lparr>cs_rx_running := r\<rparr>) = client_frame cs" "client_arrays (cs\<lparr>cs_rx_running := r\<rparr>) = client_arrays cs" for cs x y r
    by (simp_all add: client_frame_def client_arrays_def)
  show "client_frame (client_rx_turn rx cs) = client_frame cs" "client_arrays (client_rx_turn rx cs) = client_arrays cs"
    by (simp_all add: client_rx_turn_def Let_def more split: rx_result.splits prod.splits)
qed

lemma client_send_turn_cases:
  assumes "client_send_turn build process p tn sl = (sl', out, go)"
  obtains (idle) "out = []" and "sl_client sl' = sl_client sl"
  | (sent) "out = map (\<lambda>i. (fill_batch build (batch_count_of (sp_pps p)) (cs_seq_num (sl_client sl)) (sl_buffers sl) ! i,
        tn_system_time tn i, tsc_captured (sl_client sl) (tn_tsc tn i))) [0..<nat (tn_sent tn)]"
      and "sl_client sl' = count_sent (nat (tn_sent tn)) (process tn (nat (tn_sent tn)) (sl_client sl))" and go
proof (cases "tn_graceful_shutdown tn \<or> run_time_check (0 < sp_end_time p) (\<lambda>now. sp_end_time p \<le> now)
    (sp_max_cycles_between_checks p) (tn_cycles tn) (tn_now tn) (tn_cycles_after tn) (sl_check sl) = None \<or> tn_sent tn < 0")
  case True
  then show ?thesis using assms by (intro idle) (auto simp: client_send_turn_def Let_def split: if_splits option.splits)
next
  case False
  then show ?thesis using assms by (intro sent) (auto simp: client_send_turn_def Let_def)
qed

section \<open>Sequence numbers on the wire\<close>

definition buffers_ok :: "nat \<Rightarrow> send_loop \<Rightarrow> bool" where
  "buffers_ok sz sl \<longleftrightarrow> length (sl_buffers sl) = BATCH_SIZE \<and> list_all (\<lambda>b. length b = sz) (sl_buffers sl)"

text \<open>
  What the send loop relies on in both modes: the packet builder puts the sequence number in front, keeps
  the size and gives the packet its shape, and the processing of sent packets leaves the loop's own variables and the configuration alone.
\<close>

locale send_mode =
  fixes build :: "u32 \<Rightarrow> u8 list \<Rightarrow> u8 list"
    and process :: "send_turn \<Rightarrow> nat \<Rightarrow> client_state \<Rightarrow> client_state"
    and shape :: "u8 list \<Rightarrow> bool"
  assumes build_length: "8 \<le> length b \<Longrightarrow> length (build s b) = length b"
    and build_seq: "8 \<le> length b \<Longrightarrow> ntohl_at 0 (build s b) = s"
    and build_shape: "8 \<le> length b \<Longrightarrow> shape (build s b)"
    and process_frame: "client_frame (process tn n cs) = client_frame cs"
begin

lemma fill_batch_ok:
  assumes "8 \<le> sz" and "buffers_ok sz sl"
  shows "buffers_ok sz (sl\<lparr>sl_check := c, sl_buffers := fill_batch build n s (sl_buffers sl)\<rparr>)"
    and "i < n \<Longrightarrow> i < BATCH_SIZE \<Longrightarrow> ntohl_at 0 (fill_batch build n s (sl_buffers sl) ! i) = s + of_nat i"
    and "i < BATCH_SIZE \<Longrightarrow> length (fill_batch build n s (sl_buffers sl) ! i) = sz"
    and "i < n \<Longrightarrow> i < BATCH_SIZE \<Longrightarrow> shape (fill_batch build n s (sl_buffers sl) ! i)"
  using assms by (auto simp: buffers_ok_def fill_batch_def list_all_length build_length build_seq build_shape)

lemma send_turn_spec:
  assumes turn: "client_send_turn build process p tn sl = (sl', out, go)" and sz: "8 \<le> sz" and ok: "buffers_ok sz sl"
    and snt: "event_ok p (Send tn)"
  shows "buffers_ok sz sl' \<and> cs_seq_num (sl_client sl') = cs_seq_num (sl_client sl) + of_nat (length out) \<and>
    cs_total_packets_sent (sl_client sl') = cs_total_packets_sent (sl_client sl) + of_nat (length out) \<and>
    map (\<lambda>pk. ntohl_at 0 (fst pk)) out = map (\<lambda>i. cs_seq_num (sl_client sl) + of_nat i) [0..<length out] \<and>
    list_all (\<lambda>pk. length (fst pk) = sz \<and> shape (fst pk)) out"
proof -
  let ?cs = "sl_client sl" and ?n = "nat (tn_sent tn)" and ?b = "batch_count_of (sp_pps p)"
  have n: "?n \<le> ?b" using snt by (auto simp: event_ok_def)
  have b: "?b \<le> BATCH_SIZE" by (simp add: batch_count_of_def BATCH_SIZE_def)
  have fr: "cs_seq_num (process tn k cs) = cs_seq_num cs" "cs_total_packets_sent (process tn k cs) = cs_total_packets_sent cs" for k cs
    using process_frame [of tn k cs] by (simp_all add: client_frame_def)
  have bufs: "buffers_ok sz (sl\<lparr>sl_check := c, sl_buffers := fill_batch build ?b (cs_seq_num ?cs) (sl_buffers sl),
      sl_client := cs'\<rparr>)" for c cs'
    using fill_batch_ok(1) [OF sz ok] by (simp add: buffers_ok_def)
  show ?thesis
    using turn ok bufs fill_batch_ok(2-4) [OF sz ok, where n = ?b and s = "cs_seq_num ?cs"] n b
    by (auto simp: client_send_turn_def Let_def fr count_sent_def list_all_iff buffers_ok_def
        split: if_splits option.splits)
qed

lemma run_sequence:
  assumes "client_run (client_send_turn build process p) evs sl = (sl', out)" and "8 \<le> sz" and "buffers_ok sz sl"
    and "list_all (event_ok p) evs"
  shows "buffers_ok sz sl' \<and> cs_seq_num (sl_client sl') = cs_seq_num (sl_client sl) + of_nat (length out) \<and>
    cs_total_packets_sent (sl_client sl') = cs_total_packets_sent (sl_client sl) + of_nat (length out) \<and>
    map (\<lambda>pk. ntohl_at 0 (fst pk)) out = map (\<lambda>i. cs_seq_num (sl_client sl) + of_nat i) [0..<length out] \<and>
    list_all (\<lambda>pk. length (fst pk) = sz \<and> shape (fst pk)) out"
  using assms(1,3,4)
proof (induction evs arbitrary: sl sl' out)
  case (Cons ev evs)
  show ?case
  proof (cases ev)
    case (Send tn)
    obtain sl1 out1 go where t: "client_send_turn build process p tn sl = (sl1, out1, go)" by (metis prod_cases3)
    have 1: "buffers_ok sz sl1" "cs_seq_num (sl_client sl1) = cs_seq_num (sl_client sl) + of_nat (length out1)"
      "cs_total_packets_sent (sl_client sl1) = cs_total_packets_sent (sl_client sl) + of_nat (length out1)"
      "map (\<lambda>pk. ntohl_at 0 (fst pk)) out1 = map (\<lambda>i. cs_seq_num (sl_client sl) + of_nat i) [0..<length out1]"
      "list_all (\<lambda>pk. length (fst pk) = sz \<and> shape (fst pk)) out1"
      using send_turn_spec [OF t assms(2) Cons.prems(2)] Cons.prems(3) Send by simp_all
    show ?thesis
    proof (cases go)
      case False
      with Cons.prems(1) Send t 1 show ?thesis by simp
    next
      case True
      then obtain rest where r: "client_run (client_send_turn build process p) evs sl1 = (sl', rest)" "out = out1 @ rest"
        using Cons.prems(1) Send t by (auto split: prod.splits)
      have 2: "map (\<lambda>i. cs_seq_num (sl_client sl) + of_nat i) [length out1..<length out1 + length rest] =
          map (\<lambda>i. cs_seq_num (sl_client sl1) + of_nat i) [0..<length rest]"
        unfolding 1(2) by (rule nth_equalityI) (simp_all add: add.assoc)
      from Cons.IH [OF r(1) 1(1)] Cons.prems(3) 1 2 r(2) show ?thesis
        by (simp add: upt_add_eq_append [of 0, simplified] add.assoc)
    qed
  next
    case (Tx_timestamps q)
    have fr: "client_frame (client_tx_timestamp_turn q (sl_client sl)) = client_frame (sl_client sl)" by simp
    with Cons.IH [of "sl\<lparr>sl_client := client_tx_timestamp_turn q (sl_client sl)\<rparr>" sl' out] Cons.prems Tx_timestamps show ?thesis
      by (simp add: buffers_ok_def client_frame_def)
  next
    case (Receive rx)
    have fr: "client_frame (client_rx_turn rx (sl_client sl)) = client_frame (sl_client sl)" by simp
    with Cons.IH [of "sl\<lparr>sl_client := client_rx_turn rx (sl_client sl)\<rparr>" sl' out] Cons.prems Receive show ?thesis
      by (simp add: buffers_ok_def client_frame_def)
  qed
qed simp

end

interpretation oneway: send_mode oneway_packet oneway_process "\<lambda>_. True"
  by unfold_locales (simp_all add: oneway_packet_def ntohl_put_bytes)

interpretation roundtrip: send_mode "roundtrip_packet rx_port" roundtrip_process "\<lambda>b. ntohl_at 4 b = of_int rx_port" for rx_port
  by unfold_locales (simp_all add: roundtrip_packet_def ntohl_put_bytes ntohl_put_later)

section \<open>Correlation of return packets\<close>









lemma start_buffers_ok: "sl_buffers sl = start_buffers sz \<Longrightarrow> buffers_ok sz sl"
  by (simp add: buffers_ok_def start_buffers_def list_all_length)

section \<open>The log of a one-way run\<close>

definition oneway_log_entry :: "string \<Rightarrow> u16 \<Rightarrow> sent_packet \<Rightarrow> csv_entry_t" where
  "oneway_log_entry ip port pk = create_csv_client_oneway_main (ntohl_at 0 (fst pk)) ip port (timespec_ns (fst (snd pk)))"

lemma oneway_account_log:
  "cs_csv_enabled cs \<Longrightarrow> cs_csv_buffer (oneway_account s ts cs) =
     csv_offer (create_csv_client_oneway_main s (cs_src_ip cs) (cs_src_port cs) (timespec_ns ts)) (cs_csv_buffer cs)"
  by (simp add: oneway_account_def Let_def)

lemma client_frame_fields:
  assumes "client_frame cs' = client_frame cs"
  shows "cs_src_ip cs' = cs_src_ip cs" "cs_src_port cs' = cs_src_port cs" "cs_csv_enabled cs' = cs_csv_enabled cs"
    "cs_stats_config cs' = cs_stats_config cs" "cs_seq_num cs' = cs_seq_num cs" "cs_tsc_reliable cs' = cs_tsc_reliable cs"
    "cs_cpu_freq_ghz cs' = cs_cpu_freq_ghz cs"
  using assms by (simp_all add: client_frame_def)

lemma fold_oneway_account_frame: "client_frame (fold (\<lambda>i. oneway_account (s i) (f i)) is cs) = client_frame cs"
  by (rule fold_unchanged) simp

lemma oneway_accounts_log:
  assumes "cs_csv_enabled cs" and "ring_holds r xs (cs_csv_buffer cs)"
  shows "ring_holds r (xs @ map (\<lambda>i. create_csv_client_oneway_main (s i) (cs_src_ip cs) (cs_src_port cs) (timespec_ns (f i))) [0..<n])
    (cs_csv_buffer (fold (\<lambda>i. oneway_account (s i) (f i)) [0..<n] cs))"
proof (induction n)
  case (Suc n)
  note fr = client_frame_fields [OF fold_oneway_account_frame [of s f "[0..<n]" cs]]
  from ring_holds_offer [OF Suc] show ?case using assms(1) by (simp add: oneway_account_log fr)
qed (simp add: assms(2))

lemma oneway_turn_log:
  assumes turn: "client_oneway_turn p tn sl = (sl', out, go)" and sz: "8 \<le> sz" and ok: "buffers_ok sz sl"
    and snt: "event_ok p (Send tn)" and en: "cs_csv_enabled (sl_client sl)" and h: "ring_holds r xs (cs_csv_buffer (sl_client sl))"
  shows "ring_holds r (xs @ map (oneway_log_entry (cs_src_ip (sl_client sl)) (cs_src_port (sl_client sl))) out)
    (cs_csv_buffer (sl_client sl')) \<and> cs_rx_running (sl_client sl') = cs_rx_running (sl_client sl) \<and>
    cs_src_ip (sl_client sl') = cs_src_ip (sl_client sl) \<and> cs_src_port (sl_client sl') = cs_src_port (sl_client sl) \<and>
    cs_csv_enabled (sl_client sl') \<and> cs_stats_config (sl_client sl') = cs_stats_config (sl_client sl)"
proof -
  let ?cs = "sl_client sl" and ?n = "nat (tn_sent tn)" and ?b = "batch_count_of (sp_pps p)"
  let ?bufs = "fill_batch oneway_packet ?b (cs_seq_num ?cs) (sl_buffers sl)"
  have n: "?n \<le> ?b" "?b \<le> BATCH_SIZE" using snt by (auto simp: event_ok_def batch_count_of_def BATCH_SIZE_def)
  have entries: "map (oneway_log_entry (cs_src_ip ?cs) (cs_src_port ?cs)) (map (\<lambda>i. (?bufs ! i, tn_system_time tn i, x i)) [0..<?n]) =
      map (\<lambda>i. create_csv_client_oneway_main (cs_seq_num ?cs + of_nat i) (cs_src_ip ?cs) (cs_src_port ?cs)
        (timespec_ns (tn_system_time tn i))) [0..<?n]" for x
    using oneway.fill_batch_ok(2) [OF sz ok] n by (simp add: oneway_log_entry_def)
  have ring: "cs_csv_buffer (oneway_process tn ?n ?cs) = cs_csv_buffer (fold (\<lambda>i. oneway_account (cs_seq_num ?cs + of_nat i)
      (tn_system_time tn i)) [0..<?n] ?cs)" "cs_rx_running (oneway_process tn ?n ?cs) = cs_rx_running ?cs"
    by (simp_all add: oneway_process_def Let_def fold_unchanged [where g = cs_csv_buffer] fold_unchanged [where g = cs_rx_running])
  from turn [unfolded client_oneway_turn_def] show ?thesis
  proof (cases rule: client_send_turn_cases)
    case idle
    then show ?thesis using h en by simp
  next
    case sent
    then show ?thesis
      using oneway_accounts_log [OF en h, of "\<lambda>i. cs_seq_num ?cs + of_nat i" "tn_system_time tn" ?n] ring en
        client_frame_fields [OF oneway_process_frame [of tn ?n ?cs]] by (simp only: entries count_sent_frame)
  qed
qed

lemma oneway_run_log:
  assumes "client_run (client_oneway_turn p) evs sl = (sl', out)" and "8 \<le> sz" and "buffers_ok sz sl"
    and "list_all (event_ok p) evs" and "cs_csv_enabled (sl_client sl)" and "\<not> cs_rx_running (sl_client sl)"
    and "ring_holds r xs (cs_csv_buffer (sl_client sl))"
  shows "ring_holds r (xs @ map (oneway_log_entry (cs_src_ip (sl_client sl)) (cs_src_port (sl_client sl))) out)
    (cs_csv_buffer (sl_client sl'))"
  using assms(1,3-)
proof (induction evs arbitrary: sl sl' out xs)
  case (Cons ev evs)
  show ?case
  proof (cases ev)
    case (Send tn)
    obtain sl1 out1 go where t: "client_oneway_turn p tn sl = (sl1, out1, go)" by (metis prod_cases3)
    have ok: "event_ok p (Send tn)" using Cons.prems(3) Send by simp
    note 1 = oneway_turn_log [OF t assms(2) Cons.prems(2) ok Cons.prems(4,6)]
    have 2: "buffers_ok sz sl1"
      using oneway.send_turn_spec [OF t [unfolded client_oneway_turn_def] assms(2) Cons.prems(2) ok] by blast
    show ?thesis
    proof (cases go)
      case False
      with Cons.prems(1) Send t 1 show ?thesis by simp
    next
      case True
      then obtain rest where r: "client_run (client_oneway_turn p) evs sl1 = (sl', rest)" "out = out1 @ rest"
        using Cons.prems(1) Send t by (auto split: prod.splits)
      from Cons.IH [OF r(1) 2, of "xs @ map (oneway_log_entry (cs_src_ip (sl_client sl)) (cs_src_port (sl_client sl))) out1"]
        Cons.prems 1 r(2) show ?thesis by simp
    qed
  next
    case (Tx_timestamps q)
    let ?cs = "client_tx_timestamp_turn q (sl_client sl)"
    have "client_frame ?cs = client_frame (sl_client sl)" by simp
    with Cons.IH [of "sl\<lparr>sl_client := ?cs\<rparr>" sl' out xs] Cons.prems Tx_timestamps show ?thesis
      by (simp add: buffers_ok_def client_frame_def)
  next
    case (Receive rx)
    have "client_rx_turn rx (sl_client sl) = sl_client sl" using Cons.prems(5) by (simp add: client_rx_turn_def)
    with Cons.IH [of sl sl' out xs] Cons.prems Receive show ?thesis by simp
  qed
qed simp

section \<open>The TX log\<close>






lemma errq_loop_unlogged:
  assumes "cs_tx_csv_buffer cs = None" and "list_all is_message q" and "errq_loop client_tx_timestamp n q cs = (cs', m, q')"
  shows "m = 0 \<and> q' = drop n q"
  using assms
proof (induction q arbitrary: n cs cs' m q')
  case Nil
  then show ?case by (cases n) auto
next
  case (Cons x q)
  then obtain bytes cmsgs where x: "x = EQ_msg bytes cmsgs" by (auto simp: is_message_def split: errq_result.splits)
  obtain cs1 k where t: "client_tx_timestamp bytes cmsgs cs = (cs1, k)" by fastforce
  then have "k = 0" "cs_tx_csv_buffer cs1 = None"
    using Cons.prems(1) by (auto simp: client_tx_timestamp_def Let_def split: prod.splits option.splits)
  with Cons t x show ?case by (cases n) (auto split: prod.splits)
qed

section \<open>Properties\<close>

text \<open>
  C11. Whatever batches \<open>sendmmsg\<close> accepts, refuses or cuts short, and however the three threads take turns, the packets that a
  client hands to the kernel carry the sequence numbers 0, 1, 2, ... without gap or repetition (modulo \<open>2^32\<close>), all of the
  configured size, and the counters of the client agree with the number of packets.
\<close>

theorem client_sequence_numbers:
  assumes "8 \<le> sz" and "sl_buffers sl = start_buffers sz" and "cs_seq_num (sl_client sl) = 0"
    and "cs_total_packets_sent (sl_client sl) = 0" and "list_all (event_ok p) evs"
    and "turn = client_oneway_turn p \<or> turn = client_roundtrip_turn p" and "client_run turn evs sl = (sl', out)"
  shows "map (\<lambda>pk. ntohl_at 0 (fst pk)) out = map of_nat [0..<length out] \<and> list_all (\<lambda>pk. length (fst pk) = sz) out \<and>
    cs_seq_num (sl_client sl') = of_nat (length out) \<and> cs_total_packets_sent (sl_client sl') = of_nat (length out)"
proof -
  have ok: "buffers_ok sz sl" using assms(2) by (rule start_buffers_ok)
  from assms(6) show ?thesis
  proof
    assume "turn = client_oneway_turn p"
    with assms(7) have "client_run (client_send_turn oneway_packet oneway_process p) evs sl = (sl', out)" by (simp add: client_oneway_turn_def)
    from oneway.run_sequence [OF this assms(1) ok assms(5)] assms(3,4) show ?thesis by simp
  next
    assume "turn = client_roundtrip_turn p"
    with assms(7) have "client_run (client_send_turn (roundtrip_packet (sp_rx_port p)) roundtrip_process p) evs sl = (sl', out)"
      by (simp add: client_roundtrip_turn_def)
    from roundtrip.run_sequence [OF this assms(1) ok assms(5)] assms(3,4) show ?thesis by (simp add: list_all_iff)
  qed
qed


text \<open>
  The log of a one-way run: the ring of the main log holds one entry per packet handed to the kernel, in
  order, with the packet's sequence number and the time taken for it, as far as the ring has room; no
  packet is logged twice and none that was not sent.
\<close>

theorem oneway_log_complete:
  assumes "8 \<le> sz" and "sl_buffers sl = start_buffers sz" and "list_all (event_ok p) evs" and "cs_csv_enabled (sl_client sl)"
    and "\<not> cs_rx_running (sl_client sl)" and "cs_csv_buffer (sl_client sl) = Some b" and "csv_ring_wf b" and "csv_contents b = []"
    and "client_run (client_oneway_turn p) evs sl = (sl', out)"
  shows "\<exists>b'. cs_csv_buffer (sl_client sl') = Some b' \<and> csv_ring_wf b' \<and>
    csv_contents b' = take (csv_room b) (map (oneway_log_entry (cs_src_ip (sl_client sl)) (cs_src_port (sl_client sl))) out)"
proof -
  have ok: "buffers_ok sz sl" using assms(2) by (rule start_buffers_ok)
  have "ring_holds (csv_room b) [] (cs_csv_buffer (sl_client sl))" using assms(6-8) by (simp add: ring_holds_def)
  from oneway_run_log [OF assms(9,1) ok assms(3-5) this] show ?thesis by (auto simp: ring_holds_def)
qed


text \<open>
  With statistics only, a call never counts a timestamp as processed, so that the drain loop stops after one batch
  of 256 messages and leaves the rest of the error queue unread.
\<close>

lemma client_drain_stats_only_stops:
  assumes "cs_tx_csv_buffer cs = None" and "sc_enabled (cs_stats_config cs)" and "list_all is_message q"
  shows "snd (client_drain q cs) = drop 256 q"
proof -
  obtain cs' m q' where l: "errq_loop client_tx_timestamp TX_TIMESTAMP_BATCH_SIZE q cs = (cs', m, q')" by (metis prod_cases3)
  from errq_loop_unlogged [OF assms(1,3) l] have "m = 0" "q' = drop 256 q" by (simp_all add: TX_TIMESTAMP_BATCH_SIZE_def)
  with l assms(1,2) show ?thesis
    by (simp add: client_drain_def drain_errq.simps [of client_tx_timestamp] process_errq_def client_tx_active_def)
qed

section \<open>Witnesses\<close>

definition sample_client_state :: client_state where
  "sample_client_state =
     \<lparr>cs_src_ip = ''10.0.0.1'', cs_src_port = 5000, cs_csv_enabled = True,
      cs_stats_config = \<lparr>sc_enabled = False, sc_buffer_size = 10000, sc_bin_width_us = 10, sc_max_bins = 1000\<rparr>, cs_stats = None,
      cs_tx_csv_buffer = Some sample_ring, cs_csv_buffer = Some sample_ring, cs_app_tx_timestamps = None,
      cs_app_tx_tsc_values = None, cs_cpu_freq_ghz = 3, cs_tsc_reliable = True, cs_seq_num = 0, cs_total_packets_sent = 0,
      cs_g_packets_sent = 0, cs_g_packets_received = 0, cs_g_tx_timestamp_processed = 0, cs_rx_running = False,
      cs_local_packets_received = 0\<rparr>"

definition sample_loop :: "client_state \<Rightarrow> send_loop" where
  "sample_loop cs = \<lparr>sl_client = cs, sl_check = (0, 0), sl_buffers = start_buffers 12\<rparr>"

definition sample_turn :: "int \<Rightarrow> send_turn" where
  "sample_turn sent =
     \<lparr>tn_graceful_shutdown = False, tn_cycles = 0, tn_now = 5, tn_cycles_after = 0,
      tn_system_time = (\<lambda>i. \<lparr>tv_sec = 10, tv_nsec = of_nat i\<rparr>), tn_tsc = (\<lambda>i. 700 + of_nat i),
      tn_tsc_refs = (\<lambda>i. (zero_timespec, 0)), tn_sent = sent, tn_would_block = True\<rparr>"

definition sample_params :: send_params where
  "sample_params = \<lparr>sp_pps = 1000, sp_rx_port = 9000, sp_end_time = 0, sp_max_cycles_between_checks = 1000\<rparr>"

definition sample_events :: "client_event list" where
  "sample_events = [Send (sample_turn 2), Send (sample_turn (- 1)), Tx_timestamps [EQ_again], Send (sample_turn 1)]"

lemma sample_events_ok: "list_all (event_ok sample_params) sample_events"
  by (simp add: sample_events_def event_ok_def sample_turn_def sample_params_def batch_count_of_def BATCH_SIZE_def)

lemma sample_outputs: "length (snd (client_run (client_oneway_turn sample_params) sample_events (sample_loop sample_client_state))) = 3"
  by (simp add: sample_events_def sample_turn_def sample_params_def sample_loop_def client_oneway_turn_def client_send_turn_def
      run_time_check_def Let_def)

theorem client_sequence_numbers_witness:
  "map (\<lambda>pk. ntohl_at 0 (fst pk)) (snd (client_run (client_oneway_turn sample_params) sample_events (sample_loop sample_client_state))) =
     [0, 1, 2]"
proof -
  obtain sl' out where r: "client_run (client_oneway_turn sample_params) sample_events (sample_loop sample_client_state) = (sl', out)"
    by fastforce
  have "length out = 3" using sample_outputs r by simp
  with client_sequence_numbers [of 12, OF _ _ _ _ sample_events_ok _ r] r show ?thesis
    by (simp add: sample_loop_def sample_client_state_def upt_rec numeral_2_eq_2)
qed

theorem oneway_log_complete_witness:
  "\<exists>b'. cs_csv_buffer (sl_client (fst (client_run (client_oneway_turn sample_params) sample_events (sample_loop sample_client_state)))) =
     Some b' \<and> length (csv_contents b') = 3"
proof -
  obtain sl' out where r: "client_run (client_oneway_turn sample_params) sample_events (sample_loop sample_client_state) = (sl', out)"
    by fastforce
  have len: "length out = 3" using sample_outputs r by simp
  have "\<exists>b'. cs_csv_buffer (sl_client sl') = Some b' \<and> csv_ring_wf b' \<and>
      csv_contents b' = take (csv_room sample_ring) (map (oneway_log_entry ''10.0.0.1'' 5000) out)"
    using oneway_log_complete [of 12, OF _ _ sample_events_ok _ _ _ sample_ring_wf sample_ring_empty(1) r]
    by (simp add: sample_loop_def sample_client_state_def)
  then show ?thesis using len r by (auto simp: sample_ring_empty)
qed





lemma client_drain_stats_only_stops_witness:
  "length (snd (client_drain (replicate 300 (EQ_msg [0, 0, 0, 7] []))
     (sample_client_state\<lparr>cs_tx_csv_buffer := None,
        cs_stats_config := \<lparr>sc_enabled = True, sc_buffer_size = 10000, sc_bin_width_us = 10, sc_max_bins = 1000\<rparr>\<rparr>))) = 44"
  using client_drain_stats_only_stops [of "sample_client_state\<lparr>cs_tx_csv_buffer := None,
      cs_stats_config := \<lparr>sc_enabled = True, sc_buffer_size = 10000, sc_bin_width_us = 10, sc_max_bins = 1000\<rparr>\<rparr>"
      "replicate 300 (EQ_msg [0, 0, 0, 7] [])"]
  by (simp add: is_message_def list_all_length)

end
