(* ===== verification/Pacing.thy ===== *)
theory Pacing
  imports Client
begin

text \<open>
  The pacing of the send loops of \<open>timestamp_client.c\<close>: the delay behind each batch, measured with the cycle counter (\<open>timestamp_common.h\<close>), and the bound it puts on the
  packet rate.  The readings of the counter are arguments.
\<close>

section \<open>Counter and delays\<close>

text \<open>\<open>rdtsc\<close> and \<open>rdtscp\<close>: the two halves that the instruction leaves in its registers.\<close>

definition rdtsc :: "u32 \<Rightarrow> u32 \<Rightarrow> u64" where
  "rdtsc low high = push_bit 32 (ucast high) OR ucast low"

text \<open>\<open>check_tsc_invariant\<close>: bit 8 of the register \<open>edx\<close> that \<open>cpuid\<close> fills.\<close>

definition check_tsc_invariant :: "u32 \<Rightarrow> bool" where
  "check_tsc_invariant edx \<longleftrightarrow> edx AND push_bit 8 1 \<noteq> 0"

definition validate_tsc_for_operation :: "u32 \<Rightarrow> bool" where
  "validate_tsc_for_operation edx = check_tsc_invariant edx"

text \<open>The busy wait: it ends with the first reading that is far enough from the start; the list is what \<open>rdtsc\<close> returns in its turns.\<close>

fun delay_loop :: "u64 \<Rightarrow> u64 \<Rightarrow> u64 list \<Rightarrow> u64 option" where
  "delay_loop start cycles [] = None"
| "delay_loop start cycles (now # later) = (if now - start < cycles then delay_loop start cycles later else Some now)"

definition precise_delay_cycles :: "u64 \<Rightarrow> u64 \<Rightarrow> u64 list \<Rightarrow> u64 option" where
  "precise_delay_cycles cycles start readings = delay_loop start cycles readings"

text \<open>Timing control of the loops: \<open>(uint64_t)(cpu_freq_ghz * 1e9 / pps)\<close> and the delay of a batch.\<close>

definition interval_cycles :: "rat \<Rightarrow> int \<Rightarrow> u64" where
  "interval_cycles cpu_freq_ghz pps = of_int \<lfloor>fl64 (fl64 (cpu_freq_ghz * 10 ^ 9) / of_int pps)\<rfloor>"

definition target_delay_cycles :: "u64 \<Rightarrow> nat \<Rightarrow> u64" where
  "target_delay_cycles interval batch_count = (if 1 < batch_count then interval * of_nat batch_count else interval)"

text \<open>
  A send loop with its delays: every turn comes with the reading at the start of its delay and those of the busy wait.  A turn that would block goes on without a delay.
  The result is \<open>None\<close> while a delay has not ended; otherwise state, packets and the counter at the end of the last delay.
\<close>

fun paced_run ::
  "(send_turn \<Rightarrow> send_loop \<Rightarrow> send_loop \<times> sent_packet list \<times> bool) \<Rightarrow> u64 \<Rightarrow> (send_turn \<times> u64 \<times> u64 list) list \<Rightarrow> send_loop \<Rightarrow> u64 \<Rightarrow>
     (send_loop \<times> sent_packet list \<times> u64) option" where
  "paced_run turn delay [] sl t = Some (sl, [], t)"
| "paced_run turn delay ((tn, start, readings) # es) sl t =
     (case turn tn sl of (sl1, out, go) \<Rightarrow>
        if \<not> go then Some (sl1, out, t)
        else if tn_sent tn < 0 then paced_run turn delay es sl1 t
        else case precise_delay_cycles delay start readings of
               None \<Rightarrow> None
             | Some t' \<Rightarrow> map_option (\<lambda>(sl2, out', t''). (sl2, out @ out', t'')) (paced_run turn delay es sl1 t'))"

section \<open>The rate\<close>

definition counter_readings :: "(send_turn \<times> u64 \<times> u64 list) list \<Rightarrow> u64 list" where
  "counter_readings es = concat (map (\<lambda>e. fst (snd e) # snd (snd e)) es)"

lemma delay_loop_Some: "delay_loop start cycles rs = Some r \<Longrightarrow> r \<in> set rs \<and> cycles \<le> r - start"
  by (induction rs) (auto split: if_splits)

lemma delay_loop_ends:
  assumes "r \<in> set rs" "cycles \<le> r - start"
  shows "\<exists>r'. delay_loop start cycles rs = Some r'"
  using assms by (induction rs) auto

lemma unat_diff_le: "unat a \<le> unat b \<Longrightarrow> unat (b - a) = unat b - unat a" for a b :: u64
  by (simp add: unat_sub_if')

text \<open>The packets of a turn are at most as many as the batch has, and none unless the loop reaches its delay.\<close>

lemma client_send_turn_length:
  assumes "client_send_turn build process p tn sl = (sl1, out, go)"
  shows "length out \<le> nat (tn_sent tn)" "\<not> go \<Longrightarrow> out = []" "tn_sent tn < 0 \<Longrightarrow> out = []"
  using assms by (auto simp: client_send_turn_def Let_def split: if_splits option.splits)

lemma paced_rate:
  assumes "\<And>tn sl sl1 out go. turn tn sl = (sl1, out, go) \<Longrightarrow>
      length out \<le> nat (tn_sent tn) \<and> (\<not> go \<longrightarrow> out = []) \<and> (tn_sent tn < 0 \<longrightarrow> out = [])"
    and "unat delay = n * d"
  shows "paced_run turn delay es sl t = Some (sl', out, t') \<Longrightarrow> sorted (map unat (t # counter_readings es)) \<Longrightarrow>
    list_all (\<lambda>e. tn_sent (fst e) \<le> int n) es \<Longrightarrow> unat t + length out * d \<le> unat t'"
proof (induction es arbitrary: sl t out)
  case (Cons e es)
  obtain tn start rs where e: "e = (tn, start, rs)" by (cases e) auto
  obtain sl1 out1 go where turn: "turn tn sl = (sl1, out1, go)" by (cases "turn tn sl") auto
  note l = assms(1) [OF turn]
  have s: "sorted (map unat (t # start # rs @ counter_readings es))" using Cons.prems(2) by (simp add: e counter_readings_def)
  have later: "sorted (map unat (t # counter_readings es))" using s by (auto simp: sorted_append)
  show ?case
  proof (cases "go \<and> 0 \<le> tn_sent tn")
    case False
    show ?thesis
    proof (cases go)
      case True
      then have "paced_run turn delay es sl1 t = Some (sl', out, t')" "out1 = []"
        using Cons.prems(1) turn False l by (auto simp: e)
      then show ?thesis using Cons.IH later Cons.prems(3) by auto
    qed (use Cons.prems(1) turn l in \<open>auto simp: e\<close>)
  next
    case True
    obtain r out2 where r: "precise_delay_cycles delay start rs = Some r" "paced_run turn delay es sl1 r = Some (sl', out2, t')" "out = out1 @ out2"
      using Cons.prems(1) turn True by (auto simp: e split: option.splits)
    then have "r \<in> set rs" "delay \<le> r - start" using delay_loop_Some by (auto simp: precise_delay_cycles_def)
    moreover from this have r': "unat t \<le> unat start" "unat start \<le> unat r" "sorted (map unat (r # counter_readings es))"
      using s by (auto simp: sorted_append)
    ultimately have "unat t + n * d \<le> unat r"
      using unat_diff_le [of start r] assms(2) by (simp add: word_le_nat_alt)
    moreover have "length out1 * d \<le> n * d" using l Cons.prems(3) by (intro mult_le_mono1) (auto simp: e)
    moreover have "unat r + length out2 * d \<le> unat t'" using Cons.IH [OF r(2) r'(3)] Cons.prems(3) by simp
    moreover have "length out * d = length out1 * d + length out2 * d" by (simp add: r(3) add_mult_distrib)
    ultimately show ?thesis by linarith
  qed
qed simp

text \<open>The loop gets on as soon as every delay sees the counter far enough from its start.\<close>

lemma paced_run_ends:
  assumes "\<And>tn start rs. (tn, start, rs) \<in> set es \<Longrightarrow> \<exists>r\<in>set rs. delay \<le> r - start"
  shows "\<exists>sl' out t'. paced_run turn delay es sl t = Some (sl', out, t')"
  using assms
proof (induction es arbitrary: sl t)
  case (Cons e es)
  obtain tn start rs where e: "e = (tn, start, rs)" by (cases e) auto
  obtain r where "precise_delay_cycles delay start rs = Some r"
    using Cons.prems [of tn start rs] delay_loop_ends [of _ rs delay start] by (auto simp: e precise_delay_cycles_def)
  moreover have "\<exists>sl' out t'. paced_run turn delay es sl t = Some (sl', out, t')" for sl t
    using Cons.IH Cons.prems by (metis list.set_intros(2))
  ultimately show ?case by (fastforce simp: e split: prod.splits)
qed simp

lemma unat_target_delay:
  assumes "unat ic * BATCH_SIZE < 2 ^ 64"
  shows "unat (target_delay_cycles ic (batch_count_of pps)) = batch_count_of pps * unat ic"
proof -
  have "unat (ic * of_nat BATCH_SIZE) = unat ic * BATCH_SIZE"
    using assms by (simp add: unat_word_ariths BATCH_SIZE_def)
  then show ?thesis by (simp add: target_delay_cycles_def batch_count_of_def BATCH_SIZE_def)
qed

text \<open>
  The rate is limited: while the cycle counter does not go back, a send loop that has handed over \<open>n\<close> packets has used at least \<open>n\<close> times the cycles of a packet's
  interval, whatever part of its batches \<open>sendmmsg\<close> accepts; and it is never stuck once each delay has seen the counter pass its target.
\<close>

theorem rate_limited:
  assumes "turn = client_oneway_turn p \<or> turn = client_roundtrip_turn p" and "unat ic * BATCH_SIZE < 2 ^ 64"
    and "delay = target_delay_cycles ic (batch_count_of (sp_pps p))"
    and "sorted (map unat (t # counter_readings es))" and "list_all (\<lambda>e. tn_sent (fst e) \<le> int (batch_count_of (sp_pps p))) es"
    and "\<And>tn start rs. (tn, start, rs) \<in> set es \<Longrightarrow> \<exists>r\<in>set rs. delay \<le> r - start"
  shows "\<exists>sl' out t'. paced_run turn delay es sl t = Some (sl', out, t') \<and> unat t + length out * unat ic \<le> unat t'"
proof -
  obtain sl' out t' where run: "paced_run turn delay es sl t = Some (sl', out, t')" using paced_run_ends assms(6) by blast
  have "length out \<le> nat (tn_sent tn) \<and> (\<not> go \<longrightarrow> out = []) \<and> (tn_sent tn < 0 \<longrightarrow> out = [])"
    if t: "turn tn sl = (sl1, out, go)" for tn sl sl1 out go
  proof -
    obtain build process where "client_send_turn build process p tn sl = (sl1, out, go)"
      using assms(1) t unfolding client_oneway_turn_def client_roundtrip_turn_def by blast
    from client_send_turn_length [OF this] show ?thesis by simp
  qed
  then show ?thesis
    using paced_rate [OF _ _ run assms(4,5), of "unat ic"] unat_target_delay [OF assms(2)] assms(3) run by auto
qed

section \<open>Readings and an example\<close>

lemma rdtsc_value: "unat (rdtsc low high) = unat high * 2 ^ 32 + unat low"
proof -
  have "rdtsc low high = push_bit 32 (ucast high) + ucast low"
    unfolding rdtsc_def by (rule disjunctive_add_eq_or [symmetric], rule bit_eqI) (auto simp: bit_simps dest: bit_imp_le_length)
  also have "unat \<dots> = unat high * 2 ^ 32 + unat low"
    using unsigned_less [of high, where ?'a = nat] unsigned_less [of low, where ?'a = nat]
    by (simp add: unat_word_ariths push_bit_eq_mult unsigned_ucast_eq take_bit_eq_mod)
  finally show ?thesis .
qed

lemma validate_tsc_bit: "validate_tsc_for_operation edx \<longleftrightarrow> bit edx 8"
  by (simp add: validate_tsc_for_operation_def check_tsc_invariant_def bit_iff_and_push_bit_not_eq_0)

lemma sample_interval: "interval_cycles 3 1000 = 3000000"
  by code_simp

theorem rate_limited_witness:
  "\<exists>sl' out t'. paced_run (client_oneway_turn sample_params) (target_delay_cycles (interval_cycles 3 1000) (batch_count_of 1000))
      [(sample_turn 2, 100, [5000000, 384000100])] (sample_loop sample_client_state) 50 = Some (sl', out, t') \<and>
      50 + length out * 3000000 \<le> unat t'"
proof -
  have "target_delay_cycles 3000000 (batch_count_of 1000) = 384000000"
    by (simp add: target_delay_cycles_def batch_count_of_def BATCH_SIZE_def)
  then show ?thesis
    using rate_limited [of "client_oneway_turn sample_params" sample_params 3000000 384000000 50
        "[(sample_turn 2, 100, [5000000, 384000100])]" "sample_loop sample_client_state"]
    by (simp add: sample_interval sample_params_def sample_turn_def counter_readings_def BATCH_SIZE_def batch_count_of_def)
qed

end
