(* ===== verification/Inet_Addr.thy ===== *)
theory Inet_Addr
  imports C_Lib
begin

text \<open>
  IPv4 addresses as the programs read and print them: \<open>inet_ntop\<close> (and \<open>inet_ntoa\<close>, which prints the same text) and the parser
  \<open>inet_aton\<close> of glibc, which takes one to four parts in decimal, octal or hexadecimal notation and ignores what follows a white space.
  An address is the number whose most significant byte is the first byte in network order.  The lemmas show that a printed
  address is read back.
\<close>

section \<open>Printing\<close>

text \<open>\<open>inet_ntop\<close> for an IPv4 address, given with its first byte in the most significant position.\<close>

definition addr_byte :: "nat \<Rightarrow> u32 \<Rightarrow> nat" where
  "addr_byte k a = unat (ucast (drop_bit k a) :: u8)"

definition inet_ntop :: "u32 \<Rightarrow> string" where
  "inet_ntop a = show_dec (addr_byte 24 a) @ ''.'' @ show_dec (addr_byte 16 a) @ ''.'' @
     show_dec (addr_byte 8 a) @ ''.'' @ show_dec (addr_byte 0 a)"

lemma length_inet_ntop: "length (inet_ntop a) \<le> 15"
proof -
  have "length (show_dec (addr_byte k a)) \<le> 3" for k
    by (rule length_show_dec) (use u8_bound [of "ucast (drop_bit k a)"] in \<open>simp_all add: addr_byte_def\<close>)
  from this [of 24] this [of 16] this [of 8] this [of 0] show ?thesis by (simp add: inet_ntop_def)
qed

section \<open>Numbers in C notation\<close>

definition hex_val :: "char \<Rightarrow> nat" where
  "hex_val c = (let k = char_code c in if 48 \<le> k \<and> k \<le> 57 then k - 48
     else if 97 \<le> k \<and> k \<le> 102 then k - 87 else if 65 \<le> k \<and> k \<le> 70 then k - 55 else 36)"

text \<open>The digits of a base, as far as they go; 36 stands for a character that is no digit of any base.\<close>

fun scan_base :: "nat \<Rightarrow> nat \<Rightarrow> string \<Rightarrow> nat \<times> string" where
  "scan_base b acc [] = (acc, [])"
| "scan_base b acc (c # cs) = (if hex_val c < b then scan_base b (b * acc + hex_val c) cs else (acc, c # cs))"

text \<open>\<open>strtoul(s, &end, 0)\<close> on a text that starts with a digit, before it saturates.\<close>

definition strtoul_base0 :: "string \<Rightarrow> nat \<times> string" where
  "strtoul_base0 s =
     (if take 1 s = ''0'' then
        (case tl s of
           x # h # r \<Rightarrow> if (x = CHR ''x'' \<or> x = CHR ''X'') \<and> hex_val h < 16 then scan_base 16 0 (h # r) else scan_base 8 0 s
         | _ \<Rightarrow> scan_base 8 0 s)
      else scan_base 10 0 s)"

section \<open>Parsing\<close>

text \<open>
  \<open>k\<close> dots may still follow; \<open>parts\<close> are the bytes read so far.  The last part fills the remaining bytes.
\<close>

definition part_limit :: "nat \<Rightarrow> nat" where
  "part_limit n = [0xFFFFFFFF, 0xFFFFFF, 0xFFFF, 0xFF] ! n"

definition join_parts :: "nat list \<Rightarrow> nat \<Rightarrow> u32" where
  "join_parts parts v = of_nat (v + (\<Sum>i < length parts. parts ! i * 2 ^ (24 - 8 * i)))"

fun inet_aton_parts :: "nat \<Rightarrow> nat list \<Rightarrow> string \<Rightarrow> u32 option" where
  "inet_aton_parts k parts s =
     (case s of
        [] \<Rightarrow> None
      | c # _ \<Rightarrow>
          (if \<not> is_digit c then None
           else let (v, r) = strtoul_base0 s
                in if 0xFFFFFFFF < v then None
                   else if take 1 r = ''.'' then
                     (case k of 0 \<Rightarrow> None | Suc k' \<Rightarrow> if 255 < v then None else inet_aton_parts k' (parts @ [v]) (tl r))
                   else if r \<noteq> [] \<and> \<not> isspace (hd r) then None
                   else if part_limit (length parts) < v then None
                   else Some (join_parts parts v)))"

definition inet_aton :: "string \<Rightarrow> u32 option" where
  "inet_aton s = inet_aton_parts 3 [] s"

section \<open>A printed address is read back\<close>

declare inet_aton_parts.simps [simp del]

lemma hex_val_digit: "is_digit c \<Longrightarrow> hex_val c = digit_val c \<and> hex_val c < 10"
  by (auto simp: hex_val_def is_digit_def digit_val_def Let_def)

lemma hex_val_dot [simp]: "hex_val CHR ''.'' = 36"
  by (simp add: hex_val_def char_code_def)

lemma scan_base_10: "scan_base 10 a (ds @ r) = scan_digits a (ds @ r)"
  if "list_all is_digit ds" and "r = [] \<or> hd r = CHR ''.''"
  using that
proof (induction ds arbitrary: a)
  case Nil
  then show ?case
    by (cases r) (auto simp: is_digit_def char_code_def)
next
  case (Cons c ds)
  then show ?case using hex_val_digit [of c] by simp
qed

lemma digit_char_zero [simp]: "digit_char 0 = CHR ''0''"
proof -
  have "char_of (48 :: nat) = CHR ''0''" by code_simp
  then show ?thesis by (simp add: digit_char_def)
qed

lemma show_dec_leading: "0 < n \<Longrightarrow> hd (show_dec n) \<noteq> CHR ''0''"
proof (induction n rule: show_dec.induct)
  case (1 n)
  show ?case
  proof (cases "n < 10")
    case True
    with "1.prems" have "digit_char n \<noteq> CHR ''0''" using digit_val_digit_char [of n] by fastforce
    with True show ?thesis by (subst show_dec.simps) simp
  next
    case False
    then have "0 < n div 10" by simp
    with "1.IH" False show ?thesis by (subst show_dec.simps) simp
  qed
qed

lemma strtoul_base0_show_dec:
  assumes "r = [] \<or> hd r = CHR ''.''"
  shows "strtoul_base0 (show_dec n @ r) = (n, r)"
proof (cases "n = 0")
  case True
  have s: "show_dec 0 = ''0''" by (simp add: show_dec.simps [of 0])
  have "scan_base 8 0 (''0'' @ r) = (0, r)"
    using assms by (cases r) (simp_all add: hex_val_def char_code_def)
  then show ?thesis
    using assms True s by (auto simp: strtoul_base0_def split: list.splits)
next
  case False
  then obtain c cs where c: "show_dec n = c # cs" "c \<noteq> CHR ''0''"
    using show_dec_leading [of n] by (cases "show_dec n") auto
  have stop: "case r of c # _ \<Rightarrow> \<not> is_digit c | [] \<Rightarrow> True"
    using assms by (cases r) (auto simp: is_digit_def char_code_def)
  have "strtoul_base0 (show_dec n @ r) = scan_base 10 0 (show_dec n @ r)"
    using c by (simp add: strtoul_base0_def)
  also have "\<dots> = (n, r)"
    using scan_base_10 [OF show_dec_digits assms] scan_show_dec [OF stop] by simp
  finally show ?thesis .
qed

lemma show_dec_Cons: "\<exists>c cs. show_dec n = c # cs \<and> is_digit c"
  using show_dec_digits [of n] by (cases "show_dec n") auto

lemma inet_aton_part_dot:
  assumes "v < 256"
  shows "inet_aton_parts (Suc k) parts (show_dec v @ CHR ''.'' # s) = inet_aton_parts k (parts @ [v]) s"
proof -
  obtain c cs where c: "show_dec v = c # cs" "is_digit c" using show_dec_Cons by blast
  then show ?thesis
    using assms strtoul_base0_show_dec [of "CHR ''.'' # s" v]
    by (subst inet_aton_parts.simps) simp
qed

lemma inet_aton_part_last:
  assumes "v \<le> part_limit (length parts)" and "v \<le> 0xFFFFFFFF"
  shows "inet_aton_parts k parts (show_dec v) = Some (join_parts parts v)"
proof -
  obtain c cs where c: "show_dec v = c # cs" "is_digit c" using show_dec_Cons by blast
  then show ?thesis
    using assms strtoul_base0_show_dec [of "[]" v]
    by (subst inet_aton_parts.simps) simp
qed

lemma addr_byte_bound: "addr_byte k a < 256"
  using u8_bound [of "ucast (drop_bit k a)"] by (simp add: addr_byte_def)

lemma addr_byte_div: "addr_byte k a = unat a div 2 ^ k mod 256"
proof -
  have "unat (drop_bit k a) = unat a div 2 ^ k" by (subst unat_drop_bit_eq) (rule drop_bit_eq_div)
  then show ?thesis by (simp add: addr_byte_def unsigned_ucast_eq take_bit_eq_mod)
qed

lemma nat_of_bytes:
  fixes n :: nat
  assumes "n < 2 ^ 32"
  shows "n mod 256 + (n div 2 ^ 24 mod 256 * 2 ^ 24 + n div 2 ^ 16 mod 256 * 2 ^ 16 + n div 2 ^ 8 mod 256 * 2 ^ 8) = n"
proof -
  have q: "n div 2 ^ 16 = n div 2 ^ 8 div 256" "n div 2 ^ 24 = n div 2 ^ 8 div 256 div 256"
    by (simp_all add: div_mult2_eq [symmetric])
  have t: "n div 2 ^ 8 div 256 div 256 < 256" using assms by (simp add: div_mult2_eq [symmetric] less_mult_imp_div_less)
  let ?d = "n div 2 ^ 8" and ?e = "n div 2 ^ 8 div 256"
  have "n = 256 * ?d + n mod 256" by simp
  moreover have "?d = 256 * ?e + ?d mod 256" by simp
  moreover have "?e = 256 * (?e div 256) + ?e mod 256" by simp
  moreover have "?e div 256 mod 256 = ?e div 256" using t by simp
  ultimately have "n = 256 * (256 * (256 * (?e div 256 mod 256) + ?e mod 256) + ?d mod 256) + n mod 256" by presburger
  then show ?thesis unfolding q by simp
qed

lemma sum_three: "(\<Sum>i < Suc (Suc (Suc 0)). f i) = (f 0 + f 1 + f 2 :: nat)"
  by (simp add: numeral_2_eq_2)

lemma join_addr_bytes: "join_parts [addr_byte 24 a, addr_byte 16 a, addr_byte 8 a] (addr_byte 0 a) = a"
proof -
  have "unat a < 2 ^ 32" using u32_bound [of a] by simp
  note n = nat_of_bytes [OF this]
  have "addr_byte 0 a + (\<Sum>i < length [addr_byte 24 a, addr_byte 16 a, addr_byte 8 a].
      [addr_byte 24 a, addr_byte 16 a, addr_byte 8 a] ! i * 2 ^ (24 - 8 * i)) =
    addr_byte 0 a + (addr_byte 24 a * 2 ^ 24 + addr_byte 16 a * 2 ^ 16 + addr_byte 8 a * 2 ^ 8)"
    by (simp add: sum_three)
  also have "\<dots> = unat a" using n by (simp only: addr_byte_div power_0 div_by_1)
  finally show ?thesis by (simp only: join_parts_def of_nat_unat ucast_id)
qed

theorem inet_aton_ntop [simp]: "inet_aton (inet_ntop a) = Some a"
proof -
  let ?b = "\<lambda>k. addr_byte k a"
  have b: "?b k < 256" for k by (rule addr_byte_bound)
  have l: "?b 0 \<le> part_limit (length [?b 24, ?b 16, ?b 8])" "?b 0 \<le> 0xFFFFFFFF"
    using b [of 0] by (simp_all add: part_limit_def)
  have 3: "inet_aton_parts (Suc k) [] (show_dec (?b 24) @ CHR ''.'' # s) = inet_aton_parts k [?b 24] s" for k s
    using inet_aton_part_dot [OF b, of k "[]"] by simp
  have 2: "inet_aton_parts (Suc k) [?b 24] (show_dec (?b 16) @ CHR ''.'' # s) = inet_aton_parts k [?b 24, ?b 16] s" for k s
    using inet_aton_part_dot [OF b, of k "[?b 24]"] by simp
  have 1: "inet_aton_parts (Suc k) [?b 24, ?b 16] (show_dec (?b 8) @ CHR ''.'' # s) = inet_aton_parts k [?b 24, ?b 16, ?b 8] s" for k s
    using inet_aton_part_dot [OF b, of k "[?b 24, ?b 16]"] by simp
  show ?thesis
    using inet_aton_part_last [OF l]
    by (simp add: inet_aton_def inet_ntop_def numeral_3_eq_3 1 2 3 join_addr_bytes)
qed

lemma inet_ntop_inj: "inet_ntop a = inet_ntop b \<longleftrightarrow> a = b"
  using inet_aton_ntop [of a] inet_aton_ntop [of b] by (metis option.inject)

end
