(* ===== verification/Server.thy ===== *)
theory Server
  imports Net_Packet Return_Queue Inet_Addr "HOL-Library.Sublist"
begin

text \<open>
  The packet engine of the server, \<open>timestamp_server.c\<close>: the arrays that correlate a sequence number with the data of the
  received packet, the receive loops of the one-way and the round-trip mode, the thread that sends
  the return packets from the queue, and the collection of their kernel send timestamps.  As for the
  client, a run is a sequence of turns of the threads in any order; the results of the system calls and the readings of the clocks
  are data of the turns.
\<close>

section \<open>Constants\<close>

definition MAX_PACKET_SIZE :: nat where "MAX_PACKET_SIZE = 1500"
definition RETURN_PACKET_SIZE :: nat where "RETURN_PACKET_SIZE = 4"

section \<open>State\<close>

text \<open>
  Null pointers are \<open>None\<close>.  \<open>sv_pkt_hw_rx_ts\<close> and \<open>sv_pkt_ker_rx_ts\<close> are the two timestamps of the variable \<open>pkt_data\<close> of the
  round-trip loop, which live from turn to turn.  The round-trip mode does not start without a queue.
\<close>

record server_state =
  sv_csv_enabled :: bool
  sv_stats_config :: stats_config_t
  sv_stats :: "stats_collector_t option"
  sv_tx_csv_buffer :: "csv_ring_buffer_t option"
  sv_csv_buffer :: "csv_ring_buffer_t option"
  sv_client_ips :: "string list option"
  sv_client_ports :: "int list option"
  sv_hw_rx_timestamps :: "timespec list option"
  sv_ker_rx_timestamps :: "timespec list option"
  sv_app_rx_timestamps :: "timespec list option"
  sv_tx_queue :: return_packet_queue
  sv_tx_packet_buffers :: "u8 list list"
  sv_pkt_hw_rx_ts :: timespec
  sv_pkt_ker_rx_ts :: timespec
  sv_check :: "u64 \<times> u64"
  sv_running :: bool
  sv_total_packets_received :: u64
  sv_local_packets_sent :: u64
  sv_g_packets_received :: u64
  sv_g_packets_sent :: u64
  sv_g_tx_timestamp_processed :: u64

definition on_server_stats ::
  "(stats_config_t \<Rightarrow> stats_collector_t option \<Rightarrow> stats_collector_t option) \<Rightarrow> server_state \<Rightarrow> server_state" where
  "on_server_stats f sv = sv\<lparr>sv_stats := f (sv_stats_config sv) (sv_stats sv)\<rparr>"

section \<open>Correlation arrays\<close>

definition cleanup_server_tx_correlation :: "server_state \<Rightarrow> server_state" where
  "cleanup_server_tx_correlation sv =
     sv\<lparr>sv_client_ips := None, sv_client_ports := None, sv_hw_rx_timestamps := None, sv_ker_rx_timestamps := None,
        sv_app_rx_timestamps := None\<rparr>"

text \<open>For the five arrays in order: whether \<open>aligned_alloc\<close> succeeds, and else whether \<open>calloc\<close> does.\<close>

definition init_server_tx_correlation :: "(nat \<Rightarrow> bool \<times> bool) \<Rightarrow> server_state \<Rightarrow> server_state \<times> bool" where
  "init_server_tx_correlation alloc sv =
     (let got = (\<lambda>k. fst (alloc k) \<or> snd (alloc k))
      in if got 0 \<and> got 1 \<and> got 2 \<and> got 3 \<and> got 4 then
           (sv\<lparr>sv_client_ips := Some (replicate MAX_SEQUENCE_NUMBERS []),
               sv_client_ports := Some (replicate MAX_SEQUENCE_NUMBERS 0),
               sv_hw_rx_timestamps := Some (replicate MAX_SEQUENCE_NUMBERS zero_timespec),
               sv_ker_rx_timestamps := Some (replicate MAX_SEQUENCE_NUMBERS zero_timespec),
               sv_app_rx_timestamps := Some (replicate MAX_SEQUENCE_NUMBERS zero_timespec)\<rparr>, True)
         else (cleanup_server_tx_correlation sv, False))"

definition store_server_rx_timestamps ::
  "u32 \<Rightarrow> timespec \<Rightarrow> timespec \<Rightarrow> timespec \<Rightarrow> string \<Rightarrow> int \<Rightarrow> server_state \<Rightarrow> server_state" where
  "store_server_rx_timestamps seq_num hw_rx_ts ker_rx_ts app_rx_ts client_ip client_port sv =
     (case (sv_hw_rx_timestamps sv, sv_ker_rx_timestamps sv, sv_app_rx_timestamps sv, sv_client_ips sv, sv_client_ports sv) of
        (Some hw, Some ker, Some app, Some ips, Some ports) \<Rightarrow>
          (let index = unat (get_circular_index seq_num)
           in sv\<lparr>sv_hw_rx_timestamps := Some (hw[index := hw_rx_ts]),
                 sv_ker_rx_timestamps := Some (ker[index := ker_rx_ts]),
                 sv_app_rx_timestamps := Some (app[index := app_rx_ts]),
                 sv_client_ips := Some (ips[index := take 15 client_ip]),
                 sv_client_ports := Some (ports[index := client_port])\<rparr>)
      | _ \<Rightarrow> sv)"

section \<open>Kernel send timestamps\<close>

text \<open>One message of the error queue; without the two arrays it is dropped.\<close>

definition server_tx_timestamp :: "u8 list \<Rightarrow> cmsg list \<Rightarrow> server_state \<Rightarrow> server_state \<times> nat" where
  "server_tx_timestamp bytes cmsgs sv =
     (let (seq_num, kernel_tx_ts) = errq_event bytes cmsgs
      in case (sv_client_ips sv, sv_client_ports sv) of
           (Some ips, Some ports) \<Rightarrow>
             (let index = unat (get_circular_index seq_num);
                  logged = (sv_csv_enabled sv \<and> sv_tx_csv_buffer sv \<noteq> None);
                  sv1 = (if logged then
                           sv\<lparr>sv_tx_csv_buffer := csv_offer (create_csv_server_tx seq_num (ips ! index) (of_int (ports ! index))
                                                              (timespec_ns kernel_tx_ts)) (sv_tx_csv_buffer sv)\<rparr>
                         else sv)
              in (on_server_stats (\<lambda>cfg. update_stats_buffer_with_tx_timestamp cfg seq_num (timespec_ns kernel_tx_ts)
                                          STATS_SERVER_ROUNDTRIP) sv1,
                  if logged then 1 else 0))
         | _ \<Rightarrow> (sv, 0))"

definition server_tx_active :: "server_state \<Rightarrow> bool" where
  "server_tx_active sv = (sv_tx_csv_buffer sv \<noteq> None \<or> sc_enabled (sv_stats_config sv))"

definition server_process_tx_timestamps :: "errq_result list \<Rightarrow> server_state \<Rightarrow> server_state \<times> nat \<times> errq_result list" where
  "server_process_tx_timestamps = process_errq server_tx_timestamp server_tx_active"

definition server_tx_timestamp_turn :: "errq_result list \<Rightarrow> server_state \<Rightarrow> server_state" where
  "server_tx_timestamp_turn q sv =
     (let (sv1, processed, _) = server_process_tx_timestamps q sv
      in if processed > 0 then sv1\<lparr>sv_g_tx_timestamp_processed := sv_g_tx_timestamp_processed sv1 + of_nat processed\<rparr> else sv1)"

definition server_drain :: "errq_result list \<Rightarrow> server_state \<Rightarrow> server_state \<times> errq_result list" where
  "server_drain = drain_errq server_tx_timestamp server_tx_active"

section \<open>Receiving\<close>

text \<open>
  The parameters of a receive loop and what one turn of it observes: the shutdown flag, the readings of the run time check, the
  result of \<open>recvmsg\<close>, which is an error with the test for \<open>EAGAIN\<close> or a packet with its sender and control messages, and
  the application's timestamp.
\<close>

record server_params =
  svp_time_seconds :: int
  svp_start_time :: int
  svp_max_cycles_between_checks :: u64

datatype recv_result = Recv_error bool | Recv_packet sockaddr_in "u8 list" "cmsg list"

record recv_turn =
  rv_graceful_shutdown :: bool
  rv_cycles :: u64
  rv_now :: int
  rv_cycles_after :: u64
  rv_result :: recv_result
  rv_app_ts :: timespec

definition count_received :: "server_state \<Rightarrow> server_state" where
  "count_received sv = sv\<lparr>sv_total_packets_received := sv_total_packets_received sv + 1,
     sv_g_packets_received := sv_g_packets_received sv + 1\<rparr>"

definition payload_seq_num :: "u8 list \<Rightarrow> u32" where
  "payload_seq_num packet_buffer = (if 4 \<le> length packet_buffer then ntohl_at 0 packet_buffer else - 1)"

text \<open>One packet in one-way mode.\<close>

definition server_oneway_entry :: "timespec \<Rightarrow> sockaddr_in \<Rightarrow> u8 list \<Rightarrow> cmsg list \<Rightarrow> csv_entry_t" where
  "server_oneway_entry app_rx_ts src packet_buffer cmsgs =
     (let ((hw, ker), _) = extract_rx_timestamps cmsgs (zero_timespec, zero_timespec)
      in create_csv_server_oneway_main (payload_seq_num packet_buffer) (inet_ntop (fst src)) (snd src)
           (timespec_ns hw) (timespec_ns ker) (timespec_ns app_rx_ts))"

definition server_oneway_packet :: "timespec \<Rightarrow> sockaddr_in \<Rightarrow> u8 list \<Rightarrow> cmsg list \<Rightarrow> server_state \<Rightarrow> server_state" where
  "server_oneway_packet app_rx_ts src packet_buffer cmsgs sv =
     (let ((hw, ker), _) = extract_rx_timestamps cmsgs (zero_timespec, zero_timespec);
          seq_num = payload_seq_num packet_buffer;
          sv1 = count_received sv;
          sv2 = (if sv_csv_enabled sv1 then
                   sv1\<lparr>sv_csv_buffer := csv_offer (server_oneway_entry app_rx_ts src packet_buffer cmsgs) (sv_csv_buffer sv1)\<rparr>
                 else sv1);
          sv3 = on_server_stats (\<lambda>cfg. create_minimal_stats_entry cfg seq_num (snd src) TIMESTAMP_MODE_SERVER_ONEWAY) sv2
      in on_server_stats (\<lambda>cfg. update_stats_buffer_with_rx_timestamps cfg seq_num (timespec_ns hw) (timespec_ns ker)
                                  (timespec_ns app_rx_ts) 0 STATS_SERVER_ONEWAY) sv3)"

text \<open>
  One packet in round-trip mode: the request for the transmit thread, then the correlation arrays, then the statistics.  The port that
  the client asks for is read as an \<open>int\<close>; \<open>htons\<close> keeps its low 16 bits.  The result of the enqueue is ignored.
\<close>

definition return_request :: "sockaddr_in \<Rightarrow> u8 list \<Rightarrow> return_packet_request" where
  "return_request src packet_buffer =
     (let client_rx_port = sint (ntohl_at 4 packet_buffer);
          return_port = (if client_rx_port > 0 then client_rx_port else int (unat (snd src)))
      in \<lparr>rq_seq_num = payload_seq_num packet_buffer, rq_return_addr = (fst src, of_int return_port),
          rq_packet_data = take 8 packet_buffer, rq_packet_size = of_nat (length packet_buffer),
          rq_original_client_src_port = int (unat (snd src))\<rparr>)"

definition server_roundtrip_packet :: "timespec \<Rightarrow> sockaddr_in \<Rightarrow> u8 list \<Rightarrow> cmsg list \<Rightarrow> server_state \<Rightarrow> server_state" where
  "server_roundtrip_packet app_rx_ts src packet_buffer cmsgs sv =
     (let ((hw, ker), _) = extract_rx_timestamps cmsgs (sv_pkt_hw_rx_ts sv, sv_pkt_ker_rx_ts sv);
          seq_num = payload_seq_num packet_buffer;
          sv1 = count_received (sv\<lparr>sv_pkt_hw_rx_ts := hw, sv_pkt_ker_rx_ts := ker\<rparr>);
          sv2 = (if 8 \<le> length packet_buffer then
                   sv1\<lparr>sv_tx_queue := fst (enqueue_return_packet_request (sv_tx_queue sv1) (return_request src packet_buffer))\<rparr>
                 else sv1);
          sv3 = store_server_rx_timestamps seq_num hw ker app_rx_ts (inet_ntop (fst src)) (int (unat (snd src))) sv2;
          sv4 = on_server_stats (\<lambda>cfg. create_minimal_stats_entry cfg seq_num (snd src) TIMESTAMP_MODE_SERVER_ROUNDTRIP) sv3
      in on_server_stats (\<lambda>cfg. update_stats_buffer_with_rx_timestamps cfg seq_num (timespec_ns hw) (timespec_ns ker)
                                  (timespec_ns app_rx_ts) 0 STATS_SERVER_ROUNDTRIP) sv4)"

text \<open>
  One turn of a receive loop, with the received packet as second component: sender, bytes (at most 1500), control messages and the
  application's timestamp.  The packet rate that a turn may print is the subject of \<open>display_stats_if_ready\<close>.
\<close>

type_synonym received_packet = "sockaddr_in \<times> u8 list \<times> cmsg list \<times> timespec"

definition server_recv_turn ::
  "(timespec \<Rightarrow> sockaddr_in \<Rightarrow> u8 list \<Rightarrow> cmsg list \<Rightarrow> server_state \<Rightarrow> server_state) \<Rightarrow> server_params \<Rightarrow> recv_turn \<Rightarrow> server_state \<Rightarrow>
     server_state \<times> received_packet list" where
  "server_recv_turn process p tn sv =
     (let program_duration_ns = (if 0 < svp_time_seconds p then svp_time_seconds p * 1000000000 else 0);
          stop = sv\<lparr>sv_running := False\<rparr>
      in if \<not> sv_running sv then (sv, [])
         else if rv_graceful_shutdown tn then (stop, [])
         else case run_time_check (0 < program_duration_ns) (\<lambda>now. program_duration_ns \<le> now - svp_start_time p)
                     (svp_max_cycles_between_checks p) (rv_cycles tn) (rv_now tn) (rv_cycles_after tn) (sv_check sv) of
                None \<Rightarrow> (stop, [])
              | Some check \<Rightarrow>
                  (let sv1 = sv\<lparr>sv_check := check\<rparr>
                   in case rv_result tn of
                        Recv_error would_block \<Rightarrow> (if would_block then (sv1, []) else (sv1\<lparr>sv_running := False\<rparr>, []))
                      | Recv_packet src bytes cmsgs \<Rightarrow>
                          (let packet_buffer = take MAX_PACKET_SIZE bytes
                           in (process (rv_app_ts tn) src packet_buffer cmsgs sv1, [(src, packet_buffer, cmsgs, rv_app_ts tn)]))))"

definition server_oneway_turn :: "server_params \<Rightarrow> recv_turn \<Rightarrow> server_state \<Rightarrow> server_state \<times> received_packet list" where
  "server_oneway_turn = server_recv_turn server_oneway_packet"

definition server_roundtrip_turn :: "server_params \<Rightarrow> recv_turn \<Rightarrow> server_state \<Rightarrow> server_state \<times> received_packet list" where
  "server_roundtrip_turn = server_recv_turn server_roundtrip_packet"

section \<open>Sending return packets\<close>

text \<open>The function returns the buffer and the size of the packet in it.\<close>

definition construct_return_packet :: "u8 list \<Rightarrow> u8 list \<Rightarrow> u8 list \<times> nat" where
  "construct_return_packet return_buffer original_packet = (put_bytes 0 (take 4 original_packet) return_buffer, 4)"

definition target_batch_size :: "return_packet_queue \<Rightarrow> int" where
  "target_batch_size q =
     max (if queue_depth q > 0 then min (int BATCH_SIZE) (int (unat (queue_depth q))) else 1) 1"

text \<open>
  What a turn of the transmit thread observes: the send timestamps, the result of \<open>sendmmsg\<close> for a given number of packets, with
  the test for \<open>EAGAIN\<close>, and for each packet whether the fallback \<open>sendto\<close> succeeds.
\<close>

record tx_turn =
  tt_system_time :: "nat \<Rightarrow> timespec"
  tt_sendmmsg :: "nat \<Rightarrow> int"
  tt_would_block :: bool
  tt_sendto :: "nat \<Rightarrow> bool"

definition count_returned :: "nat \<Rightarrow> server_state \<Rightarrow> server_state" where
  "count_returned n sv = sv\<lparr>sv_local_packets_sent := sv_local_packets_sent sv + of_nat n,
     sv_g_packets_sent := sv_g_packets_sent sv + of_nat n\<rparr>"

text \<open>The row of a return packet in the server's main log, when all five arrays exist.\<close>

definition server_roundtrip_entry :: "server_state \<Rightarrow> return_packet_request \<Rightarrow> timespec \<Rightarrow> csv_entry_t option" where
  "server_roundtrip_entry sv req app_tx_ts =
     (case (sv_hw_rx_timestamps sv, sv_ker_rx_timestamps sv, sv_app_rx_timestamps sv, sv_client_ips sv, sv_client_ports sv) of
        (Some hw, Some ker, Some app, Some ips, Some ports) \<Rightarrow>
          (let index = unat (get_circular_index (rq_seq_num req))
           in Some (create_csv_server_roundtrip_main (rq_seq_num req) (ips ! index) (of_int (rq_original_client_src_port req))
                      (timespec_ns (hw ! index)) (timespec_ns (ker ! index)) (timespec_ns (app ! index)) (timespec_ns app_tx_ts)))
      | _ \<Rightarrow> None)"

definition return_account :: "return_packet_request \<Rightarrow> timespec \<Rightarrow> server_state \<Rightarrow> server_state" where
  "return_account req app_tx_ts sv =
     (let sv1 = on_server_stats (\<lambda>cfg. update_stats_buffer_with_app_tx_timestamp cfg (rq_seq_num req) (timespec_ns app_tx_ts) 0
                                         STATS_SERVER_ROUNDTRIP) sv
      in case server_roundtrip_entry sv1 req app_tx_ts of
           Some e \<Rightarrow> (if sv_csv_enabled sv1 then sv1\<lparr>sv_csv_buffer := csv_offer e (sv_csv_buffer sv1)\<rparr> else sv1)
         | None \<Rightarrow> sv1)"

definition fill_return_batch :: "return_packet_request list \<Rightarrow> u8 list list \<Rightarrow> u8 list list" where
  "fill_return_batch reqs buffers =
     map (\<lambda>i. if i < length reqs then fst (construct_return_packet (buffers ! i) (rq_packet_data (reqs ! i))) else buffers ! i)
       [0..<length buffers]"

text \<open>One turn of \<open>tx_thread_func\<close> and the packets it hands to the kernel, with their destinations.\<close>

definition server_tx_turn :: "tx_turn \<Rightarrow> server_state \<Rightarrow> server_state \<times> (sockaddr_in \<times> u8 list) list" where
  "server_tx_turn tt sv =
     (let (reqs, q) = dequeue_return_packet_batch (sv_tx_queue sv) (target_batch_size (sv_tx_queue sv));
          batch_count = length reqs
      in if batch_count = 0 then (sv\<lparr>sv_tx_queue := q\<rparr>, [])
         else let buffers = fill_return_batch reqs (sv_tx_packet_buffers sv);
                  sv1 = sv\<lparr>sv_tx_queue := q, sv_tx_packet_buffers := buffers\<rparr>;
                  packet = (\<lambda>i. (rq_return_addr (reqs ! i),
                                 take (snd (construct_return_packet (buffers ! i) (rq_packet_data (reqs ! i)))) (buffers ! i)))
              in if tt_sendmmsg tt batch_count > 0 then
                   (let sent = nat (tt_sendmmsg tt batch_count)
                    in (fold (\<lambda>i. return_account (reqs ! i) (tt_system_time tt i)) [0..<sent] (count_returned sent sv1),
                        map packet [0..<sent]))
                 else if tt_sendmmsg tt batch_count = 0 \<or> tt_would_block tt then (sv1, [])
                 else let ok = filter (tt_sendto tt) [0..<batch_count]
                      in (count_returned (length ok) sv1, map packet ok))"

section \<open>Runs\<close>

datatype server_event = S_receive recv_turn | S_transmit tx_turn | S_tx_timestamps "errq_result list"

text \<open>Turns of the three threads in any order; the received and the sent packets are collected.\<close>

fun server_run ::
  "server_params \<Rightarrow> server_event list \<Rightarrow> server_state \<Rightarrow> server_state \<times> received_packet list \<times> (sockaddr_in \<times> u8 list) list" where
  "server_run p [] sv = (sv, [], [])"
| "server_run p (S_receive tn # evs) sv =
     (let (sv1, received) = server_roundtrip_turn p tn sv; (sv2, rs, ss) = server_run p evs sv1 in (sv2, received @ rs, ss))"
| "server_run p (S_transmit tt # evs) sv =
     (let (sv1, sent) = server_tx_turn tt sv; (sv2, rs, ss) = server_run p evs sv1 in (sv2, rs, sent @ ss))"
| "server_run p (S_tx_timestamps q # evs) sv = server_run p evs (server_tx_timestamp_turn q sv)"

fun server_oneway_run :: "server_params \<Rightarrow> recv_turn list \<Rightarrow> server_state \<Rightarrow> server_state \<times> received_packet list" where
  "server_oneway_run p [] sv = (sv, [])"
| "server_oneway_run p (tn # tns) sv =
     (let (sv1, received) = server_oneway_turn p tn sv; (sv2, rs) = server_oneway_run p tns sv1 in (sv2, received @ rs))"

text \<open>The end of a run: the arguments of the statistics report, in the order of the calls.\<close>

definition server_oneway_report :: "(nat \<Rightarrow> bool) \<Rightarrow> bool \<Rightarrow> server_state \<Rightarrow> report_item list option option" where
  "server_oneway_report alloc alloc_result sv =
     final_stats_report alloc alloc_result (sv_stats_config sv) (sv_stats sv) 0 (sv_total_packets_received sv)"

definition server_roundtrip_report :: "(nat \<Rightarrow> bool) \<Rightarrow> bool \<Rightarrow> server_state \<Rightarrow> report_item list option option" where
  "server_roundtrip_report alloc alloc_result sv =
     final_stats_report alloc alloc_result (sv_stats_config sv) (sv_stats sv) (sv_total_packets_received sv) (sv_local_packets_sent sv)"

section \<open>What the parts of a turn leave unchanged\<close>

text \<open>The configuration and the part of the state that carries return packets, and the correlation arrays.\<close>

definition server_frame :: "server_state \<Rightarrow> bool \<times> stats_config_t \<times> return_packet_queue \<times> u8 list list \<times> u64 \<times> u64" where
  "server_frame sv = (sv_csv_enabled sv, sv_stats_config sv, sv_tx_queue sv, sv_tx_packet_buffers sv,
     sv_total_packets_received sv, sv_local_packets_sent sv)"

definition server_arrays ::
  "server_state \<Rightarrow> timespec list option \<times> timespec list option \<times> timespec list option \<times> string list option \<times> int list option" where
  "server_arrays sv = (sv_hw_rx_timestamps sv, sv_ker_rx_timestamps sv, sv_app_rx_timestamps sv, sv_client_ips sv, sv_client_ports sv)"

lemma server_frame_fields:
  assumes "server_frame sv' = server_frame sv"
  shows "sv_csv_enabled sv' = sv_csv_enabled sv" "sv_stats_config sv' = sv_stats_config sv" "sv_tx_queue sv' = sv_tx_queue sv"
    "sv_tx_packet_buffers sv' = sv_tx_packet_buffers sv" "sv_total_packets_received sv' = sv_total_packets_received sv"
    "sv_local_packets_sent sv' = sv_local_packets_sent sv"
  using assms by (simp_all add: server_frame_def)

lemma on_server_stats_frame [simp]:
  "server_frame (on_server_stats f sv) = server_frame sv" "server_arrays (on_server_stats f sv) = server_arrays sv"
  "sv_csv_buffer (on_server_stats f sv) = sv_csv_buffer sv" "sv_tx_csv_buffer (on_server_stats f sv) = sv_tx_csv_buffer sv"
  "sv_csv_enabled (on_server_stats f sv) = sv_csv_enabled sv" "sv_tx_queue (on_server_stats f sv) = sv_tx_queue sv"
  "sv_tx_packet_buffers (on_server_stats f sv) = sv_tx_packet_buffers sv"
  by (simp_all add: on_server_stats_def server_frame_def server_arrays_def)

lemma server_updates_frame [simp]:
  "server_frame (sv\<lparr>sv_csv_buffer := b\<rparr>) = server_frame sv" "server_frame (sv\<lparr>sv_tx_csv_buffer := b\<rparr>) = server_frame sv"
  "server_frame (sv\<lparr>sv_check := c\<rparr>) = server_frame sv" "server_frame (sv\<lparr>sv_running := r\<rparr>) = server_frame sv"
  "server_frame (sv\<lparr>sv_g_tx_timestamp_processed := n\<rparr>) = server_frame sv"
  "server_arrays (sv\<lparr>sv_csv_buffer := b\<rparr>) = server_arrays sv" "server_arrays (sv\<lparr>sv_tx_csv_buffer := b\<rparr>) = server_arrays sv"
  "server_arrays (sv\<lparr>sv_check := c\<rparr>) = server_arrays sv" "server_arrays (sv\<lparr>sv_running := r\<rparr>) = server_arrays sv"
  "server_arrays (sv\<lparr>sv_g_tx_timestamp_processed := n\<rparr>) = server_arrays sv"
  "server_arrays (sv\<lparr>sv_tx_queue := q\<rparr>) = server_arrays sv" "server_arrays (sv\<lparr>sv_tx_packet_buffers := bs\<rparr>) = server_arrays sv"
  by (simp_all add: server_frame_def server_arrays_def)

lemma count_frame [simp]:
  "server_arrays (count_received sv) = server_arrays sv" "server_arrays (count_returned n sv) = server_arrays sv"
  "sv_csv_buffer (count_received sv) = sv_csv_buffer sv" "sv_csv_buffer (count_returned n sv) = sv_csv_buffer sv"
  "sv_csv_enabled (count_received sv) = sv_csv_enabled sv" "sv_csv_enabled (count_returned n sv) = sv_csv_enabled sv"
  by (simp_all add: count_received_def count_returned_def server_arrays_def)

lemma store_server_frame [simp]: "server_frame (store_server_rx_timestamps s hw ker app ip port sv) = server_frame sv"
  by (simp add: store_server_rx_timestamps_def server_frame_def Let_def split: option.splits)

lemma server_roundtrip_entry_cong:
  "server_arrays sv' = server_arrays sv \<Longrightarrow> server_roundtrip_entry sv' = server_roundtrip_entry sv"
  by (simp add: fun_eq_iff server_roundtrip_entry_def server_arrays_def)

lemma return_account_frame [simp]:
  "server_frame (return_account req ts sv) = server_frame sv" "server_arrays (return_account req ts sv) = server_arrays sv"
  by (simp_all add: return_account_def Let_def split: option.splits)

lemma server_tx_timestamp_frame:
  "server_tx_timestamp bytes cmsgs sv = (sv', k) \<Longrightarrow> server_frame sv' = server_frame sv \<and> server_arrays sv' = server_arrays sv"
  by (auto simp: server_tx_timestamp_def Let_def split: prod.splits if_splits option.splits)

lemma server_tx_timestamp_turn_frame [simp]:
  "server_frame (server_tx_timestamp_turn q sv) = server_frame sv"
  "server_arrays (server_tx_timestamp_turn q sv) = server_arrays sv"
proof -
  obtain sv1 m q' where p: "server_process_tx_timestamps q sv = (sv1, m, q')" by (metis prod_cases3)
  note u = process_errq_unchanged [OF _ p [unfolded server_process_tx_timestamps_def]]
  have "server_frame sv1 = server_frame sv" "server_arrays sv1 = server_arrays sv"
    by (rule u, simp add: server_tx_timestamp_frame)+
  then show "server_frame (server_tx_timestamp_turn q sv) = server_frame sv"
    "server_arrays (server_tx_timestamp_turn q sv) = server_arrays sv"
    by (simp_all add: server_tx_timestamp_turn_def p)
qed

lemma server_recv_turn_cases:
  assumes "server_recv_turn process p tn sv = (sv', received)"
  obtains (idle) "received = []" and "server_frame sv' = server_frame sv" and "server_arrays sv' = server_arrays sv"
      and "sv_csv_buffer sv' = sv_csv_buffer sv"
  | (packet) check src bytes cmsgs where "received = [(src, take MAX_PACKET_SIZE bytes, cmsgs, rv_app_ts tn)]"
      and "sv' = process (rv_app_ts tn) src (take MAX_PACKET_SIZE bytes) cmsgs (sv\<lparr>sv_check := check\<rparr>)"
  using assms by (auto simp: server_recv_turn_def Let_def split: if_splits option.splits recv_result.splits intro: that)

section \<open>Return packets\<close>

text \<open>The packet that answers a request, and the answer the server owes to a received packet.\<close>

definition return_packet :: "return_packet_request \<Rightarrow> sockaddr_in \<times> u8 list" where
  "return_packet req = (rq_return_addr req, take 4 (rq_packet_data req))"

definition echo :: "received_packet \<Rightarrow> sockaddr_in \<times> u8 list" where
  "echo pk = (case pk of (src, bytes, _) \<Rightarrow>
     ((fst src, if 0 < sint (ntohl_at 4 bytes) then ucast (ntohl_at 4 bytes) else snd src), take 4 bytes))"

definition answerable :: "received_packet \<Rightarrow> bool" where
  "answerable pk \<longleftrightarrow> 8 \<le> length (fst (snd pk))"

lemma scast_down_port: "scast w = (ucast w :: u16)" for w :: u32
  by (rule bit_word_eqI) (auto simp: bit_ucast_iff bit_signed_iff min_def)

lemma return_packet_echo: "return_packet (return_request src bytes) = echo (src, bytes, cmsgs, ts)"
  by (simp add: return_packet_def return_request_def echo_def Let_def scast_down_port)

definition return_path_wf :: "server_state \<Rightarrow> bool" where
  "return_path_wf sv \<longleftrightarrow> return_queue_wf (sv_tx_queue sv) \<and> length (sv_tx_packet_buffers sv) = BATCH_SIZE \<and>
     list_all (\<lambda>b. length b = RETURN_PACKET_SIZE) (sv_tx_packet_buffers sv) \<and>
     list_all (\<lambda>req. length (rq_packet_data req) = 8) (return_queue_contents (sv_tx_queue sv))"

abbreviation pending :: "server_state \<Rightarrow> return_packet_request list" where
  "pending sv \<equiv> return_queue_contents (sv_tx_queue sv)"

lemma return_path_wf_cong: "server_frame sv' = server_frame sv \<Longrightarrow> return_path_wf sv' = return_path_wf sv"
  by (simp add: return_path_wf_def server_frame_def)

lemma server_roundtrip_packet_queue:
  assumes wf: "return_path_wf sv"
  shows "return_path_wf (server_roundtrip_packet ts src bytes cmsgs sv) \<and>
    pending (server_roundtrip_packet ts src bytes cmsgs sv) = pending sv @
      (if 8 \<le> length bytes \<and> length (pending sv) < return_queue_room (sv_tx_queue sv) then [return_request src bytes] else []) \<and>
    return_queue_room (sv_tx_queue (server_roundtrip_packet ts src bytes cmsgs sv)) = return_queue_room (sv_tx_queue sv) \<and>
    sv_total_packets_received (server_roundtrip_packet ts src bytes cmsgs sv) = sv_total_packets_received sv + 1 \<and>
    sv_local_packets_sent (server_roundtrip_packet ts src bytes cmsgs sv) = sv_local_packets_sent sv"
proof -
  let ?q = "sv_tx_queue sv" and ?req = "return_request src bytes"
  obtain q' ok where e: "enqueue_return_packet_request ?q ?req = (q', ok)" by fastforce
  have wfq: "return_queue_wf ?q" using wf by (simp add: return_path_wf_def)
  note q' = returnq.enq_cases [OF wfq e]
  let ?q2 = "if 8 \<le> length bytes then q' else ?q"
  obtain hw ker flag where x: "extract_rx_timestamps cmsgs (sv_pkt_hw_rx_ts sv, sv_pkt_ker_rx_ts sv) = ((hw, ker), flag)"
    by (metis prod.exhaust)
  have "server_frame (server_roundtrip_packet ts src bytes cmsgs sv) = (sv_csv_enabled sv, sv_stats_config sv, ?q2,
      sv_tx_packet_buffers sv, sv_total_packets_received sv + 1, sv_local_packets_sent sv)"
    using e by (simp add: server_roundtrip_packet_def x Let_def) (simp add: server_frame_def count_received_def)
  moreover have "length (rq_packet_data ?req) = 8" if "8 \<le> length bytes" using that by (simp add: return_request_def Let_def)
  ultimately show ?thesis using wf q' by (auto simp: server_frame_def return_path_wf_def split: if_splits)
qed

lemma subseq_set: "subseq xs ys \<Longrightarrow> set xs \<subseteq> set ys"
  by (induction rule: list_emb.induct) auto

lemma server_tx_turn_packets:
  assumes wf: "return_path_wf sv" and ok: "\<forall>n. tt_sendmmsg tt n \<le> int n" and turn: "server_tx_turn tt sv = (sv', sent)"
  shows "\<exists>batch. pending sv = batch @ pending sv' \<and> return_path_wf sv' \<and>
    return_queue_room (sv_tx_queue sv') = return_queue_room (sv_tx_queue sv) \<and>
    subseq sent (map return_packet batch) \<and> ((\<forall>n. tt_sendmmsg tt n = int n) \<longrightarrow> sent = map return_packet batch) \<and>
    sv_local_packets_sent sv' = sv_local_packets_sent sv + of_nat (length sent) \<and>
    sv_total_packets_received sv' = sv_total_packets_received sv"
proof -
  let ?q = "sv_tx_queue sv" and ?bufs = "sv_tx_packet_buffers sv"
  obtain reqs q where d: "dequeue_return_packet_batch ?q (target_batch_size ?q) = (reqs, q)" by fastforce
  have wfq: "return_queue_wf ?q" using wf by (simp add: return_path_wf_def)
  note q = dequeue_return_packet_batch_take [OF wfq d]
  have len: "length reqs \<le> BATCH_SIZE"
  proof -
    have "nat (target_batch_size ?q) \<le> BATCH_SIZE" by (simp add: nat_le_iff target_batch_size_def BATCH_SIZE_def)
    with q show ?thesis by simp
  qed
  have c: "pending sv = reqs @ return_queue_contents q" using q by simp
  have q2: "return_queue_wf q" "return_queue_room q = return_queue_room ?q" using q by blast+
  let ?fill = "fill_return_batch reqs ?bufs"
  have data: "length (rq_packet_data (reqs ! i)) = 8" if "i < length reqs" for i
    using wf c that by (simp add: return_path_wf_def list_all_iff)
  have buf: "length (?bufs ! i) = RETURN_PACKET_SIZE" "i < length ?bufs" if "i < BATCH_SIZE" for i
    using wf that by (simp_all add: return_path_wf_def list_all_length)
  have fill: "length ?fill = BATCH_SIZE" "list_all (\<lambda>b. length b = RETURN_PACKET_SIZE) ?fill"
    using wf data by (auto simp: return_path_wf_def fill_return_batch_def construct_return_packet_def list_all_length RETURN_PACKET_SIZE_def)
  have pkt: "take 4 (?fill ! i) = take 4 (rq_packet_data (reqs ! i))" if "i < length reqs" for i
    using that len data [OF that] buf [of i]
    by (simp add: fill_return_batch_def construct_return_packet_def put_bytes_def)
  let ?packet = "\<lambda>i. (rq_return_addr (reqs ! i), take 4 (?fill ! i))"
  have map: "map ?packet is = map return_packet (map ((!) reqs) is)" if "set is \<subseteq> {..<length reqs}" for "is"
    using that pkt by (auto simp: return_packet_def)
  have sub: "subseq (map ?packet is) (map return_packet reqs)" if "subseq is [0..<length reqs]" for "is"
  proof -
    have "set is \<subseteq> {..<length reqs}" using subseq_set [OF that] by auto
    moreover have "subseq (map ((!) reqs) is) (map ((!) reqs) [0..<length reqs])" using that by (rule subseq_map)
    ultimately show ?thesis using subseq_map [of "map ((!) reqs) is" reqs return_packet] by (simp only: map map_nth)
  qed
  let ?n = "nat (tt_sendmmsg tt (length reqs))" and ?ok = "filter (tt_sendto tt) [0..<length reqs]"
  have n: "?n \<le> length reqs" using ok by (simp add: nat_le_iff)
  have sub_n: "subseq [0..<?n] [0..<length reqs]"
    using prefix_imp_subseq [OF take_is_prefix [of ?n "[0..<length reqs]"]] n by (simp add: take_upt)
  have frame: "server_frame sv' = (sv_csv_enabled sv, sv_stats_config sv, q, if reqs = [] then ?bufs else ?fill,
      sv_total_packets_received sv, sv_local_packets_sent sv + of_nat (length sent))"
    using turn d
    by (auto simp: server_tx_turn_def Let_def fold_unchanged [where g = server_frame] split: if_splits)
      (simp_all add: server_frame_def count_returned_def)
  have sent: "sent = (if 0 < ?n then map ?packet [0..<?n] else if tt_sendmmsg tt (length reqs) = 0 \<or> tt_would_block tt then []
      else map ?packet ?ok) \<or> reqs = [] \<and> sent = []"
    using turn d by (auto simp: server_tx_turn_def Let_def construct_return_packet_def split: if_splits)
  have "subseq sent (map return_packet reqs)"
    using sent sub [OF sub_n] sub [OF subseq_filter_left] by (auto split: if_splits)
  moreover have "sent = map return_packet reqs" if "\<forall>n. tt_sendmmsg tt n = int n"
    using sent that map [of "[0..<length reqs]"] by (cases "reqs = []") (auto simp: map_nth atLeast0LessThan)
  moreover have "return_path_wf sv'" "return_queue_room (sv_tx_queue sv') = return_queue_room ?q" "pending sv' = return_queue_contents q"
    using frame q2 fill wf c by (auto simp: server_frame_def return_path_wf_def)
  ultimately show ?thesis using frame c by (intro exI [of _ reqs]) (simp add: server_frame_def)
qed

text \<open>What \<open>sendmmsg\<close> documents: it never reports more packets than it was given.\<close>

definition server_event_ok :: "server_event \<Rightarrow> bool" where
  "server_event_ok ev \<longleftrightarrow> (case ev of S_transmit tt \<Rightarrow> \<forall>n. tt_sendmmsg tt n \<le> int n | _ \<Rightarrow> True)"

definition sends_complete :: "server_event \<Rightarrow> bool" where
  "sends_complete ev \<longleftrightarrow> (case ev of S_transmit tt \<Rightarrow> \<forall>n. tt_sendmmsg tt n = int n | _ \<Rightarrow> True)"

lemma sends_complete_ok: "list_all sends_complete evs \<Longrightarrow> list_all server_event_ok evs"
  by (auto simp: list_all_iff sends_complete_def server_event_ok_def split: server_event.splits)

abbreviation answers :: "received_packet list \<Rightarrow> (sockaddr_in \<times> u8 list) list" where
  "answers received \<equiv> map echo (filter answerable received)"

lemma server_roundtrip_turn_queue:
  assumes wf: "return_path_wf sv" and turn: "server_roundtrip_turn p tn sv = (sv', received)"
  shows "return_path_wf sv' \<and> subseq (map return_packet (pending sv')) (map return_packet (pending sv) @ answers received) \<and>
    (length (pending sv) + length (filter answerable received) \<le> return_queue_room (sv_tx_queue sv) \<longrightarrow>
      map return_packet (pending sv') = map return_packet (pending sv) @ answers received) \<and>
    return_queue_room (sv_tx_queue sv') = return_queue_room (sv_tx_queue sv) \<and>
    sv_total_packets_received sv' = sv_total_packets_received sv + of_nat (length received) \<and>
    sv_local_packets_sent sv' = sv_local_packets_sent sv"
  using turn [unfolded server_roundtrip_turn_def]
proof (cases rule: server_recv_turn_cases)
  case idle
  with wf return_path_wf_cong [OF idle(2)] server_frame_fields [OF idle(2)] show ?thesis by simp
next
  case (packet check src bytes cmsgs)
  have "return_path_wf (sv\<lparr>sv_check := check\<rparr>)" using wf return_path_wf_cong [of "sv\<lparr>sv_check := check\<rparr>" sv] by simp
  from server_roundtrip_packet_queue [OF this, of "rv_app_ts tn" src "take MAX_PACKET_SIZE bytes" cmsgs]
  show ?thesis using packet by (auto simp: answerable_def return_packet_echo)
qed

lemma server_run_queue:
  assumes "server_run p evs sv = (sv', received, sent)" and "return_path_wf sv" and "list_all server_event_ok evs"
  shows "return_path_wf sv' \<and>
    subseq (sent @ map return_packet (pending sv')) (map return_packet (pending sv) @ answers received) \<and>
    (list_all sends_complete evs \<and> length (pending sv) + length (filter answerable received) \<le> return_queue_room (sv_tx_queue sv) \<longrightarrow>
      sent @ map return_packet (pending sv') = map return_packet (pending sv) @ answers received) \<and>
    sv_total_packets_received sv' = sv_total_packets_received sv + of_nat (length received) \<and>
    sv_local_packets_sent sv' = sv_local_packets_sent sv + of_nat (length sent)"
  using assms
proof (induction evs arbitrary: sv sv' received sent)
  case (Cons ev evs)
  show ?case
  proof (cases ev)
    case (S_receive tn)
    obtain sv1 r1 where t: "server_roundtrip_turn p tn sv = (sv1, r1)" by fastforce
    obtain rs where r: "server_run p evs sv1 = (sv', rs, sent)" "received = r1 @ rs"
      using Cons.prems(1) S_receive t by (auto split: prod.splits)
    note 1 = server_roundtrip_turn_queue [OF Cons.prems(2) t]
    note 2 = Cons.IH [OF r(1) conjunct1 [OF 1]]
    have "subseq (map return_packet (pending sv1) @ answers rs) (map return_packet (pending sv) @ answers received)"
      using 1 list_emb_append_mono [of "(=)" "map return_packet (pending sv1)" "map return_packet (pending sv) @ answers r1" "answers rs" "answers rs"]
        r(2) by simp
    moreover have "length (pending sv1) = length (pending sv) + length (filter answerable r1)"
      if "length (pending sv) + length (filter answerable r1) \<le> return_queue_room (sv_tx_queue sv)"
      using 1 that by (metis length_append length_map)
    ultimately show ?thesis using 1 2 Cons.prems(3) r(2) S_receive subseq_order.order_trans by (auto simp: add.assoc)
  next
    case (S_transmit tt)
    obtain sv1 s1 where t: "server_tx_turn tt sv = (sv1, s1)" by fastforce
    obtain ss where r: "server_run p evs sv1 = (sv', received, ss)" "sent = s1 @ ss"
      using Cons.prems(1) S_transmit t by (auto split: prod.splits)
    have ok: "\<forall>n. tt_sendmmsg tt n \<le> int n" using Cons.prems(3) S_transmit by (simp add: server_event_ok_def)
    obtain batch where b: "pending sv = batch @ pending sv1" "return_path_wf sv1" "subseq s1 (map return_packet batch)"
      "return_queue_room (sv_tx_queue sv1) = return_queue_room (sv_tx_queue sv)"
      "(\<forall>n. tt_sendmmsg tt n = int n) \<longrightarrow> s1 = map return_packet batch"
      "sv_local_packets_sent sv1 = sv_local_packets_sent sv + of_nat (length s1)"
      "sv_total_packets_received sv1 = sv_total_packets_received sv"
      using server_tx_turn_packets [OF Cons.prems(2) ok t] by blast
    note 2 = Cons.IH [OF r(1) b(2)]
    have "subseq (s1 @ (ss @ map return_packet (pending sv'))) (map return_packet batch @ (map return_packet (pending sv1) @ answers received))"
      using b(3) 2 Cons.prems(3) by (intro list_emb_append_mono [where xs = s1]) simp_all
    with 2 b r(2) Cons.prems(3) S_transmit show ?thesis by (auto simp: sends_complete_def)
  next
    case (S_tx_timestamps q)
    have fr: "server_frame (server_tx_timestamp_turn q sv) = server_frame sv" by simp
    from Cons.IH [of "server_tx_timestamp_turn q sv" sv' received sent] return_path_wf_cong [OF fr] server_frame_fields [OF fr]
      Cons.prems S_tx_timestamps show ?thesis by (simp add: sends_complete_def)
  qed
qed simp

section \<open>Correlation of a return packet with the received packet\<close>

text \<open>The contents of one slot of the five arrays.\<close>

definition server_arrays_wf :: "server_state \<Rightarrow> bool" where
  "server_arrays_wf sv \<longleftrightarrow> (\<exists>hw ker app ips ports. server_arrays sv = (Some hw, Some ker, Some app, Some ips, Some ports) \<and>
     length hw = MAX_SEQUENCE_NUMBERS \<and> length ker = MAX_SEQUENCE_NUMBERS \<and> length app = MAX_SEQUENCE_NUMBERS \<and>
     length ips = MAX_SEQUENCE_NUMBERS \<and> length ports = MAX_SEQUENCE_NUMBERS)"


abbreviation slot_of :: "u32 \<Rightarrow> nat" where
  "slot_of seq \<equiv> unat (get_circular_index seq)"



lemma server_arrays_wf_cong: "server_arrays sv' = server_arrays sv \<Longrightarrow> server_arrays_wf sv' = server_arrays_wf sv"
  by (simp add: server_arrays_wf_def)

lemma server_arrays_wf_some: "server_arrays_wf sv \<Longrightarrow> sv_client_ips sv \<noteq> None \<and> sv_client_ports sv \<noteq> None"
  by (auto simp: server_arrays_wf_def server_arrays_def)

lemma init_server_arrays_wf:
  "snd (init_server_tx_correlation alloc sv) \<Longrightarrow> server_arrays_wf (fst (init_server_tx_correlation alloc sv))"
  by (auto simp: init_server_tx_correlation_def server_arrays_wf_def server_arrays_def Let_def split: if_splits)








section \<open>The logs of the server\<close>

lemma return_account_log:
  assumes "sv_csv_enabled sv" and "server_roundtrip_entry sv req ts = Some e"
  shows "sv_csv_buffer (return_account req ts sv) = csv_offer e (sv_csv_buffer sv)"
  using assms server_roundtrip_entry_cong [of "on_server_stats f sv" sv for f] by (simp add: return_account_def Let_def)

lemma return_accounts_log:
  assumes "sv_csv_enabled sv" and "server_arrays_wf sv" and "ring_holds r xs (sv_csv_buffer sv)"
  shows "ring_holds r (xs @ map (\<lambda>i. the (server_roundtrip_entry sv (req i) (f i))) [0..<n])
    (sv_csv_buffer (fold (\<lambda>i. return_account (req i) (f i)) [0..<n] sv))"
proof (induction n)
  case (Suc n)
  let ?sv = "fold (\<lambda>i. return_account (req i) (f i)) [0..<n] sv"
  have arr: "server_arrays ?sv = server_arrays sv" by (rule fold_unchanged) simp
  have "server_frame ?sv = server_frame sv" by (rule fold_unchanged) simp
  then have en: "sv_csv_enabled ?sv" using assms(1) by (simp add: server_frame_def)
  obtain e where e: "server_roundtrip_entry sv (req n) (f n) = Some e"
    using assms(2) by (auto simp: server_arrays_wf_def server_arrays_def server_roundtrip_entry_def Let_def)
  have "sv_csv_buffer (return_account (req n) (f n) ?sv) = csv_offer e (sv_csv_buffer ?sv)"
    by (rule return_account_log [OF en]) (simp add: server_roundtrip_entry_cong [OF arr] e)
  with ring_holds_offer [OF Suc] e show ?case by simp
qed (simp add: assms(3))

lemma target_batch:
  assumes "return_queue_wf q" and "dequeue_return_packet_batch q (target_batch_size q) = (reqs, q')"
  shows "reqs = take BATCH_SIZE (return_queue_contents q)"
proof -
  have "reqs = take (nat (target_batch_size q)) (return_queue_contents q)"
    using dequeue_return_packet_batch_take [OF assms] by blast
  moreover have "0 < queue_depth q \<longleftrightarrow> 0 < length (return_queue_contents q)"
    unfolding return_queue_depth [symmetric] by (simp add: unat_gt_0 word_gt_0)
  then have "target_batch_size q = max (if 0 < length (return_queue_contents q) then int (min BATCH_SIZE (length (return_queue_contents q))) else 1) 1"
    unfolding target_batch_size_def return_queue_depth by simp
  then have "nat (target_batch_size q) = (if return_queue_contents q = [] then 1 else min BATCH_SIZE (length (return_queue_contents q)))"
    by (cases "return_queue_contents q") (auto simp: BATCH_SIZE_def max_def)
  ultimately show ?thesis by (auto simp: min_def)
qed

lemma server_tx_turn_log:
  assumes wf: "return_path_wf sv" and en: "sv_csv_enabled sv" and arr: "server_arrays_wf sv" and h: "ring_holds r xs (sv_csv_buffer sv)"
    and ok: "\<forall>n. tt_sendmmsg tt n \<le> int n" and turn: "server_tx_turn tt sv = (sv', sent)"
  shows "ring_holds r
    (xs @ (if 0 < tt_sendmmsg tt (min BATCH_SIZE (length (pending sv))) \<and> pending sv \<noteq> []
           then map (\<lambda>i. the (server_roundtrip_entry sv (pending sv ! i) (tt_system_time tt i))) [0..<length sent] else []))
    (sv_csv_buffer sv')"
proof -
  let ?q = "sv_tx_queue sv"
  obtain reqs q where d: "dequeue_return_packet_batch ?q (target_batch_size ?q) = (reqs, q)" by fastforce
  have reqs: "reqs = take BATCH_SIZE (pending sv)" using wf d by (intro target_batch) (simp_all add: return_path_wf_def)
  then have n: "length reqs = min BATCH_SIZE (length (pending sv))" and e: "reqs = [] \<longleftrightarrow> pending sv = []"
    by (auto simp: BATCH_SIZE_def)
  let ?k = "tt_sendmmsg tt (length reqs)"
  show ?thesis
  proof (cases "0 < ?k \<and> reqs \<noteq> []")
    case False
    then have "sv_csv_buffer sv' = sv_csv_buffer sv"
      using turn d by (auto simp: server_tx_turn_def Let_def split: if_splits)
    with False h n e show ?thesis by auto
  next
    case True
    let ?sv1 = "count_returned (nat ?k) (sv\<lparr>sv_tx_queue := q, sv_tx_packet_buffers := fill_return_batch reqs (sv_tx_packet_buffers sv)\<rparr>)"
    have sv': "sv' = fold (\<lambda>i. return_account (reqs ! i) (tt_system_time tt i)) [0..<nat ?k] ?sv1" "length sent = nat ?k"
      using turn d True by (auto simp: server_tx_turn_def Let_def)
    have arr1: "server_arrays ?sv1 = server_arrays sv" by simp
    note rows = server_roundtrip_entry_cong [OF arr1]
    have "ring_holds r (xs @ map (\<lambda>i. the (server_roundtrip_entry ?sv1 (reqs ! i) (tt_system_time tt i))) [0..<nat ?k]) (sv_csv_buffer sv')"
      unfolding sv'(1) using en h arr server_arrays_wf_cong [OF arr1] by (intro return_accounts_log) simp_all
    then have "ring_holds r (xs @ map (\<lambda>i. the (server_roundtrip_entry sv (reqs ! i) (tt_system_time tt i))) [0..<nat ?k]) (sv_csv_buffer sv')"
      unfolding rows .
    moreover have "reqs ! i = pending sv ! i" if "i < nat ?k" for i
      using that ok [rule_format, of "length reqs"] reqs by simp
    then have "map (\<lambda>i. the (server_roundtrip_entry sv (reqs ! i) (tt_system_time tt i))) [0..<nat ?k] =
        map (\<lambda>i. the (server_roundtrip_entry sv (pending sv ! i) (tt_system_time tt i))) [0..<nat ?k]" by simp
    ultimately show ?thesis using True sv'(2) e unfolding n by simp
  qed
qed

definition sv_tx_log_entry :: "server_state \<Rightarrow> errq_result \<Rightarrow> csv_entry_t" where
  "sv_tx_log_entry sv m =
     (let (seq_num, kernel_tx_ts) = (case m of EQ_msg bytes cmsgs \<Rightarrow> errq_event bytes cmsgs | _ \<Rightarrow> (0, zero_timespec));
          index = slot_of seq_num
      in create_csv_server_tx seq_num (the (sv_client_ips sv) ! index) (of_int (the (sv_client_ports sv) ! index))
           (timespec_ns kernel_tx_ts))"

lemma sv_tx_log_entry_cong: "server_arrays sv' = server_arrays sv \<Longrightarrow> sv_tx_log_entry sv' = sv_tx_log_entry sv"
  by (simp add: sv_tx_log_entry_def fun_eq_iff server_arrays_def)

text \<open>The TX log stands for the messages \<open>ms\<close>, in a ring with room for \<open>r\<close> entries, with the arrays of a fixed state.\<close>

definition server_logged :: "nat \<times> server_state \<Rightarrow> errq_result list \<Rightarrow> server_state \<Rightarrow> bool" where
  "server_logged a ms sv \<longleftrightarrow> sv_csv_enabled sv \<and> server_arrays_wf sv \<and> server_arrays sv = server_arrays (snd a) \<and>
     ring_holds (fst a) (map (sv_tx_log_entry (snd a)) ms) (sv_tx_csv_buffer sv)"

interpretation server_log: errq_logger server_tx_timestamp server_tx_active server_logged
proof unfold_locales
  fix a ms sv bytes cmsgs sv' k
  assume l: "server_logged a ms sv" and t: "server_tx_timestamp bytes cmsgs sv = (sv', k)"
  then have 1: "sv_csv_enabled sv" "sv_tx_csv_buffer sv \<noteq> None" "sv_client_ips sv \<noteq> None" "sv_client_ports sv \<noteq> None"
    using server_arrays_wf_some [of sv] by (auto simp: server_logged_def ring_holds_def)
  have fr: "server_frame sv' = server_frame sv" "server_arrays sv' = server_arrays sv"
    using server_tx_timestamp_frame [OF t] by simp_all
  have "k = 1 \<and> sv_tx_csv_buffer sv' = csv_offer (sv_tx_log_entry sv (EQ_msg bytes cmsgs)) (sv_tx_csv_buffer sv)"
    using 1 t by (auto simp: server_tx_timestamp_def sv_tx_log_entry_def Let_def split: prod.splits)
  moreover have "sv_tx_log_entry sv = sv_tx_log_entry (snd a)"
    using l by (intro sv_tx_log_entry_cong) (simp add: server_logged_def)
  ultimately show "k = 1 \<and> server_logged a (ms @ [EQ_msg bytes cmsgs]) sv'"
    using l fr server_frame_fields(1) [OF fr(1)] server_arrays_wf_cong [OF fr(2)] by (simp add: server_logged_def ring_holds_offer)
next
  fix a ms sv assume "server_logged a ms sv"
  then show "server_tx_active sv" by (auto simp: server_logged_def server_tx_active_def ring_holds_def)
qed

lemma server_oneway_run_log:
  assumes "server_oneway_run p tns sv = (sv', received)" and "sv_csv_enabled sv" and "ring_holds r xs (sv_csv_buffer sv)"
  shows "ring_holds r (xs @ map (\<lambda>(src, bytes, cmsgs, ts). server_oneway_entry ts src bytes cmsgs) received) (sv_csv_buffer sv') \<and>
    sv_total_packets_received sv' = sv_total_packets_received sv + of_nat (length received)"
  using assms
proof (induction tns arbitrary: sv sv' received xs)
  case (Cons tn tns)
  obtain sv1 r1 where t: "server_oneway_turn p tn sv = (sv1, r1)" by fastforce
  obtain rs where r: "server_oneway_run p tns sv1 = (sv', rs)" "received = r1 @ rs"
    using Cons.prems(1) t by (auto split: prod.splits)
  let ?row = "\<lambda>(src, bytes, cmsgs, ts). server_oneway_entry ts src bytes cmsgs"
  from t [unfolded server_oneway_turn_def] have "sv_csv_enabled sv1 \<and> ring_holds r (xs @ map ?row r1) (sv_csv_buffer sv1) \<and>
      sv_total_packets_received sv1 = sv_total_packets_received sv + of_nat (length r1)"
  proof (cases rule: server_recv_turn_cases)
    case idle
    with Cons.prems(2,3) server_frame_fields [OF idle(2)] show ?thesis by simp
  next
    case (packet check src bytes cmsgs)
    then show ?thesis using Cons.prems(2) ring_holds_offer [OF Cons.prems(3)]
      by (simp add: server_oneway_packet_def Let_def count_received_def on_server_stats_def split: prod.splits)
  qed
  with Cons.IH [OF r(1), of "xs @ map ?row r1"] r(2) show ?case by simp
qed simp

section \<open>Properties\<close>

text \<open>
  C9. However the threads of the round-trip server take turns, and whatever the calls of \<open>sendmmsg\<close> and \<open>sendto\<close> accept, refuse or cut short, the
  return packets it sends, followed by those still owed, are a subsequence of the answers to the packets it received:
  each goes to the sender's address, at the port the client asked for, and repeats the four bytes of the sequence number; none is invented,
  duplicated or reordered.  The counters agree with the packets.
\<close>

theorem server_answers_in_order:
  assumes "return_path_wf sv" and "pending sv = []" and "sv_total_packets_received sv = 0" and "sv_local_packets_sent sv = 0"
    and "list_all server_event_ok evs" and "server_run p evs sv = (sv', received, sent)"
  shows "subseq (sent @ map return_packet (pending sv')) (map echo (filter answerable received)) \<and>
    sv_total_packets_received sv' = of_nat (length received) \<and> sv_local_packets_sent sv' = of_nat (length sent)"
  using server_run_queue [OF assms(6,1,5)] assms(2-4) by simp

text \<open>
  C28. When \<open>sendmmsg\<close> always takes the whole batch and the queue has room for the requests, the server loses nothing: the sent packets
  followed by those in the queue are exactly the answers to all received packets of at least eight bytes, in the order of their arrival.
\<close>

theorem server_answers_complete:
  assumes "return_path_wf sv" and "pending sv = []" and "list_all sends_complete evs" and "server_run p evs sv = (sv', received, sent)"
    and "length (filter answerable received) \<le> return_queue_room (sv_tx_queue sv)"
  shows "sent @ map return_packet (pending sv') = map echo (filter answerable received)"
  using server_run_queue [OF assms(4,1) sends_complete_ok [OF assms(3)]] assms by simp


text \<open>
  A turn of the transmit thread logs one row for each packet that \<open>sendmmsg\<close> took, in order, and none for the packets that go out through
  the fallback \<open>sendto\<close>; the ring keeps the first rows that it has room for.
\<close>

theorem return_batch_logged:
  assumes "return_path_wf sv" and "sv_csv_enabled sv" and "server_arrays_wf sv" and "ring_holds r rows (sv_csv_buffer sv)"
    and "\<forall>n. tt_sendmmsg tt n \<le> int n" and "pending sv \<noteq> []" and "server_tx_turn tt sv = (sv', sent)"
  shows "ring_holds r (rows @ (if 0 < tt_sendmmsg tt (min BATCH_SIZE (length (pending sv)))
      then map (\<lambda>i. the (server_roundtrip_entry sv (pending sv ! i) (tt_system_time tt i))) [0..<length sent] else []))
    (sv_csv_buffer sv')"
  using server_tx_turn_log [OF assms(1-5,7)] assms(6) by simp

text \<open>
  The log of a one-way server has, in order of arrival, one row for every received packet, as far as the ring has room.
\<close>

lemma server_oneway_log_complete:
  assumes "sv_csv_enabled sv" and "sv_csv_buffer sv = Some b" and "csv_ring_wf b" and "csv_contents b = []"
    and "sv_total_packets_received sv = 0" and "server_oneway_run p tns sv = (sv', received)"
  shows "(\<exists>b'. sv_csv_buffer sv' = Some b' \<and> csv_contents b' =
      take (csv_room b) (map (\<lambda>(src, bytes, cmsgs, ts). server_oneway_entry ts src bytes cmsgs) received)) \<and>
    sv_total_packets_received sv' = of_nat (length received)"
proof -
  have "ring_holds (csv_room b) [] (sv_csv_buffer sv)" using assms by (simp add: ring_holds_def)
  from server_oneway_run_log [OF assms(6,1) this] assms(5) show ?thesis by (auto simp: ring_holds_def)
qed

text \<open>
  The drain at the end of a logging server's run ends with an empty error queue, and the TX log has one row for
  every queued timestamp, in order, with the address and port recorded for its sequence number, as far as the ring has room.
\<close>

theorem server_drain_complete:
  assumes "sv_csv_enabled sv" and "server_arrays_wf sv" and "sv_tx_csv_buffer sv = Some b" and "csv_ring_wf b" and "csv_contents b = []"
    and "list_all is_message q"
  shows "\<exists>sv' b'. server_drain q sv = (sv', []) \<and> sv_tx_csv_buffer sv' = Some b' \<and>
    csv_contents b' = take (csv_room b) (map (sv_tx_log_entry sv) q)"
proof -
  have "server_logged (csv_room b, sv) [] sv" using assms by (simp add: server_logged_def ring_holds_def)
  from server_log.drain_logs [OF this assms(6)] show ?thesis
    by (auto simp: server_drain_def server_logged_def ring_holds_def)
qed

text \<open>
  When \<open>sendmmsg\<close> would block, the requests of the batch have left the queue and no packet is sent for them.
\<close>

lemma blocked_batch_lost:
  assumes "return_path_wf sv" and "\<forall>n. tt_sendmmsg tt n = - 1" and "tt_would_block tt"
  shows "\<exists>sv'. server_tx_turn tt sv = (sv', []) \<and> pending sv' = drop BATCH_SIZE (pending sv)"
proof -
  obtain reqs q where d: "dequeue_return_packet_batch (sv_tx_queue sv) (target_batch_size (sv_tx_queue sv)) = (reqs, q)" by fastforce
  have wf: "return_queue_wf (sv_tx_queue sv)" using assms(1) by (simp add: return_path_wf_def)
  from dequeue_return_packet_batch_take [OF wf d] have "pending sv = reqs @ return_queue_contents q" by simp
  moreover from target_batch [OF wf d] have "reqs = take BATCH_SIZE (pending sv)" .
  ultimately have "return_queue_contents q = drop BATCH_SIZE (pending sv)" by (metis append_take_drop_id same_append_eq)
  then show ?thesis using assms(2,3) d by (auto simp: server_tx_turn_def Let_def)
qed

section \<open>Witnesses\<close>

definition sample_server_queue :: return_packet_queue where
  "sample_server_queue = \<lparr>rp_requests = map sample_request [0..<4], rp_head = 0, rp_tail = 0, rp_size_mask = 3\<rparr>"

definition sample_server :: server_state where
  "sample_server =
     \<lparr>sv_csv_enabled = True, sv_stats_config = \<lparr>sc_enabled = False, sc_buffer_size = 10000, sc_bin_width_us = 10, sc_max_bins = 1000\<rparr>,
      sv_stats = None, sv_tx_csv_buffer = None, sv_csv_buffer = None, sv_client_ips = None, sv_client_ports = None,
      sv_hw_rx_timestamps = None, sv_ker_rx_timestamps = None, sv_app_rx_timestamps = None, sv_tx_queue = sample_server_queue,
      sv_tx_packet_buffers = replicate BATCH_SIZE [0, 0, 0, 0], sv_pkt_hw_rx_ts = zero_timespec, sv_pkt_ker_rx_ts = zero_timespec,
      sv_check = (0, 0), sv_running = True, sv_total_packets_received = 0, sv_local_packets_sent = 0, sv_g_packets_received = 0,
      sv_g_packets_sent = 0, sv_g_tx_timestamp_processed = 0\<rparr>"

definition sample_recv_turn :: recv_turn where
  "sample_recv_turn =
     \<lparr>rv_graceful_shutdown = False, rv_cycles = 0, rv_now = 5, rv_cycles_after = 0,
      rv_result = Recv_packet (0x0A000001, 5000) [0, 0, 0, 7, 0, 0, 0x17, 0x70, 1, 2]
        [Timestamping \<lparr>tv_sec = 1, tv_nsec = 2\<rparr> zero_timespec \<lparr>tv_sec = 1, tv_nsec = 1\<rparr>],
      rv_app_ts = \<lparr>tv_sec = 1, tv_nsec = 3\<rparr>\<rparr>"

definition sample_tx_turn :: tx_turn where
  "sample_tx_turn = \<lparr>tt_system_time = (\<lambda>i. \<lparr>tv_sec = 2, tv_nsec = 0\<rparr>), tt_sendmmsg = int, tt_would_block = False, tt_sendto = (\<lambda>i. False)\<rparr>"

definition sample_server_params :: server_params where
  "sample_server_params = \<lparr>svp_time_seconds = 0, svp_start_time = 0, svp_max_cycles_between_checks = 1000\<rparr>"

lemma sample_server_wf: "return_path_wf sample_server" "pending sample_server = []"
proof -
  have "return_queue_wf sample_server_queue" "return_queue_contents sample_server_queue = []" by code_simp+
  then show "return_path_wf sample_server" "pending sample_server = []"
    by (simp_all add: sample_server_def return_path_wf_def list_all_length RETURN_PACKET_SIZE_def)
qed

lemma sample_receive:
  "server_roundtrip_turn sample_server_params sample_recv_turn sv =
     (server_roundtrip_packet \<lparr>tv_sec = 1, tv_nsec = 3\<rparr> (0x0A000001, 5000) [0, 0, 0, 7, 0, 0, 0x17, 0x70, 1, 2]
        [Timestamping \<lparr>tv_sec = 1, tv_nsec = 2\<rparr> zero_timespec \<lparr>tv_sec = 1, tv_nsec = 1\<rparr>] (sv\<lparr>sv_check := (1, 0)\<rparr>),
      [((0x0A000001, 5000), [0, 0, 0, 7, 0, 0, 0x17, 0x70, 1, 2],
        [Timestamping \<lparr>tv_sec = 1, tv_nsec = 2\<rparr> zero_timespec \<lparr>tv_sec = 1, tv_nsec = 1\<rparr>], \<lparr>tv_sec = 1, tv_nsec = 3\<rparr>)])"
  if "sv_running sv" "sv_check sv = (0, 0)"
  using that by (simp add: server_roundtrip_turn_def server_recv_turn_def sample_server_params_def sample_recv_turn_def
      run_time_check_def MAX_PACKET_SIZE_def Let_def)

lemma sample_server_fields: "sv_running sample_server" "sv_check sample_server = (0, 0)"
  "sv_total_packets_received sample_server = 0" "sv_local_packets_sent sample_server = 0" "sv_csv_enabled sample_server"
  "return_queue_room (sv_tx_queue sample_server) = 3"
  by (simp_all add: sample_server_def sample_server_queue_def return_queue_room_def)

lemma sample_server_run:
  "\<exists>sv' sent cmsgs ts. server_run sample_server_params [S_receive sample_recv_turn, S_transmit sample_tx_turn] sample_server =
     (sv', [((0x0A000001, 5000), [0, 0, 0, 7, 0, 0, 0x17, 0x70, 1, 2], cmsgs, ts)], sent)"
  by (simp add: sample_receive sample_server_fields split: prod.splits)

lemma sample_answers:
  "map echo (filter answerable [((0x0A000001, 5000), [0, 0, 0, 7, 0, 0, 0x17, 0x70, 1, 2], cmsgs, ts)]) =
     [((0x0A000001, 6000), [0, 0, 0, 7])]"
  by (simp add: answerable_def echo_def ntohl_at_def)

theorem server_answers_in_order_witness:
  "\<exists>sv' received sent. server_run sample_server_params [S_receive sample_recv_turn, S_transmit sample_tx_turn] sample_server =
     (sv', received, sent) \<and> subseq (sent @ map return_packet (pending sv')) [((0x0A000001, 6000), [0, 0, 0, 7])] \<and>
     sv_total_packets_received sv' = 1"
proof -
  obtain sv' sent cmsgs ts where
    r: "server_run sample_server_params [S_receive sample_recv_turn, S_transmit sample_tx_turn] sample_server =
     (sv', [((0x0A000001, 5000), [0, 0, 0, 7, 0, 0, 0x17, 0x70, 1, 2], cmsgs, ts)], sent)"
    using sample_server_run by (elim exE)
  have "list_all server_event_ok [S_receive sample_recv_turn, S_transmit sample_tx_turn]"
    by (simp add: server_event_ok_def sample_tx_turn_def)
  from server_answers_in_order [OF sample_server_wf sample_server_fields(3,4) this r] r sample_answers show ?thesis by auto
qed

theorem server_answers_complete_witness:
  "\<exists>sv' received sent. server_run sample_server_params [S_receive sample_recv_turn, S_transmit sample_tx_turn] sample_server =
     (sv', received, sent) \<and> sent @ map return_packet (pending sv') = [((0x0A000001, 6000), [0, 0, 0, 7])]"
proof -
  obtain sv' sent cmsgs ts where
    r: "server_run sample_server_params [S_receive sample_recv_turn, S_transmit sample_tx_turn] sample_server =
     (sv', [((0x0A000001, 5000), [0, 0, 0, 7, 0, 0, 0x17, 0x70, 1, 2], cmsgs, ts)], sent)"
    using sample_server_run by (elim exE)
  have "list_all sends_complete [S_receive sample_recv_turn, S_transmit sample_tx_turn]"
    by (simp add: sends_complete_def sample_tx_turn_def)
  from server_answers_complete [OF sample_server_wf this r] r sample_answers sample_server_fields(6) show ?thesis
    by (auto simp: answerable_def)
qed

definition sample_logging_server :: server_state where
  "sample_logging_server = (fst (init_server_tx_correlation (\<lambda>k. (True, False)) sample_server))\<lparr>sv_csv_buffer := Some sample_ring,
     sv_tx_csv_buffer := Some sample_ring\<rparr>"

lemma sample_logging_server_wf: "server_arrays_wf sample_logging_server"
proof -
  have "server_arrays_wf (fst (init_server_tx_correlation (\<lambda>k. (True, False)) sample_server))"
    by (rule init_server_arrays_wf) (simp add: init_server_tx_correlation_def)
  then show ?thesis by (simp add: sample_logging_server_def server_arrays_wf_def)
qed


definition sample_pending_server :: server_state where
  "sample_pending_server = sample_logging_server\<lparr>sv_tx_queue := sample_queue\<rparr>"

lemma sample_pending_server_wf:
  "return_path_wf sample_pending_server" "pending sample_pending_server = [sample_request 3, sample_request 0]"
  "server_arrays_wf sample_pending_server" "sv_csv_enabled sample_pending_server" "sv_csv_buffer sample_pending_server = Some sample_ring"
proof -
  have "return_queue_wf sample_queue" "return_queue_contents sample_queue = [sample_request 3, sample_request 0]" by code_simp+
  then show "return_path_wf sample_pending_server" "pending sample_pending_server = [sample_request 3, sample_request 0]"
    "sv_csv_enabled sample_pending_server" "sv_csv_buffer sample_pending_server = Some sample_ring"
    by (simp_all add: sample_pending_server_def sample_logging_server_def init_server_tx_correlation_def sample_server_def
      return_path_wf_def list_all_length RETURN_PACKET_SIZE_def sample_request_def nth_Cons')
  show "server_arrays_wf sample_pending_server"
    using sample_logging_server_wf server_arrays_wf_cong [of sample_pending_server sample_logging_server]
    by (simp add: sample_pending_server_def)
qed

theorem return_batch_logged_witness:
  "\<exists>sv' sent. server_tx_turn sample_tx_turn sample_pending_server = (sv', sent) \<and>
     ring_holds 3 (map (\<lambda>i. the (server_roundtrip_entry sample_pending_server (pending sample_pending_server ! i) \<lparr>tv_sec = 2, tv_nsec = 0\<rparr>))
       [0..<length sent]) (sv_csv_buffer sv')"
proof -
  obtain sv' sent where t: "server_tx_turn sample_tx_turn sample_pending_server = (sv', sent)" by fastforce
  have h: "ring_holds 3 [] (sv_csv_buffer sample_pending_server)"
    by (simp add: ring_holds_def sample_pending_server_wf sample_ring_wf sample_ring_empty)
  from return_batch_logged [OF sample_pending_server_wf(1,4,3) h _ _ t] show ?thesis
    using t by (simp add: sample_tx_turn_def sample_pending_server_wf(2) BATCH_SIZE_def)
qed

lemma server_oneway_log_complete_witness:
  "\<exists>sv' received b'. server_oneway_run sample_server_params [sample_recv_turn] sample_logging_server = (sv', received) \<and>
     sv_csv_buffer sv' = Some b' \<and> length (csv_contents b') = 1"
proof -
  obtain sv' received where r: "server_oneway_run sample_server_params [sample_recv_turn] sample_logging_server = (sv', received)"
    by fastforce
  have "length received = 1"
    using r by (auto simp: server_oneway_turn_def server_recv_turn_def sample_server_params_def sample_recv_turn_def run_time_check_def
      sample_logging_server_def init_server_tx_correlation_def sample_server_def Let_def)
  moreover have "sv_csv_enabled sample_logging_server" "sv_csv_buffer sample_logging_server = Some sample_ring"
    "sv_total_packets_received sample_logging_server = 0"
    by (simp_all add: sample_logging_server_def init_server_tx_correlation_def sample_server_def)
  ultimately show ?thesis
    using server_oneway_log_complete [OF _ _ sample_ring_wf sample_ring_empty(1) _ r] r by (auto simp: sample_ring_empty)
qed

theorem server_drain_complete_witness:
  "snd (server_drain [EQ_msg [0, 0, 0, 7] [Ip_recverr 1]] sample_logging_server) = []"
proof -
  have "sv_csv_enabled sample_logging_server" "sv_tx_csv_buffer sample_logging_server = Some sample_ring"
    by (simp_all add: sample_logging_server_def init_server_tx_correlation_def sample_server_def)
  from server_drain_complete [OF this(1) sample_logging_server_wf this(2) sample_ring_wf sample_ring_empty(1),
      of "[EQ_msg [0, 0, 0, 7] [Ip_recverr 1]]"]
  show ?thesis by (auto simp: is_message_def)
qed

lemma blocked_batch_lost_witness:
  "\<exists>sv'. server_tx_turn (sample_tx_turn\<lparr>tt_sendmmsg := (\<lambda>n. - 1), tt_would_block := True\<rparr>) sample_pending_server = (sv', []) \<and>
     pending sv' = []"
  using blocked_batch_lost [OF sample_pending_server_wf(1), of "sample_tx_turn\<lparr>tt_sendmmsg := (\<lambda>n. - 1), tt_would_block := True\<rparr>"]
  by (simp add: sample_pending_server_wf BATCH_SIZE_def)

end
