(* ===== verification/Engine_Setup.thy ===== *)
theory Engine_Setup
  imports C_Prelude
begin

text \<open>
  The set-up and the end of the four engines (\<open>run_client_oneway\<close>, \<open>run_client_roundtrip\<close>, \<open>run_server_oneway\<close>,
  \<open>run_server_roundtrip\<close>) as far as they acquire and release sockets, log buffers, threads and memory, together with the functions of
  \<open>timestamp_common.c\<close> they call for that.  The results of the system calls are arguments; log messages are left out.  A state
  records what is held and what has been released without being held.
\<close>

section \<open>Resources\<close>

datatype resource =
    Tx_socket | Rx_socket | Tx_csv | Main_csv | Correlation | Thread_data | Ts_thread | Rate_alarm
  | Packet_buffers | Msgs | Iovecs | Return_queue | Tx_thread | Rx_thread | Thread_attr

record setup_state =
  su_held :: "resource list"
  su_bad :: "resource list"

definition nothing_held :: setup_state where
  "nothing_held = \<lparr>su_held = [], su_bad = []\<rparr>"

definition take_resource :: "resource \<Rightarrow> setup_state \<Rightarrow> setup_state" where
  "take_resource r s = s\<lparr>su_held := r # su_held s\<rparr>"

text \<open>\<open>close\<close>, \<open>free\<close>, \<open>pthread_join\<close>; and the destructors that accept a null pointer.\<close>

definition release :: "resource \<Rightarrow> setup_state \<Rightarrow> setup_state" where
  "release r s = (if r \<in> set (su_held s) then s\<lparr>su_held := remove1 r (su_held s)\<rparr> else s\<lparr>su_bad := su_bad s @ [r]\<rparr>)"

definition release_if :: "resource \<Rightarrow> setup_state \<Rightarrow> setup_state" where
  "release_if r s = (if r \<in> set (su_held s) then release r s else s)"

section \<open>Sockets\<close>

datatype sockopt =
    SO_SNDBUF | SO_RCVBUF | SO_REUSEADDR | SO_REUSEPORT | SO_PRIORITY | SO_INCOMING_CPU | SO_BUSY_POLL | SO_ZEROCOPY
  | O_NONBLOCK | FD_CLOEXEC | SO_BINDTODEVICE | SO_TIMESTAMPING_TX | SO_TIMESTAMPING_RX

text \<open>The options that take effect and whether the function returns 0; only the non-blocking mode is required.\<close>

definition optimize_socket_performance :: "(sockopt \<Rightarrow> bool) \<Rightarrow> bool \<Rightarrow> sockopt list \<times> bool" where
  "optimize_socket_performance ok is_tx_socket =
     (let set_opts = filter ok ([SO_SNDBUF, SO_RCVBUF, SO_REUSEADDR, SO_REUSEPORT, SO_PRIORITY, SO_INCOMING_CPU, SO_BUSY_POLL] @
                                (if is_tx_socket then [SO_ZEROCOPY] else []))
      in if \<not> ok O_NONBLOCK then (set_opts, False)
         else (set_opts @ [O_NONBLOCK] @ filter ok [FD_CLOEXEC], True))"

definition setup_tx_timestamping :: "(sockopt \<Rightarrow> bool) \<Rightarrow> bool" where
  "setup_tx_timestamping ok = ok SO_TIMESTAMPING_TX"

definition setup_timestamping :: "(sockopt \<Rightarrow> bool) \<Rightarrow> bool" where
  "setup_timestamping ok = ok SO_TIMESTAMPING_RX"

section \<open>Threads\<close>

text \<open>The results of the four \<open>pthread_attr\<close> calls and of \<open>pthread_create\<close>; a failure to set the affinity is only logged.\<close>

record attr_results =
  at_init :: bool
  at_policy :: bool
  at_param :: bool
  at_inherit :: bool
  at_create :: bool

definition setup_realtime_thread_attributes :: "attr_results \<Rightarrow> setup_state \<Rightarrow> setup_state \<times> bool" where
  "setup_realtime_thread_attributes at s =
     (if \<not> at_init at then (s, False)
      else let s1 = take_resource Thread_attr s
           in if \<not> at_policy at then (release Thread_attr s1, False)
              else if \<not> at_param at then (release Thread_attr s1, False)
              else if \<not> at_inherit at then (release Thread_attr s1, False)
              else (s1, True))"

definition create_realtime_thread :: "attr_results \<Rightarrow> resource \<Rightarrow> setup_state \<Rightarrow> setup_state \<times> bool" where
  "create_realtime_thread at thread s =
     (let (s1, ok) = setup_realtime_thread_attributes at s
      in if \<not> ok then (s1, False)
         else let s2 = release Thread_attr (if at_create at then take_resource thread s1 else s1)
              in if \<not> at_create at then (s2, False) else (s2, True))"

definition start_tx_timestamp_processing_thread :: "bool \<Rightarrow> attr_results \<Rightarrow> setup_state \<Rightarrow> setup_state \<times> bool" where
  "start_tx_timestamp_processing_thread malloc_ok at s =
     (if \<not> malloc_ok then (s, False)
      else let (s1, ok) = create_realtime_thread at Ts_thread (take_resource Thread_data s)
           in if \<not> ok then (release Thread_data s1, False) else (s1, True))"

text \<open>The result of \<open>pthread_timedjoin_np\<close>; after a time-out the thread is cancelled and joined.\<close>

datatype join_result = Joined | Timed_out | Join_failed

definition stop_tx_timestamp_processing_thread :: "join_result \<Rightarrow> setup_state \<Rightarrow> setup_state" where
  "stop_tx_timestamp_processing_thread join s =
     release Thread_data (if join = Joined then release Ts_thread s else if join = Timed_out then release Ts_thread s else s)"

text \<open>
  \<open>SO_ERROR\<close> of the socket, if it can be read, and the result of peeking at the error queue; the result is 0, -1 for an overflow, -2 for another error.
\<close>

datatype errno = E_none | E_again | E_nobufs | E_other

definition monitor_error_queue_health :: "errno option \<Rightarrow> errno \<Rightarrow> int" where
  "monitor_error_queue_health socket_error peek =
     (if socket_error = Some E_nobufs then - 1
      else if socket_error \<noteq> None \<and> socket_error \<noteq> Some E_none then - 2
      else if peek = E_again then 0 else if peek = E_nobufs then - 1 else 0)"

section \<open>The engines\<close>

text \<open>
  What a run depends on: the configuration, the results of the calls, for the arrays whether \<open>aligned_alloc\<close> or else \<open>calloc\<close> succeeds,
  and the results of joining the threads.
\<close>

datatype call = Call_socket | Call_rx_socket | Call_bind | Call_tx_csv | Call_main_csv | Call_correlation | Call_malloc | Call_inet_pton | Call_connect | Call_queue

record setup_env =
  se_csv :: bool
  se_tx_interface :: bool
  se_rx_interface :: bool
  se_ok :: "call \<Rightarrow> bool"
  se_sockopt :: "resource \<Rightarrow> sockopt \<Rightarrow> bool"
  se_alloc :: "resource \<Rightarrow> bool \<times> bool"
  se_attr :: "resource \<Rightarrow> attr_results"
  se_ts_join :: join_result
  se_join :: join_result
  se_cancel :: bool

text \<open>A step goes on (\<open>Inr\<close>) or returns \<open>EXIT_FAILURE\<close> (\<open>Inl\<close>) after its clean-up actions.\<close>

type_synonym setup_step = "setup_state \<Rightarrow> setup_state + setup_state"

definition cleanup :: "(setup_state \<Rightarrow> setup_state) list \<Rightarrow> setup_state \<Rightarrow> setup_state" where
  "cleanup actions s = fold (\<lambda>f. f) actions s"

definition require :: "bool \<Rightarrow> (setup_state \<Rightarrow> setup_state) list \<Rightarrow> setup_step" where
  "require ok actions s = (if ok then Inr s else Inl (cleanup actions s))"

definition acquire :: "bool \<Rightarrow> resource \<Rightarrow> (setup_state \<Rightarrow> setup_state) list \<Rightarrow> setup_step" where
  "acquire ok r actions s = (if ok then Inr (take_resource r s) else Inl (cleanup actions s))"

definition acquire_memory :: "setup_env \<Rightarrow> resource \<Rightarrow> (setup_state \<Rightarrow> setup_state) list \<Rightarrow> setup_step" where
  "acquire_memory env r = acquire (fst (se_alloc env r) \<or> snd (se_alloc env r)) r"

definition only_when :: "bool \<Rightarrow> setup_step \<Rightarrow> setup_step" where
  "only_when b f s = (if b then f s else Inr s)"

definition start_thread :: "(setup_state \<Rightarrow> setup_state \<times> bool) \<Rightarrow> (setup_state \<Rightarrow> setup_state) list \<Rightarrow> setup_step" where
  "start_thread start actions s = (case start s of (s1, ok) \<Rightarrow> if ok then Inr s1 else Inl (cleanup actions s1))"

definition attempt :: "(setup_state \<Rightarrow> setup_state \<times> bool) \<Rightarrow> setup_step" where
  "attempt start s = Inr (fst (start s))"

fun run_steps :: "setup_step list \<Rightarrow> setup_step" where
  "run_steps [] s = Inr s"
| "run_steps (f # fs) s = (case f s of Inl e \<Rightarrow> Inl e | Inr s' \<Rightarrow> run_steps fs s')"

abbreviation opt_ok :: "setup_env \<Rightarrow> resource \<Rightarrow> bool \<Rightarrow> bool" where
  "opt_ok env sock is_tx \<equiv> snd (optimize_socket_performance (se_sockopt env sock) is_tx)"

abbreviation ts_thread :: "setup_env \<Rightarrow> setup_state \<Rightarrow> setup_state \<times> bool" where
  "ts_thread env \<equiv> start_tx_timestamp_processing_thread (se_ok env Call_malloc) (se_attr env Ts_thread)"

text \<open>The first part of both client engines, up to the start of the timestamp thread and of the rate report.\<close>

definition client_tx_setup :: "setup_env \<Rightarrow> setup_step list" where
  "client_tx_setup env =
     [acquire (se_ok env Call_socket) Tx_socket [],
      require (opt_ok env Tx_socket True) [release Tx_socket],
      only_when (se_tx_interface env) (require (se_sockopt env Tx_socket SO_BINDTODEVICE) [release Tx_socket]),
      require (setup_tx_timestamping (se_sockopt env Tx_socket)) [release Tx_socket],
      only_when (se_csv env) (acquire (se_ok env Call_tx_csv) Tx_csv [release Tx_socket]),
      acquire (se_ok env Call_correlation) Correlation [release_if Tx_csv, release Tx_socket],
      start_thread (ts_thread env) [release_if Tx_csv, release_if Correlation, release Tx_socket],
      acquire True Rate_alarm []]"

text \<open>The buffers of a batch.\<close>

definition client_buffers :: "setup_env \<Rightarrow> setup_step list" where
  "client_buffers env =
     [acquire_memory env Packet_buffers [release Tx_socket],
      acquire_memory env Msgs [release Packet_buffers, release Tx_socket],
      acquire_memory env Iovecs [release Packet_buffers, release Msgs, release Tx_socket]]"

definition client_oneway_setup :: "setup_env \<Rightarrow> setup_step list" where
  "client_oneway_setup env = client_tx_setup env @
     [only_when (se_csv env) (acquire (se_ok env Call_main_csv) Main_csv [release Tx_socket]),
      require (se_ok env Call_inet_pton) [release_if Main_csv, release Tx_socket],
      require (se_ok env Call_connect) [release_if Main_csv, release Tx_socket]] @ client_buffers env"

definition client_oneway_finish :: "setup_env \<Rightarrow> setup_state \<Rightarrow> setup_state" where
  "client_oneway_finish env = cleanup
     [stop_tx_timestamp_processing_thread (se_ts_join env), release Tx_socket, release_if Tx_csv, release_if Main_csv, release Rate_alarm,
      release Packet_buffers, release Msgs, release Iovecs, release_if Correlation]"

text \<open>A round-trip client goes on when its receive thread cannot be created.\<close>

definition client_rx_setup :: "setup_env \<Rightarrow> setup_step list" where
  "client_rx_setup env =
     [acquire (se_ok env Call_rx_socket) Rx_socket [release Tx_socket],
      require (opt_ok env Rx_socket False) [release Tx_socket, release Rx_socket],
      require (setup_timestamping (se_sockopt env Rx_socket)) [release Tx_socket, release Rx_socket],
      only_when (se_rx_interface env) (require (se_sockopt env Rx_socket SO_BINDTODEVICE) [release Tx_socket, release Rx_socket]),
      require (se_ok env Call_bind) [release Tx_socket, release Rx_socket]]"

definition client_roundtrip_setup :: "setup_env \<Rightarrow> setup_step list" where
  "client_roundtrip_setup env = client_tx_setup env @ client_rx_setup env @
     [only_when (se_csv env) (acquire (se_ok env Call_main_csv) Main_csv [release Tx_socket, release Rx_socket]),
      require (se_ok env Call_inet_pton) [release Rx_socket, release Tx_socket],
      require (se_ok env Call_connect) [release Rx_socket, release Tx_socket]] @ client_buffers env @
     [attempt (create_realtime_thread (se_attr env Rx_thread) Rx_thread)]"

text \<open>The socket is closed and the thread joined, when it was created.\<close>

definition stop_rx_thread :: "setup_env \<Rightarrow> setup_state \<Rightarrow> setup_state" where
  "stop_rx_thread env s =
     (if Rx_thread \<notin> set (su_held s) then s
      else let s1 = release Rx_socket s
           in if se_join env = Joined then release Rx_thread s1
              else if se_join env = Timed_out \<and> se_cancel env then release Rx_thread s1 else s1)"

definition client_roundtrip_finish :: "setup_env \<Rightarrow> setup_state \<Rightarrow> setup_state" where
  "client_roundtrip_finish env = cleanup
     [stop_tx_timestamp_processing_thread (se_ts_join env), stop_rx_thread env, release Tx_socket, release_if Tx_csv, release_if Main_csv,
      release Rate_alarm, release Packet_buffers, release Msgs, release Iovecs, release_if Correlation]"

definition server_oneway_setup :: "setup_env \<Rightarrow> setup_step list" where
  "server_oneway_setup env =
     [acquire (se_ok env Call_socket) Rx_socket [],
      require (opt_ok env Rx_socket False) [release Rx_socket],
      require (setup_timestamping (se_sockopt env Rx_socket)) [release Rx_socket, release Rx_socket],
      require (se_sockopt env Rx_socket SO_BINDTODEVICE) [release Rx_socket],
      require (se_ok env Call_bind) [release Rx_socket],
      only_when (se_csv env) (acquire (se_ok env Call_main_csv) Main_csv [release Rx_socket]),
      acquire True Rate_alarm []]"

definition server_oneway_finish :: "setup_state \<Rightarrow> setup_state" where
  "server_oneway_finish = cleanup [release Rx_socket, release_if Main_csv, release Rate_alarm]"

text \<open>The round-trip server: its sockets and the timestamp thread, the receive socket, and the transmit thread with its buffers.\<close>

abbreviation both_sockets :: "(setup_state \<Rightarrow> setup_state) list" where
  "both_sockets \<equiv> [release Rx_socket, release Tx_socket]"

definition server_tx_setup :: "setup_env \<Rightarrow> setup_step list" where
  "server_tx_setup env =
     [acquire (se_ok env Call_socket) Rx_socket [],
      acquire (se_ok env Call_rx_socket) Tx_socket [release Rx_socket],
      require (se_sockopt env Tx_socket SO_BINDTODEVICE) both_sockets,
      require (opt_ok env Tx_socket True) both_sockets,
      require (opt_ok env Rx_socket False) both_sockets,
      require (setup_tx_timestamping (se_sockopt env Tx_socket)) both_sockets,
      only_when (se_csv env) (acquire (se_ok env Call_tx_csv) Tx_csv both_sockets),
      acquire (se_ok env Call_correlation) Correlation (release_if Tx_csv # both_sockets),
      start_thread (ts_thread env) (release_if Tx_csv # release_if Correlation # both_sockets)]"

definition server_rx_setup :: "setup_env \<Rightarrow> setup_step list" where
  "server_rx_setup env =
     [require (setup_timestamping (se_sockopt env Rx_socket)) [release Rx_socket, release Rx_socket],
      require (se_sockopt env Rx_socket SO_BINDTODEVICE) both_sockets,
      require (se_ok env Call_bind) both_sockets,
      only_when (se_csv env) (acquire (se_ok env Call_main_csv) Main_csv both_sockets),
      acquire True Rate_alarm []]"

definition server_thread_setup :: "setup_env \<Rightarrow> setup_step list" where
  "server_thread_setup env =
     [acquire (se_ok env Call_queue) Return_queue (release_if Main_csv # both_sockets),
      acquire_memory env Msgs (release Return_queue # release_if Main_csv # both_sockets),
      acquire_memory env Iovecs (release Msgs # release Return_queue # release_if Main_csv # both_sockets),
      acquire_memory env Packet_buffers (release Msgs # release Iovecs # release Return_queue # release_if Main_csv # both_sockets),
      start_thread (create_realtime_thread (se_attr env Tx_thread) Tx_thread) (release Return_queue # release_if Main_csv # both_sockets)]"

definition server_roundtrip_setup :: "setup_env \<Rightarrow> setup_step list" where
  "server_roundtrip_setup env = server_tx_setup env @ server_rx_setup env @ server_thread_setup env"

definition server_roundtrip_finish :: "setup_env \<Rightarrow> setup_state \<Rightarrow> setup_state" where
  "server_roundtrip_finish env = cleanup
     [stop_tx_timestamp_processing_thread (se_ts_join env),
      (\<lambda>s. if se_join env = Joined then release Tx_thread s else s),
      release Msgs, release Iovecs, release Packet_buffers, release Rx_socket, release Tx_socket, release Return_queue,
      release_if Correlation, release_if Main_csv, release_if Tx_csv, release Rate_alarm]"

section \<open>Evaluation of a set-up\<close>

definition thread_created :: "attr_results \<Rightarrow> bool" where
  "thread_created at \<longleftrightarrow> at_init at \<and> at_policy at \<and> at_param at \<and> at_inherit at \<and> at_create at"

lemma thread_steps [simp]:
  "create_realtime_thread at r s = (if thread_created at then (take_resource r s, True) else (s, False))"
  if "Thread_attr \<notin> set (su_held s)" "r \<noteq> Thread_attr"
  using that
  by (simp add: thread_created_def create_realtime_thread_def setup_realtime_thread_attributes_def take_resource_def release_def Let_def)

lemma ts_thread_steps:
  "start_tx_timestamp_processing_thread malloc_ok at s =
     (if malloc_ok \<and> thread_created at
      then (take_resource Ts_thread (take_resource Thread_data s), True) else (s, False))"
  if "Thread_attr \<notin> set (su_held s)" "Thread_data \<notin> set (su_held s)"
  using that by (simp add: start_tx_timestamp_processing_thread_def Let_def nothing_held_def take_resource_def release_def)

lemma run_steps_append: "run_steps (fs @ gs) s = (case run_steps fs s of Inl e \<Rightarrow> Inl e | Inr s' \<Rightarrow> run_steps gs s')"
  by (induction fs arbitrary: s) (auto split: sum.splits)

text \<open>Evaluation on a state that is given by its two lists.\<close>

lemma state_steps:
  "take_resource r \<lparr>su_held = h, su_bad = b\<rparr> = \<lparr>su_held = r # h, su_bad = b\<rparr>"
  "release r \<lparr>su_held = h, su_bad = b\<rparr> = (if r \<in> set h then \<lparr>su_held = remove1 r h, su_bad = b\<rparr> else \<lparr>su_held = h, su_bad = b @ [r]\<rparr>)"
  "release_if r \<lparr>su_held = h, su_bad = b\<rparr> = (if r \<in> set h then \<lparr>su_held = remove1 r h, su_bad = b\<rparr> else \<lparr>su_held = h, su_bad = b\<rparr>)"
  "cleanup [] s = s" "cleanup (f # fs) s = cleanup fs (f s)"
  by (simp_all add: take_resource_def release_def release_if_def cleanup_def)

lemmas setup_step_defs = acquire_def require_def acquire_memory_def only_when_def start_thread_def attempt_def state_steps

lemmas server_roundtrip_defs = server_roundtrip_setup_def server_tx_setup_def server_rx_setup_def server_thread_setup_def

lemma client_tx_setup_cases:
  obtains (failed) "run_steps (client_tx_setup env) nothing_held = Inl nothing_held"
  | (ready) "run_steps (client_tx_setup env) nothing_held =
      Inr \<lparr>su_held = [Rate_alarm, Ts_thread, Thread_data, Correlation] @ (if se_csv env then [Tx_csv] else []) @ [Tx_socket], su_bad = []\<rparr>"
proof (cases "\<exists>e. run_steps (client_tx_setup env) nothing_held = Inl e")
  case True
  then have "run_steps (client_tx_setup env) nothing_held = Inl nothing_held"
    by (auto simp: client_tx_setup_def nothing_held_def setup_step_defs ts_thread_steps split: if_splits)
  then show ?thesis by (rule failed)
next
  case False
  then have "run_steps (client_tx_setup env) nothing_held =
      Inr \<lparr>su_held = [Rate_alarm, Ts_thread, Thread_data, Correlation] @ (if se_csv env then [Tx_csv] else []) @ [Tx_socket], su_bad = []\<rparr>"
    by (auto simp: client_tx_setup_def nothing_held_def setup_step_defs ts_thread_steps split: if_splits)
  then show ?thesis by (rule ready)
qed


lemma client_roundtrip_setup_ready:
  assumes "run_steps (client_roundtrip_setup env) nothing_held = Inr s"
  shows "s = \<lparr>su_held = (if thread_created (se_attr env Rx_thread) then [Rx_thread] else []) @
    [Iovecs, Msgs, Packet_buffers] @ (if se_csv env then [Main_csv] else []) @
    [Rx_socket, Rate_alarm, Ts_thread, Thread_data, Correlation] @ (if se_csv env then [Tx_csv] else []) @ [Tx_socket], su_bad = []\<rparr>"
proof (cases rule: client_tx_setup_cases [of env])
  case failed
  with assms show ?thesis by (simp add: client_roundtrip_setup_def run_steps_append)
next
  case ready
  with assms show ?thesis
    by (simp add: client_roundtrip_setup_def client_rx_setup_def run_steps_append client_buffers_def setup_step_defs nothing_held_def split: if_splits)
qed



lemmas finish_defs = client_oneway_finish_def client_roundtrip_finish_def server_oneway_finish_def server_roundtrip_finish_def
  stop_tx_timestamp_processing_thread_def stop_rx_thread_def state_steps nothing_held_def

section \<open>Properties\<close>


text \<open>
  C39. A failing set-up: either everything acquired so far has been released, or the timestamp thread has been left running with its socket
  closed.  Nothing is released twice, except that the servers close the receive socket twice when its timestamping cannot be
  enabled.
\<close>

theorem failing_setup_releases:
  assumes "engine \<in> {client_oneway_setup, client_roundtrip_setup, server_oneway_setup, server_roundtrip_setup}"
    and "run_steps (engine env) nothing_held = Inl s"
  shows "(su_held s = [] \<or> Ts_thread \<in> set (su_held s)) \<and>
    su_bad s \<in> {[], [Rx_socket]} \<and>
    (su_bad s = [Rx_socket] \<longrightarrow> engine \<in> {server_oneway_setup, server_roundtrip_setup} \<and> \<not> setup_timestamping (se_sockopt env Rx_socket))"
proof -
  consider "engine = client_oneway_setup" | "engine = client_roundtrip_setup" | "engine = server_oneway_setup" | "engine = server_roundtrip_setup"
    using assms(1) by blast
  then show ?thesis
  proof cases
    case 1
    show ?thesis
      using assms(2) unfolding 1
      by (cases rule: client_tx_setup_cases [of env])
        (auto simp: client_oneway_setup_def run_steps_append client_buffers_def setup_step_defs nothing_held_def split: if_splits)
  next
    case 2
    show ?thesis
      using assms(2) unfolding 2
      by (cases rule: client_tx_setup_cases [of env])
        (auto simp: client_roundtrip_setup_def client_rx_setup_def run_steps_append client_buffers_def setup_step_defs nothing_held_def split: if_splits)
  next
    case 3
    show ?thesis using assms(2) unfolding 3
      by (auto simp: server_oneway_setup_def nothing_held_def setup_step_defs split: if_splits)
  next
    case 4
    show ?thesis using assms(2) unfolding 4
      by (auto simp: server_roundtrip_defs nothing_held_def setup_step_defs ts_thread_steps Let_def split: if_splits)
  qed
qed

text \<open>
  A round-trip client whose receive thread could not be created runs without it and never closes its receive socket.
\<close>

lemma rx_socket_leaks_without_thread:
  assumes "run_steps (client_roundtrip_setup env) nothing_held = Inr s" and "\<not> thread_created (se_attr env Rx_thread)"
    and "se_ts_join env \<noteq> Join_failed"
  shows "client_roundtrip_finish env s = \<lparr>su_held = [Rx_socket], su_bad = []\<rparr>"
  using client_roundtrip_setup_ready [OF assms(1)] assms(2,3) by (cases "se_ts_join env"; cases "se_csv env") (simp_all add: finish_defs)

text \<open>
  A failing start of a thread leaves no attributes and no thread data behind, and a successful one only the thread and its data.
\<close>

lemma ts_thread_start_exact:
  assumes "start_tx_timestamp_processing_thread malloc_ok at nothing_held = (s, ok)"
  shows "su_bad s = [] \<and> su_held s = (if ok then [Ts_thread, Thread_data] else [])"
  using assms by (simp add: ts_thread_steps nothing_held_def state_steps split: if_splits) auto

section \<open>Witnesses\<close>

definition sample_env :: setup_env where
  "sample_env = \<lparr>se_csv = True, se_tx_interface = True, se_rx_interface = True, se_ok = (\<lambda>c. True), se_sockopt = (\<lambda>r opt. True),
     se_alloc = (\<lambda>r. (False, True)), se_attr = (\<lambda>r. \<lparr>at_init = True, at_policy = True, at_param = True, at_inherit = True, at_create = True\<rparr>),
     se_ts_join = Timed_out, se_join = Joined, se_cancel = True\<rparr>"


theorem failing_setup_releases_witness:
  "\<exists>s. run_steps (server_roundtrip_setup (sample_env\<lparr>se_sockopt := (\<lambda>r opt. opt \<noteq> SO_TIMESTAMPING_RX)\<rparr>)) nothing_held = Inl s \<and>
     Ts_thread \<in> set (su_held s) \<and> su_bad s = [Rx_socket]"
proof -
  let ?env = "sample_env\<lparr>se_sockopt := (\<lambda>r opt. opt \<noteq> SO_TIMESTAMPING_RX)\<rparr>"
  have "\<exists>s. run_steps (server_roundtrip_setup ?env) nothing_held = Inl s \<and> su_held s \<noteq> [] \<and> su_bad s \<noteq> []"
    by (simp add: server_roundtrip_defs nothing_held_def setup_step_defs ts_thread_steps Let_def sample_env_def thread_created_def
      optimize_socket_performance_def setup_tx_timestamping_def setup_timestamping_def)
  then obtain s where s: "run_steps (server_roundtrip_setup ?env) nothing_held = Inl s" "su_held s \<noteq> []" "su_bad s \<noteq> []" by blast
  from failing_setup_releases [of server_roundtrip_setup ?env s] s show ?thesis by auto
qed

end
