(* ===== verification/Xdp_Filter.thy ===== *)
theory Xdp_Filter
  imports Net_Packet "HOL-Library.Monad_Syntax"
begin

text \<open>
  The XDP program \<open>unicast_filter.c\<close>, which decides for every received frame whether the kernel keeps it or hands it to an
  AF_XDP socket.  A frame is the list of the bytes between \<open>data\<close> and \<open>data_end\<close>; every access goes through a
  read that is \<open>None\<close> outside of the frame, so that the bounds checks of the program are part of what is proved.  The maps are
  arguments: the configuration, if there is one, and the set of receive queues with a socket.
\<close>

section \<open>The program\<close>

record unicast_config =
  uc_target_ip :: u32
  uc_target_port :: u16

text \<open>\<open>XDP_REDIRECT_MAP q\<close> is the result of \<open>bpf_redirect_map(&xsks_map, q, XDP_DROP)\<close>.\<close>

datatype xdp_action = XDP_PASS | XDP_REDIRECT_MAP u32

definition read_u8 :: "u8 list \<Rightarrow> nat \<Rightarrow> u8 option" where
  "read_u8 data k = (if k < length data then Some (data ! k) else None)"

definition ntohs_at :: "nat \<Rightarrow> u8 list \<Rightarrow> u16" where
  "ntohs_at k bs = push_bit 8 (ucast (bs ! k)) OR ucast (bs ! (k + 1))"

definition read_u16 :: "u8 list \<Rightarrow> nat \<Rightarrow> u16 option" where
  "read_u16 data k = (if k + 2 \<le> length data then Some (ntohs_at k data) else None)"

definition read_u32 :: "u8 list \<Rightarrow> nat \<Rightarrow> u32 option" where
  "read_u32 data k = (if k + 4 \<le> length data then Some (ntohl_at k data) else None)"

text \<open>
  The header sizes are 14, 20 and 8 bytes; the header length field is the low half of the first byte of the IP header.  Addresses and
  ports are compared in network byte order, hence as the numbers their bytes stand for.
\<close>

definition unicast_filter :: "unicast_config option \<Rightarrow> (u32 \<Rightarrow> bool) \<Rightarrow> u32 \<Rightarrow> u8 list \<Rightarrow> xdp_action option" where
  "unicast_filter config_map xsks_map rx_queue_index data =
     (if length data < 14 then Some XDP_PASS
      else do {
        h_proto \<leftarrow> read_u16 data 12;
        if h_proto \<noteq> 0x0800 then Some XDP_PASS
        else let iph = 14
             in if length data < iph + 20 then Some XDP_PASS
                else do {
                  protocol \<leftarrow> read_u8 data (iph + 9);
                  if protocol \<noteq> 17 then Some XDP_PASS
                  else do {
                    version_ihl \<leftarrow> read_u8 data iph;
                    let ip_hdr_size = unat (version_ihl AND 15) * 4;
                    if ip_hdr_size < 20 then Some XDP_PASS
                    else let udp_start = iph + ip_hdr_size
                         in if length data < udp_start + 8 then Some XDP_PASS
                            else case config_map of
                                   None \<Rightarrow> Some XDP_PASS
                                 | Some config \<Rightarrow> do {
                                     dst_port \<leftarrow> read_u16 data (udp_start + 2);
                                     dst_ip \<leftarrow> read_u32 data (iph + 16);
                                     if dst_ip \<noteq> uc_target_ip config \<or> dst_port \<noteq> uc_target_port config then Some XDP_PASS
                                     else do {
                                       src_port \<leftarrow> read_u16 data udp_start;
                                       if \<not> xsks_map rx_queue_index then Some XDP_PASS
                                       else Some (XDP_REDIRECT_MAP rx_queue_index)
                                     }
                                   }
                  }
                }
      })"

text \<open>
  The counter update, which the program defines and calls nowhere.  The map has 16 entries, so that a lookup fails exactly for a key beyond them, for which
  the update fails as well.
\<close>

definition increment_counter :: "u32 \<Rightarrow> u64 list \<Rightarrow> u64 list" where
  "increment_counter key stats = (if unat key < length stats then stats[unat key := stats ! unat key + 1] else stats)"

section \<open>The destination of a frame\<close>

text \<open>
  The reference: the frame is cut into Ethernet header, IP header of the length it announces, and UDP header; without
  any of them there is no destination.
\<close>

definition udp_destination :: "u8 list \<Rightarrow> (u32 \<times> u16) option" where
  "udp_destination frame =
     (let packet = drop 14 frame;
          header_length = 4 * unat (packet ! 0 AND 15);
          segment = drop header_length packet
      in if 20 \<le> length packet \<and> take 2 (drop 12 frame) = [8, 0] \<and> packet ! 9 = 17 \<and> 20 \<le> header_length \<and> 8 \<le> length segment
         then Some (ntohl_at 0 (take 4 (drop 16 packet)), ntohs_at 0 (take 2 (drop 2 segment))) else None)"

lemma word16_bytes: "push_bit 8 (ucast (ucast (drop_bit 8 w) :: u8)) OR ucast (ucast w :: u8) = w" (is "?b = w") for w :: u16
proof (rule bit_word_eqI)
  fix n assume "n < LENGTH(16)"
  then consider "n < 8" | "8 \<le> n" "n < 16" by fastforce
  then show "bit ?b n = bit w n"
    by cases (auto simp: bit_or_iff bit_push_bit_iff bit_ucast_iff bit_drop_bit_eq)
qed

lemma ntohs_at_drop: "k + 2 \<le> length bs \<Longrightarrow> ntohs_at 0 (take 2 (drop k bs)) = ntohs_at k bs"
  by (simp add: ntohs_at_def)

lemma ntohl_at_drop: "k + 4 \<le> length bs \<Longrightarrow> ntohl_at 0 (take 4 (drop k bs)) = ntohl_at k bs"
  by (simp add: ntohl_at_def)

lemma ntohs_high: "ucast (drop_bit 8 (ntohs_at k bs)) = bs ! k"
proof (rule bit_word_eqI)
  fix n assume "n < LENGTH(8)"
  then show "bit (ucast (drop_bit 8 (ntohs_at k bs)) :: u8) n = bit (bs ! k) n"
    using bit_imp_le_length [of "bs ! Suc k" "8 + n"]
    by (auto simp: ntohs_at_def bit_or_iff bit_push_bit_iff bit_ucast_iff bit_drop_bit_eq)
qed

lemma ntohs_low: "ucast (ntohs_at k bs) = bs ! (k + 1)"
proof (rule bit_word_eqI)
  fix n assume "n < LENGTH(8)"
  then show "bit (ucast (ntohs_at k bs) :: u8) n = bit (bs ! (k + 1)) n"
    by (auto simp: ntohs_at_def bit_or_iff bit_push_bit_iff bit_ucast_iff)
qed

lemma ethertype_bytes:
  assumes "14 \<le> length frame"
  shows "take 2 (drop 12 frame) = [8, 0] \<longleftrightarrow> ntohs_at 12 frame = 0x0800"
proof -
  have "take 2 (drop 12 frame) = [frame ! 12, frame ! 13]"
    using assms by (simp add: list_eq_iff_nth_eq nth_Cons' less_2_cases_iff)
  moreover have "ntohs_at 12 frame = 0x0800 \<longleftrightarrow> frame ! 12 = 8 \<and> frame ! 13 = 0"
    using ntohs_high [of 12 frame] ntohs_low [of 12 frame] by (auto simp: ntohs_at_def)
  ultimately show ?thesis by simp
qed

lemma udp_destination_reads:
  assumes "34 \<le> length frame"
  shows "udp_destination frame =
    (if ntohs_at 12 frame = 0x0800 \<and> frame ! 23 = 17 \<and> 20 \<le> unat (frame ! 14 AND 15) * 4 \<and> 22 + unat (frame ! 14 AND 15) * 4 \<le> length frame
     then Some (ntohl_at 30 frame, ntohs_at (16 + unat (frame ! 14 AND 15) * 4) frame) else None)"
proof -
  let ?h = "unat (frame ! 14 AND 15) * 4"
  have dst: "ntohl_at 0 (take 4 (drop 16 (drop 14 frame))) = ntohl_at 30 frame" using assms ntohl_at_drop [of 30 frame] by simp
  have port: "ntohs_at 0 (take 2 (drop 2 (drop ?h (drop 14 frame)))) = ntohs_at (16 + ?h) frame" if "22 + ?h \<le> length frame"
    using that ntohs_at_drop [of "16 + ?h" frame] by (simp add: add.commute)
  have seg: "8 \<le> length (drop ?h (drop 14 frame)) \<longleftrightarrow> 22 + ?h \<le> length frame" by auto
  have eth: "take 2 (drop 12 frame) = [8, 0] \<longleftrightarrow> ntohs_at 12 frame = 0x0800" using assms by (intro ethertype_bytes) simp
  show ?thesis using assms port dst seg eth by (auto simp: udp_destination_def Let_def mult.commute)
qed

lemma unicast_filter_decision:
  "unicast_filter config xsks q frame =
     Some (if xsks q \<and> config \<noteq> None \<and> udp_destination frame = map_option (\<lambda>c. (uc_target_ip c, uc_target_port c)) config
           then XDP_REDIRECT_MAP q else XDP_PASS)"
proof (cases "34 \<le> length frame")
  case False
  then show ?thesis
    by (auto simp: unicast_filter_def udp_destination_def Let_def read_u16_def split: option.splits)
next
  case True
  then show ?thesis
    unfolding udp_destination_reads [OF True]
    by (auto simp: unicast_filter_def read_u8_def read_u16_def read_u32_def Let_def add.commute split: option.splits)
qed

text \<open>
  A UDP datagram in an IPv4 packet in an Ethernet frame: the addresses of the frame, the eight bytes of the IP header between
  version and protocol, checksum and source, destination, options, and the rest of the UDP header with the payload.
\<close>

definition htons_bytes :: "u16 \<Rightarrow> u8 list" where
  "htons_bytes w = [ucast (drop_bit 8 w), ucast w]"

definition udp_frame :: "u8 list \<Rightarrow> u8 list \<Rightarrow> u8 list \<Rightarrow> u32 \<Rightarrow> u8 list \<Rightarrow> u16 \<Rightarrow> u16 \<Rightarrow> u8 list \<Rightarrow> u8 list" where
  "udp_frame macs head_rest check_src dst_ip options src_port dst_port udp_rest =
     macs @ [8, 0] @ [of_nat (64 + 5 + length options div 4)] @ head_rest @ [17] @ check_src @ htonl_bytes dst_ip @ options @
     htons_bytes src_port @ htons_bytes dst_port @ udp_rest"

lemma ihl_byte: "k \<le> 10 \<Longrightarrow> unat ((of_nat (64 + 5 + k) :: u8) AND 15) = 5 + k"
proof -
  assume k: "k \<le> 10"
  have "unat ((of_nat (64 + 5 + k) :: u8) AND (2 ^ 4 - 1)) = (64 + 5 + k) mod 16"
    unfolding unat_and_mask using k by (subst unat_of_nat_small) simp_all
  moreover have "(64 + 5 + k) mod 16 = 5 + k" using k by presburger
  ultimately show ?thesis by simp
qed

lemma udp_destination_frame:
  assumes "length macs = 12" and "length head_rest = 8" and "length check_src = 6" and "4 dvd length options" and "length options \<le> 40"
    and "4 \<le> length udp_rest"
  shows "udp_destination (udp_frame macs head_rest check_src dst_ip options src_port dst_port udp_rest) = Some (dst_ip, dst_port)"
proof -
  let ?f = "udp_frame macs head_rest check_src dst_ip options src_port dst_port udp_rest" and ?k = "length options div 4"
  let ?p = "of_nat (64 + 5 + ?k) # head_rest @ [17] @ check_src @ htonl_bytes dst_ip @ options @ htons_bytes src_port @ htons_bytes dst_port @ udp_rest"
  have p: "drop 14 ?f = ?p" and e: "take 2 (drop 12 ?f) = [8, 0]" using assms(1) by (simp_all add: udp_frame_def)
  have opt: "4 * ?k = length options" using assms(4) by simp
  have "unat (?p ! 0 AND 15) = 5 + ?k" using ihl_byte [of ?k] assms(5) by simp
  then have h: "4 * unat (?p ! 0 AND 15) = 20 + length options" using opt by simp
  let ?a = "(of_nat (64 + 5 + ?k) :: u8) # head_rest @ [17] @ check_src" and ?r = "htons_bytes src_port @ htons_bytes dst_port @ udp_rest"
  have pre: "drop (length xs) (xs @ ys) = ys" for xs ys :: "u8 list" by simp
  have a: "length ?a = 16" using assms(2,3) by simp
  have s: "drop (20 + length options) ?p = ?r"
  proof -
    have "drop (length (?a @ htonl_bytes dst_ip @ options)) ((?a @ htonl_bytes dst_ip @ options) @ ?r) = ?r"
      by (rule pre)
    moreover have "length (?a @ htonl_bytes dst_ip @ options) = 20 + length options" using a by simp
    moreover have "(?a @ htonl_bytes dst_ip @ options) @ ?r = ?p" by simp
    ultimately show ?thesis by (simp only:)
  qed
  have "drop 16 ?p = htonl_bytes dst_ip @ options @ ?r"
    unfolding a [symmetric] using pre [of ?a "htonl_bytes dst_ip @ options @ ?r"] by simp
  then have "take 4 (drop 16 ?p) = htonl_bytes dst_ip" by simp
  moreover have "?p ! 9 = 17" using assms(2) nth_append_length [of "(of_nat (64 + 5 + ?k) :: u8) # head_rest" 17] by simp
  moreover have "ntohl_at 0 (htonl_bytes dst_ip) = dst_ip" using ntohl_htonl [of "[]" dst_ip "[]"] by simp
  moreover have "take 2 (drop 2 (htons_bytes src_port @ htons_bytes dst_port @ udp_rest)) = htons_bytes dst_port"
    by (simp add: htons_bytes_def)
  moreover have "ntohs_at 0 (htons_bytes dst_port) = dst_port" by (simp add: ntohs_at_def htons_bytes_def word16_bytes)
  moreover have "20 \<le> length ?p" using assms(2,3) by simp
  moreover have "8 \<le> length (htons_bytes src_port @ htons_bytes dst_port @ udp_rest)" using assms(6) by (simp add: htons_bytes_def)
  ultimately show ?thesis unfolding udp_destination_def p Let_def h s using e by simp
qed

section \<open>Properties\<close>

text \<open>
  C32. For every frame, configuration and receive queue the filter stays inside the frame, and it redirects exactly the frames whose
  UDP destination is the configured address and port and for whose queue there is a socket; all others go to the
  kernel.
\<close>

theorem unicast_filter_exact:
  "unicast_filter config xsks q frame =
     Some (if xsks q \<and> config \<noteq> None \<and> udp_destination frame = map_option (\<lambda>c. (uc_target_ip c, uc_target_port c)) config
           then XDP_REDIRECT_MAP q else XDP_PASS)"
  by (rule unicast_filter_decision)

text \<open>
  A well-formed UDP frame, with IP options of any admissible length, reaches the socket of its receive queue exactly when its destination
  address and port are the configured ones; when no socket is registered for the queue it goes to the kernel.
\<close>

theorem unicast_filter_recognises:
  assumes "length macs = 12" and "length head_rest = 8" and "length check_src = 6" and "4 dvd length options" and "length options \<le> 40"
    and "4 \<le> length udp_rest"
  shows "unicast_filter (Some c) xsks q (udp_frame macs head_rest check_src dst_ip options src_port dst_port udp_rest) =
    Some (if dst_ip = uc_target_ip c \<and> dst_port = uc_target_port c \<and> xsks q then XDP_REDIRECT_MAP q else XDP_PASS)"
  unfolding unicast_filter_decision udp_destination_frame [OF assms] by auto

theorem unicast_filter_recognises_witness:
  "unicast_filter (Some \<lparr>uc_target_ip = 0x0A000001, uc_target_port = 9000\<rparr>) (\<lambda>q. q = 3) 3
     (udp_frame (replicate 12 0) (replicate 8 0) (replicate 6 0) 0x0A000001 [1, 1, 1, 0] 5000 9000 [0, 12, 0, 0, 1, 2, 3, 4]) =
     Some (XDP_REDIRECT_MAP 3)"
proof -
  have "4 dvd length [1, 1, 1, 0 :: u8]" by (rule dvdI [of _ _ 1]) simp
  then show ?thesis by (subst unicast_filter_recognises) simp_all
qed

end
