(* ===== verification/Log_Roundtrip.thy ===== *)
theory Log_Roundtrip
  imports Csv_Buffer Csv_Join
begin

text \<open>
  From the log to the join: what client and server write (\<open>timestamp_common.c\<close>) is read back without loss by the join
  tool (\<open>timestamp_csvjoin.c\<close>), which recognises the file by its header, finds exactly the rows of the flow it is asked for, and
  recovers every timestamp from its text.
\<close>

section \<open>Fields of a line\<close>

text \<open>Text that survives splitting and trimming.\<close>

definition plain_char :: "char \<Rightarrow> bool" where
  "plain_char c \<longleftrightarrow> line_char c \<and> \<not> isspace c \<and> c \<noteq> CHR '','' \<and> c \<noteq> CHR ''\"''"

definition csv_fields :: "csv_type_t \<Rightarrow> csv_entry_t \<Rightarrow> string list" where
  "csv_fields ty e =
     [ce_src_ip e, show_dec (unat (ce_src_port e)), show_dec (unat (ce_seq_num e))] @
     map (\<lambda>i. ts_text (ce_timestamp_ns e ! i)) (csv_columns ty)"

definition entry_plain :: "csv_entry_t \<Rightarrow> bool" where
  "entry_plain e \<longleftrightarrow> csv_entry_wf e \<and> ce_src_ip e \<noteq> [] \<and> list_all plain_char (ce_src_ip e)"

lemma digit_plain: "is_digit c \<Longrightarrow> plain_char c"
  using is_digit_not_space is_digit_line_char is_digit_not_sign by (simp add: plain_char_def)

lemma digits_plain: "list_all is_digit s \<Longrightarrow> list_all plain_char s"
  using digit_plain by (auto simp: list_all_iff)

lemma ts_text_plain: "list_all plain_char (ts_text t)" "ts_text t \<noteq> []"
proof -
  have "plain_char (CHR ''.'')" by code_simp
  then show "list_all plain_char (ts_text t)"
    using digits_plain [OF show_dec_digits] digits_plain [OF show_pad_digits] by (simp add: ts_text_def)
qed (simp add: ts_text_def)

lemma csv_fields_plain:
  assumes "entry_plain e"
  shows "list_all (\<lambda>s. s \<noteq> [] \<and> list_all plain_char s) (csv_fields ty e)"
  using assms ts_text_plain digits_plain [OF show_dec_digits]
  by (simp add: csv_fields_def entry_plain_def list_all_iff)

fun commas :: "string list \<Rightarrow> string" where
  "commas [] = []"
| "commas (f # fs) = f @ concat (map (\<lambda>g. CHR '','' # g) fs)"

lemma csv_line_commas: "ty \<noteq> CSV_TYPE_OTHER \<Longrightarrow> csv_line ty e = commas (csv_fields ty e) @ [CHR 0x0A]"
  by (simp add: csv_line_def csv_fields_def comp_def)

lemma split_commas:
  "fs \<noteq> [] \<Longrightarrow> list_all (\<lambda>s. list_all plain_char s) fs \<Longrightarrow> split_on (CHR '','') (commas fs) = fs"
proof (induction fs)
  case (Cons f fs)
  then have f: "CHR '','' \<notin> set f" by (auto simp: list_all_iff plain_char_def)
  show ?case
  proof (cases fs)
    case Nil
    then show ?thesis using split_on_last [OF f] by simp
  next
    case g: (Cons g gs)
    then have "commas (f # fs) = f @ CHR '','' # commas fs" by simp
    moreover have "split_on (CHR '','') (commas fs) = fs"
      by (rule Cons.IH) (use Cons.prems g in simp_all)
    ultimately show ?thesis by (simp only: split_on_part [OF f])
  qed
qed simp

lemma trim_plain: "list_all plain_char s \<Longrightarrow> trim_whitespace s = s"
proof (rule trim_whitespace_id)
  assume "list_all plain_char s"
  then have "\<not> isspace c" if "c \<in> set s" for c using that by (simp add: list_all_iff plain_char_def)
  from this [OF hd_in_set] this [OF last_in_set] show "s = [] \<or> \<not> isspace (hd s) \<and> \<not> isspace (last s)" by blast
qed

lemma commas_line_chars: "list_all (list_all plain_char) fs \<Longrightarrow> list_all line_char (commas fs)"
proof (induction fs rule: commas.induct)
  case (2 f fs)
  have "line_char (CHR '','')" by code_simp
  with 2 show ?case by (auto simp: list_all_iff plain_char_def)
qed simp

lemma parse_csv_line_fields:
  assumes "entry_plain e" and "ty \<noteq> CSV_TYPE_OTHER"
  shows "parse_csv_line (commas (csv_fields ty e)) MAX_CSV_FIELDS = csv_fields ty e"
proof -
  have fs: "list_all (list_all plain_char) (csv_fields ty e)" "csv_fields ty e \<noteq> []"
    using csv_fields_plain [OF assms(1), of ty] by (simp_all add: list_all_iff csv_fields_def)
  have "case commas (csv_fields ty e) of c # _ \<Rightarrow> c \<noteq> CHR ''\"'' | [] \<Rightarrow> True"
    using assms(1) by (cases "ce_src_ip e") (auto simp: csv_fields_def entry_plain_def plain_char_def)
  from parse_csv_line_commas [OF this] have "parse_csv_line (commas (csv_fields ty e)) MAX_CSV_FIELDS =
      map trim_whitespace (take MAX_CSV_FIELDS (csv_fields ty e))"
    using split_commas [OF fs(2)] fs(1) by simp
  moreover have "length (csv_fields ty e) \<le> MAX_CSV_FIELDS"
    by (cases ty) (simp_all add: csv_fields_def csv_columns_def MAX_CSV_FIELDS_def)
  moreover have "map trim_whitespace (csv_fields ty e) = csv_fields ty e"
    using fs(1) by (intro map_idI) (auto simp: list_all_iff intro!: trim_plain)
  ultimately show ?thesis by simp
qed

section \<open>Values of the fields\<close>

lemma parse_ts_text: "parse_timestamp_ns (ts_text t) = t"
proof -
  have "unat (t div 1000000000) < 2 ^ 63"
    using u64_bound [of t] by (simp add: unat_div_distrib less_mult_imp_div_less)
  moreover have "unat (t mod 1000000000) < 10 ^ 9" by (simp add: unat_mod_distrib)
  ultimately have "parse_timestamp_ns (ts_text t) = of_nat (unat (t div 1000000000)) * 1000000000 + of_nat (unat (t mod 1000000000))"
    unfolding ts_text_def by (rule parse_printed_timestamp)
  then show ?thesis using mult_div_mod_eq [of "1000000000 :: u64" t] by (simp add: mult.commute)
qed

lemma read_seq: "extract_sequence_number (csv_fields ty e) = Some (ce_seq_num e)"
proof -
  have "strtol (show_dec (unat (ce_seq_num e))) = (int (unat (ce_seq_num e)), [])"
    using strtol_show_dec [of "[]" "unat (ce_seq_num e)"] u32_bound [of "ce_seq_num e"] by simp
  moreover have "int (unat (ce_seq_num e)) \<le> 4294967295" using u32_bound [of "ce_seq_num e"] by linarith
  ultimately show ?thesis by (simp add: extract_sequence_number_def csv_fields_def Let_def)
qed

lemma read_flow:
  "validate_record_match (csv_fields ty e) ip port \<longleftrightarrow> ce_src_ip e = ip \<and> ce_src_port e = port"
proof -
  have "atoi (show_dec (unat (ce_src_port e))) = int (unat (ce_src_port e))"
  proof -
    have "strtol (show_dec (unat (ce_src_port e))) = (int (unat (ce_src_port e)), [])"
      using strtol_show_dec [of "[]" "unat (ce_src_port e)"] u16_bound [of "ce_src_port e"] by simp
    moreover have "sint (of_nat n :: u32) = int n" if "n < 65536" for n
      using that by (subst u32_sint_small) (simp_all add: unat_of_nat_small)
    from this [OF u16_bound] have "sint (word_of_int (int (unat (ce_src_port e))) :: u32) = int (unat (ce_src_port e))"
      by (simp only: of_int_of_nat_eq)
    ultimately show ?thesis by (simp only: atoi_def fst_conv)
  qed
  then show ?thesis by (simp add: validate_record_match_def csv_fields_def)
qed

lemma read_row_line:
  assumes "entry_plain e" and "ty \<noteq> CSV_TYPE_OTHER"
  shows "read_row ip port (csv_line ty e) =
    (if ce_src_ip e = ip \<and> ce_src_port e = port then Some (csv_fields ty e, ce_seq_num e) else None)"
proof -
  have plain: "list_all (list_all plain_char) (csv_fields ty e)"
    using csv_fields_plain [OF assms(1), of ty] by (simp add: list_all_iff)
  have "commas (csv_fields ty e) \<noteq> []" "3 \<le> length (csv_fields ty e)"
    using assms(1) by (simp_all add: csv_fields_def entry_plain_def)
  then show ?thesis
    using chomp_line [OF commas_line_chars [OF plain]] assms(2)
    by (simp add: read_row_def csv_line_commas parse_csv_line_fields [OF assms] read_flow read_seq Let_def)
qed

section \<open>Files\<close>

definition log_file :: "csv_type_t \<Rightarrow> csv_entry_t list \<Rightarrow> string" where
  "log_file ty es = get_csv_header ty @ concat (map (csv_line ty) es)"

lemma fgets_log_lines:
  assumes "list_all entry_plain es" and "ty \<noteq> CSV_TYPE_OTHER"
  shows "fgets_lines MAX_LINE_LENGTH (concat (map (csv_line ty) es)) = map (csv_line ty) es"
  using assms(1)
proof (induction es)
  case (Cons e es)
  have plain: "list_all (list_all plain_char) (csv_fields ty e)"
    using csv_fields_plain [of e ty] Cons.prems by (simp add: list_all_iff)
  have "length (csv_line ty e) \<le> 165" using Cons.prems by (intro length_csv_line) (simp add: entry_plain_def)
  then have "Suc (length (commas (csv_fields ty e))) < MAX_LINE_LENGTH"
    using assms(2) by (simp add: csv_line_commas MAX_LINE_LENGTH_def)
  from fgets_lines_line [OF commas_line_chars [OF plain] this, of "concat (map (csv_line ty) es)"] Cons show ?case
    by (simp add: csv_line_commas [OF assms(2), of e])
qed simp

text \<open>The file type by which the join tool knows a log; both client modes write the same TX log.\<close>

definition log_file_type :: "csv_type_t \<Rightarrow> file_type_t" where
  "log_file_type ty = (case ty of
     CSV_CLIENT_MAIN_ONEWAY \<Rightarrow> FILE_CLIENT_ONEWAY_MAIN
   | CSV_CLIENT_MAIN_ROUNDTRIP \<Rightarrow> FILE_CLIENT_ROUNDTRIP_MAIN
   | CSV_CLIENT_TX \<Rightarrow> FILE_CLIENT_ONEWAY_TX
   | CSV_SERVER_MAIN_ONEWAY \<Rightarrow> FILE_SERVER_ONEWAY_MAIN
   | CSV_SERVER_MAIN_ROUNDTRIP \<Rightarrow> FILE_SERVER_ROUNDTRIP_MAIN
   | CSV_SERVER_TX \<Rightarrow> FILE_SERVER_ROUNDTRIP_TX
   | CSV_TYPE_OTHER \<Rightarrow> FILE_TYPE_UNKNOWN)"

text \<open>The decision of \<open>detect_file_type\<close> on the first line.\<close>

definition header_type :: "string \<Rightarrow> file_type_t" where
  "header_type line = detect_file_type (\<lambda>_. Some line) []"

lemma detect_header:
  assumes "list_all line_char h" and "Suc (length h) < MAX_LINE_LENGTH" and "fs f = Some (h @ CHR 0x0A # r)"
  shows "detect_file_type fs f = header_type (h @ [CHR 0x0A])"
  using fgets_lines_line [OF assms(1,2)] assms(3) by (simp add: detect_file_type_def header_type_def)

lemma csv_header_line:
  assumes "get_csv_header ty = h @ [CHR 0x0A]"
  shows "list_all line_char h" "Suc (length h) < MAX_LINE_LENGTH" "header_type (h @ [CHR 0x0A]) = log_file_type ty"
proof -
  have "list_all line_char (butlast (get_csv_header ty)) \<and> length (get_csv_header ty) < MAX_LINE_LENGTH \<and>
      header_type (get_csv_header ty) = log_file_type ty"
    by (cases ty; simp only:; code_simp)
  then show "list_all line_char h" "Suc (length h) < MAX_LINE_LENGTH" "header_type (h @ [CHR 0x0A]) = log_file_type ty"
    unfolding assms by simp_all
qed

lemma log_file_detected:
  assumes "fs f = Some (log_file ty es)"
  shows "detect_file_type fs f = log_file_type ty"
proof -
  obtain h where h: "get_csv_header ty = h @ [CHR 0x0A]"
    by (rule that [of "butlast (get_csv_header ty)"]) (cases ty; simp only:; code_simp)
  with assms show ?thesis using detect_header [OF csv_header_line(1,2) [OF h]] csv_header_line(3) [OF h] by (simp add: log_file_def)
qed

lemma log_file_rows:
  assumes "fs f = Some (log_file ty es)" and "list_all entry_plain es" and "ty \<noteq> CSV_TYPE_OTHER"
  shows "file_rows fs ip port f = map (\<lambda>e. (csv_fields ty e, ce_seq_num e)) (filter (\<lambda>e. ce_src_ip e = ip \<and> ce_src_port e = port) es)"
proof -
  obtain h where h: "get_csv_header ty = h @ [CHR 0x0A]"
    by (rule that [of "butlast (get_csv_header ty)"]) (cases ty; simp only:; code_simp)
  have "fgets_lines MAX_LINE_LENGTH (log_file ty es) = get_csv_header ty # map (csv_line ty) es"
    using fgets_lines_line [OF csv_header_line(1,2) [OF h]] fgets_log_lines [OF assms(2,3)] h by (simp add: log_file_def)
  then have "file_rows fs ip port f = List.map_filter (read_row ip port) (map (csv_line ty) es)"
    using assms(1) by (simp add: file_rows_def)
  also have "\<dots> = map (\<lambda>e. (csv_fields ty e, ce_seq_num e)) (filter (\<lambda>e. ce_src_ip e = ip \<and> ce_src_port e = port) es)"
    using assms(2) by (induction es) (simp_all add: map_filter_Cons read_row_line [OF _ assms(3)] List.map_filter_def)
  finally show ?thesis .
qed

section \<open>Properties\<close>

text \<open>
  C13. Reading a log back: for every list of entries written under the header of their kind, the join tool recognises the file, its rows
  for a flow are those of exactly the entries of that flow, in order and with their sequence numbers, and each
  timestamp column of a row is parsed back to the number of nanoseconds that was logged.
\<close>

theorem log_file_read_back:
  assumes "fs f = Some (log_file ty es)" and "list_all entry_plain es" and "ty \<noteq> CSV_TYPE_OTHER"
  shows "detect_file_type fs f = log_file_type ty \<and>
    file_rows fs ip port f = map (\<lambda>e. (csv_fields ty e, ce_seq_num e)) (filter (\<lambda>e. ce_src_ip e = ip \<and> ce_src_port e = port) es) \<and>
    (\<forall>e j. j < length (csv_columns ty) \<longrightarrow>
       parse_timestamp_ns (csv_fields ty e ! (3 + j)) = ce_timestamp_ns e ! (csv_columns ty ! j))"
  using log_file_detected [of fs f ty es] log_file_rows [of fs f ty es] assms by (simp add: csv_fields_def parse_ts_text)

theorem log_file_read_back_witness:
  "file_rows (\<lambda>_. Some (log_file CSV_CLIENT_MAIN_ONEWAY [sample_entry 7, sample_entry 8])) ''10.0.0.1'' 5000 ''log.csv'' =
     [([''10.0.0.1'', ''5000'', ''7'', ''1.500000042''], 7), ([''10.0.0.1'', ''5000'', ''8'', ''1.500000042''], 8)]"
proof -
  have p: "list_all entry_plain [sample_entry 7, sample_entry 8]" by code_simp
  have "map (\<lambda>e. (csv_fields CSV_CLIENT_MAIN_ONEWAY e, ce_seq_num e))
      (filter (\<lambda>e. ce_src_ip e = ''10.0.0.1'' \<and> ce_src_port e = 5000) [sample_entry 7, sample_entry 8]) =
      [([''10.0.0.1'', ''5000'', ''7'', ''1.500000042''], 7), ([''10.0.0.1'', ''5000'', ''8'', ''1.500000042''], 8)]"
    by code_simp
  then show ?thesis
    using log_file_read_back [of "\<lambda>_. Some (log_file CSV_CLIENT_MAIN_ONEWAY [sample_entry 7, sample_entry 8])" "''log.csv''"
        CSV_CLIENT_MAIN_ONEWAY "[sample_entry 7, sample_entry 8]"] p by simp
qed

end
