(* ===== verification/End_To_End.thy ===== *)
theory End_To_End
  imports Client Server Log_Roundtrip
begin

text \<open>
  Client, server and join tool together: the packets of a round-trip client through a round-trip server and back, and the log of a
  one-way server through the join tool.
\<close>

section \<open>Round trip\<close>





section \<open>The log of a one-way server in the join tool\<close>







end
