(* ===== verification/Cpp_Lib.thy ===== *)
theory Cpp_Lib
  imports Inet_Addr
begin

text \<open>
  What the C++ sources use of the language and its standard library: exceptions as values, \<open>std::stoi\<close> and \<open>std::stoull\<close>,
  \<open>std::getline\<close>, extraction of words from a stream, the hexadecimal conversion of \<open>sscanf\<close>, and exchanges of atomic
  variables, which are explicit in the state.
\<close>

section \<open>Exceptions\<close>

datatype cpp_exception = Invalid_argument string | Runtime_error string | Out_of_range string

type_synonym 'a outcome = "cpp_exception + 'a"

section \<open>Numbers\<close>

text \<open>\<open>std::stoi\<close>: a number in front of the text that fits an \<open>int\<close>.\<close>

definition stoi :: "string \<Rightarrow> int outcome" where
  "stoi s = (case scan_number s of
     None \<Rightarrow> Inl (Invalid_argument ''stoi'')
   | Some (neg, n, r) \<Rightarrow>
       (let v = (if neg then - int n else int n)
        in if v < - (2 ^ 31) \<or> 2 ^ 31 \<le> v then Inl (Out_of_range ''stoi'') else Inr v))"

text \<open>\<open>std::stol\<close>, with a \<open>long\<close> of 64 bits.\<close>

definition stol :: "string \<Rightarrow> int outcome" where
  "stol s = (case scan_number s of
     None \<Rightarrow> Inl (Invalid_argument ''stol'')
   | Some (neg, n, r) \<Rightarrow>
       (let v = (if neg then - int n else int n)
        in if v < - (2 ^ 63) \<or> 2 ^ 63 \<le> v then Inl (Out_of_range ''stol'') else Inr v))"

text \<open>\<open>std::stoull\<close>: only the magnitude is checked; a minus sign negates modulo \<open>2^64\<close>.\<close>

definition stoull :: "string \<Rightarrow> u64 outcome" where
  "stoull s = (case scan_number s of
     None \<Rightarrow> Inl (Invalid_argument ''stoull'')
   | Some (neg, n, r) \<Rightarrow>
       (if 2 ^ 64 \<le> n then Inl (Out_of_range ''stoull'') else Inr (if neg then - of_nat n else of_nat n)))"

lemma stoi_show_dec: "n < 2 ^ 31 \<Longrightarrow> stoi (show_dec n) = Inr (int n)"
  using scan_number_show_dec [of "[]" n] by (simp add: stoi_def)

lemma stol_show_dec: "n < 2 ^ 63 \<Longrightarrow> stol (show_dec n) = Inr (int n)"
  using scan_number_show_dec [of "[]" n] by (simp add: stol_def)

lemma stoull_show_dec: "n < 2 ^ 64 \<Longrightarrow> stoull (show_dec n) = Inr (of_nat n)"
  using scan_number_show_dec [of "[]" n] by (simp add: stoull_def)

section \<open>Streams\<close>

text \<open>The lines that \<open>std::getline\<close> delivers: a newline at the end of the file does not start another line.\<close>

definition getlines :: "string \<Rightarrow> string list" where
  "getlines s = (let ls = split_on (CHR 0x0A) s in if last ls = [] then butlast ls else ls)"

text \<open>The parts that \<open>std::getline\<close> with a delimiter delivers until the stream fails.\<close>

definition getline_all :: "char \<Rightarrow> string \<Rightarrow> string list" where
  "getline_all d s = (let ps = split_on d s in if last ps = [] then butlast ps else ps)"

lemma getlines_getline_all: "getlines s = getline_all (CHR 0x0A) s"
  by (simp add: getlines_def getline_all_def)

lemma getline_all_nonempty:
  assumes "s \<noteq> []"
  shows "getline_all d s \<noteq> []"
proof (cases "split_on d s")
  case (Cons p ps)
  have "ps = [] \<Longrightarrow> p \<noteq> []" using assms Cons by (cases s) (auto split: if_splits list.splits)
  then show ?thesis using Cons by (auto simp: getline_all_def Let_def)
qed simp

text \<open>The words that \<open>iss >> w\<close> extracts one after the other.\<close>

fun stream_words :: "string \<Rightarrow> string \<Rightarrow> string list" where
  "stream_words w [] = (if w = [] then [] else [w])"
| "stream_words w (c # cs) =
     (if isspace c then (if w = [] then stream_words [] cs else w # stream_words [] cs) else stream_words (w @ [c]) cs)"

text \<open>
  \<open>%x\<close> of \<open>sscanf\<close> on a text without white space in front: sign, an optional \<open>0x\<close>, digits.  The value is an \<open>unsigned int\<close>, the low
  part of what \<open>strtoul\<close> yields.
\<close>

definition saturate_hex :: "bool \<Rightarrow> nat \<Rightarrow> u32" where
  "saturate_hex neg n = (if 2 ^ 64 \<le> n then - 1 else if neg then - of_nat n else of_nat n)"

definition sscanf_hex :: "string \<Rightarrow> (u32 \<times> string) option" where
  "sscanf_hex s =
     (let neg = (take 1 s = ''-'');
          t = (if take 1 s = ''-'' \<or> take 1 s = ''+'' then tl s else s);
          value = (\<lambda>(n, r). (saturate_hex neg n, r))
      in if take 2 t = ''0x'' \<or> take 2 t = ''0X'' then Some (value (scan_base 16 0 (drop 2 t)))
         else if t \<noteq> [] \<and> hex_val (hd t) < 16 then Some (value (scan_base 16 0 t))
         else None)"

text \<open>\<open>sscanf(s, "%x:%x:...", ...)\<close> with \<open>k\<close> conversions: the values, when all of them succeed.\<close>

fun sscanf_hex_list :: "nat \<Rightarrow> string \<Rightarrow> u32 list option" where
  "sscanf_hex_list 0 s = Some []"
| "sscanf_hex_list (Suc 0) s = map_option (\<lambda>(v, r). [v]) (sscanf_hex s)"
| "sscanf_hex_list (Suc (Suc k)) s =
     (case sscanf_hex s of
        None \<Rightarrow> None
      | Some (v, r) \<Rightarrow> if take 1 r = '':'' then map_option ((#) v) (sscanf_hex_list (Suc k) (tl r)) else None)"

lemma length_sscanf_hex_list: "sscanf_hex_list k s = Some vs \<Longrightarrow> length vs = k"
proof (induction k s arbitrary: vs rule: sscanf_hex_list.induct)
  case (3 k s)
  then show ?case by (auto split: option.splits prod.splits if_splits)
qed auto

section \<open>Two hexadecimal digits\<close>

text \<open>\<open>%02x\<close> of a byte, as the kernel prints hardware addresses.\<close>

definition hex_digit :: "nat \<Rightarrow> char" where
  "hex_digit d = (if d < 10 then char_of (48 + d) else char_of (87 + d))"

definition show_hex2 :: "u8 \<Rightarrow> string" where
  "show_hex2 b = [hex_digit (unat b div 16), hex_digit (unat b mod 16)]"

lemma hex_digit_facts:
  assumes "d < 16"
  shows "hex_val (hex_digit d) = d" "hex_digit d \<noteq> CHR ''-''" "hex_digit d \<noteq> CHR ''+''" "hex_digit d \<noteq> CHR ''x''" "hex_digit d \<noteq> CHR ''X''"
    "\<not> isspace (hex_digit d)" "hex_digit d \<noteq> CHR 0x0A"
proof -
  have c: "char_code (hex_digit d) = (if d < 10 then 48 + d else 87 + d)"
    using assms by (simp add: hex_digit_def char_code_def)
  show "hex_val (hex_digit d) = d" using assms by (simp add: hex_val_def c)
  show "\<not> isspace (hex_digit d)" using assms by (simp add: isspace_def c)
  have "char_code (hex_digit d) \<notin> {45, 43, 120, 88, 10}" using assms unfolding c by auto
  then show "hex_digit d \<noteq> CHR ''-''" "hex_digit d \<noteq> CHR ''+''" "hex_digit d \<noteq> CHR ''x''" "hex_digit d \<noteq> CHR ''X''" "hex_digit d \<noteq> CHR 0x0A"
    by (auto simp: char_code_def)
qed

lemma sscanf_hex2:
  assumes "r = [] \<or> hex_val (hd r) \<ge> 16"
  shows "sscanf_hex (show_hex2 b @ r) = Some (ucast b, r)"
proof -
  let ?h = "unat b div 16" and ?l = "unat b mod 16"
  have h: "?h < 16" using u8_bound [of b] by (simp add: less_mult_imp_div_less)
  have l: "?l < 16" by simp
  have "scan_base 16 0 (show_hex2 b @ r) = (16 * ?h + ?l, r)"
    using h l assms by (cases r) (auto simp: show_hex2_def hex_digit_facts)
  moreover have "16 * ?h + ?l = unat b" by simp
  moreover have "saturate_hex False (unat b) = ucast b"
    using u8_bound [of b] by (simp add: saturate_hex_def)
  moreover have "take 2 (show_hex2 b @ r) \<noteq> ''0x''" "take 2 (show_hex2 b @ r) \<noteq> ''0X''"
    using hex_digit_facts [OF l] by (auto simp: show_hex2_def)
  ultimately show ?thesis
    using hex_digit_facts [OF h] hex_digit_facts [OF l] h by (simp add: sscanf_hex_def show_hex2_def Let_def)
qed

end
