(* ===== verification/Xsk_Socket.thy ===== *)
theory Xsk_Socket
  imports Cpp_Lib Net_Packet
begin

text \<open>
  The class \<open>AFXDPSocket\<close> (\<open>AFXDPSocket.hpp\<close>, \<open>AFXDPSocket.cpp\<close>): memory for frames, the bookkeeping of transmit frames and
  completions, receiving and recycling of frames, set-up, binding and closing.  The rings belong to libxdp and the kernel: what
  their functions return is an argument of each operation, and every call, with the descriptors and addresses the code writes,
  is recorded in \<open>xs_calls\<close>, so that theorems speak about what the kernel is handed.  A thrown exception is the left value of the result.
\<close>

section \<open>State\<close>

datatype xsk_call =
    Umem_create u32 u32 u32 nat nat
  | Socket_create string int u16
  | Fq_reserve nat | Fq_addr u32 u64 | Fq_submit nat
  | Rx_release nat
  | Tx_reserve int | Tx_desc u32 u64 u32 | Tx_submit int
  | Cq_release u32
  | Wake_tx | Wake_rx
  | Map_update u32 | Map_delete u32
  | Socket_delete | Umem_delete | Unmap nat

definition DEFAULT_TX_FRAMES :: nat where "DEFAULT_TX_FRAMES = 2048"
definition DEFAULT_RX_FRAMES :: nat where "DEFAULT_RX_FRAMES = 2048"
definition DEFAULT_UMEM_FRAMES :: nat where "DEFAULT_UMEM_FRAMES = DEFAULT_TX_FRAMES + DEFAULT_RX_FRAMES"
definition TX_BATCH_SIZE :: nat where "TX_BATCH_SIZE = 64"

text \<open>
  \<open>umem_buffer_\<close> is \<open>None\<close> for a null pointer.  The fields \<open>xw_\<close> are those of the wrapper structure; its pointers are flags.
  The wrapper has a counter of outstanding packets of its own.
\<close>

record xsk_socket =
  xs_closed :: bool
  xs_chunk_size :: u32
  xs_headroom :: u32
  xs_umem :: "u8 list option"
  xs_prev_umem_tx_frame :: u32
  xs_cached_completions :: u32
  xs_outstanding_tx :: u32
  xs_pending_recycle_addrs :: "u64 list"
  xw_umem :: bool
  xw_xsk :: bool
  xw_umem_size :: u32
  xw_chunk_size :: u32
  xw_xsk_map_fd :: int
  xw_ifindex :: int
  xw_outstanding_tx :: u32
  xs_calls :: "xsk_call list"

definition xsk_call :: "xsk_call \<Rightarrow> xsk_socket \<Rightarrow> xsk_socket" where
  "xsk_call c s = s\<lparr>xs_calls := xs_calls s @ [c]\<rparr>"

definition umem_size :: "xsk_socket \<Rightarrow> nat" where
  "umem_size s = (case xs_umem s of None \<Rightarrow> 0 | Some m \<Rightarrow> length m)"

text \<open>\<open>checkOpen\<close> in front of an operation.\<close>

definition when_open :: "xsk_socket \<Rightarrow> (xsk_socket \<Rightarrow> 'a outcome \<times> xsk_socket) \<Rightarrow> 'a outcome \<times> xsk_socket" where
  "when_open s f = (if xs_closed s then (Inl (Runtime_error ''Socket is closed''), s) else f s)"

section \<open>Creation\<close>

text \<open>
  \<open>allocateAlignedBuffer\<close> takes an \<open>int\<close>: the size is rounded up to pages in \<open>long\<close> arithmetic and converted to \<open>size_t\<close>.  \<open>mmap_ok\<close>
  tells whether \<open>mmap\<close> grants so many bytes.
\<close>

definition aligned_size :: "int \<Rightarrow> int \<Rightarrow> u64" where
  "aligned_size page_size bytes = word_of_int ((bytes + page_size - 1) div page_size * page_size)"

definition allocateAlignedBuffer :: "int \<Rightarrow> (u64 \<Rightarrow> bool) \<Rightarrow> int \<Rightarrow> u8 list outcome" where
  "allocateAlignedBuffer page_size mmap_ok bytes =
     (let n = aligned_size page_size bytes
      in if mmap_ok n then Inr (replicate (unat n) 0) else Inl (Runtime_error ''Failed to allocate memory with mmap''))"

definition AFXDPSocket :: "int \<Rightarrow> (u64 \<Rightarrow> bool) \<Rightarrow> u32 \<Rightarrow> nat \<Rightarrow> u32 \<Rightarrow> xsk_socket outcome" where
  "AFXDPSocket page_size mmap_ok frame_size frame_count headroom =
     (if frame_size AND (frame_size - 1) \<noteq> 0 then Inl (Invalid_argument ''Frame size must be a power of 2'')
      else let required_frames = DEFAULT_TX_FRAMES + DEFAULT_RX_FRAMES;
               count = max frame_count required_frames;
               buffer_size = unat frame_size * count
           in case allocateAlignedBuffer page_size mmap_ok (sint (of_nat buffer_size :: u32)) of
                Inl e \<Rightarrow> Inl e
              | Inr m \<Rightarrow> Inr \<lparr>xs_closed = False, xs_chunk_size = frame_size, xs_headroom = headroom, xs_umem = Some (take buffer_size m),
                  xs_prev_umem_tx_frame = 0, xs_cached_completions = 0, xs_outstanding_tx = 0, xs_pending_recycle_addrs = [],
                  xw_umem = False, xw_xsk = False, xw_umem_size = 0, xw_chunk_size = 0, xw_xsk_map_fd = - 1, xw_ifindex = - 1,
                  xw_outstanding_tx = 0, xs_calls = []\<rparr>)"

text \<open>Moving a socket leaves a closed one without memory.\<close>

definition move_socket :: "xsk_socket \<Rightarrow> xsk_socket \<times> xsk_socket" where
  "move_socket other =
     (other, other\<lparr>xs_umem := None, xs_closed := True, xs_pending_recycle_addrs := [], xw_umem := False, xw_xsk := False\<rparr>)"

section \<open>Set-up\<close>

text \<open>The product is computed in 32 bits.  \<open>page_aligned\<close> and \<open>created\<close> are the address test and the result of \<open>xsk_umem__create\<close>.\<close>

definition setupUMem :: "bool \<Rightarrow> bool \<Rightarrow> xsk_socket \<Rightarrow> unit outcome \<times> xsk_socket" where
  "setupUMem page_aligned created s0 = when_open s0 (\<lambda>s.
     if xs_umem s = None then (Inl (Invalid_argument ''UMEM buffer must be allocated''), s)
     else let s1 = s\<lparr>xw_umem_size := of_nat (umem_size s), xw_chunk_size := xs_chunk_size s\<rparr>
          in if \<not> page_aligned then (Inl (Invalid_argument ''Buffer must be page-aligned for AF_XDP''), s1)
             else if xw_umem_size s1 < of_nat DEFAULT_UMEM_FRAMES * xw_chunk_size s1
             then (Inl (Invalid_argument ''Buffer size too small for AF_XDP - need space for both TX and RX frames''), s1)
             else let s2 = xsk_call (Umem_create (xw_umem_size s1) (xw_chunk_size s1) (xs_headroom s1)
                                      (DEFAULT_RX_FRAMES * 2) (DEFAULT_TX_FRAMES * 2)) s1
                  in if created then (Inr (), s2\<lparr>xw_umem := True\<rparr>)
                     else (Inl (Runtime_error ''Failed to create AF_XDP UMEM''), s2))"

text \<open>The flags of the class, and the kernel's bind flags: copy 2, zero-copy 4, need-wakeup 8.\<close>

definition XDP_FLAGS_SKB_MODE :: int where "XDP_FLAGS_SKB_MODE = 2"
definition XDP_FLAGS_DRV_MODE :: int where "XDP_FLAGS_DRV_MODE = 4"
definition XDP_FLAGS_HW_MODE :: int where "XDP_FLAGS_HW_MODE = 8"
definition XDP_FLAGS_ZERO_COPY :: int where "XDP_FLAGS_ZERO_COPY = 16"

definition bind_flags_of :: "int \<Rightarrow> u16 option" where
  "bind_flags_of flags =
     (if flags = XDP_FLAGS_SKB_MODE then Some (2 OR 8)
      else if flags = XDP_FLAGS_DRV_MODE then Some 8
      else if flags = XDP_FLAGS_HW_MODE then Some 8
      else if flags = XDP_FLAGS_ZERO_COPY then Some (4 OR 8)
      else None)"

text \<open>\<open>(UMEM_RX_FIRST_FRAME_IX + i) * chunk_size\<close>, in 32 bits and then widened.\<close>

definition rx_frame_addr :: "u32 \<Rightarrow> nat \<Rightarrow> u64" where
  "rx_frame_addr chunk_size i = ucast (of_nat (DEFAULT_TX_FRAMES + i) * chunk_size)"

definition write_fill_addrs :: "u32 \<Rightarrow> u64 list \<Rightarrow> xsk_socket \<Rightarrow> xsk_socket" where
  "write_fill_addrs idx addrs s = s\<lparr>xs_calls := xs_calls s @ map (\<lambda>i. Fq_addr (idx + of_nat i) (addrs ! i)) [0..<length addrs]\<rparr>"

definition bind_socket :: "string \<Rightarrow> int \<Rightarrow> int \<Rightarrow> (string \<Rightarrow> int) \<Rightarrow> bool \<Rightarrow> nat \<times> u32 \<Rightarrow> xsk_socket \<Rightarrow> unit outcome \<times> xsk_socket" where
  "bind_socket ifname queue_id flags if_nametoindex created fq_reserved s0 = when_open s0 (\<lambda>s.
     if \<not> xw_umem s then (Inl (Runtime_error ''UMEM not configured - call setupUMem first''), s)
     else let ifindex = if_nametoindex ifname
          in if ifindex = 0 then (Inl (Invalid_argument ''Invalid interface name''), s)
             else let s1 = s\<lparr>xw_ifindex := ifindex\<rparr>
                  in case bind_flags_of flags of
                       None \<Rightarrow> (Inl (Invalid_argument ''Invalid XDP mode''), s1)
                     | Some bind_flags \<Rightarrow>
                         (let s2 = xsk_call (Socket_create ifname queue_id bind_flags) s1
                          in if \<not> created then (Inl (Runtime_error ''Failed to create AF_XDP socket''), s2)
                             else let (reserved, idx) = fq_reserved;
                                      s3 = xsk_call (Fq_reserve DEFAULT_RX_FRAMES) (s2\<lparr>xw_xsk := True\<rparr>);
                                      s4 = write_fill_addrs idx (map (rx_frame_addr (xw_chunk_size s3)) [0..<reserved]) s3
                                  in (Inr (), xsk_call (Fq_submit reserved) s4)))"

text \<open>
  \<open>registerXskMap\<close>: the program that is loaded, whether the map is found, the descriptor of the socket and the result of the update.
\<close>

definition registerXskMap :: "bool \<Rightarrow> bool \<Rightarrow> int option \<Rightarrow> int \<Rightarrow> bool \<Rightarrow> int \<Rightarrow> xsk_socket \<Rightarrow> unit outcome \<times> xsk_socket" where
  "registerXskMap prog_loaded has_bpf_obj map_fd sock_fd updated queue_id s0 = when_open s0 (\<lambda>s.
     if \<not> prog_loaded then (Inl (Runtime_error ''XDP program not loaded''), s)
     else if \<not> has_bpf_obj then (Inl (Runtime_error ''Failed to get BPF object from XDP program''), s)
     else case map_fd of
            None \<Rightarrow> (Inl (Runtime_error ''Failed to find XSK map''), s)
          | Some fd \<Rightarrow>
              (let s1 = s\<lparr>xw_xsk_map_fd := fd\<rparr>
               in if sock_fd < 0 then (Inl (Runtime_error ''Invalid socket file descriptor''), s1)
                  else let s2 = xsk_call (Map_update (word_of_int queue_id)) s1
                       in if updated then (Inr (), s2) else (Inl (Runtime_error ''Failed to update XSK map''), s2)))"

definition getFd :: "int \<Rightarrow> xsk_socket \<Rightarrow> int outcome \<times> xsk_socket" where
  "getFd sock_fd s0 = when_open s0 (\<lambda>s. if sock_fd < 0 then (Inl (Runtime_error ''Failed to get socket fd''), s) else (Inr sock_fd, s))"

section \<open>Transmission\<close>

definition getNextTxFrame :: "xsk_socket \<Rightarrow> nat \<times> xsk_socket" where
  "getNextTxFrame s = (unat (xs_prev_umem_tx_frame s mod of_nat DEFAULT_TX_FRAMES), s\<lparr>xs_prev_umem_tx_frame := xs_prev_umem_tx_frame s + 1\<rparr>)"

text \<open>\<open>new_completions\<close> is the result of \<open>xsk_ring_cons__peek\<close> on the completion ring.\<close>

definition pollTxCompletions :: "u32 \<Rightarrow> xsk_socket \<Rightarrow> unit outcome \<times> xsk_socket" where
  "pollTxCompletions new_completions s0 = when_open s0 (\<lambda>s.
     if xs_outstanding_tx s = 0 then (Inr (), s)
     else if new_completions = 0 then (Inr (), s)
     else let s1 = s\<lparr>xs_cached_completions := xs_cached_completions s + new_completions\<rparr>
          in if xs_cached_completions s1 < of_nat TX_BATCH_SIZE then (Inr (), s1)
             else let s2 = xsk_call (Cq_release (xs_cached_completions s1)) s1
                  in (Inr (), s2\<lparr>xs_outstanding_tx := xs_outstanding_tx s2 - xs_cached_completions s2, xs_cached_completions := 0\<rparr>))"

text \<open>Errors of the wake-up call are ignored.\<close>

definition requestDriverPoll :: "bool \<Rightarrow> xsk_socket \<Rightarrow> unit outcome \<times> xsk_socket" where
  "requestDriverPoll needs_wakeup s0 = when_open s0 (\<lambda>s. (Inr (), if needs_wakeup then xsk_call Wake_tx s else s))"

definition reserveTxRing :: "int \<Rightarrow> int \<Rightarrow> xsk_socket \<Rightarrow> int outcome \<times> xsk_socket" where
  "reserveTxRing count ret s0 = when_open s0 (\<lambda>s. (Inr ret, xsk_call (Tx_reserve count) s))"

definition setTxDescriptor :: "u32 \<Rightarrow> u64 \<Rightarrow> u32 \<Rightarrow> xsk_socket \<Rightarrow> unit outcome \<times> xsk_socket" where
  "setTxDescriptor idx addr len s0 = when_open s0 (\<lambda>s. (Inr (), xsk_call (Tx_desc idx addr len) s))"

definition submitTxRing :: "int \<Rightarrow> xsk_socket \<Rightarrow> unit outcome \<times> xsk_socket" where
  "submitTxRing count s0 = when_open s0 (\<lambda>s.
     (Inr (), (xsk_call (Tx_submit count) s)\<lparr>xs_outstanding_tx := xs_outstanding_tx s + word_of_int count\<rparr>))"

definition write_tx_descs :: "u32 \<Rightarrow> (int \<times> int) list \<Rightarrow> xsk_socket \<Rightarrow> xsk_socket" where
  "write_tx_descs idx ds s =
     s\<lparr>xs_calls := xs_calls s @ map (\<lambda>i. Tx_desc (idx + of_nat i) (word_of_int (fst (ds ! i))) (word_of_int (snd (ds ! i)))) [0..<length ds]\<rparr>"

text \<open>
  \<open>sendBatch\<close>, with the completions found, the result of \<open>xsk_ring_prod__reserve\<close> and its index, and whether the driver asks for a
  wake-up.  A negative batch size is a huge \<open>size_t\<close> and fails the test of the vectors.
\<close>

definition sendBatch :: "u32 \<Rightarrow> int \<times> u32 \<Rightarrow> bool \<Rightarrow> int list \<Rightarrow> int list \<Rightarrow> int \<Rightarrow> xsk_socket \<Rightarrow> int outcome \<times> xsk_socket" where
  "sendBatch new_completions reserved needs_wakeup offsets lengths batch_size s0 = when_open s0 (\<lambda>s.
     if batch_size < 0 \<or> length offsets < nat batch_size \<or> length lengths < nat batch_size
     then (Inl (Invalid_argument ''Vectors must be at least as long as batchSize''), s)
     else let s1 = snd (pollTxCompletions new_completions s)
          in if xs_outstanding_tx s1 > of_nat (DEFAULT_TX_FRAMES - TX_BATCH_SIZE) then (Inr 0, s1)
             else let batch = min batch_size (int TX_BATCH_SIZE)
                  in if batch \<le> 0 then (Inr 0, s1)
                     else let (ret, tx_idx) = reserved;
                              s2 = xsk_call (Tx_reserve batch) s1
                          in if ret \<noteq> batch \<and> ret = 0 then (Inr 0, snd (requestDriverPoll needs_wakeup s2))
                             else let n = (if ret \<noteq> batch then ret else batch);
                                      s3 = write_tx_descs tx_idx (zip (take (nat n) offsets) (take (nat n) lengths)) s2;
                                      s4 = snd (submitTxRing n s3)
                                  in (Inr n, snd (requestDriverPoll needs_wakeup s4)))"

definition send_one :: "u32 \<Rightarrow> int \<times> u32 \<Rightarrow> bool \<Rightarrow> int \<Rightarrow> int \<Rightarrow> xsk_socket \<Rightarrow> int outcome \<times> xsk_socket" where
  "send_one new_completions reserved needs_wakeup offset len s0 =
     when_open s0 (sendBatch new_completions reserved needs_wakeup [offset] [len] 1)"

definition sendBatchToSubscribers :: "u32 \<Rightarrow> int \<times> u32 \<Rightarrow> bool \<Rightarrow> int list \<Rightarrow> int list \<Rightarrow> int \<Rightarrow> xsk_socket \<Rightarrow> int outcome \<times> xsk_socket" where
  "sendBatchToSubscribers = sendBatch"

text \<open>\<open>memcpy\<close> into the frame memory; \<open>None\<close> is a write outside of it.\<close>

definition write_umem :: "nat \<Rightarrow> u8 list \<Rightarrow> xsk_socket \<Rightarrow> xsk_socket option" where
  "write_umem off bs s =
     (case xs_umem s of
        None \<Rightarrow> None
      | Some m \<Rightarrow> if off + length bs \<le> length m then Some (s\<lparr>xs_umem := Some (put_bytes off bs m)\<rparr>) else None)"

definition copyUmemData :: "u8 list option \<Rightarrow> nat \<Rightarrow> nat \<Rightarrow> nat \<Rightarrow> xsk_socket \<Rightarrow> (unit outcome \<times> xsk_socket) option" where
  "copyUmemData source source_offset dest_offset len s =
     (if xs_closed s then Some (Inl (Runtime_error ''Socket is closed''), s)
      else case source of
             None \<Rightarrow> Some (Inl (Invalid_argument ''Source buffer must not be null''), s)
           | Some src \<Rightarrow>
               (if length src < source_offset + len then None
                else map_option (\<lambda>s'. (Inr (), s')) (write_umem dest_offset (take len (drop source_offset src)) s)))"

section \<open>Reception\<close>

text \<open>
  \<open>descs\<close> are the descriptors that \<open>xsk_ring_cons__peek\<close> offers, \<open>ext\<close> is \<open>xsk_umem__extract_addr\<close>.  The offsets are converted to \<open>int\<close>.
  The branch that decodes addresses and ports for a message that is compiled out is left out.
\<close>

definition rx_offset :: "(u64 \<Rightarrow> u64) \<Rightarrow> u64 \<Rightarrow> int" where
  "rx_offset ext addr = sint (ucast (ext addr) :: u32)"

definition xsk_receive ::
  "(u64 \<Rightarrow> u64) \<Rightarrow> (u64 \<times> u32) list \<Rightarrow> bool \<Rightarrow> int list \<Rightarrow> int list \<Rightarrow> xsk_socket \<Rightarrow> (nat \<times> int list \<times> int list) outcome \<times> xsk_socket" where
  "xsk_receive ext descs fq_needs_wakeup offsets lengths s0 = when_open s0 (\<lambda>s.
     let max_entries = min (length offsets) (length lengths);
         received = length descs;
         valid = min received max_entries
     in if received > 0
        then (Inr (valid, map (\<lambda>d. rx_offset ext (fst d)) (take valid descs) @ drop valid offsets,
                map (\<lambda>d. sint (snd d)) (take valid descs) @ drop valid lengths),
              (xsk_call (Rx_release received) s)\<lparr>xs_pending_recycle_addrs := map fst descs\<rparr>)
        else (Inr (0, offsets, lengths), if fq_needs_wakeup then xsk_call Wake_rx s else s))"

definition recycleFrames :: "(u64 \<Rightarrow> u64) \<Rightarrow> nat \<times> u32 \<Rightarrow> bool \<Rightarrow> xsk_socket \<Rightarrow> unit outcome \<times> xsk_socket" where
  "recycleFrames ext fq_reserved fq_needs_wakeup s0 = when_open s0 (\<lambda>s.
     if xs_pending_recycle_addrs s = [] then (Inr (), s)
     else let (free_capacity, idx_fq) = fq_reserved;
              s1 = xsk_call (Fq_reserve (length (xs_pending_recycle_addrs s))) s;
              s2 = (if free_capacity > 0
                    then let a = write_fill_addrs idx_fq (map ext (take free_capacity (xs_pending_recycle_addrs s))) s1;
                             b = xsk_call (Fq_submit free_capacity) a
                         in if fq_needs_wakeup then xsk_call Wake_rx b else b
                    else s1)
          in (Inr (), s2\<lparr>xs_pending_recycle_addrs := []\<rparr>))"

section \<open>Closing\<close>

text \<open>
  The loop that waits for completions, over the counter of the wrapper: \<open>results\<close> are the completions found and whether
  the driver asks for a wake-up, one pair per turn, at most ten turns.
\<close>

fun close_drain :: "nat \<Rightarrow> (u32 \<times> bool) list \<Rightarrow> xsk_socket \<Rightarrow> xsk_socket" where
  "close_drain (Suc retries) ((completed, needs_wakeup) # results) s =
     (if xw_outstanding_tx s = 0 then s
      else let s1 = (if completed > 0 then (xsk_call (Cq_release completed) s)\<lparr>xw_outstanding_tx := xw_outstanding_tx s - completed\<rparr> else s);
               s2 = (if xw_outstanding_tx s1 > 0 \<and> needs_wakeup then xsk_call Wake_tx s1 else s1)
           in close_drain retries results s2)"
| "close_drain _ _ s = s"

text \<open>\<open>map_entry\<close> is the lookup in the map of sockets, \<open>sock_fd\<close> the descriptor of this socket.\<close>

definition close_map_entries :: "(u32 \<Rightarrow> int option) \<Rightarrow> int \<Rightarrow> xsk_socket \<Rightarrow> xsk_socket" where
  "close_map_entries map_entry sock_fd s =
     (if xw_xsk_map_fd s < 0 then s
      else fold (\<lambda>i s. if xw_xsk s \<and> map_entry (of_nat i) = Some sock_fd then xsk_call (Map_delete (of_nat i)) s else s) [0..<256] s)"

definition close_socket :: "(u32 \<times> bool) list \<Rightarrow> (u32 \<Rightarrow> int option) \<Rightarrow> int \<Rightarrow> xsk_socket \<Rightarrow> xsk_socket" where
  "close_socket results map_entry sock_fd s0 =
     (if xs_closed s0 then s0
      else let s = s0\<lparr>xs_closed := True\<rparr>;
               s1 = (if xw_xsk s \<and> xw_outstanding_tx s > 0 then close_drain 10 results s else s);
               s2 = close_map_entries map_entry sock_fd s1;
               s3 = (if xw_xsk s2 then (xsk_call Socket_delete s2)\<lparr>xw_xsk := False\<rparr> else s2)
           in if xw_umem s3 then (xsk_call Umem_delete s3)\<lparr>xw_umem := False\<rparr> else s3)"

definition destroy_socket :: "(u32 \<times> bool) list \<Rightarrow> (u32 \<Rightarrow> int option) \<Rightarrow> int \<Rightarrow> xsk_socket \<Rightarrow> xsk_socket" where
  "destroy_socket results map_entry sock_fd s =
     (let s1 = close_socket results map_entry sock_fd s
      in case xs_umem s1 of None \<Rightarrow> s1 | Some m \<Rightarrow> (xsk_call (Unmap (length m)) s1)\<lparr>xs_umem := None\<rparr>)"

text \<open>
  The move assignment closes the socket and takes over the other one.  The third value is what becomes of the old contents: closed, and its memory
  no longer referenced.
\<close>

definition move_assign_socket ::
  "(u32 \<times> bool) list \<Rightarrow> (u32 \<Rightarrow> int option) \<Rightarrow> int \<Rightarrow> xsk_socket \<Rightarrow> xsk_socket \<Rightarrow> xsk_socket \<times> xsk_socket \<times> xsk_socket" where
  "move_assign_socket results map_entry sock_fd this other =
     (let old = close_socket results map_entry sock_fd this; (new, other') = move_socket other in (new, other', old))"

definition isClosed :: "xsk_socket \<Rightarrow> bool" where
  "isClosed s = xs_closed s"

definition getUmemBuffer :: "xsk_socket \<Rightarrow> u8 list option" where
  "getUmemBuffer s = (if xs_closed s then None else xs_umem s)"

section \<open>The XDP program of the process\<close>

text \<open>
  The static variables: the attach mode and the program, and the calls made for it.  \<open>results\<close> are those of opening the file, of enabling fragments and of
  attaching.  A program that cannot be opened leaves an error pointer in \<open>xdp_prog\<close>, which the library's functions accept.
\<close>

datatype attach_mode = XDP_MODE_NATIVE | XDP_MODE_SKB

datatype xdp_call = Xdp_open string | Xdp_attach attach_mode | Xdp_detach attach_mode | Xdp_close

record xdp_globals =
  opt_attach_mode :: attach_mode
  xdp_prog :: bool
  xdp_calls :: "xdp_call list"

definition initial_xdp_globals :: xdp_globals where
  "initial_xdp_globals = \<lparr>opt_attach_mode = XDP_MODE_NATIVE, xdp_prog = False, xdp_calls = []\<rparr>"

definition xdp_log :: "xdp_call list \<Rightarrow> xdp_globals \<Rightarrow> xdp_globals" where
  "xdp_log cs g = g\<lparr>xdp_calls := xdp_calls g @ cs\<rparr>"

definition select_mode :: "bool \<Rightarrow> xdp_globals \<Rightarrow> xdp_globals" where
  "select_mode native_mode g = (if native_mode then g else g\<lparr>opt_attach_mode := XDP_MODE_SKB\<rparr>)"

definition unload_current :: "xdp_globals \<Rightarrow> xdp_globals" where
  "unload_current g =
     (if xdp_prog g then (xdp_log [Xdp_detach (opt_attach_mode g), Xdp_close] g)\<lparr>xdp_prog := False\<rparr> else g)"

definition loadXdpProgram :: "bool \<times> bool \<times> bool \<Rightarrow> string \<Rightarrow> bool \<Rightarrow> xdp_globals \<Rightarrow> unit outcome \<times> xdp_globals" where
  "loadXdpProgram results program_path native_mode g0 =
     (let (opened, frags, attached) = results;
          g1 = unload_current (select_mode native_mode g0);
          g2 = (xdp_log [Xdp_open program_path] g1)\<lparr>xdp_prog := True\<rparr>
      in if \<not> opened then (Inl (Runtime_error ''XDP program loading failed''), g2)
         else if \<not> frags then (Inl (Runtime_error ''Enable frags support failed''), g2)
         else let g3 = xdp_log [Xdp_attach (opt_attach_mode g2)] g2
              in if \<not> attached then (Inl (Runtime_error ''XDP program attach failed''), (xdp_log [Xdp_close] g3)\<lparr>xdp_prog := False\<rparr>)
                 else (Inr (), g3))"

definition unloadXdpProgram :: "bool \<Rightarrow> xdp_globals \<Rightarrow> xdp_globals" where
  "unloadXdpProgram native_mode g = unload_current (select_mode native_mode g)"

definition setResourceLimits :: "bool \<Rightarrow> unit outcome" where
  "setResourceLimits granted = (if granted then Inr () else Inl (Runtime_error ''Failed to set RLIMIT_MEMLOCK''))"

section \<open>Transmit frames\<close>

text \<open>The counter wraps at \<open>2^32\<close>, a multiple of the number of frames, so that the frames cycle without a break.\<close>

lemma getNextTxFrame_cycle: "fst (getNextTxFrame s) = unat (xs_prev_umem_tx_frame s) mod 2048"
  by (simp add: getNextTxFrame_def DEFAULT_TX_FRAMES_def unat_mod)

lemma getNextTxFrame_bound: "fst (getNextTxFrame s) < 2048"
  by (simp add: getNextTxFrame_cycle)

lemma counter_mod: "unat (c + of_nat k :: u32) mod 2048 = (unat c + k) mod 2048"
proof -
  have "unat (c + of_nat k) = (unat c + unat (of_nat k :: u32)) mod 2 ^ 32" by (simp add: unat_word_ariths)
  also have "\<dots> = (unat c + k) mod 2 ^ 32" by (simp add: unat_of_nat mod_simps)
  also have "\<dots> mod 2048 = (unat c + k) mod 2048" by (rule mod_mod_cancel) simp
  finally show ?thesis .
qed

lemma distinct_window:
  fixes c :: nat
  assumes "k < 2048" and "0 < k"
  shows "(c + k) mod 2048 \<noteq> c mod 2048"
proof
  assume "(c + k) mod 2048 = c mod 2048"
  then have "2048 dvd (c + k) - c" by (metis mod_eq_dvd_iff_nat le_add1)
  with assms show False by (auto dest: dvd_imp_le)
qed

section \<open>What the operations leave alone\<close>

text \<open>Addresses written into the fill ring, numbers of packets submitted and of completions released.\<close>

fun fill_addr :: "xsk_call \<Rightarrow> u64 list" where
  "fill_addr (Fq_addr i a) = [a]"
| "fill_addr _ = []"

definition published :: "xsk_socket \<Rightarrow> u64 list" where
  "published s = concat (map fill_addr (xs_calls s))"

fun tx_submitted :: "xsk_call \<Rightarrow> int" where
  "tx_submitted (Tx_submit n) = n"
| "tx_submitted _ = 0"

fun cq_released :: "xsk_call \<Rightarrow> int" where
  "cq_released (Cq_release n) = uint n"
| "cq_released _ = 0"

definition submitted :: "xsk_socket \<Rightarrow> int" where
  "submitted s = sum_list (map tx_submitted (xs_calls s))"

definition released :: "xsk_socket \<Rightarrow> int" where
  "released s = sum_list (map cq_released (xs_calls s))"

named_theorems xsk_simps \<open>effects of the socket operations\<close>

lemma published_call [xsk_simps]: "published (xsk_call c s) = published s @ fill_addr c"
  by (simp add: published_def xsk_call_def)

lemma submitted_call [xsk_simps]: "submitted (xsk_call c s) = submitted s + tx_submitted c"
  by (simp add: submitted_def xsk_call_def)

lemma released_call [xsk_simps]: "released (xsk_call c s) = released s + cq_released c"
  by (simp add: released_def xsk_call_def)

lemma log_updates [xsk_simps]:
  "published (s\<lparr>xs_prev_umem_tx_frame := x\<rparr>) = published s" "published (s\<lparr>xs_cached_completions := y\<rparr>) = published s"
  "published (s\<lparr>xs_outstanding_tx := y\<rparr>) = published s" "published (s\<lparr>xs_umem := m\<rparr>) = published s"
  "published (s\<lparr>xs_pending_recycle_addrs := p\<rparr>) = published s" "published (s\<lparr>xw_xsk := b\<rparr>) = published s"
  "published (s\<lparr>xw_ifindex := i\<rparr>) = published s"
  by (simp_all add: published_def)

lemma count_updates [xsk_simps]:
  "submitted (s\<lparr>xs_prev_umem_tx_frame := x\<rparr>) = submitted s" "submitted (s\<lparr>xs_cached_completions := y\<rparr>) = submitted s"
  "submitted (s\<lparr>xs_outstanding_tx := y\<rparr>) = submitted s" "submitted (s\<lparr>xs_umem := m\<rparr>) = submitted s"
  "submitted (s\<lparr>xs_pending_recycle_addrs := p\<rparr>) = submitted s"
  "released (s\<lparr>xs_prev_umem_tx_frame := x\<rparr>) = released s" "released (s\<lparr>xs_cached_completions := y\<rparr>) = released s"
  "released (s\<lparr>xs_outstanding_tx := y\<rparr>) = released s" "released (s\<lparr>xs_umem := m\<rparr>) = released s"
  "released (s\<lparr>xs_pending_recycle_addrs := p\<rparr>) = released s"
  by (simp_all add: submitted_def released_def)

lemma call_fields [xsk_simps]:
  "xs_closed (xsk_call c s) = xs_closed s" "xs_umem (xsk_call c s) = xs_umem s" "xs_outstanding_tx (xsk_call c s) = xs_outstanding_tx s"
  "xs_cached_completions (xsk_call c s) = xs_cached_completions s" "xs_pending_recycle_addrs (xsk_call c s) = xs_pending_recycle_addrs s"
  "xs_prev_umem_tx_frame (xsk_call c s) = xs_prev_umem_tx_frame s" "xw_outstanding_tx (xsk_call c s) = xw_outstanding_tx s"
  "xw_xsk (xsk_call c s) = xw_xsk s" "xw_umem (xsk_call c s) = xw_umem s" "xw_xsk_map_fd (xsk_call c s) = xw_xsk_map_fd s"
  "xs_chunk_size (xsk_call c s) = xs_chunk_size s" "xw_chunk_size (xsk_call c s) = xw_chunk_size s"
  by (simp_all add: xsk_call_def)

lemma write_fill_addrs_simps [xsk_simps]:
  "published (write_fill_addrs idx addrs s) = published s @ addrs" "submitted (write_fill_addrs idx addrs s) = submitted s"
  "released (write_fill_addrs idx addrs s) = released s" "xs_umem (write_fill_addrs idx addrs s) = xs_umem s"
  "xs_closed (write_fill_addrs idx addrs s) = xs_closed s" "xs_outstanding_tx (write_fill_addrs idx addrs s) = xs_outstanding_tx s"
  "xs_cached_completions (write_fill_addrs idx addrs s) = xs_cached_completions s"
  "xs_prev_umem_tx_frame (write_fill_addrs idx addrs s) = xs_prev_umem_tx_frame s"
proof -
  have "concat (map (\<lambda>i. [addrs ! i]) [0..<length addrs]) = addrs" by (simp add: concat_map_singleton map_nth)
  then show "published (write_fill_addrs idx addrs s) = published s @ addrs"
    by (simp add: published_def write_fill_addrs_def comp_def)
  show "submitted (write_fill_addrs idx addrs s) = submitted s" "released (write_fill_addrs idx addrs s) = released s"
    by (simp_all add: submitted_def released_def write_fill_addrs_def comp_def)
qed (simp_all add: write_fill_addrs_def)

section \<open>Reception and recycling\<close>

text \<open>
  A turn of the packet loop, as far as frames are concerned: the descriptors of one batch are taken over, and all their frames go back
  into the fill ring when it has room.
\<close>

lemma xsk_receive_effect:
  assumes "\<not> xs_closed s"
  shows "published (snd (xsk_receive ext descs w offsets lengths s)) = published s"
    and "xs_pending_recycle_addrs (snd (xsk_receive ext descs w offsets lengths s)) =
      (if descs = [] then xs_pending_recycle_addrs s else map fst descs)"
    and "\<not> xs_closed (snd (xsk_receive ext descs w offsets lengths s))"
    and "xs_umem (snd (xsk_receive ext descs w offsets lengths s)) = xs_umem s"
  using assms by (simp_all add: xsk_receive_def when_open_def Let_def xsk_simps)

lemma recycleFrames_effect:
  assumes "\<not> xs_closed s"
  shows "published (snd (recycleFrames ext r w s)) = published s @ map ext (take (fst r) (xs_pending_recycle_addrs s))"
    and "xs_pending_recycle_addrs (snd (recycleFrames ext r w s)) = []"
    and "\<not> xs_closed (snd (recycleFrames ext r w s))" and "fst (recycleFrames ext r w s) = Inr ()"
    and "xs_umem (snd (recycleFrames ext r w s)) = xs_umem s"
  using assms by (auto simp: recycleFrames_def when_open_def Let_def xsk_simps split: prod.splits)

text \<open>The entries of the ring are written at consecutive positions from the reserved one, and as many are submitted as written.\<close>

lemma recycleFrames_calls:
  assumes "\<not> xs_closed s" and "xs_pending_recycle_addrs s \<noteq> []" and "0 < n" and "n \<le> length (xs_pending_recycle_addrs s)"
  shows "xs_calls (snd (recycleFrames ext (n, idx) w s)) =
    xs_calls s @ [Fq_reserve (length (xs_pending_recycle_addrs s))] @
    map (\<lambda>i. Fq_addr (idx + of_nat i) (ext (xs_pending_recycle_addrs s ! i))) [0..<n] @ [Fq_submit n] @ (if w then [Wake_rx] else [])"
  using assms by (auto simp: recycleFrames_def when_open_def Let_def write_fill_addrs_def xsk_call_def)

section \<open>Findings about closing and modes\<close>

text \<open>
  No operation changes the counter of the wrapper, so that closing never waits for packets in flight: the loop for them is not entered.
\<close>

lemma wrapper_counter_unused:
  "xw_outstanding_tx (snd (sendBatch c r w os ls n s)) = xw_outstanding_tx s"
  "xw_outstanding_tx (snd (submitTxRing k s)) = xw_outstanding_tx s"
  "xw_outstanding_tx (snd (pollTxCompletions c s)) = xw_outstanding_tx s"
proof -
  have p: "xw_outstanding_tx (snd (pollTxCompletions c s)) = xw_outstanding_tx s" for s
    by (simp add: pollTxCompletions_def when_open_def Let_def xsk_simps)
  have q: "xw_outstanding_tx (snd (requestDriverPoll w s)) = xw_outstanding_tx s" for s
    by (simp add: requestDriverPoll_def when_open_def xsk_simps)
  have m: "xw_outstanding_tx (snd (submitTxRing k s)) = xw_outstanding_tx s" for k s
    by (simp add: submitTxRing_def when_open_def xsk_simps)
  have d: "xw_outstanding_tx (write_tx_descs i ds s) = xw_outstanding_tx s" for i ds s by (simp add: write_tx_descs_def)
  show "xw_outstanding_tx (snd (sendBatch c r w os ls n s)) = xw_outstanding_tx s"
    by (simp add: sendBatch_def when_open_def Let_def p q m d xsk_simps split: prod.splits)
  show "xw_outstanding_tx (snd (submitTxRing k s)) = xw_outstanding_tx s" by (rule m)
  show "xw_outstanding_tx (snd (pollTxCompletions c s)) = xw_outstanding_tx s" by (rule p)
qed

text \<open>
  Closing and closing again leave the same state, the frame memory stays; the move assignment therefore loses the memory that the assigned socket had.
\<close>

lemma close_drain_keeps: "xs_umem (close_drain n rs s) = xs_umem s \<and> xs_closed (close_drain n rs s) = xs_closed s"
  by (induction n rs s rule: close_drain.induct) (auto simp: xsk_call_def Let_def)

lemma close_map_entries_keeps: "xs_umem (close_map_entries me fd s) = xs_umem s \<and> xs_closed (close_map_entries me fd s) = xs_closed s"
proof -
  have "xs_umem (fold (\<lambda>i s. if xw_xsk s \<and> me (of_nat i) = Some fd then xsk_call (Map_delete (of_nat i)) s else s) ks s) = xs_umem s \<and>
      xs_closed (fold (\<lambda>i s. if xw_xsk s \<and> me (of_nat i) = Some fd then xsk_call (Map_delete (of_nat i)) s else s) ks s) = xs_closed s" for ks :: "nat list"
    by (induction ks arbitrary: s) (simp_all add: xsk_call_def)
  then show ?thesis by (simp add: close_map_entries_def)
qed

lemma close_keeps_memory: "xs_umem (close_socket results me fd s) = xs_umem s \<and> xs_closed (close_socket results me fd s)"
  by (simp add: close_socket_def Let_def close_drain_keeps close_map_entries_keeps xsk_call_def)

lemma close_twice: "close_socket results' me' fd' (close_socket results me fd s) = close_socket results me fd s"
  using close_keeps_memory [of results me fd s] by (simp add: close_socket_def [of results' me' fd' "close_socket results me fd s"])

lemma move_assign_loses_memory:
  "xs_umem this = Some m \<Longrightarrow> xs_umem (snd (snd (move_assign_socket results me fd this other))) = Some m"
  by (simp add: move_assign_socket_def move_socket_def close_keeps_memory)

text \<open>Nothing sets the attach mode back to native: after one load in SKB mode every later load attaches in SKB mode.\<close>

lemma skb_mode_sticks:
  "opt_attach_mode g = XDP_MODE_SKB \<Longrightarrow> opt_attach_mode (snd (loadXdpProgram results path native g)) = XDP_MODE_SKB"
  by (auto simp: loadXdpProgram_def select_mode_def unload_current_def xdp_log_def Let_def split: prod.splits)

text \<open>A program is detached in the mode in which it was attached, whatever mode the caller of \<open>unloadXdpProgram\<close> names native.\<close>

lemma detached_as_attached:
  assumes "loadXdpProgram (True, True, True) path native initial_xdp_globals = (Inr (), g)"
  shows "\<exists>mode. xdp_calls (unloadXdpProgram True g) = [Xdp_open path, Xdp_attach mode, Xdp_detach mode, Xdp_close] \<and>
    \<not> xdp_prog (unloadXdpProgram True g)"
  using assms by (auto simp: loadXdpProgram_def unloadXdpProgram_def select_mode_def unload_current_def xdp_log_def initial_xdp_globals_def Let_def)

section \<open>Accounting of completions\<close>

text \<open>
  The sends of one thread, in any order.  What is assumed of the rings is what they promise: the completion ring holds at
  most as many new entries as packets are under way, a reservation grants no more than was asked for, and the number of packets under way fits 32 bits (the rings
  have a few thousand entries).
\<close>

inductive tx_step :: "xsk_socket \<Rightarrow> xsk_socket \<Rightarrow> bool" where
  poll: "uint c + uint (xs_cached_completions s) \<le> uint (xs_outstanding_tx s) \<Longrightarrow> tx_step s (snd (pollTxCompletions c s))"
| next_frame: "tx_step s (snd (getNextTxFrame s))"
| wake: "tx_step s (snd (requestDriverPoll w s))"
| reserve: "tx_step s (snd (reserveTxRing n r s))"
| describe: "tx_step s (snd (setTxDescriptor i a l s))"
| submit: "0 \<le> n \<Longrightarrow> uint (xs_outstanding_tx s) + n < 2 ^ 32 \<Longrightarrow> tx_step s (snd (submitTxRing n s))"
| batch: "uint c + uint (xs_cached_completions s) \<le> uint (xs_outstanding_tx s) \<Longrightarrow> 0 \<le> r \<Longrightarrow> r \<le> 64 \<Longrightarrow>
    tx_step s (snd (sendBatch c (r, i) w os ls n s))"

definition tx_accounted :: "xsk_socket \<Rightarrow> bool" where
  "tx_accounted s \<longleftrightarrow> uint (xs_outstanding_tx s) = submitted s - released s \<and> xs_cached_completions s \<le> xs_outstanding_tx s"

lemma tx_accounted_poll:
  assumes "tx_accounted s" and "uint c + uint (xs_cached_completions s) \<le> uint (xs_outstanding_tx s)"
  shows "tx_accounted (snd (pollTxCompletions c s))"
proof -
  have sum: "uint (xs_cached_completions s + c) = uint (xs_cached_completions s) + uint c"
    using assms(2) uint_lt2p [of "xs_outstanding_tx s"] by (subst uint_plus_simple_iff [THEN iffD1]) (simp_all add: word_le_def uint_word_ariths)
  then have "uint (xs_outstanding_tx s - (xs_cached_completions s + c)) = uint (xs_outstanding_tx s) - uint (xs_cached_completions s) - uint c"
    using assms(2) by (subst uint_sub_lem [THEN iffD1]) simp_all
  with assms sum show ?thesis
    by (auto simp: tx_accounted_def pollTxCompletions_def when_open_def Let_def xsk_simps word_le_def)
qed

lemma tx_accounted_submit:
  assumes "tx_accounted s" and "0 \<le> n" and "uint (xs_outstanding_tx s) + n < 2 ^ 32"
  shows "tx_accounted (snd (submitTxRing n s))"
proof -
  have "uint (xs_outstanding_tx s + word_of_int n) = uint (xs_outstanding_tx s) + n"
    using assms(2,3) by (simp add: uint_word_ariths uint_word_of_int mod_simps)
  with assms show ?thesis
    by (simp add: tx_accounted_def submitTxRing_def when_open_def xsk_simps word_le_def)
qed

lemma tx_accounted_calls [xsk_simps]:
  "tx_accounted (snd (requestDriverPoll w s)) = tx_accounted s" "tx_accounted (snd (reserveTxRing n r s)) = tx_accounted s"
  "tx_accounted (snd (setTxDescriptor i a l s)) = tx_accounted s" "tx_accounted (snd (getNextTxFrame s)) = tx_accounted s"
  "tx_accounted (xsk_call (Tx_reserve b) s) = tx_accounted s" "tx_accounted (write_tx_descs i ds s) = tx_accounted s"
  by (simp_all add: tx_accounted_def requestDriverPoll_def reserveTxRing_def setTxDescriptor_def getNextTxFrame_def when_open_def xsk_simps)
    (simp add: tx_accounted_def write_tx_descs_def submitted_def released_def comp_def)

lemma tx_accounted_batch:
  assumes "tx_accounted s" and "uint c + uint (xs_cached_completions s) \<le> uint (xs_outstanding_tx s)" and "0 \<le> r" and "r \<le> 64"
  shows "tx_accounted (snd (sendBatch c (r, i) w os ls n s))"
proof -
  let ?p = "snd (pollTxCompletions c s)"
  have p: "tx_accounted ?p" by (rule tx_accounted_poll) fact+
  have sub: "tx_accounted (snd (submitTxRing m (write_tx_descs i ds (xsk_call (Tx_reserve b) ?p))))"
    if "0 \<le> m" "m \<le> 64" "\<not> of_nat (DEFAULT_TX_FRAMES - TX_BATCH_SIZE) < xs_outstanding_tx ?p" for m ds b
  proof (rule tx_accounted_submit)
    show "uint (xs_outstanding_tx (write_tx_descs i ds (xsk_call (Tx_reserve b) ?p))) + m < 2 ^ 32"
      using that by (simp add: write_tx_descs_def xsk_simps word_less_def DEFAULT_TX_FRAMES_def TX_BATCH_SIZE_def)
  qed (use p that(1) in \<open>simp_all add: xsk_simps\<close>)
  show ?thesis
    using assms(1,3,4) p by (auto simp: sendBatch_def when_open_def Let_def xsk_simps sub TX_BATCH_SIZE_def [symmetric] split: prod.splits)
qed

lemma tx_step_accounted: "tx_step s s' \<Longrightarrow> tx_accounted s \<Longrightarrow> tx_accounted s'"
  by (induction rule: tx_step.induct) (simp_all add: xsk_simps tx_accounted_poll tx_accounted_submit tx_accounted_batch)

lemma tx_steps_accounted: "tx_step\<^sup>*\<^sup>* s s' \<Longrightarrow> tx_accounted s \<Longrightarrow> tx_accounted s'"
  by (induction rule: rtranclp_induct) (auto intro: tx_step_accounted)

section \<open>A socket that has been set up\<close>

text \<open>
  With the frame size and number the replicator asks for, construction, set-up and binding give the kernel exactly the frames of the
  upper half; no transmit frame is among them.
\<close>

definition rx_frames :: "u64 list" where
  "rx_frames = map (\<lambda>i. of_nat ((2048 + i) * 4096)) [0..<2048]"

lemma rx_frame_addr_4096: "i < 2048 \<Longrightarrow> rx_frame_addr 4096 i = of_nat ((2048 + i) * 4096)"
proof -
  assume i: "i < 2048"
  then have n: "(2048 + i) * 4096 < 2 ^ 32" by simp
  have "of_nat (DEFAULT_TX_FRAMES + i) * 4096 = (of_nat ((2048 + i) * 4096) :: u32)"
    by (simp only: DEFAULT_TX_FRAMES_def of_nat_mult of_nat_numeral)
  moreover have "unat (of_nat ((2048 + i) * 4096) :: u32) = (2048 + i) * 4096" using n by (rule unat_of_nat_small [OF less_le_trans]) simp
  ultimately show ?thesis unfolding rx_frame_addr_def by (metis of_nat_unat)
qed

lemma socket_ready:
  assumes s: "AFXDPSocket 4096 mmap_ok 4096 DEFAULT_UMEM_FRAMES 0 = Inr s0"
    and u: "setupUMem True True s0 = (Inr (), s1)"
    and b: "bind_socket ifname q flags names True (2048, idx) s1 = (Inr (), s2)"
  shows "published s2 = rx_frames \<and> \<not> xs_closed s2 \<and> xs_pending_recycle_addrs s2 = [] \<and> xs_prev_umem_tx_frame s2 = 0 \<and>
    xs_outstanding_tx s2 = 0 \<and> xs_cached_completions s2 = 0 \<and> submitted s2 = 0 \<and> released s2 = 0 \<and> xw_outstanding_tx s2 = 0 \<and>
    xs_umem s2 = Some (replicate (4096 * 4096) 0)"
proof -
  let ?n = "aligned_size 4096 (sint (of_nat (unat (4096 :: u32) * DEFAULT_UMEM_FRAMES) :: u32))"
  have n: "unat ?n = 4096 * 4096"
    by (simp add: aligned_size_def DEFAULT_UMEM_FRAMES_def DEFAULT_TX_FRAMES_def DEFAULT_RX_FRAMES_def)
  have s0: "published s0 = []" "submitted s0 = 0" "released s0 = 0" "xs_closed s0 = False" "xs_pending_recycle_addrs s0 = []"
      "xs_prev_umem_tx_frame s0 = 0" "xs_outstanding_tx s0 = 0" "xs_cached_completions s0 = 0" "xw_outstanding_tx s0 = 0"
      "xs_umem s0 = Some (replicate (4096 * 4096) 0)" "xs_chunk_size s0 = 4096"
    using s n by (auto simp: AFXDPSocket_def allocateAlignedBuffer_def Let_def DEFAULT_UMEM_FRAMES_def DEFAULT_TX_FRAMES_def
        DEFAULT_RX_FRAMES_def published_def submitted_def released_def take_replicate split: if_splits sum.splits)
  have s1: "s1 = (xsk_call (Umem_create (xw_umem_size s1) 4096 (xs_headroom s0) (DEFAULT_RX_FRAMES * 2) (DEFAULT_TX_FRAMES * 2))
      (s0\<lparr>xw_umem_size := xw_umem_size s1, xw_chunk_size := 4096\<rparr>))\<lparr>xw_umem := True\<rparr>"
    using u s0 by (auto simp: setupUMem_def when_open_def Let_def xsk_simps xsk_call_def split: if_splits)
  have logs: "published (s\<lparr>xw_umem := a\<rparr>) = published s" "published (s\<lparr>xw_umem_size := c, xw_chunk_size := d\<rparr>) = published s"
      "submitted (s\<lparr>xw_umem := a\<rparr>) = submitted s" "submitted (s\<lparr>xw_umem_size := c, xw_chunk_size := d\<rparr>) = submitted s"
      "released (s\<lparr>xw_umem := a\<rparr>) = released s" "released (s\<lparr>xw_umem_size := c, xw_chunk_size := d\<rparr>) = released s"
      "submitted (s\<lparr>xw_xsk := a\<rparr>) = submitted s" "released (s\<lparr>xw_xsk := a\<rparr>) = released s"
      "submitted (s\<lparr>xw_ifindex := e\<rparr>) = submitted s" "released (s\<lparr>xw_ifindex := e\<rparr>) = released s" for s a c d e
    by (simp_all add: published_def submitted_def released_def)
  have f1: "published s1 = []" "submitted s1 = 0" "released s1 = 0" "xs_closed s1 = False" "xs_pending_recycle_addrs s1 = []"
      "xs_prev_umem_tx_frame s1 = 0" "xs_outstanding_tx s1 = 0" "xs_cached_completions s1 = 0" "xw_outstanding_tx s1 = 0"
      "xs_umem s1 = Some (replicate (4096 * 4096) 0)" "xw_chunk_size s1 = 4096"
    using s0 by (subst s1, simp add: xsk_simps logs)+
  have rx: "map (rx_frame_addr 4096) [0..<2048] = rx_frames" by (simp add: rx_frames_def rx_frame_addr_4096)
  have keep: "xs_pending_recycle_addrs (write_fill_addrs i as s) = xs_pending_recycle_addrs s" "xw_outstanding_tx (write_fill_addrs i as s) = xw_outstanding_tx s" for i as s
    by (simp_all add: write_fill_addrs_def)
  show ?thesis
    using b f1 by (auto simp: bind_socket_def when_open_def Let_def xsk_simps logs rx keep simp del: upt_conv_Cons split: if_splits option.splits)
qed

end
