(* ===== verification/Udp_Frame.thy ===== *)
theory Udp_Frame
  imports Xdp_Filter Cpp_Lib
begin

text \<open>
  The frames of \<open>PacketReplicator.cpp\<close>: extraction of the payload from a received frame, in the version the packet loop uses and
  in the one announced as faster, and construction of the frame that is sent, with addresses from the interface and from the ARP table and
  with the checksum of the IP header.  As in the XDP program a frame is a list of bytes and a read outside of it is
  \<open>None\<close>; a pointer into the frame is an offset.
\<close>

section \<open>Extraction\<close>

text \<open>\<open>Some None\<close> is the return value false; otherwise offset and length of the payload.\<close>

definition extractUdpPayload :: "u8 list \<Rightarrow> (nat \<times> nat) option option" where
  "extractUdpPayload packet =
     (if length packet < 14 + 20 + 8 then Some None
      else do {
        h_proto \<leftarrow> read_u16 packet 12;
        if h_proto \<noteq> 0x0800 then Some None
        else do {
          protocol \<leftarrow> read_u8 packet (14 + 9);
          if protocol \<noteq> 17 then Some None
          else do {
            version_ihl \<leftarrow> read_u8 packet 14;
            let ip_hdr_len = unat (version_ihl AND 15) * 4;
            if ip_hdr_len < 20 then Some None
            else let headers_len = 14 + ip_hdr_len + 8
                 in if length packet < headers_len then Some None
                    else do {
                      udp_len16 \<leftarrow> read_u16 packet (14 + ip_hdr_len + 4);
                      let payload_len = length packet - headers_len;
                      let udp_len = unat udp_len16;
                      if udp_len < 8 \<or> payload_len + 8 < udp_len then Some None
                      else Some (Some (headers_len, udp_len - 8))
                    }
          }
        }
      })"

definition extractUdpPayloadFast :: "u8 list \<Rightarrow> (nat \<times> nat) option option" where
  "extractUdpPayloadFast packet =
     (if length packet < 42 then Some None
      else do {
        h_proto \<leftarrow> read_u16 packet 12;
        if h_proto \<noteq> 0x0800 then Some None
        else do {
          protocol \<leftarrow> read_u8 packet (14 + 9);
          if protocol \<noteq> 17 then Some None
          else do {
            version_ihl \<leftarrow> read_u8 packet 14;
            let ip_hdr_len = push_bit 2 (unat ((version_ihl AND 15) AND 15));
            if ip_hdr_len < 20 then Some None
            else let headers_len = 14 + ip_hdr_len + 8
                 in if length packet < headers_len then Some None
                    else Some (Some (headers_len, length packet - headers_len))
          }
        }
      })"

text \<open>The bytes that offset and length designate.\<close>

definition payload_at :: "nat \<times> nat \<Rightarrow> u8 list \<Rightarrow> u8 list" where
  "payload_at p packet = take (snd p) (drop (fst p) packet)"

section \<open>Addresses of interfaces and neighbours\<close>

text \<open>
  What the system answers: the address and the hardware address of an interface (\<open>None\<close> when \<open>socket\<close> or \<open>ioctl\<close> fails), and
  the text of \<open>/proc/net/arp\<close> if it can be opened.  A hardware address is the contents of \<open>sa_data\<close>.
\<close>

record net_env =
  ne_ifaddr :: "string \<Rightarrow> u32 option"
  ne_hwaddr :: "string \<Rightarrow> (nat \<Rightarrow> u8) option"
  ne_arp :: "string option"

definition ifr_name :: "string \<Rightarrow> string" where
  "ifr_name interface = take 15 interface"

definition getInterfaceIp :: "net_env \<Rightarrow> string \<Rightarrow> string option" where
  "getInterfaceIp env interface = map_option inet_ntop (ne_ifaddr env (ifr_name interface))"

definition getInterfaceMac :: "net_env \<Rightarrow> string \<Rightarrow> u8 list option" where
  "getInterfaceMac env interface = map_option (\<lambda>sa_data. map sa_data [0..<6]) (ne_hwaddr env (ifr_name interface))"

text \<open>One line of the ARP table: address, hardware type, flags, hardware address, mask, device.\<close>

definition arp_line_mac :: "string \<Rightarrow> string \<Rightarrow> u8 list option" where
  "arp_line_mac ip_address line =
     (case stream_words [] line of
        ip_w # hw_type # flags # mac # mask_w # device # _ \<Rightarrow>
          (if ip_w = ip_address \<and> mac \<noteq> ''00:00:00:00:00:00''
           then map_option (map ucast) (sscanf_hex_list 6 mac) else None)
      | _ \<Rightarrow> None)"

fun arp_lookup :: "string \<Rightarrow> string list \<Rightarrow> u8 list option" where
  "arp_lookup ip_address [] = None"
| "arp_lookup ip_address (line # rest) =
     (case arp_line_mac ip_address line of Some mac \<Rightarrow> Some mac | None \<Rightarrow> arp_lookup ip_address rest)"

definition getDestinationMac :: "net_env \<Rightarrow> string \<Rightarrow> u8 list option" where
  "getDestinationMac env ip_address =
     (case ne_arp env of None \<Rightarrow> None | Some text \<Rightarrow> arp_lookup ip_address (tl (getlines text)))"

section \<open>The checksum of the IP header\<close>

text \<open>\<open>ip_words[i]\<close>: x86 loads the bytes in little-endian order.\<close>

definition le16_at :: "nat \<Rightarrow> u8 list \<Rightarrow> u16" where
  "le16_at k bs = ucast (bs ! k) OR push_bit 8 (ucast (bs ! (k + 1)))"

definition sum_words :: "nat \<Rightarrow> u8 list \<Rightarrow> u32" where
  "sum_words off bs = fold (\<lambda>i s. s + ucast (le16_at (off + 2 * i) bs)) [0..<10] 0"

lemma fold_carry_decreases:
  fixes s :: u32
  assumes "drop_bit 16 s \<noteq> 0"
  shows "unat ((s AND 0xFFFF) + drop_bit 16 s) = unat s mod 65536 + unat s div 65536" "unat s mod 65536 + unat s div 65536 < unat s"
proof -
  have a: "unat (s AND 0xFFFF) = unat s mod 65536" using unat_and_mask [of s 16] by simp
  have d: "unat (drop_bit 16 s) = unat s div 65536" by (subst unat_drop_bit_eq) (simp add: drop_bit_eq_div)
  have "unat s div 65536 < 65536" using u32_bound [of s] by (simp add: less_mult_imp_div_less)
  then have "unat (s AND 0xFFFF) + unat (drop_bit 16 s) < 2 ^ 32"
    unfolding a d using add_strict_mono [of "unat s mod 65536" 65536 "unat s div 65536" 65536] by simp
  then show "unat ((s AND 0xFFFF) + drop_bit 16 s) = unat s mod 65536 + unat s div 65536"
    by (simp add: unat_add_lem [THEN iffD1] a d)
  have "unat (drop_bit 16 s) \<noteq> 0" using assms by (simp only: unat_eq_zero) simp
  then have "1 \<le> unat s div 65536" unfolding d by simp
  moreover have "unat s = 65536 * (unat s div 65536) + unat s mod 65536" by simp
  ultimately show "unat s mod 65536 + unat s div 65536 < unat s" by linarith
qed

function fold_carry :: "u32 \<Rightarrow> u32" where
  "fold_carry s = (if drop_bit 16 s = 0 then s else fold_carry ((s AND 0xFFFF) + drop_bit 16 s))"
  by pat_completeness auto
termination
proof (relation "measure unat")
  fix s :: u32 assume "drop_bit 16 s \<noteq> 0"
  from fold_carry_decreases [OF this] show "((s AND 0xFFFF) + drop_bit 16 s, s) \<in> measure unat" by simp
qed simp

declare fold_carry.simps [simp del]

definition ip_check :: "nat \<Rightarrow> u8 list \<Rightarrow> u16" where
  "ip_check off bs = ucast (NOT (fold_carry (sum_words off bs)))"

definition store_le16 :: "u16 \<Rightarrow> u8 list" where
  "store_le16 w = [ucast w, ucast (drop_bit 8 w)]"

section \<open>Construction\<close>

text \<open>A destination as \<open>createUdpPacket\<close> uses it: text and number of the address, and the port.\<close>

record Destination =
  ip_address :: string
  port :: u16
  sin_addr :: u32

text \<open>\<open>default_mac\<close> stands in for an interface without hardware address, the broadcast address for an unresolved destination.\<close>

definition dest_mac :: "net_env \<Rightarrow> Destination \<Rightarrow> u8 list" where
  "dest_mac env destination =
     (case getDestinationMac env (ip_address destination) of Some mac \<Rightarrow> mac | None \<Rightarrow> replicate 6 0xFF)"

definition source_mac :: "net_env \<Rightarrow> string \<Rightarrow> u8 list" where
  "source_mac env interface =
     (case getInterfaceMac env interface of Some mac \<Rightarrow> mac | None \<Rightarrow> [0x02, 0x00, 0x00, 0x00, 0x00, 0x01])"

text \<open>\<open>inet_aton\<close> into \<open>saddr\<close>, which is zero before and stays so when the text is no address.\<close>

definition source_addr :: "net_env \<Rightarrow> string \<Rightarrow> string \<Rightarrow> u32" where
  "source_addr env interface listen_ip =
     (let text = (case getInterfaceIp env interface of Some t \<Rightarrow> t | None \<Rightarrow> listen_ip)
      in case inet_aton text of Some a \<Rightarrow> a | None \<Rightarrow> 0)"

definition write_fields :: "(nat \<times> u8 list) list \<Rightarrow> u8 list \<Rightarrow> u8 list" where
  "write_fields fs buffer = fold (\<lambda>(k, bs). put_bytes k bs) fs buffer"

definition ip_header_fields :: "nat \<Rightarrow> u16 \<Rightarrow> u32 \<Rightarrow> u32 \<Rightarrow> (nat \<times> u8 list) list" where
  "ip_header_fields payload_len ident saddr daddr =
     [(14, [0x45]), (15, [0]), (16, htons_bytes (of_nat (20 + 8 + payload_len))), (18, htons_bytes ident), (20, [0, 0]),
      (22, [64]), (23, [17]), (24, [0, 0]), (26, htonl_bytes saddr), (30, htonl_bytes daddr)]"

definition createUdpPacket ::
  "net_env \<Rightarrow> string \<Rightarrow> string \<Rightarrow> u16 \<Rightarrow> Destination \<Rightarrow> u8 list \<Rightarrow> u8 list \<Rightarrow> nat \<Rightarrow> u8 list \<times> nat" where
  "createUdpPacket env interface listen_ip listen_port destination payload buffer buffer_size =
     (let payload_len = length payload;
          total_len = 14 + 20 + 8 + payload_len
      in if total_len > buffer_size then (buffer, 0)
         else let b0 = put_bytes 0 (replicate total_len 0) buffer;
                  b1 = write_fields [(0, dest_mac env destination), (6, source_mac env interface), (12, htons_bytes 0x0800)] b0;
                  b2 = write_fields (ip_header_fields payload_len 12345 (source_addr env interface listen_ip) (sin_addr destination)) b1;
                  b3 = put_bytes 24 (store_le16 (ip_check 14 b2)) b2;
                  b4 = write_fields [(34, htons_bytes listen_port), (36, htons_bytes (port destination)),
                         (38, htons_bytes (of_nat (8 + payload_len))), (40, [0, 0])] b3
              in (put_bytes 42 payload b4, total_len))"

definition calculatePacketSize :: "nat \<Rightarrow> nat" where
  "calculatePacketSize payload_len = 14 + 20 + 8 + payload_len"

text \<open>The two functions that prepare a frame in advance and complete it for a destination; \<open>ident\<close> is \<open>rand() % 65536\<close>.\<close>

definition createBasePacketTemplate :: "u16 \<Rightarrow> u8 list \<Rightarrow> u8 list \<times> nat" where
  "createBasePacketTemplate listen_port buffer =
     (let b0 = put_bytes 0 (replicate (14 + 20 + 8) 0) buffer;
          b1 = write_fields [(0, replicate 6 0xFF), (6, replicate 6 0), (12, htons_bytes 0x0800)] b0;
          b2 = write_fields [(14, [0x45]), (15, [0]), (16, [0, 0]), (18, [0, 0]), (20, [0, 0]), (22, [64]), (23, [17]), (24, [0, 0]),
                 (26, replicate 4 0), (30, replicate 4 0)] b1
      in (write_fields [(34, htons_bytes listen_port), (36, [0, 0]), (38, [0, 0]), (40, [0, 0])] b2, 14 + 20 + 8))"

definition updatePacketForDestination :: "u16 \<Rightarrow> Destination \<Rightarrow> u8 list \<Rightarrow> u8 list \<Rightarrow> u8 list \<times> nat" where
  "updatePacketForDestination ident destination payload buffer =
     (let payload_len = length payload;
          b1 = write_fields [(16, htons_bytes (of_nat (20 + 8 + payload_len))), (18, htons_bytes ident), (26, htonl_bytes 0x7F000001),
                 (30, htonl_bytes (sin_addr destination)), (24, [0, 0])] buffer;
          b2 = put_bytes 24 (store_le16 (ip_check 14 b1)) b1;
          b3 = write_fields [(36, htons_bytes (port destination)), (38, htons_bytes (of_nat (8 + payload_len)))] b2;
          b4 = (if payload_len > 0 then put_bytes 42 payload b3 else b3)
      in (b4, 14 + 20 + 8 + payload_len))"

section \<open>Writing fields\<close>

named_theorems frame_simps \<open>evaluation of writes into a frame\<close>

lemma put_bytes_prefix [frame_simps]: "k + length bs \<le> length xs \<Longrightarrow> put_bytes k bs (xs @ ys) = put_bytes k bs xs @ ys"
  by (simp add: put_bytes_def)

lemma put_bytes_exact: "put_bytes (length xs) bs (xs @ ys @ zs) = xs @ bs @ zs" if "length ys = length bs"
  using that by (simp add: put_bytes_def)

lemma length_htons_bytes [simp]: "length (htons_bytes w) = 2"
  by (simp add: htons_bytes_def)

lemma length_store_le16 [simp]: "length (store_le16 w) = 2"
  by (simp add: store_le16_def)

lemma ip_check_prefix: "off + 20 \<le> length xs \<Longrightarrow> ip_check off (xs @ ys) = ip_check off xs"
proof -
  assume "off + 20 \<le> length xs"
  then have "sum_words off (xs @ ys) = sum_words off xs"
    unfolding sum_words_def by (intro fold_cong) (auto simp: le16_at_def nth_append)
  then show ?thesis by (simp add: ip_check_def)
qed

lemma length_dest_mac: "length (dest_mac env d) = 6"
proof -
  have "arp_lookup a ls = Some mac \<Longrightarrow> length mac = 6" for a ls mac
    by (induction ls) (auto simp: arp_line_mac_def dest: length_sscanf_hex_list split: option.splits list.splits if_splits)
  then show ?thesis by (auto simp: dest_mac_def getDestinationMac_def split: option.splits)
qed

lemma length_source_mac: "length (source_mac env i) = 6"
  by (auto simp: source_mac_def getInterfaceMac_def split: option.splits)

text \<open>The IP header of a frame, with a given checksum field.\<close>

definition ip_header :: "u8 list \<Rightarrow> nat \<Rightarrow> u16 \<Rightarrow> u32 \<Rightarrow> u32 \<Rightarrow> u8 list" where
  "ip_header check payload_len ident saddr daddr =
     [0x45, 0] @ htons_bytes (of_nat (28 + payload_len)) @ htons_bytes ident @ [0, 0, 64, 17] @ check @
     htonl_bytes saddr @ htonl_bytes daddr"

definition header_check :: "nat \<Rightarrow> u16 \<Rightarrow> u32 \<Rightarrow> u32 \<Rightarrow> u16" where
  "header_check payload_len ident saddr daddr = ip_check 0 (ip_header [0, 0] payload_len ident saddr daddr)"

text \<open>The whole frame.\<close>

definition built_frame :: "u8 list \<Rightarrow> u16 \<Rightarrow> u32 \<Rightarrow> u32 \<Rightarrow> u16 \<Rightarrow> u16 \<Rightarrow> u8 list \<Rightarrow> u8 list" where
  "built_frame macs ident saddr daddr sport dport payload =
     macs @ [8, 0] @ ip_header (store_le16 (header_check (length payload) ident saddr daddr)) (length payload) ident saddr daddr @
     htons_bytes sport @ htons_bytes dport @ htons_bytes (of_nat (8 + length payload)) @ [0, 0] @ payload"

lemma length_ip_header [simp]: "length check = 2 \<Longrightarrow> length (ip_header check n i a b) = 20"
  by (simp add: ip_header_def)

lemma ip_check_shift: "ip_check (length xs) (xs @ h @ ys) = ip_check 0 h" if "length h = 20"
proof -
  have "sum_words (length xs) (xs @ h @ ys) = sum_words 0 h"
    unfolding sum_words_def using that by (intro fold_cong) (auto simp: le16_at_def nth_append)
  then show ?thesis by (simp add: ip_check_def)
qed

lemma list_of_6: "length xs = 6 \<Longrightarrow> \<exists>a b c d e f. xs = [a, b, c, d, e, f]"
  by (auto simp: length_Suc_conv numeral_eq_Suc)

lemma replicate_explicit:
  "replicate 42 (0 :: u8) = [0, 0, 0, 0, 0, 0, 0, 0, 0, 0, 0, 0, 0, 0, 0, 0, 0, 0, 0, 0, 0, 0, 0, 0, 0, 0, 0, 0, 0, 0, 0, 0, 0, 0, 0, 0, 0, 0, 0, 0, 0, 0]"
  "replicate 8 (0 :: u8) = [0, 0, 0, 0, 0, 0, 0, 0]"
  by (simp_all add: numeral_eq_Suc)

lemma header_written:
  assumes "length m = 6" and "length s = 6"
  shows "write_fields (ip_header_fields n ident a b) (write_fields [(0, m), (6, s), (12, htons_bytes 0x0800)] (replicate 42 0)) =
    m @ s @ [8, 0] @ ip_header [0, 0] n ident a b @ replicate 8 0"
proof -
  obtain m0 m1 m2 m3 m4 m5 s0 s1 s2 s3 s4 s5 where ms: "m = [m0, m1, m2, m3, m4, m5]" "s = [s0, s1, s2, s3, s4, s5]"
    using assms list_of_6 by meson
  show ?thesis
    unfolding ms ip_header_def ip_header_fields_def write_fields_def
    by (simp add: put_bytes_def htons_bytes_def htonl_bytes_def replicate_explicit)
qed

lemma write_fields_prefix:
  "(\<And>k bs. (k, bs) \<in> set fs \<Longrightarrow> k + length bs \<le> length xs) \<Longrightarrow> write_fields fs (xs @ ys) = write_fields fs xs @ ys"
proof (induction fs arbitrary: xs)
  case (Cons f fs)
  obtain k bs where f: "f = (k, bs)" by (cases f)
  with Cons.prems have "k + length bs \<le> length xs" by simp
  with Cons f show ?case by (simp add: write_fields_def put_bytes_prefix)
qed (simp add: write_fields_def)

lemma length_write_fields:
  "(\<And>k bs. (k, bs) \<in> set fs \<Longrightarrow> k + length bs \<le> length xs) \<Longrightarrow> length (write_fields fs xs) = length xs"
proof (induction fs arbitrary: xs)
  case (Cons f fs)
  obtain k bs where f: "f = (k, bs)" by (cases f)
  with Cons.prems have "k + length bs \<le> length xs" by simp
  with Cons f show ?case by (simp add: write_fields_def)
qed (simp add: write_fields_def)

lemma header_completed:
  assumes "length m = 6" and "length s = 6" and "length chk = 2"
  shows "write_fields [(34, htons_bytes sp), (36, htons_bytes dp), (38, htons_bytes l), (40, [0, 0])]
      (put_bytes 24 chk (m @ s @ [8, 0] @ ip_header [0, 0] n ident a b @ replicate 8 0)) =
    m @ s @ [8, 0] @ ip_header chk n ident a b @ htons_bytes sp @ htons_bytes dp @ htons_bytes l @ [0, 0]"
proof -
  obtain m0 m1 m2 m3 m4 m5 s0 s1 s2 s3 s4 s5 where ms: "m = [m0, m1, m2, m3, m4, m5]" "s = [s0, s1, s2, s3, s4, s5]"
    using assms list_of_6 by meson
  obtain c0 c1 where c: "chk = [c0, c1]" using assms(3) by (auto simp: length_Suc_conv numeral_eq_Suc)
  show ?thesis
    unfolding ms c ip_header_def write_fields_def
    by (simp add: put_bytes_def htons_bytes_def htonl_bytes_def replicate_explicit)
qed

lemma createUdpPacket_frame:
  assumes "42 + length payload \<le> buffer_size" and "42 + length payload \<le> length buffer"
  shows "createUdpPacket env interface listen_ip listen_port d payload buffer buffer_size =
    (built_frame (dest_mac env d @ source_mac env interface) 12345 (source_addr env interface listen_ip) (sin_addr d) listen_port
       (port d) payload @ drop (42 + length payload) buffer, 42 + length payload)"
proof -
  let ?n = "length payload" and ?m = "dest_mac env d" and ?s = "source_mac env interface"
  let ?a = "source_addr env interface listen_ip" and ?b = "sin_addr d"
  let ?rest = "replicate ?n 0 @ drop (42 + ?n) buffer"
  let ?h = "ip_header [0, 0] ?n 12345 ?a ?b" and ?c = "header_check ?n 12345 ?a ?b"
  let ?macs = "[(0, ?m), (6, ?s), (12, htons_bytes 0x0800)]" and ?udp = "[(34, htons_bytes listen_port), (36, htons_bytes (port d)),
      (38, htons_bytes (of_nat (8 + ?n))), (40, [0, 0])]"
  have len: "length ?m = 6" "length ?s = 6" by (simp_all add: length_dest_mac length_source_mac)
  have b0: "put_bytes 0 (replicate (14 + 20 + 8 + ?n) 0) buffer = replicate 42 0 @ ?rest"
    by (simp add: put_bytes_def flip: replicate_add)
  have b1: "write_fields ?macs (replicate 42 0 @ ?rest) = write_fields ?macs (replicate 42 0) @ ?rest"
    using len by (intro write_fields_prefix) auto
  have l1: "length (write_fields ?macs (replicate 42 0)) = 42"
    using len by (subst length_write_fields) auto
  have b2: "write_fields (ip_header_fields ?n 12345 ?a ?b) (write_fields ?macs (replicate 42 0 @ ?rest)) =
      (?m @ ?s @ [8, 0] @ ?h @ replicate 8 0) @ ?rest"
    unfolding b1 header_written [OF len, symmetric]
    by (rule write_fields_prefix) (auto simp: l1 ip_header_fields_def)
  have c: "ip_check 14 ((?m @ ?s @ [8, 0] @ ?h @ replicate 8 0) @ ?rest) = ?c"
    using ip_check_shift [of ?h "?m @ ?s @ [8, 0]" "replicate 8 0 @ ?rest"] len by (simp add: header_check_def)
  let ?x = "?m @ ?s @ [8, 0] @ ?h @ replicate 8 0" and ?y = "?m @ ?s @ [8, 0] @ ip_header (store_le16 ?c) ?n 12345 ?a ?b @
      htons_bytes listen_port @ htons_bytes (port d) @ htons_bytes (of_nat (8 + ?n)) @ [0, 0]"
  have b3: "put_bytes 24 (store_le16 ?c) (?x @ ?rest) = put_bytes 24 (store_le16 ?c) ?x @ ?rest"
    using len by (intro put_bytes_prefix) simp
  have b4: "write_fields ?udp (put_bytes 24 (store_le16 ?c) ?x @ ?rest) = ?y @ ?rest"
  proof -
    have "write_fields ?udp (put_bytes 24 (store_le16 ?c) ?x) = ?y" by (rule header_completed) (simp_all add: len)
    moreover have "write_fields ?udp (put_bytes 24 (store_le16 ?c) ?x @ ?rest) = write_fields ?udp (put_bytes 24 (store_le16 ?c) ?x) @ ?rest"
      by (rule write_fields_prefix) (auto simp: len)
    ultimately show ?thesis by (simp only:)
  qed
  have y: "length ?y = 42" using len by simp
  have b5: "put_bytes 42 payload (?y @ ?rest) = ?y @ payload @ drop (42 + ?n) buffer"
    unfolding y [symmetric] by (rule put_bytes_exact) simp
  show ?thesis
    using assms unfolding createUdpPacket_def Let_def b0 b2 c b3 b4 b5 by (simp add: built_frame_def)
qed

section \<open>Extraction against a reference\<close>

text \<open>
  The payload of a UDP frame: what the length field of the UDP header announces, when it is at least the header and the
  frame holds it; what follows in the frame is padding.
\<close>

definition udp_payload :: "u8 list \<Rightarrow> u8 list option" where
  "udp_payload frame =
     (let packet = drop 14 frame;
          segment = drop (4 * unat (packet ! 0 AND 15)) packet;
          announced = unat (ntohs_at 0 (take 2 (drop 4 segment)))
      in if udp_destination frame \<noteq> None \<and> 8 \<le> announced \<and> announced \<le> length segment
         then Some (take (announced - 8) (drop 8 segment)) else None)"

lemma udp_payload_reads:
  assumes "34 \<le> length frame"
  shows "udp_payload frame =
    (let h = unat (frame ! 14 AND 15) * 4; l = unat (ntohs_at (18 + h) frame)
     in if ntohs_at 12 frame = 0x0800 \<and> frame ! 23 = 17 \<and> 20 \<le> h \<and> 22 + h \<le> length frame \<and> 8 \<le> l \<and> 14 + h + l \<le> length frame
        then Some (take (l - 8) (drop (22 + h) frame)) else None)"
proof -
  let ?h = "unat (frame ! 14 AND 15) * 4"
  have l: "ntohs_at 0 (take 2 (drop 4 (drop ?h (drop 14 frame)))) = ntohs_at (18 + ?h) frame" if "22 + ?h \<le> length frame"
    using that ntohs_at_drop [of "18 + ?h" frame] by (simp add: add.commute)
  have p: "drop 14 frame ! 0 = frame ! 14" using assms by simp
  show ?thesis
    unfolding udp_payload_def Let_def p udp_destination_reads [OF assms] using l by (auto simp: mult.commute add.commute)
qed

lemma extractUdpPayload_reads:
  assumes "34 \<le> length frame"
  shows "extractUdpPayload frame =
    (let h = unat (frame ! 14 AND 15) * 4; l = unat (ntohs_at (18 + h) frame)
     in Some (if ntohs_at 12 frame = 0x0800 \<and> frame ! 23 = 17 \<and> 20 \<le> h \<and> 22 + h \<le> length frame \<and> 8 \<le> l \<and> 14 + h + l \<le> length frame
              then Some (22 + h, l - 8) else None))"
  using assms by (auto simp: extractUdpPayload_def read_u8_def read_u16_def Let_def add.commute)

lemma extractUdpPayload_short: "length frame < 42 \<Longrightarrow> extractUdpPayload frame = Some None"
  by (simp add: extractUdpPayload_def)

lemma udp_payload_short: "length frame < 34 \<Longrightarrow> udp_payload frame = None"
  by (simp add: udp_payload_def udp_destination_def Let_def)

lemma extractUdpPayload_payload:
  "map_option (map_option (\<lambda>p. payload_at p frame)) (extractUdpPayload frame) = Some (udp_payload frame)"
proof (cases "34 \<le> length frame")
  case True
  then show ?thesis
    by (simp add: extractUdpPayload_reads udp_payload_reads Let_def payload_at_def)
qed (simp add: extractUdpPayload_short udp_payload_short)

section \<open>A built frame\<close>

lemma built_frame_udp_frame:
  "built_frame macs ident saddr daddr sport dport payload =
    udp_frame macs ([0] @ htons_bytes (of_nat (28 + length payload)) @ htons_bytes ident @ [0, 0, 64])
      (store_le16 (header_check (length payload) ident saddr daddr) @ htonl_bytes saddr) daddr [] sport dport
      (htons_bytes (of_nat (8 + length payload)) @ [0, 0] @ payload)"
  by (simp add: built_frame_def udp_frame_def ip_header_def)

lemma built_frame_destination:
  "length macs = 12 \<Longrightarrow> udp_destination (built_frame macs ident saddr daddr sport dport payload @ rest) = Some (daddr, dport)"
proof -
  assume "length macs = 12"
  moreover have "udp_frame macs a b daddr [] sport dport u @ rest = udp_frame macs a b daddr [] sport dport (u @ rest)" for a b u
    by (simp add: udp_frame_def)
  ultimately show ?thesis
    unfolding built_frame_udp_frame by (simp only:) (rule udp_destination_frame, simp_all)
qed

lemma length_built_frame: "length macs = 12 \<Longrightarrow> length (built_frame macs ident saddr daddr sport dport payload) = 42 + length payload"
  by (simp add: built_frame_def)

lemma built_frame_payload:
  assumes "length macs = 12" and "length payload < 65528"
  shows "extractUdpPayload (built_frame macs ident saddr daddr sport dport payload @ padding) = Some (Some (42, length payload))"
    and "udp_payload (built_frame macs ident saddr daddr sport dport payload @ padding) = Some payload"
proof -
  let ?f = "built_frame macs ident saddr daddr sport dport payload @ padding"
  let ?chk = "store_le16 (header_check (length payload) ident saddr daddr)"
  have at: "?f = (macs @ [8, 0]) @ ip_header ?chk (length payload) ident saddr daddr @
      htons_bytes sport @ htons_bytes dport @ htons_bytes (of_nat (8 + length payload)) @ [0, 0] @ payload @ padding"
    by (simp add: built_frame_def)
  have eth: "ntohs_at 12 ?f = 0x0800" using assms(1) by (simp add: at ntohs_at_def nth_append)
  have proto: "?f ! 23 = 17" and ihl: "?f ! 14 = 0x45"
    using assms(1) by (simp_all add: at nth_append ip_header_def htons_bytes_def)
  have len16: "ntohs_at (length xs) (xs @ htons_bytes w @ ys) = w" for xs w ys
    by (simp add: ntohs_at_def htons_bytes_def nth_append word16_bytes)
  have "ntohs_at (length (macs @ [8, 0] @ ip_header ?chk (length payload) ident saddr daddr @ htons_bytes sport @ htons_bytes dport)) ?f =
      of_nat (8 + length payload)"
    using len16 [of "macs @ [8, 0] @ ip_header ?chk (length payload) ident saddr daddr @ htons_bytes sport @ htons_bytes dport"
        "of_nat (8 + length payload)" "[0, 0] @ payload @ padding"] by (simp add: at)
  then have l: "ntohs_at 38 ?f = of_nat (8 + length payload)" using assms(1) by simp
  have n: "unat (of_nat (8 + length payload) :: u16) = 8 + length payload" using assms(2) by (intro unat_of_nat_small) simp
  have lf: "length ?f = 42 + length payload + length padding" using assms(1) by (simp add: length_built_frame)
  show e: "extractUdpPayload ?f = Some (Some (42, length payload))"
    using lf by (subst extractUdpPayload_reads) (simp_all add: eth proto ihl l n Let_def del: of_nat_add)
  have "drop 42 ?f = payload @ padding" using assms(1) by (simp add: at)
  then have "payload_at (42, length payload) ?f = payload" by (simp add: payload_at_def)
  with e extractUdpPayload_payload [of ?f] show "udp_payload ?f = Some payload" by simp
qed

section \<open>The checksum\<close>

text \<open>
  RFC 1071: a receiver adds the 16 bit words of the header in network order, with end-around carry, and accepts when the sum
  is all ones.
\<close>

fun be_words :: "u8 list \<Rightarrow> nat list" where
  "be_words (a # b # bs) = (256 * unat a + unat b) # be_words bs"
| "be_words _ = []"

definition ones_add :: "nat \<Rightarrow> nat \<Rightarrow> nat" where
  "ones_add x y = (let s = x + y in s mod 65536 + s div 65536)"

definition checksum_accepted :: "u8 list \<Rightarrow> bool" where
  "checksum_accepted header \<longleftrightarrow> fold ones_add (be_words header) 0 = 0xFFFF"

lemma carry_mod: "(s mod 65536 + s div 65536) mod 65535 = s mod (65535 :: nat)"
proof -
  have "s = s div 65536 * 65535 + (s mod 65536 + s div 65536)" using div_mult_mod_eq [of s 65536] by linarith
  then have "s mod 65535 = (s div 65536 * 65535 + (s mod 65536 + s div 65536)) mod 65535" by (rule arg_cong)
  then show ?thesis by (simp only: mod_mult_self3)
qed

lemma ones_add_bound: "x \<le> 65535 \<Longrightarrow> y \<le> 65535 \<Longrightarrow> ones_add x y \<le> 65535"
proof (cases "x + y < 65536")
  case False
  assume "x \<le> 65535" "y \<le> 65535"
  with False have "(x + y) div 65536 = 1" by (intro div_nat_eqI) simp_all
  moreover have "(x + y) mod 65536 = x + y - 65536" using False \<open>x \<le> 65535\<close> \<open>y \<le> 65535\<close> by (simp add: mod_if)
  ultimately show ?thesis using \<open>x \<le> 65535\<close> \<open>y \<le> 65535\<close> by (simp add: ones_add_def)
qed (simp add: ones_add_def)

lemma ones_add_zero: "ones_add x y = 0 \<longleftrightarrow> x + y = 0"
proof -
  have "(x + y) mod 65536 + (x + y) div 65536 = 0 \<longleftrightarrow> x + y = 0"
    using div_mult_mod_eq [of "x + y" 65536] by (metis add_is_0 div_0 mod_0 mult_zero_left)
  then show ?thesis by (simp only: ones_add_def Let_def)
qed

lemma fold_ones_add:
  assumes "x \<le> 65535" and "\<forall>w \<in> set ws. w \<le> 65535"
  shows "fold ones_add ws x \<le> 65535 \<and> fold ones_add ws x mod 65535 = (x + sum_list ws) mod 65535 \<and>
    (fold ones_add ws x = 0 \<longleftrightarrow> x + sum_list ws = 0)"
  using assms
proof (induction ws arbitrary: x)
  case (Cons w ws)
  have b: "ones_add w x \<le> 65535" using Cons.prems by (simp add: ones_add_bound)
  have m: "ones_add w x mod 65535 = (x + w) mod 65535" unfolding ones_add_def Let_def carry_mod by (simp only: add.commute)
  note IH = Cons.IH [OF b]
  have "(ones_add w x + sum_list ws) mod 65535 = (x + w + sum_list ws) mod 65535" using m by (metis mod_add_left_eq)
  with IH Cons.prems ones_add_zero [of w x] show ?case by (auto simp: add.assoc)
qed simp

lemma be_words_bound: "w \<in> set (be_words bs) \<Longrightarrow> w \<le> 65535"
proof (induction bs rule: be_words.induct)
  case (1 a b bs)
  then show ?case using u8_bound [of a] u8_bound [of b] by auto
qed auto

lemma checksum_accepted_iff:
  "checksum_accepted header \<longleftrightarrow> sum_list (be_words header) mod 65535 = 0 \<and> sum_list (be_words header) \<noteq> 0"
proof -
  let ?s = "fold ones_add (be_words header) 0"
  have b: "?s \<le> 65535" and m: "?s mod 65535 = sum_list (be_words header) mod 65535" and z: "?s = 0 \<longleftrightarrow> sum_list (be_words header) = 0"
    using fold_ones_add [of 0 "be_words header"] be_words_bound by auto
  have "?s = 65535 \<longleftrightarrow> ?s mod 65535 = 0 \<and> ?s \<noteq> 0" using b by (cases "?s = 65535") auto
  then show ?thesis unfolding checksum_accepted_def m z by simp
qed

text \<open>The carry loop of the code, and what it leaves of the sum.\<close>

lemma fold_carry_result: "unat (fold_carry s) < 65536 \<and> unat (fold_carry s) mod 65535 = unat s mod 65535"
proof (induction s rule: fold_carry.induct)
  case (1 s)
  show ?case
  proof (cases "drop_bit 16 s = 0")
    case True
    have "unat (drop_bit 16 s) = unat s div 65536" by (subst unat_drop_bit_eq) (simp add: drop_bit_eq_div)
    with True have "unat s div 65536 = 0" by (metis unat_0)
    then have "unat s < 65536" by (simp add: div_eq_0_iff)
    with True show ?thesis by (simp add: fold_carry.simps [of s])
  next
    case False
    with "1.IH" show ?thesis
      by (simp add: fold_carry.simps [of s] fold_carry_decreases(1) [OF False] carry_mod)
  qed
qed

fun le_words :: "u8 list \<Rightarrow> nat list" where
  "le_words (a # b # bs) = (unat a + 256 * unat b) # le_words bs"
| "le_words _ = []"

lemma le16_at_nat: "unat (le16_at k bs) = unat (bs ! k) + 256 * unat (bs ! Suc k)"
proof -
  have "le16_at k bs = ntohs_at 0 [bs ! Suc k, bs ! k]" by (simp add: le16_at_def ntohs_at_def or.commute)
  also have "\<dots> = push_bit 8 (ucast (bs ! Suc k)) + ucast (bs ! k)"
    unfolding ntohs_at_def
    by (simp, rule disjunctive_add [symmetric])
      (auto simp: bit_push_bit_iff bit_ucast_iff dest: bit_imp_le_length)
  also have "unat \<dots> = 256 * unat (bs ! Suc k) + unat (bs ! k)"
    using u8_bound [of "bs ! k"] u8_bound [of "bs ! Suc k"]
    by (simp add: unat_add_lem [THEN iffD1] unat_ucast_small push_bit_eq_mult unat_mult_lem [THEN iffD1])
  finally show ?thesis by simp
qed

lemma list_of_20: "length xs = 20 \<Longrightarrow>
  \<exists>a b c d e f g h i j k l m n p q r s t u. xs = [a, b, c, d, e, f, g, h, i, j, k, l, m, n, p, q, r, s, t, u]"
  by (auto simp: length_Suc_conv numeral_eq_Suc)

lemma fold_add_words:
  assumes "\<forall>w \<in> set ws. unat w < 65536" and "unat x + 65536 * length ws < 2 ^ 32"
  shows "unat (fold (\<lambda>w s. s + w) ws x :: u32) = unat x + sum_list (map unat ws)"
  using assms
proof (induction ws arbitrary: x)
  case (Cons w ws)
  have "unat x + unat w < 2 ^ 32" using Cons.prems by simp
  then have "unat (x + w) = unat x + unat w" by (simp add: unat_add_lem [THEN iffD1])
  with Cons show ?case by simp
qed simp

lemma sum_words_nat:
  assumes "length h = 20"
  shows "unat (sum_words 0 h) = sum_list (le_words h)"
proof -
  let ?ws = "map (\<lambda>i. ucast (le16_at (2 * i) h) :: u32) [0..<10]"
  have "sum_words 0 h = fold (\<lambda>w s. s + w) ?ws 0" by (simp add: sum_words_def fold_map comp_def)
  also have "unat \<dots> = unat (0 :: u32) + sum_list (map unat ?ws)"
    by (rule fold_add_words) (auto simp: unat_ucast_small u16_bound less_trans [OF u16_bound])
  also have "map unat ?ws = map (\<lambda>i. unat (le16_at (2 * i) h)) [0..<10]"
    by (simp add: unat_ucast_small less_trans [OF u16_bound])
  also have "\<dots> = le_words h"
    using list_of_20 [OF assms] by (auto simp: le16_at_nat upt_rec)
  finally show ?thesis by simp
qed

lemma be_le_words: "sum_list (be_words bs) mod 65535 = 256 * sum_list (le_words bs) mod 65535"
proof (induction bs rule: be_words.induct)
  case (1 a b bs)
  have "(256 * unat a + unat b) mod 65535 = 256 * (unat a + 256 * unat b) mod 65535"
  proof -
    have "256 * (unat a + 256 * unat b) = unat b * 65535 + (256 * unat a + unat b)" by simp
    then show ?thesis by (simp only: mod_mult_self3)
  qed
  then show ?case
    unfolding be_words.simps le_words.simps sum_list.Cons distrib_left [of 256 "unat a + 256 * unat b" "sum_list (le_words bs)"]
    using 1 by (rule mod_add_cong)
qed auto

lemma complement_nat:
  assumes "unat (f :: u32) < 65536"
  shows "unat (ucast (NOT f) :: u16) = 65535 - unat f"
proof -
  have "unat (NOT f) = 2 ^ 32 - 1 - unat f"
  proof -
    have "NOT f = - 1 - f" by (simp add: not_eq_complement)
    moreover have "f \<le> - 1" by simp
    moreover have "unat (- 1 :: u32) = 2 ^ 32 - 1" by (simp add: unsigned_minus_1_eq_mask mask_eq_exp_minus_1)
    ultimately show ?thesis by (metis unat_sub)
  qed
  then have "unat (ucast (NOT f) :: u16) = (4294967295 - unat f) mod 65536"
    by (simp add: unsigned_ucast_eq take_bit_eq_mod)
  also have "4294967295 - unat f = 65535 * 65536 + (65535 - unat f)" using assms by simp
  finally have "unat (ucast (NOT f) :: u16) = (65535 - unat f) mod 65536" by (simp only: mod_mult_self3)
  then show ?thesis by simp
qed

lemma store_le16_nat: "unat (ucast w :: u8) + 256 * unat (ucast (drop_bit 8 w) :: u8) = unat w" for w :: u16
  using le16_at_nat [of 0 "store_le16 w"] word16_bytes [of w] by (simp add: le16_at_def store_le16_def or.commute)

lemma ip_header_checksum:
  "checksum_accepted (ip_header (store_le16 (header_check n ident saddr daddr)) n ident saddr daddr)"
proof -
  let ?c = "header_check n ident saddr daddr" and ?h = "\<lambda>chk. ip_header chk n ident saddr daddr"
  let ?f = "fold_carry (sum_words 0 (?h [0, 0]))" and ?s = "sum_list (le_words (?h [0, 0]))"
  have f: "unat ?f < 65536" "unat ?f mod 65535 = ?s mod 65535"
    using fold_carry_result [of "sum_words 0 (?h [0, 0])"] by (simp_all add: sum_words_nat)
  have c: "unat ?c = 65535 - unat ?f" by (simp add: header_check_def ip_check_def complement_nat f)
  have "sum_list (le_words (?h (store_le16 ?c))) = ?s + unat ?c"
    using store_le16_nat [of ?c] by (simp add: ip_header_def htons_bytes_def htonl_bytes_def store_le16_def)
  then have "sum_list (le_words (?h (store_le16 ?c))) mod 65535 = (unat ?f + (65535 - unat ?f)) mod 65535"
    unfolding c [symmetric] using f(2) by (simp only:) (rule mod_add_cong [OF _ refl], simp)
  also have "\<dots> = 0" using f(1) by simp
  finally have "sum_list (be_words (?h (store_le16 ?c))) mod 65535 = 0"
    unfolding be_le_words by (metis mod_mult_right_eq mult_0_right mod_0)
  moreover have "sum_list (be_words (?h (store_le16 ?c))) \<noteq> 0"
    by (simp add: ip_header_def htons_bytes_def htonl_bytes_def store_le16_def)
  ultimately show ?thesis by (simp add: checksum_accepted_iff)
qed

section \<open>The prepared frames and the fast extraction\<close>

text \<open>
  The two functions that prepare a frame and complete it for a destination build the same kind of frame; but the hardware addresses of
  the preparation, broadcast and zero, are never replaced, and the source address is the loopback address.
\<close>

lemma template_written:
  "write_fields [(34, htons_bytes lp), (36, [0, 0]), (38, [0, 0]), (40, [0, 0])]
      (write_fields [(14, [0x45]), (15, [0]), (16, [0, 0]), (18, [0, 0]), (20, [0, 0]), (22, [64]), (23, [17]), (24, [0, 0]),
         (26, replicate 4 0), (30, replicate 4 0)]
        (write_fields [(0, replicate 6 0xFF), (6, replicate 6 0), (12, htons_bytes 0x0800)] (replicate 42 0))) =
    (replicate 6 0xFF @ replicate 6 0) @ [8, 0] @ [0x45, 0, 0, 0, 0, 0, 0, 0, 64, 17, 0, 0, 0, 0, 0, 0, 0, 0, 0, 0] @ htons_bytes lp @ replicate 6 0"
proof -
  have r: "replicate 6 x = [x, x, x, x, x, x]" "replicate 4 x = [x, x, x, x]" for x :: u8 by (simp_all add: numeral_eq_Suc)
  show ?thesis
    unfolding write_fields_def r by (simp add: put_bytes_def htons_bytes_def replicate_explicit)
qed

lemma template_updated:
  assumes "length m = 12"
  shows "write_fields [(16, htons_bytes (of_nat (20 + 8 + n))), (18, htons_bytes ident), (26, htonl_bytes a), (30, htonl_bytes b), (24, [0, 0])]
      (m @ [8, 0] @ [0x45, 0, 0, 0, 0, 0, 0, 0, 64, 17, 0, 0, 0, 0, 0, 0, 0, 0, 0, 0] @ htons_bytes lp @ replicate 6 0) =
    m @ [8, 0] @ ip_header [0, 0] n ident a b @ htons_bytes lp @ replicate 6 0"
    and "write_fields [(36, htons_bytes dp), (38, htons_bytes l)] (put_bytes 24 (store_le16 c)
      (m @ [8, 0] @ ip_header [0, 0] n ident a b @ htons_bytes lp @ replicate 6 0)) =
    m @ [8, 0] @ ip_header (store_le16 c) n ident a b @ htons_bytes lp @ htons_bytes dp @ htons_bytes l @ [0, 0]"
proof -
  obtain m1 m2 where "m = m1 @ m2" "length m1 = 6" "length m2 = 6"
    using assms by (intro that [of "take 6 m" "drop 6 m"]) simp_all
  then obtain m0 m1 m2 m3 m4 m5 s0 s1 s2 s3 s4 s5 where m: "m = [m0, m1, m2, m3, m4, m5, s0, s1, s2, s3, s4, s5]"
    using list_of_6 [of m1] list_of_6 [of m2] by auto
  have r: "replicate 6 x = [x, x, x, x, x, x]" for x :: u8 by (simp add: numeral_eq_Suc)
  show "write_fields [(16, htons_bytes (of_nat (20 + 8 + n))), (18, htons_bytes ident), (26, htonl_bytes a), (30, htonl_bytes b), (24, [0, 0])]
      (m @ [8, 0] @ [0x45, 0, 0, 0, 0, 0, 0, 0, 64, 17, 0, 0, 0, 0, 0, 0, 0, 0, 0, 0] @ htons_bytes lp @ replicate 6 0) =
    m @ [8, 0] @ ip_header [0, 0] n ident a b @ htons_bytes lp @ replicate 6 0"
    unfolding write_fields_def m r ip_header_def by (simp add: put_bytes_def htons_bytes_def htonl_bytes_def)
  show "write_fields [(36, htons_bytes dp), (38, htons_bytes l)] (put_bytes 24 (store_le16 c)
      (m @ [8, 0] @ ip_header [0, 0] n ident a b @ htons_bytes lp @ replicate 6 0)) =
    m @ [8, 0] @ ip_header (store_le16 c) n ident a b @ htons_bytes lp @ htons_bytes dp @ htons_bytes l @ [0, 0]"
    unfolding write_fields_def m r ip_header_def by (simp add: put_bytes_def htons_bytes_def htonl_bytes_def store_le16_def)
qed

lemma prepared_frame:
  assumes "42 + length payload \<le> length buffer"
  shows "updatePacketForDestination ident d payload (fst (createBasePacketTemplate listen_port buffer)) =
    (built_frame (replicate 6 0xFF @ replicate 6 0) ident 0x7F000001 (sin_addr d) listen_port (port d) payload @
       drop (42 + length payload) buffer, 42 + length payload)"
proof -
  let ?m = "replicate 6 0xFF @ replicate 6 0 :: u8 list" and ?n = "length payload" and ?a = "0x7F000001 :: u32" and ?b = "sin_addr d"
  let ?rest = "drop 42 buffer"
  let ?t = "?m @ [8, 0] @ [0x45, 0, 0, 0, 0, 0, 0, 0, 64, 17, 0, 0, 0, 0, 0, 0, 0, 0, 0, 0] @ htons_bytes listen_port @ replicate 6 0"
  have m: "length ?m = 12" by simp
  let ?macs = "[(0, replicate 6 0xFF), (6, replicate 6 0), (12, htons_bytes 0x0800)]"
  let ?ip = "[(14, [0x45]), (15, [0]), (16, [0, 0]), (18, [0, 0]), (20, [0, 0]), (22, [64]), (23, [17]), (24, [0, 0]),
         (26, replicate 4 0), (30, replicate 4 0)]"
  let ?udp = "[(34, htons_bytes listen_port), (36, [0, 0]), (38, [0, 0]), (40, [0, 0])]"
  have base: "fst (createBasePacketTemplate listen_port buffer) = ?t @ ?rest"
  proof -
    have "put_bytes 0 (replicate (14 + 20 + 8) 0) buffer = replicate 42 0 @ ?rest" by (simp add: put_bytes_def)
    moreover have "write_fields ?macs (replicate 42 0 @ ?rest) = write_fields ?macs (replicate 42 0) @ ?rest"
      by (rule write_fields_prefix) auto
    moreover have l1: "length (write_fields ?macs (replicate 42 0)) = 42" by (subst length_write_fields) auto
    moreover have "write_fields ?ip (write_fields ?macs (replicate 42 0) @ ?rest) = write_fields ?ip (write_fields ?macs (replicate 42 0)) @ ?rest"
      by (rule write_fields_prefix) (auto simp: l1)
    moreover have l2: "length (write_fields ?ip (write_fields ?macs (replicate 42 0))) = 42" by (subst length_write_fields) (auto simp: l1)
    moreover have "write_fields ?udp (write_fields ?ip (write_fields ?macs (replicate 42 0)) @ ?rest) =
        write_fields ?udp (write_fields ?ip (write_fields ?macs (replicate 42 0))) @ ?rest"
      by (rule write_fields_prefix) (auto simp: l2)
    ultimately show ?thesis
      unfolding createBasePacketTemplate_def Let_def fst_conv template_written [symmetric] by (simp only:)
  qed
  let ?u = "?m @ [8, 0] @ ip_header [0, 0] ?n ident ?a ?b @ htons_bytes listen_port @ replicate 6 0"
  let ?c = "header_check ?n ident ?a ?b"
  let ?v = "?m @ [8, 0] @ ip_header (store_le16 ?c) ?n ident ?a ?b @ htons_bytes listen_port @ htons_bytes (port d) @
      htons_bytes (of_nat (8 + ?n)) @ [0, 0]"
  let ?f1 = "[(16, htons_bytes (of_nat (20 + 8 + ?n))), (18, htons_bytes ident), (26, htonl_bytes ?a), (30, htonl_bytes ?b), (24, [0, 0])]"
  let ?f2 = "[(36, htons_bytes (port d)), (38, htons_bytes (of_nat (8 + ?n)))]"
  have u: "write_fields ?f1 (?t @ ?rest) = ?u @ ?rest"
    unfolding template_updated(1) [OF m, symmetric, of ?n] by (rule write_fields_prefix) auto
  have c: "ip_check 14 (?u @ ?rest) = ?c"
    using ip_check_shift [of "ip_header [0, 0] ?n ident ?a ?b" "?m @ [8, 0]" "htons_bytes listen_port @ replicate 6 0 @ ?rest"]
    by (simp add: header_check_def)
  have v: "write_fields ?f2 (put_bytes 24 (store_le16 ?c) (?u @ ?rest)) = ?v @ ?rest"
  proof -
    have "put_bytes 24 (store_le16 ?c) (?u @ ?rest) = put_bytes 24 (store_le16 ?c) ?u @ ?rest" by (rule put_bytes_prefix) simp
    moreover have "write_fields ?f2 (put_bytes 24 (store_le16 ?c) ?u @ ?rest) = write_fields ?f2 (put_bytes 24 (store_le16 ?c) ?u) @ ?rest"
      by (rule write_fields_prefix) auto
    moreover have "write_fields ?f2 (put_bytes 24 (store_le16 ?c) ?u) = ?v" by (rule template_updated(2)) (rule m)
    ultimately show ?thesis by (simp only:)
  qed
  have lv: "length ?v = 42" by simp
  have "?rest = take ?n ?rest @ drop (42 + ?n) buffer" using assms by (metis append_take_drop_id drop_drop add.commute)
  then have p: "put_bytes 42 payload (?v @ ?rest) = ?v @ payload @ drop (42 + ?n) buffer"
    using assms put_bytes_exact [of "take ?n ?rest" payload ?v "drop (42 + ?n) buffer"] unfolding lv by simp
  moreover have "(if ?n > 0 then put_bytes 42 payload (?v @ ?rest) else ?v @ ?rest) = ?v @ payload @ drop (42 + ?n) buffer"
    using p by simp
  ultimately show ?thesis
    unfolding updatePacketForDestination_def Let_def base u c v built_frame_def by simp
qed

lemma extractUdpPayloadFast_reads:
  assumes "34 \<le> length frame"
  shows "extractUdpPayloadFast frame =
    (let h = unat (frame ! 14 AND 15) * 4
     in Some (if ntohs_at 12 frame = 0x0800 \<and> frame ! 23 = 17 \<and> 20 \<le> h \<and> 22 + h \<le> length frame
              then Some (22 + h, length frame - (22 + h)) else None))"
  using assms by (auto simp: extractUdpPayloadFast_def read_u8_def read_u16_def Let_def add.commute push_bit_eq_mult and.assoc)

text \<open>The fast version accepts whatever the checked one accepts, but it takes the padding of the frame as payload.\<close>

lemma fast_extraction_padding:
  assumes "extractUdpPayload frame = Some (Some (off, len))"
  shows "extractUdpPayloadFast frame = Some (Some (off, length frame - off)) \<and> len \<le> length frame - off"
proof (cases "34 \<le> length frame")
  case True
  with assms show ?thesis by (auto simp: extractUdpPayload_reads extractUdpPayloadFast_reads Let_def split: if_splits)
next
  case False
  with assms show ?thesis by (simp add: extractUdpPayload_short)
qed

section \<open>The ARP table\<close>

text \<open>A hardware address as the kernel prints it, and a line of the table with blanks between its six columns.\<close>

fun mac_text :: "u8 list \<Rightarrow> string" where
  "mac_text [] = []"
| "mac_text [b] = show_hex2 b"
| "mac_text (b # bs) = show_hex2 b @ CHR '':'' # mac_text bs"

lemma sscanf_mac_text: "bs \<noteq> [] \<Longrightarrow> sscanf_hex_list (length bs) (mac_text bs) = Some (map ucast bs)"
proof (induction bs rule: mac_text.induct)
  case (2 b)
  then show ?case using sscanf_hex2 [of "[]" b] by simp
next
  case (3 b c bs)
  have "hex_val CHR '':'' = 36" by (simp add: hex_val_def char_code_def)
  then have "sscanf_hex (show_hex2 b @ CHR '':'' # mac_text (c # bs)) = Some (ucast b, CHR '':'' # mac_text (c # bs))"
    by (intro sscanf_hex2) simp
  with 3 show ?case by simp
qed simp

definition column :: "string \<Rightarrow> bool" where
  "column w \<longleftrightarrow> w \<noteq> [] \<and> list_all (\<lambda>c. \<not> isspace c) w"

definition blanks :: "string \<Rightarrow> bool" where
  "blanks b \<longleftrightarrow> b \<noteq> [] \<and> list_all isspace b"

lemma stream_words_word: "list_all (\<lambda>c. \<not> isspace c) w \<Longrightarrow> stream_words v (w @ s) = stream_words (v @ w) s"
  by (induction w arbitrary: v) simp_all

lemma stream_words_blanks: "list_all isspace b \<Longrightarrow> stream_words [] (b @ s) = stream_words [] s"
  by (induction b) simp_all

lemma stream_words_column: "column w \<Longrightarrow> blanks b \<Longrightarrow> stream_words [] (w @ b @ s) = w # stream_words [] s"
  by (cases b) (auto simp: column_def blanks_def stream_words_word stream_words_blanks)

lemma stream_words_last: "column w \<Longrightarrow> stream_words [] w = [w]"
  using stream_words_word [of w "[]" "[]"] by (simp add: column_def)

lemma mac_text_column: "bs \<noteq> [] \<Longrightarrow> column (mac_text bs)"
proof -
  have h: "\<not> isspace c" if "c \<in> set (show_hex2 b)" for b c
    using that hex_digit_facts(6) [of "unat b div 16"] hex_digit_facts(6) [of "unat b mod 16"] u8_bound [of b]
    by (auto simp: show_hex2_def less_mult_imp_div_less)
  have c: "\<not> isspace CHR '':''" by (simp add: isspace_def char_code_def)
  have "list_all (\<lambda>c. \<not> isspace c) (mac_text bs)"
    by (induction bs rule: mac_text.induct) (auto simp: list_all_iff h c)
  moreover assume "bs \<noteq> []"
  then have "mac_text bs \<noteq> []" by (cases bs rule: mac_text.cases) (simp_all add: show_hex2_def)
  ultimately show ?thesis by (simp add: column_def)
qed

lemma arp_line_read:
  assumes "column a" "column hw" "column fl" "column mk" "column dev" "blanks b1" "blanks b2" "blanks b3" "blanks b4" "blanks b5"
    and "length mac = 6" and "mac \<noteq> replicate 6 0"
  shows "arp_line_mac q (a @ b1 @ hw @ b2 @ fl @ b3 @ mac_text mac @ b4 @ mk @ b5 @ dev) = (if a = q then Some mac else None)"
proof -
  have ne: "mac \<noteq> []" using assms(11) by auto
  have scan: "sscanf_hex_list 6 (mac_text mac) = Some (map ucast mac)"
    using sscanf_mac_text [OF ne] assms(11) by simp
  have zero: "sscanf_hex_list 6 ''00:00:00:00:00:00'' = Some [0, 0, 0, 0, 0, 0]" by code_simp
  have "mac_text mac \<noteq> ''00:00:00:00:00:00''"
  proof
    assume "mac_text mac = ''00:00:00:00:00:00''"
    with scan zero have "map (ucast :: u8 \<Rightarrow> u32) mac = [0, 0, 0, 0, 0, 0]" by simp
    then have "map (ucast :: u8 \<Rightarrow> u32) mac = map ucast (replicate 6 (0 :: u8))" by (simp add: numeral_eq_Suc)
    moreover have "inj (ucast :: u8 \<Rightarrow> u32)" 
    proof (rule injI)
      fix x y :: u8 assume "(ucast x :: u32) = ucast y"
      then have "unat (ucast x :: u32) = unat (ucast y :: u32)" by simp
      then show "x = y" by (simp add: unat_ucast_small less_trans [OF u8_bound] flip: word_unat_eq_iff)
    qed
    ultimately have "mac = replicate 6 0" by (metis map_injective)
    with assms(12) show False by simp
  qed
  moreover have "map (ucast :: u32 \<Rightarrow> u8) (map ucast mac) = mac"
  proof -
    have "ucast (ucast b :: u32) = b" for b :: u8
      by (simp add: word_unat_eq_iff unat_ucast_small less_trans [OF u8_bound] u8_bound)
    then show ?thesis by (simp add: comp_def)
  qed
  ultimately show ?thesis
    using assms ne scan by (simp add: arp_line_mac_def stream_words_column stream_words_last mac_text_column)
qed

section \<open>Properties\<close>

text \<open>
  C18. The packet loop never reads outside of a received frame, and the payload it extracts is exactly the one that the headers announce:
  an IPv4 packet with a header of at least 20 bytes, UDP, and a length field that covers the UDP header and lies in the
  frame; every other frame has none.
\<close>

theorem extractUdpPayload_exact:
  "map_option (map_option (\<lambda>p. payload_at p frame)) (extractUdpPayload frame) = Some (udp_payload frame)"
  by (rule extractUdpPayload_payload)

text \<open>
  C14. Every payload that fits the transmit frame becomes a frame that is addressed to the destination, from which exactly this payload is
  extracted again, with a header checksum that a receiver accepts; the rest of the transmit memory is untouched.  A longer payload
  is refused without a write.
\<close>

theorem createUdpPacket_roundtrip:
  assumes "buffer_size \<le> 4096" and "buffer_size \<le> length buffer"
  shows "case createUdpPacket env interface listen_ip listen_port d payload buffer buffer_size of (buffer', n) \<Rightarrow>
    (if 42 + length payload \<le> buffer_size
     then n = 42 + length payload \<and> udp_destination (take n buffer') = Some (sin_addr d, port d) \<and>
          udp_payload (take n buffer') = Some payload \<and> checksum_accepted (take 20 (drop 14 buffer')) \<and>
          take 6 buffer' = dest_mac env d \<and> drop n buffer' = drop n buffer \<and> length buffer' = length buffer
     else n = 0 \<and> buffer' = buffer)"
proof (cases "42 + length payload \<le> buffer_size")
  case False
  then show ?thesis by (simp add: createUdpPacket_def)
next
  case True
  let ?macs = "dest_mac env d @ source_mac env interface" and ?a = "source_addr env interface listen_ip"
  let ?f = "built_frame ?macs 12345 ?a (sin_addr d) listen_port (port d) payload"
  have m: "length ?macs = 12" "length (dest_mac env d) = 6" by (simp_all add: length_dest_mac length_source_mac)
  have l: "length ?f = 42 + length payload" using m by (simp only: length_built_frame)
  have f: "createUdpPacket env interface listen_ip listen_port d payload buffer buffer_size =
      (?f @ drop (42 + length payload) buffer, 42 + length payload)"
    using True assms by (intro createUdpPacket_frame) simp_all
  have small: "length payload < 65528" using True assms(1) by simp
  have t: "take (42 + length payload) (?f @ drop (42 + length payload) buffer) = ?f" using l by simp
  have h: "take 20 (drop 14 (?f @ drop (42 + length payload) buffer)) =
      ip_header (store_le16 (header_check (length payload) 12345 ?a (sin_addr d))) (length payload) 12345 ?a (sin_addr d)"
    using m by (simp add: built_frame_def)
  have "take 6 (?f @ drop (42 + length payload) buffer) = dest_mac env d" using m by (simp add: built_frame_def)
  with True assms l t h show ?thesis
    unfolding f using built_frame_destination [OF m(1), of 12345 ?a "sin_addr d" listen_port "port d" payload "[]"]
      built_frame_payload(2) [OF m(1) small, of 12345 ?a "sin_addr d" listen_port "port d" "[]"]
    by (simp add: ip_header_checksum)
qed

theorem createUdpPacket_roundtrip_witness:
  "udp_payload (take 45 (fst (createUdpPacket \<lparr>ne_ifaddr = \<lambda>_. Some 0x0A000047, ne_hwaddr = \<lambda>_. None, ne_arp = None\<rparr> ''eth0'' ''10.0.0.71'' 9000
     \<lparr>ip_address = ''10.0.0.34'', port = 9001, sin_addr = 0x0A000022\<rparr> [1, 2, 3] (replicate 64 7) 64))) = Some [1, 2, 3]"
  using createUdpPacket_roundtrip [where buffer_size = 64 and buffer = "replicate 64 7" and
      env = "\<lparr>ne_ifaddr = \<lambda>_. Some 0x0A000047, ne_hwaddr = \<lambda>_. None, ne_arp = None\<rparr>" and interface = "''eth0''" and
      listen_ip = "''10.0.0.71''" and listen_port = 9000 and d = "\<lparr>ip_address = ''10.0.0.34'', port = 9001, sin_addr = 0x0A000022\<rparr>" and
      payload = "[1, 2, 3]"]
  by (auto split: prod.splits)

end
