(* ===== verification/Destinations.thy ===== *)
theory Destinations
  imports Udp_Frame "HOL-Library.List_Lexorder" "HOL-Library.Char_ord" "HOL-Library.Product_Lexorder"
begin

text \<open>
  The destinations of the packet replicator: the constructor of \<open>Destination\<close>, its order, and \<open>std::set<Destination>\<close> as the
  list of its elements in ascending order.  The order compares the text of the address and then the port; the characters of
  a \<open>std::string\<close> are compared as unsigned numbers.  The locale \<open>registry\<close> states what the control protocol asks of a set of
  subscribers; it is interpreted on the operations of the replicator.
\<close>

section \<open>Destinations and their order\<close>

definition make_destination :: "string \<Rightarrow> u16 \<Rightarrow> Destination outcome" where
  "make_destination ip_text p =
     (case inet_aton ip_text of
        None \<Rightarrow> Inl (Invalid_argument (''Invalid IP address: '' @ ip_text))
      | Some a \<Rightarrow> Inr \<lparr>ip_address = ip_text, port = p, sin_addr = a\<rparr>)"

definition dest_less :: "Destination \<Rightarrow> Destination \<Rightarrow> bool" where
  "dest_less a b = (if ip_address a \<noteq> ip_address b then ip_address a < ip_address b else port a < port b)"

fun set_insert :: "Destination \<Rightarrow> Destination list \<Rightarrow> Destination list" where
  "set_insert x [] = [x]"
| "set_insert x (y # ys) = (if dest_less x y then x # y # ys else if dest_less y x then y # set_insert x ys else y # ys)"

fun set_erase :: "Destination \<Rightarrow> Destination list \<Rightarrow> Destination list" where
  "set_erase x [] = []"
| "set_erase x (y # ys) = (if dest_less x y then y # ys else if dest_less y x then y # set_erase x ys else ys)"

text \<open>\<open>addDestination\<close> and \<open>removeDestination\<close> on the set; an exception of the constructor leaves it alone.\<close>

definition add_to_set :: "string \<Rightarrow> u16 \<Rightarrow> Destination list \<Rightarrow> unit outcome \<times> Destination list" where
  "add_to_set ip_text p ds = (case make_destination ip_text p of Inl e \<Rightarrow> (Inl e, ds) | Inr d \<Rightarrow> (Inr (), set_insert d ds))"

definition remove_from_set :: "string \<Rightarrow> u16 \<Rightarrow> Destination list \<Rightarrow> unit outcome \<times> Destination list" where
  "remove_from_set ip_text p ds = (case make_destination ip_text p of Inl e \<Rightarrow> (Inl e, ds) | Inr d \<Rightarrow> (Inr (), set_erase d ds))"

section \<open>The order\<close>

definition dest_key :: "Destination \<Rightarrow> string \<times> u16" where
  "dest_key d = (ip_address d, port d)"

lemma dest_less_key: "dest_less a b \<longleftrightarrow> dest_key a < dest_key b"
  by (auto simp: dest_less_def dest_key_def less_prod_def)

lemma dest_cases:
  obtains (less) "dest_less x y" "\<not> dest_less y x" "dest_key x \<noteq> dest_key y"
  | (greater) "dest_less y x" "\<not> dest_less x y" "dest_key x \<noteq> dest_key y"
  | (equal) "dest_key x = dest_key y" "\<not> dest_less x y" "\<not> dest_less y x"
  unfolding dest_less_key by (metis less_asym linorder_neqE)

lemma dest_less_trans: "dest_less a b \<Longrightarrow> dest_less b c \<Longrightarrow> dest_less a c"
  unfolding dest_less_key by (rule less_trans)

section \<open>The set\<close>

text \<open>
  Ascending, and every address text is one that \<open>make_destination\<close> accepts with the stored number.
\<close>

definition dests_ok :: "Destination list \<Rightarrow> bool" where
  "dests_ok ds \<longleftrightarrow> sorted_wrt dest_less ds \<and> (\<forall>d \<in> set ds. inet_aton (ip_address d) = Some (sin_addr d))"

lemma keys_set_insert: "sorted_wrt dest_less ds \<Longrightarrow> dest_key ` set (set_insert x ds) = insert (dest_key x) (dest_key ` set ds)"
proof (induction ds)
  case (Cons y ys)
  then show ?case by (cases rule: dest_cases [of x y]) (auto simp: insert_commute)
qed simp

lemma set_set_insert: "set (set_insert x ds) \<subseteq> insert x (set ds)"
  by (induction ds) auto

lemma sorted_set_insert: "sorted_wrt dest_less ds \<Longrightarrow> sorted_wrt dest_less (set_insert x ds)"
proof (induction ds)
  case (Cons y ys)
  then show ?case
    using set_set_insert [of x ys]
    by (cases rule: dest_cases [of x y]) (auto dest: dest_less_trans)
qed simp

lemma keys_set_erase:
  "sorted_wrt dest_less ds \<Longrightarrow> dest_key ` set (set_erase x ds) = dest_key ` set ds - {dest_key x}"
proof (induction ds)
  case (Cons y ys)
  have above: "dest_key y \<notin> dest_key ` set ys"
    using Cons.prems by (auto simp: dest_less_key)
  show ?case
  proof (cases rule: dest_cases [of x y])
    case less
    then have "dest_key x \<notin> dest_key ` set ys"
      using Cons.prems by (auto simp: dest_less_key dest!: bspec)
    with less show ?thesis by auto
  next
    case greater
    with Cons show ?thesis by auto
  next
    case equal
    with above show ?thesis by auto
  qed
qed simp

lemma set_set_erase: "set (set_erase x ds) \<subseteq> set ds"
  by (induction ds) auto

lemma sorted_set_erase: "sorted_wrt dest_less ds \<Longrightarrow> sorted_wrt dest_less (set_erase x ds)"
proof (induction ds)
  case (Cons y ys)
  then show ?case using set_set_erase [of x ys] by auto
qed simp

lemma dests_ok_add: "dests_ok ds \<Longrightarrow> dests_ok (snd (add_to_set t p ds))"
  using set_set_insert by (fastforce simp: dests_ok_def add_to_set_def make_destination_def sorted_set_insert split: option.splits sum.splits)

lemma dests_ok_remove: "dests_ok ds \<Longrightarrow> dests_ok (snd (remove_from_set t p ds))"
  using set_set_erase by (fastforce simp: dests_ok_def remove_from_set_def make_destination_def sorted_set_erase split: option.splits sum.splits)

section \<open>Subscribers\<close>

text \<open>
  A registry of subscribers, from the point of view of the control protocol: a subscriber is an address and a port, and a
  sequence of commands leaves exactly those subscribed whose last command was an addition.
\<close>

datatype command = Add u32 u16 | Remove u32 u16

fun subject :: "command \<Rightarrow> u32 \<times> u16" where
  "subject (Add a p) = (a, p)"
| "subject (Remove a p) = (a, p)"

definition execute :: "(u32 \<Rightarrow> u16 \<Rightarrow> 's \<Rightarrow> 's) \<Rightarrow> (u32 \<Rightarrow> u16 \<Rightarrow> 's \<Rightarrow> 's) \<Rightarrow> command \<Rightarrow> 's \<Rightarrow> 's" where
  "execute add remove c s = (case c of Add a p \<Rightarrow> add a p s | Remove a p \<Rightarrow> remove a p s)"

definition last_is_add :: "u32 \<times> u16 \<Rightarrow> command list \<Rightarrow> bool \<Rightarrow> bool" where
  "last_is_add k cs before = foldl (\<lambda>b c. if subject c = k then (case c of Add _ _ \<Rightarrow> True | Remove _ _ \<Rightarrow> False) else b) before cs"

locale registry =
  fixes add remove :: "u32 \<Rightarrow> u16 \<Rightarrow> 's \<Rightarrow> 's"
    and members :: "'s \<Rightarrow> (u32 \<times> u16) set"
    and ok :: "'s \<Rightarrow> bool"
  assumes ok_add: "ok s \<Longrightarrow> ok (add a p s)"
    and ok_remove: "ok s \<Longrightarrow> ok (remove a p s)"
    and members_add: "ok s \<Longrightarrow> members (add a p s) = insert (a, p) (members s)"
    and members_remove: "ok s \<Longrightarrow> members (remove a p s) = members s - {(a, p)}"
begin

lemma ok_execute: "ok s \<Longrightarrow> ok (execute add remove c s)"
  by (cases c) (simp_all add: execute_def ok_add ok_remove)

lemma ok_run: "ok s \<Longrightarrow> ok (fold (execute add remove) cs s)"
  by (induction cs arbitrary: s) (simp_all add: ok_execute)

lemma members_execute:
  "ok s \<Longrightarrow> k \<in> members (execute add remove c s) \<longleftrightarrow> (if subject c = k then (case c of Add _ _ \<Rightarrow> True | Remove _ _ \<Rightarrow> False) else k \<in> members s)"
  by (cases c) (auto simp: execute_def members_add members_remove)

text \<open>The command that decides about a subscriber is the last one that names it.\<close>

lemma members_run: "ok s \<Longrightarrow> k \<in> members (fold (execute add remove) cs s) \<longleftrightarrow> last_is_add k cs (k \<in> members s)"
proof (induction cs arbitrary: s)
  case (Cons c cs)
  show ?case
    using Cons.IH [OF ok_execute [OF Cons.prems]] members_execute [OF Cons.prems, of k c] by (simp add: last_is_add_def)
qed (simp add: last_is_add_def)

end

text \<open>The canonical text of an address is what the control protocol passes on.\<close>

definition subscribers :: "Destination list \<Rightarrow> (u32 \<times> u16) set" where
  "subscribers ds = (\<lambda>d. (sin_addr d, port d)) ` set ds"

definition canonical :: "Destination list \<Rightarrow> bool" where
  "canonical ds \<longleftrightarrow> sorted_wrt dest_less ds \<and> (\<forall>d \<in> set ds. ip_address d = inet_ntop (sin_addr d))"

definition registry_add :: "u32 \<Rightarrow> u16 \<Rightarrow> Destination list \<Rightarrow> Destination list" where
  "registry_add a p ds = snd (add_to_set (inet_ntop a) p ds)"

definition registry_remove :: "u32 \<Rightarrow> u16 \<Rightarrow> Destination list \<Rightarrow> Destination list" where
  "registry_remove a p ds = snd (remove_from_set (inet_ntop a) p ds)"

lemma make_destination_ntop: "make_destination (inet_ntop a) p = Inr \<lparr>ip_address = inet_ntop a, port = p, sin_addr = a\<rparr>"
  by (simp add: make_destination_def)

lemma subscribers_keys:
  assumes "\<forall>d \<in> set ds. ip_address d = inet_ntop (sin_addr d)"
  shows "(a, p) \<in> subscribers ds \<longleftrightarrow> (inet_ntop a, p) \<in> dest_key ` set ds"
  using assms by (auto simp: subscribers_def dest_key_def inet_ntop_inj image_iff intro!: bexI)

interpretation dests: registry registry_add registry_remove subscribers canonical
proof unfold_locales
  fix ds :: "Destination list" and a p
  assume c: "canonical ds"
  let ?d = "\<lparr>ip_address = inet_ntop a, port = p, sin_addr = a\<rparr>"
  show ca: "canonical (registry_add a p ds)"
    using c set_set_insert [of ?d ds]
    by (auto simp: canonical_def registry_add_def add_to_set_def make_destination_ntop sorted_set_insert)
  show cr: "canonical (registry_remove a p ds)"
    using c set_set_erase [of ?d ds]
    by (auto simp: canonical_def registry_remove_def remove_from_set_def make_destination_ntop sorted_set_erase)
  have k: "(b, q) \<in> subscribers ds \<longleftrightarrow> (inet_ntop b, q) \<in> dest_key ` set ds" for b q
    using c by (intro subscribers_keys) (simp add: canonical_def)
  have ka: "dest_key ` set (registry_add a p ds) = insert (inet_ntop a, p) (dest_key ` set ds)"
    using c by (simp add: canonical_def registry_add_def add_to_set_def make_destination_ntop keys_set_insert) (simp add: dest_key_def)
  have kr: "dest_key ` set (registry_remove a p ds) = dest_key ` set ds - {(inet_ntop a, p)}"
    using c by (simp add: canonical_def registry_remove_def remove_from_set_def make_destination_ntop keys_set_erase) (simp add: dest_key_def)
  have "(b, q) \<in> subscribers (registry_add a p ds) \<longleftrightarrow> (b, q) \<in> insert (a, p) (subscribers ds)" for b q
    using ca unfolding canonical_def by (subst subscribers_keys) (auto simp: ka k inet_ntop_inj)
  then show "subscribers (registry_add a p ds) = insert (a, p) (subscribers ds)" by auto
  have "(b, q) \<in> subscribers (registry_remove a p ds) \<longleftrightarrow> (b, q) \<in> subscribers ds - {(a, p)}" for b q
    using cr unfolding canonical_def by (subst subscribers_keys) (auto simp: kr k inet_ntop_inj)
  then show "subscribers (registry_remove a p ds) = subscribers ds - {(a, p)}" by auto
qed

end
