(* ===== verification/Replicator.thy ===== *)
theory Replicator
  imports Xsk_Socket Destinations
begin

text \<open>
  The packet replicator, \<open>PacketReplicator.hpp\<close> and \<open>PacketReplicator.cpp\<close>: its state, the packet loop of a queue, the
  sending of a payload to a destination, and the control protocol.  Each receive queue has a thread of its own; a turn of its loop works on the socket of the queue and on the
  shared counters.  The frame memory of a socket is one list of bytes: the payload is read from the received frame at every send, and a
  read or write outside of the memory is \<open>None\<close>.  The theorems are about the frames that a send hands to the kernel.
\<close>

section \<open>State\<close>

definition MAX_QUEUES :: nat where "MAX_QUEUES = 8"
definition CONTROL_PORT :: nat where "CONTROL_PORT = 12345"

text \<open>\<open>pr_fallback\<close> is what went to the regular socket: address, port and payload.\<close>

record replicator =
  pr_interface :: string
  pr_listen_ip :: string
  pr_listen_port :: u16
  pr_num_queues :: nat
  pr_sockets :: "xsk_socket option list"
  pr_running :: bool
  pr_dests :: "Destination list"
  pr_recv_per_queue :: "u64 list"
  pr_sent_per_queue :: "u64 list"
  pr_packets_received :: u64
  pr_packets_sent :: u64
  pr_bytes_received :: u64
  pr_bytes_sent :: u64
  pr_fallback :: "(u32 \<times> u16 \<times> u8 list) list"

definition PacketReplicator :: "string \<Rightarrow> string \<Rightarrow> u16 \<Rightarrow> replicator" where
  "PacketReplicator interface listen_ip listen_port =
     \<lparr>pr_interface = interface, pr_listen_ip = listen_ip, pr_listen_port = listen_port, pr_num_queues = 4, pr_sockets = [],
      pr_running = False, pr_dests = [], pr_recv_per_queue = replicate MAX_QUEUES 0, pr_sent_per_queue = replicate MAX_QUEUES 0,
      pr_packets_received = 0, pr_packets_sent = 0, pr_bytes_received = 0, pr_bytes_sent = 0, pr_fallback = []\<rparr>"

text \<open>\<open>initializeCpuCores\<close>: one core per queue, from core 1 on, as far as the machine has them.\<close>

definition initializeCpuCores :: "nat \<Rightarrow> nat \<Rightarrow> nat list" where
  "initializeCpuCores num_queues num_cores = map Suc (filter (\<lambda>i. i + 1 < num_cores) [0..<num_queues])"

section \<open>Sending\<close>

text \<open>
  What the rings and the system answer during one send: new completions, result and index of the reservation, whether the driver
  wants a wake-up, and the result of \<open>sendto\<close> on the regular socket.
\<close>

record send_io =
  si_completions :: u32
  si_reserve :: "int \<times> u32"
  si_wakeup :: bool
  si_sendto :: int

text \<open>
  \<open>(off, len)\<close> designates the payload in the frame memory; it must not overlap the frame that is written.
\<close>

definition umem_bytes :: "nat \<Rightarrow> nat \<Rightarrow> xsk_socket \<Rightarrow> u8 list option" where
  "umem_bytes off len s =
     (case xs_umem s of None \<Rightarrow> None | Some m \<Rightarrow> if off + len \<le> length m then Some (take len (drop off m)) else None)"

definition sendSinglePacketDirect ::
  "net_env \<Rightarrow> replicator \<Rightarrow> send_io \<Rightarrow> Destination \<Rightarrow> nat \<Rightarrow> nat \<Rightarrow> xsk_socket \<Rightarrow> (bool outcome \<times> xsk_socket) option" where
  "sendSinglePacketDirect env pr io d off len s =
     (case pollTxCompletions (si_completions io) s of
        (Inl e, s1) \<Rightarrow> Some (Inl e, s1)
      | (Inr _, s1) \<Rightarrow>
          (let (tx_frame_number, s2) = getNextTxFrame s1;
               tx_frame_addr = tx_frame_number * 4096
           in if off < tx_frame_addr + 4096 \<and> tx_frame_addr < off + len then None
              else do {
                payload \<leftarrow> umem_bytes off len s2;
                tx_buffer \<leftarrow> umem_bytes tx_frame_addr 4096 s2;
                let (tx_buffer', packet_len) = createUdpPacket env (pr_interface pr) (pr_listen_ip pr) (pr_listen_port pr) d payload tx_buffer 4096;
                if packet_len = 0 then Some (Inr False, s2)
                else do {
                  s3 \<leftarrow> write_umem tx_frame_addr tx_buffer' s2;
                  let (ret, tx_idx) = si_reserve io;
                  let s4 = snd (reserveTxRing 1 ret s3);
                  if ret \<noteq> 1 then Some (Inr False, if ret = 0 then snd (requestDriverPoll (si_wakeup io) s4) else s4)
                  else let s5 = snd (setTxDescriptor tx_idx (of_nat tx_frame_addr) (of_nat packet_len) s4);
                           s6 = snd (submitTxRing 1 s5)
                       in Some (Inr True, snd (requestDriverPoll (si_wakeup io) s6))
                }
              }))"

text \<open>The regular socket; the result counts as sent when all bytes went out.\<close>

definition sendToDestinationFallback :: "send_io \<Rightarrow> Destination \<Rightarrow> u8 list \<Rightarrow> replicator \<Rightarrow> bool \<times> replicator" where
  "sendToDestinationFallback io d data pr =
     (if si_sendto io < 0 then (False, pr)
      else (si_sendto io = int (length data),
            pr\<lparr>pr_fallback := pr_fallback pr @ [(sin_addr d, port d, take (nat (si_sendto io)) data)]\<rparr>))"

definition queue_umem :: "nat \<Rightarrow> replicator \<Rightarrow> nat \<Rightarrow> nat \<Rightarrow> u8 list option" where
  "queue_umem q pr off len =
     (if q < length (pr_sockets pr) then (case pr_sockets pr ! q of None \<Rightarrow> None | Some s \<Rightarrow> umem_bytes off len s) else None)"

definition set_socket :: "nat \<Rightarrow> xsk_socket \<Rightarrow> replicator \<Rightarrow> replicator" where
  "set_socket q s pr = pr\<lparr>pr_sockets := (pr_sockets pr)[q := Some s]\<rparr>"

text \<open>
  \<open>sendToDestinationWithQueue\<close>: without a socket, and after an exception of the direct path, the payload goes to the
  regular socket.  The data lies in the frame memory of the queue.
\<close>

definition sendToDestinationWithQueue ::
  "net_env \<Rightarrow> send_io \<Rightarrow> Destination \<Rightarrow> nat \<Rightarrow> nat \<Rightarrow> nat \<Rightarrow> replicator \<Rightarrow> (bool \<times> replicator) option" where
  "sendToDestinationWithQueue env io d off len q pr =
     (if pr_num_queues pr \<le> q \<or> length (pr_sockets pr) \<le> q \<or> pr_sockets pr ! q = None
      then do { data \<leftarrow> queue_umem q pr off len; Some (sendToDestinationFallback io d data pr) }
      else case pr_sockets pr ! q of
             None \<Rightarrow> None
           | Some s \<Rightarrow> do {
               (r, s') \<leftarrow> sendSinglePacketDirect env pr io d off len s;
               let pr' = set_socket q s' pr;
               case r of
                 Inr ok \<Rightarrow> Some (ok, pr')
               | Inl e \<Rightarrow> do { data \<leftarrow> umem_bytes off len s'; Some (sendToDestinationFallback io d data pr') }
             })"

text \<open>\<open>replicatePacket\<close>: \<open>ios k\<close> belongs to the destination number \<open>k\<close>.\<close>

fun send_to_all ::
  "net_env \<Rightarrow> (nat \<Rightarrow> send_io) \<Rightarrow> nat \<Rightarrow> Destination list \<Rightarrow> nat \<Rightarrow> nat \<Rightarrow> nat \<Rightarrow> nat \<times> replicator \<Rightarrow> (nat \<times> replicator) option" where
  "send_to_all env ios k [] off len q (count, pr) = Some (count, pr)"
| "send_to_all env ios k (d # ds) off len q (count, pr) = do {
     (ok, pr') \<leftarrow> sendToDestinationWithQueue env (ios k) d off len q pr;
     send_to_all env ios (Suc k) ds off len q
       (if ok then (count + 1, pr'\<lparr>pr_packets_sent := pr_packets_sent pr' + 1, pr_bytes_sent := pr_bytes_sent pr' + of_nat len\<rparr>)
        else (count, pr'))
   }"

definition replicatePacket :: "net_env \<Rightarrow> (nat \<Rightarrow> send_io) \<Rightarrow> nat \<Rightarrow> nat \<Rightarrow> nat \<Rightarrow> replicator \<Rightarrow> (nat \<times> replicator) option" where
  "replicatePacket env ios off len q pr = do {
     packet \<leftarrow> queue_umem q pr off len;
     extracted \<leftarrow> extractUdpPayload packet;
     case extracted of
       None \<Rightarrow> Some (0, pr)
     | Some (payload_off, payload_len) \<Rightarrow>
         (let current_destinations = pr_dests pr
          in if current_destinations = [] then Some (0, pr)
             else send_to_all env ios 0 current_destinations (off + payload_off) payload_len q (0, pr))
   }"

text \<open>The older path over the first socket, which takes the number of a frame as its offset.\<close>

definition sendToDestinationZeroCopy ::
  "net_env \<Rightarrow> replicator \<Rightarrow> send_io \<Rightarrow> Destination \<Rightarrow> u8 list \<Rightarrow> xsk_socket \<Rightarrow> (bool outcome \<times> xsk_socket) option" where
  "sendToDestinationZeroCopy env pr io d data s =
     (let (tx_frame_offset, s1) = getNextTxFrame s
      in do {
           tx_buffer \<leftarrow> umem_bytes tx_frame_offset 4096 s1;
           let (tx_buffer', packet_len) = createUdpPacket env (pr_interface pr) (pr_listen_ip pr) (pr_listen_port pr) d data tx_buffer 4096;
           if packet_len = 0 then Some (Inl (Runtime_error ''Failed to create UDP packet''), s1)
           else do {
             s2 \<leftarrow> write_umem tx_frame_offset tx_buffer' s1;
             case send_one (si_completions io) (si_reserve io) (si_wakeup io) (int tx_frame_offset) (int packet_len) s2 of
               (Inl e, s3) \<Rightarrow> Some (Inl e, s3)
             | (Inr sent, s3) \<Rightarrow> Some (if sent < 0 then Inl (Runtime_error ''AF_XDP send failed'') else Inr (sent > 0), s3)
           }
         })"

definition sendToDestination ::
  "net_env \<Rightarrow> send_io \<Rightarrow> Destination \<Rightarrow> u8 list \<Rightarrow> replicator \<Rightarrow> (bool \<times> replicator) option" where
  "sendToDestination env io d data pr =
     (case pr_sockets pr of
        Some s # _ \<Rightarrow> do {
          (r, s') \<leftarrow> sendToDestinationZeroCopy env pr io d data s;
          let pr' = set_socket 0 s' pr;
          Some (case r of Inr ok \<Rightarrow> (ok, pr') | Inl e \<Rightarrow> sendToDestinationFallback io d data pr')
        }
      | _ \<Rightarrow> Some (sendToDestinationFallback io d data pr))"

section \<open>The packet loop of a queue\<close>

text \<open>
  One turn: the descriptors of the receive ring, the answers during the sends of packet \<open>i\<close> to destination \<open>k\<close>, and the
  reservation in the fill ring.
\<close>

record rx_io =
  ri_descs :: "(u64 \<times> u32) list"
  ri_wakeup :: bool
  ri_send :: "nat \<Rightarrow> nat \<Rightarrow> send_io"
  ri_reserve :: "nat \<times> u32"
  ri_fq_wakeup :: bool

definition count_packet :: "nat \<Rightarrow> nat \<Rightarrow> replicator \<Rightarrow> replicator" where
  "count_packet q len pr =
     pr\<lparr>pr_recv_per_queue := (pr_recv_per_queue pr)[q := pr_recv_per_queue pr ! q + 1],
       pr_packets_received := pr_packets_received pr + 1, pr_bytes_received := pr_bytes_received pr + of_nat len\<rparr>"

definition count_sends :: "nat \<Rightarrow> nat \<Rightarrow> replicator \<Rightarrow> replicator" where
  "count_sends q n pr =
     (if n > 0 then pr\<lparr>pr_sent_per_queue := (pr_sent_per_queue pr)[q := pr_sent_per_queue pr ! q + of_nat n]\<rparr> else pr)"

fun process_packets :: "net_env \<Rightarrow> (nat \<Rightarrow> nat \<Rightarrow> send_io) \<Rightarrow> nat \<Rightarrow> (int \<times> int) list \<Rightarrow> nat \<Rightarrow> replicator \<Rightarrow> replicator option" where
  "process_packets env ios i [] q pr = Some pr"
| "process_packets env ios i ((off, len) # ps) q pr =
     (if off < 0 \<or> len < 0 then None
      else do {
        (n, pr') \<leftarrow> replicatePacket env (ios i) (nat off) (nat len) q (count_packet q (nat len) pr);
        process_packets env ios (Suc i) ps q (count_sends q n pr')
      })"

definition queue_turn :: "(u64 \<Rightarrow> u64) \<Rightarrow> net_env \<Rightarrow> rx_io \<Rightarrow> nat \<Rightarrow> replicator \<Rightarrow> replicator option" where
  "queue_turn ext env io q pr =
     (if \<not> pr_running pr then Some pr
      else if length (pr_sockets pr) \<le> q then None
      else case pr_sockets pr ! q of
             None \<Rightarrow> None
           | Some s \<Rightarrow>
               (case xsk_receive ext (ri_descs io) (ri_wakeup io) (replicate 64 0) (replicate 64 0) s of
                  (Inl e, s1) \<Rightarrow> Some (set_socket q s1 pr)
                | (Inr (received, offsets, lengths), s1) \<Rightarrow>
                    (if received > 0 then do {
                       pr1 \<leftarrow> process_packets env (ri_send io) 0 (zip (take received offsets) (take received lengths)) q (set_socket q s1 pr);
                       case pr_sockets pr1 ! q of
                         None \<Rightarrow> None
                       | Some s2 \<Rightarrow> Some (set_socket q (snd (recycleFrames ext (ri_reserve io) (ri_fq_wakeup io) s2)) pr1)
                     }
                     else Some (set_socket q s1 pr))))"

section \<open>The control protocol\<close>

definition CTRL_ADD_DESTINATION :: u8 where "CTRL_ADD_DESTINATION = 1"
definition CTRL_REMOVE_DESTINATION :: u8 where "CTRL_REMOVE_DESTINATION = 2"
definition CTRL_LIST_DESTINATIONS :: u8 where "CTRL_LIST_DESTINATIONS = 3"

definition parseIpAddress :: "string \<Rightarrow> u32 outcome" where
  "parseIpAddress text =
     (case inet_aton text of None \<Rightarrow> Inl (Invalid_argument (''Invalid IP address: '' @ text)) | Some a \<Rightarrow> Inr a)"

definition formatIpAddress :: "u32 \<Rightarrow> string" where
  "formatIpAddress a = inet_ntop a"

text \<open>
  \<open>triggerArpResolution\<close> changes nothing in the program; its result is what it prints: the packet could be sent and the table, read
  after 100 ms, has an entry.
\<close>

datatype arp_trigger = Arp_no_socket | Arp_invalid | Arp_send_failed | Arp_resolved "u8 list" | Arp_pending

definition triggerArpResolution :: "net_env \<Rightarrow> bool \<Rightarrow> bool \<Rightarrow> string \<Rightarrow> arp_trigger" where
  "triggerArpResolution env socket_ok sent_ok text =
     (if \<not> socket_ok then Arp_no_socket
      else if inet_aton text = None then Arp_invalid
      else if \<not> sent_ok then Arp_send_failed
      else case getDestinationMac env text of Some mac \<Rightarrow> Arp_resolved mac | None \<Rightarrow> Arp_pending)"

definition addDestination :: "string \<Rightarrow> u16 \<Rightarrow> replicator \<Rightarrow> unit outcome \<times> replicator" where
  "addDestination text p pr = (let (r, ds) = add_to_set text p (pr_dests pr) in (r, pr\<lparr>pr_dests := ds\<rparr>))"

definition removeDestination :: "string \<Rightarrow> u16 \<Rightarrow> replicator \<Rightarrow> unit outcome \<times> replicator" where
  "removeDestination text p pr = (let (r, ds) = remove_from_set text p (pr_dests pr) in (r, pr\<lparr>pr_dests := ds\<rparr>))"

definition getDestinations :: "replicator \<Rightarrow> Destination list" where
  "getDestinations pr = pr_dests pr"

text \<open>One entry of the answer to a list request; \<open>parseIpAddress\<close> of a stored text cannot fail.\<close>

definition list_entry :: "Destination \<Rightarrow> u8 list outcome" where
  "list_entry d = map_sum id (\<lambda>a. htonl_bytes a @ htons_bytes (port d)) (parseIpAddress (ip_address d))"

fun list_entries :: "Destination list \<Rightarrow> u8 list outcome" where
  "list_entries [] = Inr []"
| "list_entries (d # ds) =
     (case list_entry d of
        Inl e \<Rightarrow> Inl e
      | Inr bs \<Rightarrow> (case list_entries ds of Inl e \<Rightarrow> Inl e | Inr rest \<Rightarrow> Inr (bs @ rest)))"

definition success_byte :: "unit outcome \<Rightarrow> u8 list" where
  "success_byte r = (case r of Inr _ \<Rightarrow> [1] | Inl _ \<Rightarrow> [0])"

definition processControlMessage :: "u8 list \<Rightarrow> replicator \<Rightarrow> u8 list outcome \<times> replicator" where
  "processControlMessage message pr =
     (if length message < 1 then (Inr [], pr)
      else let command = message ! 0
           in if command = CTRL_ADD_DESTINATION then
                (if 7 \<le> length message
                 then let (r, pr') = addDestination (formatIpAddress (ntohl_at 1 message)) (ntohs_at 5 message) pr in (Inr (success_byte r), pr')
                 else (Inr [], pr))
              else if command = CTRL_REMOVE_DESTINATION then
                (if 7 \<le> length message
                 then let (r, pr') = removeDestination (formatIpAddress (ntohl_at 1 message)) (ntohs_at 5 message) pr in (Inr (success_byte r), pr')
                 else (Inr [], pr))
              else if command = CTRL_LIST_DESTINATIONS then
                (map_sum id (\<lambda>bs. of_nat (length (getDestinations pr)) # bs) (list_entries (getDestinations pr)), pr)
              else (Inr [], pr))"

text \<open>
  A turn of the control thread: \<open>recvfrom\<close> into 1024 bytes, an error or time-out, or a message; the answer if one is sent.  An exception would end
  the process.
\<close>

datatype ctl_result = Ctl_none | Ctl_message "u8 list"

definition control_turn :: "ctl_result \<Rightarrow> replicator \<Rightarrow> u8 list option outcome \<times> replicator" where
  "control_turn result pr =
     (if \<not> pr_running pr then (Inr None, pr)
      else case result of
             Ctl_none \<Rightarrow> (Inr None, pr)
           | Ctl_message bytes \<Rightarrow>
               (let buffer = take 1024 bytes
                in if buffer = [] then (Inr None, pr)
                   else let (r, pr') = processControlMessage buffer pr
                        in (map_sum id (\<lambda>response. if response = [] then None else Some response) r, pr')))"

section \<open>Effects of one send\<close>

text \<open>A socket as \<open>initialize\<close> makes it: open, with 4096 frames of 4096 bytes.\<close>

definition UMEM_BYTES :: nat where "UMEM_BYTES = 16777216"
definition RX_BASE :: nat where "RX_BASE = 8388608"

definition ready :: "xsk_socket \<Rightarrow> bool" where
  "ready s \<longleftrightarrow> \<not> xs_closed s \<and> (\<exists>m. xs_umem s = Some m \<and> length m = UMEM_BYTES)"

definition tx_addr :: "u32 \<Rightarrow> nat" where
  "tx_addr c = unat c mod 2048 * 4096"

fun tx_desc_of :: "xsk_call \<Rightarrow> (nat \<times> nat) list" where
  "tx_desc_of (Tx_desc i a l) = [(unat a, unat l)]"
| "tx_desc_of _ = []"

text \<open>The descriptors handed to the transmit ring so far, as address and length.\<close>

definition tx_descs :: "xsk_socket \<Rightarrow> (nat \<times> nat) list" where
  "tx_descs s = concat (map tx_desc_of (xs_calls s))"

lemma tx_descs_simps [xsk_simps]:
  "tx_descs (xsk_call c s) = tx_descs s @ tx_desc_of c" "tx_descs (s\<lparr>xs_prev_umem_tx_frame := x\<rparr>) = tx_descs s"
  "tx_descs (s\<lparr>xs_cached_completions := y\<rparr>) = tx_descs s" "tx_descs (s\<lparr>xs_outstanding_tx := y\<rparr>) = tx_descs s"
  "tx_descs (s\<lparr>xs_umem := m\<rparr>) = tx_descs s" "tx_descs (s\<lparr>xs_pending_recycle_addrs := p\<rparr>) = tx_descs s"
  by (simp_all add: tx_descs_def xsk_call_def)

text \<open>What \<open>pollTxCompletions\<close> and the wake-up calls leave alone.\<close>

definition same_frames :: "xsk_socket \<Rightarrow> xsk_socket \<Rightarrow> bool" where
  "same_frames s s' \<longleftrightarrow> xs_closed s' = xs_closed s \<and> xs_umem s' = xs_umem s \<and> xs_prev_umem_tx_frame s' = xs_prev_umem_tx_frame s \<and>
     published s' = published s \<and> xs_pending_recycle_addrs s' = xs_pending_recycle_addrs s \<and> tx_descs s' = tx_descs s"

lemma poll_same_frames: "\<not> xs_closed s \<Longrightarrow> fst (pollTxCompletions c s) = Inr () \<and> same_frames s (snd (pollTxCompletions c s))"
  by (simp add: pollTxCompletions_def when_open_def Let_def same_frames_def xsk_simps)

lemma wake_same_frames: "same_frames s (snd (requestDriverPoll w s))"
  by (simp add: requestDriverPoll_def when_open_def same_frames_def xsk_simps)

lemma reserve_same_frames: "same_frames s (snd (reserveTxRing n r s))"
  by (simp add: reserveTxRing_def when_open_def same_frames_def xsk_simps)

lemma same_frames_trans: "same_frames a b \<Longrightarrow> same_frames b c \<Longrightarrow> same_frames a c"
  by (simp add: same_frames_def)

lemma same_frames_refl: "same_frames s s"
  by (simp add: same_frames_def)

lemma submit_same_frames: "same_frames s (snd (submitTxRing n s))"
  by (simp add: submitTxRing_def when_open_def same_frames_def xsk_simps)

definition frame_for :: "net_env \<Rightarrow> replicator \<Rightarrow> Destination \<Rightarrow> u8 list \<Rightarrow> u8 list" where
  "frame_for env pr d payload =
     built_frame (dest_mac env d @ source_mac env (pr_interface pr)) 12345 (source_addr env (pr_interface pr) (pr_listen_ip pr))
       (sin_addr d) (pr_listen_port pr) (port d) payload"

lemma length_frame_for [simp]: "length (frame_for env pr d payload) = 42 + length payload"
  by (simp add: frame_for_def length_built_frame length_dest_mac length_source_mac)

lemma tx_addr_bound: "tx_addr c + 4096 \<le> RX_BASE"
proof -
  have "unat c mod 2048 \<le> 2047" by (simp add: less_Suc_eq_le [symmetric])
  then show ?thesis unfolding tx_addr_def RX_BASE_def by linarith
qed

lemma put_into_frame:
  "a + 4096 \<le> length m \<Longrightarrow> length f \<le> 4096 \<Longrightarrow>
    put_bytes a (f @ drop (length f) (take 4096 (drop a m))) m = put_bytes a f m"
proof -
  assume "a + 4096 \<le> length m" "length f \<le> 4096"
  moreover have "drop (length f) (take 4096 (drop a m)) @ drop (a + 4096) m = drop (a + length f) m"
  proof -
    have "drop (length f) (take 4096 (drop a m)) = take (4096 - length f) (drop (a + length f) m)"
      by (simp add: drop_take add.commute)
    moreover have "drop (a + 4096) m = drop (4096 - length f) (drop (a + length f) m)"
      using \<open>length f \<le> 4096\<close> by (simp add: add.commute)
    ultimately show ?thesis by (simp only: append_take_drop_id)
  qed
  ultimately show ?thesis by (simp add: put_bytes_def)
qed

lemma direct_send:
  assumes "ready s" and m: "xs_umem s = Some m" and "RX_BASE \<le> off" and "off + len \<le> UMEM_BYTES" and "42 + len \<le> 4096"
  shows "\<exists>s'. sendSinglePacketDirect env pr io d off len s = Some (Inr (fst (si_reserve io) = 1), s') \<and>
    \<not> xs_closed s' \<and> xs_umem s' = Some (put_bytes (tx_addr (xs_prev_umem_tx_frame s)) (frame_for env pr d (take len (drop off m))) m) \<and>
    xs_prev_umem_tx_frame s' = xs_prev_umem_tx_frame s + 1 \<and> published s' = published s \<and>
    xs_pending_recycle_addrs s' = xs_pending_recycle_addrs s \<and>
    tx_descs s' = tx_descs s @ (if fst (si_reserve io) = 1 then [(tx_addr (xs_prev_umem_tx_frame s), 42 + len)] else [])"
proof -
  let ?c = "xs_prev_umem_tx_frame s" and ?p = "take len (drop off m)"
  let ?a = "tx_addr ?c" and ?f = "frame_for env pr d (take len (drop off m))"
  have open_s: "\<not> xs_closed s" and lm: "length m = UMEM_BYTES" using assms(1) m by (auto simp: ready_def)
  obtain s1 where s1: "pollTxCompletions (si_completions io) s = (Inr (), s1)" "same_frames s s1"
    using poll_same_frames [OF open_s] by (metis prod.collapse)
  let ?s2 = "s1\<lparr>xs_prev_umem_tx_frame := ?c + 1\<rparr>"
  have f1: "xs_closed s1 = False" "xs_umem s1 = Some m" "xs_prev_umem_tx_frame s1 = ?c" "published s1 = published s"
      "xs_pending_recycle_addrs s1 = xs_pending_recycle_addrs s" "tx_descs s1 = tx_descs s"
    using s1(2) open_s m by (simp_all add: same_frames_def)
  have nf: "getNextTxFrame s1 = (unat ?c mod 2048, ?s2)"
    using getNextTxFrame_cycle [of s1] f1(3) by (simp add: getNextTxFrame_def prod_eq_iff)
  have a: "?a + 4096 \<le> RX_BASE" by (rule tx_addr_bound)
  have lp: "length ?p = len" using assms(4) lm by (simp add: UMEM_BYTES_def)
  have no: "\<not> (off < ?a + 4096 \<and> ?a < off + len)" using a assms(3) by simp
  have r1: "umem_bytes off len ?s2 = Some ?p" using f1 assms(4) lm by (simp add: umem_bytes_def)
  have r2: "umem_bytes ?a 4096 ?s2 = Some (take 4096 (drop ?a m))" using f1 a lm by (simp add: umem_bytes_def UMEM_BYTES_def RX_BASE_def)
  have am: "?a + 4096 \<le> length m" using a lm by (simp add: UMEM_BYTES_def RX_BASE_def)
  have c: "createUdpPacket env (pr_interface pr) (pr_listen_ip pr) (pr_listen_port pr) d ?p (take 4096 (drop ?a m)) 4096 =
      (?f @ drop (42 + len) (take 4096 (drop ?a m)), 42 + len)"
    using assms(5) am lp createUdpPacket_frame [of ?p 4096 "take 4096 (drop ?a m)"] by (simp add: frame_for_def)
  have lf: "length ?f = 42 + len" using lp by simp
  have w: "write_umem ?a (?f @ drop (42 + len) (take 4096 (drop ?a m))) ?s2 = Some (?s2\<lparr>xs_umem := Some (put_bytes ?a ?f m)\<rparr>)"
    using put_into_frame [OF am, of ?f] lf assms(5) am f1 by (simp add: write_umem_def)
  have ua: "unat (of_nat ?a :: u64) = ?a" by (rule unat_of_nat_small) (use a in \<open>simp add: RX_BASE_def\<close>)
  have ul: "unat (of_nat (42 + len) :: u32) = 42 + len" by (rule unat_of_nat_small) (use assms(5) in simp)
  obtain ret idx where io: "si_reserve io = (ret, idx)" by (metis prod.exhaust)
  have desc: "snd (setTxDescriptor idx (of_nat ?a) (of_nat (42 + len)) t) = xsk_call (Tx_desc idx (of_nat ?a) (of_nat (42 + len))) t"
    if "\<not> xs_closed t" for t using that by (simp add: setTxDescriptor_def when_open_def)
  let ?s3 = "?s2\<lparr>xs_umem := Some (put_bytes ?a ?f m)\<rparr>"
  let ?s4 = "snd (reserveTxRing 1 ret ?s3)"
  have s4: "same_frames ?s3 ?s4" by (rule reserve_same_frames)
  show ?thesis
  proof (cases "ret = 1")
    case True
    let ?s5 = "snd (setTxDescriptor idx (of_nat ?a) (of_nat (42 + len)) ?s4)"
    let ?s7 = "snd (requestDriverPoll (si_wakeup io) (snd (submitTxRing 1 ?s5)))"
    have "\<not> xs_closed ?s4" using s4 f1 by (simp add: same_frames_def)
    note s5 = desc [OF this]
    have s7: "same_frames ?s5 ?s7" by (rule same_frames_trans [OF submit_same_frames wake_same_frames])
    have "sendSinglePacketDirect env pr io d off len s = Some (Inr True, ?s7)"
      unfolding sendSinglePacketDirect_def s1(1) using no nf r1 r2 c w io True by (simp add: Let_def tx_addr_def [symmetric] del: of_nat_add)
    then show ?thesis
      using s7 s4 f1 True io ua ul unfolding s5 by (simp add: same_frames_def xsk_simps)
  next
    case False
    let ?s5 = "if ret = 0 then snd (requestDriverPoll (si_wakeup io) ?s4) else ?s4"
    have s5: "same_frames ?s4 ?s5" by (simp add: wake_same_frames same_frames_refl)
    have "sendSinglePacketDirect env pr io d off len s = Some (Inr False, ?s5)"
      unfolding sendSinglePacketDirect_def s1(1) using no nf r1 r2 c w io False by (simp add: Let_def tx_addr_def [symmetric] del: of_nat_add)
    then show ?thesis
      using s5 s4 f1 False io by (simp add: same_frames_def xsk_simps)
  qed
qed

section \<open>Sends to all destinations\<close>

fun write_frames :: "net_env \<Rightarrow> replicator \<Rightarrow> u32 \<Rightarrow> Destination list \<Rightarrow> u8 list \<Rightarrow> u8 list \<Rightarrow> u8 list" where
  "write_frames env pr c [] p m = m"
| "write_frames env pr c (d # ds) p m = write_frames env pr (c + 1) ds p (put_bytes (tx_addr c) (frame_for env pr d p) m)"

text \<open>The frames whose reservation succeeds.\<close>

fun new_descs :: "(nat \<Rightarrow> send_io) \<Rightarrow> nat \<Rightarrow> u32 \<Rightarrow> Destination list \<Rightarrow> nat \<Rightarrow> (nat \<times> nat) list" where
  "new_descs ios k c [] len = []"
| "new_descs ios k c (d # ds) len =
     (if fst (si_reserve (ios k)) = 1 then [(tx_addr c, 42 + len)] else []) @ new_descs ios (Suc k) (c + 1) ds len"

lemma put_bytes_above: "a + length f \<le> b \<Longrightarrow> b \<le> length m \<Longrightarrow> drop b (put_bytes a f m) = drop b m"
  by (simp add: put_bytes_def)

lemma put_bytes_read_other:
  assumes "a + length f \<le> b \<or> b + n \<le> a" and "a + length f \<le> length m"
  shows "take n (drop b (put_bytes a f m)) = take n (drop b m)"
  using assms
proof (elim disjE)
  assume "b + n \<le> a"
  then have "take n (drop b (take a m)) = take n (drop b m)" by (simp add: drop_take min_def)
  then show ?thesis using assms(2) \<open>b + n \<le> a\<close> by (simp add: put_bytes_def)
next
  assume "a + length f \<le> b"
  then show ?thesis using assms(2) by (simp add: put_bytes_def)
qed

lemma put_bytes_read_same: "a + length f \<le> length m \<Longrightarrow> take (length f) (drop a (put_bytes a f m)) = f"
  by (simp add: put_bytes_def)

lemma tx_addr_disjoint: "tx_addr c \<noteq> tx_addr c' \<Longrightarrow> n \<le> 4096 \<Longrightarrow> tx_addr c + n \<le> tx_addr c' \<or> tx_addr c' + n \<le> tx_addr c"
proof -
  have "x * 4096 + n \<le> y * 4096 \<or> y * 4096 + n \<le> x * 4096" if "x \<noteq> y" "n \<le> 4096" for x y :: nat
    using that by linarith
  moreover assume "tx_addr c \<noteq> tx_addr c'" "n \<le> 4096"
  ultimately show ?thesis unfolding tx_addr_def by (metis (no_types))
qed

lemma tx_addr_different: "0 < k \<Longrightarrow> k < 2048 \<Longrightarrow> tx_addr (c + of_nat k) \<noteq> tx_addr c"
  unfolding tx_addr_def counter_mod using distinct_window [of k "unat c"] by simp

lemma length_write_frames [simp]:
  "length m = UMEM_BYTES \<Longrightarrow> 42 + length p \<le> 4096 \<Longrightarrow> length (write_frames env pr c ds p m) = UMEM_BYTES"
proof (induction ds arbitrary: c m)
  case (Cons d ds)
  have "tx_addr c + length (frame_for env pr d p) \<le> length m" using Cons.prems tx_addr_bound [of c] by (simp add: UMEM_BYTES_def RX_BASE_def)
  with Cons show ?case by simp
qed simp

lemma write_frames_rx:
  "length m = UMEM_BYTES \<Longrightarrow> 42 + length p \<le> 4096 \<Longrightarrow> RX_BASE \<le> b \<Longrightarrow> drop b (write_frames env pr c ds p m) = drop b m"
proof (induction ds arbitrary: c m)
  case (Cons d ds)
  let ?m = "put_bytes (tx_addr c) (frame_for env pr d p) m"
  have "tx_addr c + length (frame_for env pr d p) \<le> RX_BASE" using Cons.prems tx_addr_bound [of c] by simp
  then have "tx_addr c + length (frame_for env pr d p) \<le> length m" "drop b ?m = drop b m"
    using Cons.prems by (simp_all add: UMEM_BYTES_def RX_BASE_def put_bytes_def)
  with Cons show ?case by simp
qed simp

lemma write_frames_other:
  assumes "length m = UMEM_BYTES" and "42 + length p \<le> 4096" and "n \<le> 4096" and "\<And>i. i < length ds \<Longrightarrow> tx_addr (c + of_nat i) \<noteq> tx_addr c0"
  shows "take n (drop (tx_addr c0) (write_frames env pr c ds p m)) = take n (drop (tx_addr c0) m)"
  using assms
proof (induction ds arbitrary: c m)
  case (Cons d ds)
  let ?f = "frame_for env pr d p"
  have b: "tx_addr c + length ?f \<le> length m" using Cons.prems tx_addr_bound [of c] by (simp add: UMEM_BYTES_def RX_BASE_def)
  have ne: "tx_addr c \<noteq> tx_addr c0" using Cons.prems(4) [of 0] by simp
  have "take n (drop (tx_addr c0) (put_bytes (tx_addr c) ?f m)) = take n (drop (tx_addr c0) m)"
    using tx_addr_disjoint [OF ne, of 4096] Cons.prems(2,3) by (intro put_bytes_read_other b) auto
  moreover have "tx_addr (c + 1 + of_nat i) \<noteq> tx_addr c0" if "i < length ds" for i
    using Cons.prems(4) [of "Suc i"] that by (simp add: add.assoc)
  ultimately show ?case using Cons.IH [of "put_bytes (tx_addr c) ?f m" "c + 1"] Cons.prems b by simp
qed simp

lemma write_frames_same:
  assumes "length m = UMEM_BYTES" and "42 + length p \<le> 4096" and "length ds \<le> 2048" and "i < length ds"
  shows "take (42 + length p) (drop (tx_addr (c + of_nat i)) (write_frames env pr c ds p m)) = frame_for env pr (ds ! i) p"
  using assms
proof (induction ds arbitrary: c m i)
  case (Cons d ds)
  let ?f = "frame_for env pr d p"
  have b: "tx_addr c + length ?f \<le> length m" using Cons.prems tx_addr_bound [of c] by (simp add: UMEM_BYTES_def RX_BASE_def)
  show ?case
  proof (cases i)
    case 0
    have "take (42 + length p) (drop (tx_addr c) (write_frames env pr (c + 1) ds p (put_bytes (tx_addr c) ?f m))) =
        take (42 + length p) (drop (tx_addr c) (put_bytes (tx_addr c) ?f m))"
    proof (rule write_frames_other)
      fix j assume "j < length ds"
      then have "tx_addr (c + of_nat (Suc j)) \<noteq> tx_addr c" using Cons.prems(3) by (intro tx_addr_different) simp_all
      then show "tx_addr (c + 1 + of_nat j) \<noteq> tx_addr c" by (simp add: add.assoc)
    qed (use Cons.prems b in simp_all)
    with 0 put_bytes_read_same [OF b] show ?thesis by simp
  next
    case (Suc j)
    with Cons.IH [of "put_bytes (tx_addr c) ?f m" j "c + 1"] Cons.prems b show ?thesis by (simp add: add.assoc)
  qed
qed simp

lemma frame_for_config:
  "pr_interface pr' = pr_interface pr \<Longrightarrow> pr_listen_ip pr' = pr_listen_ip pr \<Longrightarrow> pr_listen_port pr' = pr_listen_port pr \<Longrightarrow>
    frame_for env pr' d p = frame_for env pr d p \<and> write_frames env pr' c ds p m = write_frames env pr c ds p m"
proof -
  assume *: "pr_interface pr' = pr_interface pr" "pr_listen_ip pr' = pr_listen_ip pr" "pr_listen_port pr' = pr_listen_port pr"
  then have f: "frame_for env pr' d p = frame_for env pr d p" for d by (simp add: frame_for_def)
  moreover have "write_frames env pr' c ds p m = write_frames env pr c ds p m"
    by (induction ds arbitrary: c m) (simp_all add: f)
  ultimately show ?thesis by simp
qed

lemma send_to_all_effect:
  assumes "q < pr_num_queues pr" and "q < length (pr_sockets pr)" and "pr_sockets pr ! q = Some s" and "ready s" and "xs_umem s = Some m"
    and "RX_BASE \<le> off" and "off + len \<le> UMEM_BYTES" and "42 + len \<le> 4096"
  shows "\<exists>s'. send_to_all env ios k ds off len q (count, pr) =
      Some (count + length (new_descs ios k (xs_prev_umem_tx_frame s) ds len),
        pr\<lparr>pr_sockets := (pr_sockets pr)[q := Some s'],
          pr_packets_sent := pr_packets_sent pr + of_nat (length (new_descs ios k (xs_prev_umem_tx_frame s) ds len)),
          pr_bytes_sent := pr_bytes_sent pr + of_nat (length (new_descs ios k (xs_prev_umem_tx_frame s) ds len) * len)\<rparr>) \<and>
    ready s' \<and> xs_umem s' = Some (write_frames env pr (xs_prev_umem_tx_frame s) ds (take len (drop off m)) m) \<and>
    xs_prev_umem_tx_frame s' = xs_prev_umem_tx_frame s + of_nat (length ds) \<and> published s' = published s \<and>
    xs_pending_recycle_addrs s' = xs_pending_recycle_addrs s \<and>
    tx_descs s' = tx_descs s @ new_descs ios k (xs_prev_umem_tx_frame s) ds len"
  using assms
proof (induction ds arbitrary: k count pr s m)
  case Nil
  then have "(pr_sockets pr)[q := Some s] = pr_sockets pr" by (metis list_update_id)
  with Nil show ?case by (intro exI [of _ s]) simp
next
  case (Cons d ds)
  let ?c = "xs_prev_umem_tx_frame s" and ?p = "take len (drop off m)"
  let ?ok = "fst (si_reserve (ios k)) = 1" and ?m1 = "put_bytes (tx_addr ?c) (frame_for env pr d (take len (drop off m))) m"
  obtain s1 where s1: "sendSinglePacketDirect env pr (ios k) d off len s = Some (Inr ?ok, s1)" "\<not> xs_closed s1" "xs_umem s1 = Some ?m1"
      "xs_prev_umem_tx_frame s1 = ?c + 1" "published s1 = published s" "xs_pending_recycle_addrs s1 = xs_pending_recycle_addrs s"
      "tx_descs s1 = tx_descs s @ (if ?ok then [(tx_addr ?c, 42 + len)] else [])"
    using direct_send [OF Cons.prems(4,5,6,7,8), of env pr "ios k" d] by blast
  let ?pr1 = "set_socket q s1 pr"
  have w: "sendToDestinationWithQueue env (ios k) d off len q pr = Some (?ok, ?pr1)"
    using Cons.prems(1,2,3) s1(1) by (simp add: sendToDestinationWithQueue_def Let_def)
  have lm: "length m = UMEM_BYTES" using Cons.prems(4,5) by (simp add: ready_def)
  have lp: "length ?p = len" using lm Cons.prems(7) by (simp add: UMEM_BYTES_def)
  have b: "tx_addr ?c + length (frame_for env pr d ?p) \<le> RX_BASE" using lp Cons.prems(8) tx_addr_bound [of ?c] by simp
  have lm1: "length ?m1 = UMEM_BYTES" using lm b by (simp add: RX_BASE_def UMEM_BYTES_def)
  have r1: "ready s1" using s1(2,3) lm1 by (simp add: ready_def)
  have p1: "take len (drop off ?m1) = ?p" using b lm Cons.prems(6,7) by (simp add: put_bytes_def RX_BASE_def UMEM_BYTES_def)
  let ?pr2 = "if ?ok then ?pr1\<lparr>pr_packets_sent := pr_packets_sent pr + 1, pr_bytes_sent := pr_bytes_sent pr + of_nat len\<rparr> else ?pr1"
  let ?n2 = "if ?ok then count + 1 else count"
  have step: "send_to_all env ios k (d # ds) off len q (count, pr) = send_to_all env ios (Suc k) ds off len q (?n2, ?pr2)"
    using w by (simp add: set_socket_def)
  have q2: "pr_sockets ?pr2 ! q = Some s1" "pr_num_queues ?pr2 = pr_num_queues pr" "length (pr_sockets ?pr2) = length (pr_sockets pr)"
    using Cons.prems(2) by (simp_all add: set_socket_def)
  obtain s' where s': "send_to_all env ios (Suc k) ds off len q (?n2, ?pr2) =
      Some (?n2 + length (new_descs ios (Suc k) (?c + 1) ds len),
        ?pr2\<lparr>pr_sockets := (pr_sockets ?pr2)[q := Some s'],
          pr_packets_sent := pr_packets_sent ?pr2 + of_nat (length (new_descs ios (Suc k) (?c + 1) ds len)),
          pr_bytes_sent := pr_bytes_sent ?pr2 + of_nat (length (new_descs ios (Suc k) (?c + 1) ds len) * len)\<rparr>)"
      "ready s'" "xs_umem s' = Some (write_frames env ?pr2 (?c + 1) ds ?p ?m1)" "xs_prev_umem_tx_frame s' = ?c + 1 + of_nat (length ds)"
      "published s' = published s" "xs_pending_recycle_addrs s' = xs_pending_recycle_addrs s"
      "tx_descs s' = tx_descs s1 @ new_descs ios (Suc k) (?c + 1) ds len"
    using Cons.IH [of ?pr2 s1 ?m1 "Suc k" ?n2] q2 Cons.prems r1 s1 p1 by auto
  have cfg: "write_frames env ?pr2 (?c + 1) ds ?p ?m1 = write_frames env pr (?c + 1) ds ?p ?m1"
    using frame_for_config [of ?pr2 pr] by (simp add: set_socket_def)
  show ?case
    unfolding step using s' s1(7) cfg by (intro exI [of _ s']) (auto simp: set_socket_def algebra_simps)
qed

lemma new_descs_filter:
  "new_descs ios k c ds len =
    map (\<lambda>i. (tx_addr (c + of_nat i), 42 + len)) (filter (\<lambda>i. fst (si_reserve (ios (k + i))) = 1) [0..<length ds])"
proof (induction ds arbitrary: k c)
  case (Cons d ds)
  have "[0..<length (d # ds)] = 0 # map Suc [0..<length ds]" by (simp add: map_Suc_upt upt_conv_Cons del: upt_Suc)
  then show ?case by (simp add: Cons filter_map comp_def add.assoc del: upt_Suc)
qed simp

lemma extract_bounds: "extractUdpPayload frame = Some (Some (po, pl)) \<Longrightarrow> po + pl \<le> length frame \<and> 42 \<le> po"
proof (cases "34 \<le> length frame")
  case True
  moreover assume "extractUdpPayload frame = Some (Some (po, pl))"
  ultimately show ?thesis by (auto simp: extractUdpPayload_reads Let_def split: if_splits)
qed (simp add: extractUdpPayload_short)

lemma replicatePacket_effect:
  assumes "q < pr_num_queues pr" and "q < length (pr_sockets pr)" and "pr_sockets pr ! q = Some s" and "ready s" and "xs_umem s = Some m"
    and "RX_BASE \<le> off" and "off + len \<le> UMEM_BYTES" and "len \<le> 4096"
  shows "\<exists>n s' ds payload. replicatePacket env ios off len q pr =
      Some (n, pr\<lparr>pr_sockets := (pr_sockets pr)[q := Some s'], pr_packets_sent := pr_packets_sent pr + of_nat n,
        pr_bytes_sent := pr_bytes_sent pr + of_nat (n * length payload)\<rparr>) \<and>
    (case udp_payload (take len (drop off m)) of None \<Rightarrow> ds = [] | Some p \<Rightarrow> ds = pr_dests pr \<and> payload = p) \<and> length payload \<le> 4054 \<and>
    n = length (new_descs ios 0 (xs_prev_umem_tx_frame s) ds (length payload)) \<and>
    ready s' \<and> xs_umem s' = Some (write_frames env pr (xs_prev_umem_tx_frame s) ds payload m) \<and>
    xs_prev_umem_tx_frame s' = xs_prev_umem_tx_frame s + of_nat (length ds) \<and> published s' = published s \<and>
    xs_pending_recycle_addrs s' = xs_pending_recycle_addrs s \<and>
    tx_descs s' = tx_descs s @ new_descs ios 0 (xs_prev_umem_tx_frame s) ds (length payload)"
proof -
  let ?frame = "take len (drop off m)" and ?c = "xs_prev_umem_tx_frame s"
  have lm: "length m = UMEM_BYTES" using assms(4,5) by (simp add: ready_def)
  have u: "queue_umem q pr off len = Some ?frame" using assms lm by (simp add: queue_umem_def umem_bytes_def)
  have self: "(pr_sockets pr)[q := Some s] = pr_sockets pr" using assms(3) by (metis list_update_id)
  have lf: "length ?frame = len" using lm assms(7) by (simp add: UMEM_BYTES_def)
  obtain e where e: "extractUdpPayload ?frame = Some e" "udp_payload ?frame = map_option (\<lambda>p. payload_at p ?frame) e"
    using extractUdpPayload_payload [of ?frame] by (cases "extractUdpPayload ?frame") auto
  show ?thesis
  proof (cases e)
    case None
    then have "replicatePacket env ios off len q pr = Some (0, pr)" using u e by (simp add: replicatePacket_def)
    with None e self assms show ?thesis by (intro exI [of _ 0] exI [of _ s] exI [of _ "[]"]) simp
  next
    case (Some a)
    obtain po pl where a: "a = (po, pl)" by (cases a)
    have b: "po + pl \<le> len" "42 \<le> po" using extract_bounds [of ?frame po pl] e(1) Some a lf by auto
    let ?p = "payload_at (po, pl) ?frame"
    have p: "take pl (drop (off + po) m) = ?p" using b by (simp add: payload_at_def drop_take add.commute)
    have lp: "length ?p = pl" using b lf by (simp add: payload_at_def)
    have up: "udp_payload ?frame = Some ?p" using e(2) Some a by simp
    show ?thesis
    proof (cases "pr_dests pr = []")
      case True
      then have "replicatePacket env ios off len q pr = Some (0, pr)" using u e Some a by (simp add: replicatePacket_def)
      with up self assms b lp True show ?thesis
        by (intro exI [of _ 0] exI [of _ s] exI [of _ "[]"] exI [of _ ?p]) simp
    next
      case False
      then have r: "replicatePacket env ios off len q pr = send_to_all env ios 0 (pr_dests pr) (off + po) pl q (0, pr)"
        using u e Some a by (simp add: replicatePacket_def)
      have "RX_BASE \<le> off + po" "off + po + pl \<le> UMEM_BYTES" "42 + pl \<le> 4096" using assms(6,7,8) b by simp_all
      from send_to_all_effect [OF assms(1-5) this, of env ios 0 "pr_dests pr" 0]
      show ?thesis unfolding r p using up lp b assms(8) by (auto simp del: of_nat_mult)
    qed
  qed
qed

section \<open>Properties of the replication\<close>

lemma replicated_frames:
  assumes "q < pr_num_queues pr" and "q < length (pr_sockets pr)" and "pr_sockets pr ! q = Some s" and "ready s" and "xs_umem s = Some m"
    and "RX_BASE \<le> off" and "off + len \<le> UMEM_BYTES" and "len \<le> 4096"
    and payload: "udp_payload (take len (drop off m)) = Some payload" and few: "length (pr_dests pr) \<le> 2048"
  shows "\<exists>n pr' s' m'. replicatePacket env ios off len q pr = Some (n, pr') \<and> pr_sockets pr' ! q = Some s' \<and> xs_umem s' = Some m' \<and>
    drop RX_BASE m' = drop RX_BASE m \<and> pr_packets_sent pr' = pr_packets_sent pr + of_nat n \<and>
    list_all2 (\<lambda>(a, l) d. \<exists>f. umem_bytes a l s' = Some f \<and> udp_destination f = Some (sin_addr d, port d) \<and> udp_payload f = Some payload \<and>
        checksum_accepted (take 20 (drop 14 f)))
      (drop (length (tx_descs s)) (tx_descs s'))
      (map (nth (pr_dests pr)) (filter (\<lambda>i. fst (si_reserve (ios i)) = 1) [0..<length (pr_dests pr)])) \<and>
    n = length (filter (\<lambda>i. fst (si_reserve (ios i)) = 1) [0..<length (pr_dests pr)])"
proof -
  let ?ds = "pr_dests pr" and ?c = "xs_prev_umem_tx_frame s" and ?ok = "filter (\<lambda>i. fst (si_reserve (ios i)) = 1) [0..<length (pr_dests pr)]"
  let ?l = "42 + length payload"
  obtain n s' where r: "replicatePacket env ios off len q pr =
      Some (n, pr\<lparr>pr_sockets := (pr_sockets pr)[q := Some s'], pr_packets_sent := pr_packets_sent pr + of_nat n,
        pr_bytes_sent := pr_bytes_sent pr + of_nat (n * length payload)\<rparr>)"
    and n: "n = length (new_descs ios 0 ?c ?ds (length payload))" and lp: "length payload \<le> 4054" and rs: "ready s'"
    and m': "xs_umem s' = Some (write_frames env pr ?c ?ds payload m)"
    and d': "tx_descs s' = tx_descs s @ new_descs ios 0 ?c ?ds (length payload)"
    using replicatePacket_effect [OF assms(1-8), of env ios] payload by auto
  let ?m' = "write_frames env pr ?c ?ds payload m"
  have lm: "length m = UMEM_BYTES" using assms(4,5) by (simp add: ready_def)
  have lm': "length ?m' = UMEM_BYTES" using lm lp by simp
  have rx: "drop RX_BASE ?m' = drop RX_BASE m" using lm lp by (intro write_frames_rx) simp_all
  let ?good = "\<lambda>(a, l) d. \<exists>f. umem_bytes a l s' = Some f \<and> udp_destination f = Some (sin_addr d, port d) \<and> udp_payload f = Some payload \<and>
        checksum_accepted (take 20 (drop 14 f))"
  have good: "?good (tx_addr (?c + of_nat i), ?l) (?ds ! i)" if i: "i < length ?ds" for i
  proof -
    let ?f = "frame_for env pr (?ds ! i) payload" and ?a = "tx_addr (?c + of_nat i)"
    have "take ?l (drop ?a ?m') = ?f" using lm lp few i by (intro write_frames_same) simp_all
    moreover have "?a + ?l \<le> length ?m'" using tx_addr_bound [of "?c + of_nat i"] lp lm' by (simp add: RX_BASE_def UMEM_BYTES_def)
    ultimately have "umem_bytes ?a ?l s' = Some ?f" using m' by (simp add: umem_bytes_def)
    moreover have macs: "length (dest_mac env (?ds ! i) @ source_mac env (pr_interface pr)) = 12" by (simp add: length_dest_mac length_source_mac)
    moreover have "take 20 (drop 14 ?f) = ip_header (store_le16 (header_check (length payload) 12345 (source_addr env (pr_interface pr) (pr_listen_ip pr)) (sin_addr (?ds ! i))))
        (length payload) 12345 (source_addr env (pr_interface pr) (pr_listen_ip pr)) (sin_addr (?ds ! i))"
      using macs by (simp add: frame_for_def built_frame_def)
    ultimately show ?thesis
      using built_frame_destination [OF macs, of _ _ _ _ _ _ "[]"] built_frame_payload(2) [OF macs, of payload _ _ _ _ _ "[]"] lp
      by (simp add: frame_for_def ip_header_checksum)
  qed
  have nd: "new_descs ios 0 ?c ?ds (length payload) = map (\<lambda>i. (tx_addr (?c + of_nat i), ?l)) ?ok" by (simp add: new_descs_filter)
  have "list_all2 ?good (map (\<lambda>i. (tx_addr (?c + of_nat i), ?l)) ?ok) (map (nth ?ds) ?ok)"
    using good by (simp add: list_all2_conv_all_nth) (metis (no_types, lifting) atLeastLessThan_iff mem_Collect_eq nth_mem set_filter set_upt)
  then show ?thesis
    using r m' rx d' nd n assms(2) by auto
qed

text \<open>
  C6. Replication of a received packet.  When a frame in the receive area of a ready queue carries a UDP payload, one descriptor is handed to the
  transmit ring for every destination whose reservation succeeds, in the order of the destinations; the frame each of
  them designates is addressed to that destination, carries exactly the received payload and has a checksum that is accepted.  The number of these descriptors is
  returned and added to the counters, and the receive area is unchanged.
\<close>

theorem replication_correct:
  assumes "q < pr_num_queues pr" and "q < length (pr_sockets pr)" and "pr_sockets pr ! q = Some s" and "ready s" and "xs_umem s = Some m"
    and "RX_BASE \<le> off" and "off + len \<le> UMEM_BYTES" and "len \<le> 4096"
    and "udp_payload (take len (drop off m)) = Some payload" and "length (pr_dests pr) \<le> 2048"
  shows "\<exists>n pr' s' m'. replicatePacket env ios off len q pr = Some (n, pr') \<and> pr_sockets pr' ! q = Some s' \<and> xs_umem s' = Some m' \<and>
    drop RX_BASE m' = drop RX_BASE m \<and> pr_packets_sent pr' = pr_packets_sent pr + of_nat n \<and>
    list_all2 (\<lambda>(a, l) d. \<exists>f. umem_bytes a l s' = Some f \<and> udp_destination f = Some (sin_addr d, port d) \<and> udp_payload f = Some payload \<and>
        checksum_accepted (take 20 (drop 14 f)))
      (drop (length (tx_descs s)) (tx_descs s'))
      (map (nth (pr_dests pr)) (filter (\<lambda>i. fst (si_reserve (ios i)) = 1) [0..<length (pr_dests pr)])) \<and>
    n = length (filter (\<lambda>i. fst (si_reserve (ios i)) = 1) [0..<length (pr_dests pr)])"
  using assms by (rule replicated_frames)

section \<open>Transmit frames in flight\<close>

text \<open>
  The states of a socket after successful sends: payloads lie in the receive area and every reservation is granted.
\<close>

inductive tx_reach :: "net_env \<Rightarrow> replicator \<Rightarrow> xsk_socket \<Rightarrow> bool" for env pr where
  fresh: "ready s \<Longrightarrow> tx_descs s = [] \<Longrightarrow> tx_reach env pr s"
| sent: "tx_reach env pr s \<Longrightarrow> RX_BASE \<le> off \<Longrightarrow> off + len \<le> UMEM_BYTES \<Longrightarrow> 42 + len \<le> 4096 \<Longrightarrow>
    sendSinglePacketDirect env pr io d off len s = Some (Inr True, s') \<Longrightarrow> tx_reach env pr s'"

inductive_cases tx_reachE: "tx_reach env pr s"

lemma sent_effect:
  assumes "ready s" and "RX_BASE \<le> off" and "off + len \<le> UMEM_BYTES" and "42 + len \<le> 4096"
    and "sendSinglePacketDirect env pr io d off len s = Some (r, s')"
  shows "ready s' \<and> xs_prev_umem_tx_frame s' = xs_prev_umem_tx_frame s + 1 \<and> r = Inr (fst (si_reserve io) = 1) \<and>
    tx_descs s' = tx_descs s @ (if fst (si_reserve io) = 1 then [(tx_addr (xs_prev_umem_tx_frame s), 42 + len)] else []) \<and>
    (\<exists>m. xs_umem s = Some m \<and> length m = UMEM_BYTES \<and> xs_umem s' = Some (put_bytes (tx_addr (xs_prev_umem_tx_frame s)) (frame_for env pr d (take len (drop off m))) m))"
proof -
  obtain m where m: "xs_umem s = Some m" "length m = UMEM_BYTES" using assms(1) by (auto simp: ready_def)
  have "tx_addr (xs_prev_umem_tx_frame s) + (42 + length (take len (drop off m))) \<le> length m"
    using m(2) tx_addr_bound [of "xs_prev_umem_tx_frame s"] assms(4) by (simp add: UMEM_BYTES_def RX_BASE_def)
  then have "length (put_bytes (tx_addr (xs_prev_umem_tx_frame s)) (frame_for env pr d (take len (drop off m))) m) = UMEM_BYTES"
    using m(2) by simp
  with direct_send [OF assms(1) m(1) assms(2,3,4), of env pr io d] assms(5) m show ?thesis by (auto simp: ready_def)
qed

definition in_sequence :: "xsk_socket \<Rightarrow> bool" where
  "in_sequence s \<longleftrightarrow> (\<exists>c. xs_prev_umem_tx_frame s = c + of_nat (length (tx_descs s)) \<and>
     map fst (tx_descs s) = map (\<lambda>i. tx_addr (c + of_nat i)) [0..<length (tx_descs s)]) \<and> (\<forall>d \<in> set (tx_descs s). snd d \<le> 4096)"

lemma tx_reach_in_sequence: "tx_reach env pr s \<Longrightarrow> ready s \<and> in_sequence s"
proof (induction rule: tx_reach.induct)
  case (fresh s)
  then show ?case by (simp add: in_sequence_def)
next
  case (sent s off len io d s')
  note e = sent_effect [OF _ sent.hyps(2-5)]
  obtain c where c: "xs_prev_umem_tx_frame s = c + of_nat (length (tx_descs s))"
      "map fst (tx_descs s) = map (\<lambda>i. tx_addr (c + of_nat i)) [0..<length (tx_descs s)]" "\<forall>d \<in> set (tx_descs s). snd d \<le> 4096"
    using sent.IH by (auto simp: in_sequence_def)
  have t: "tx_descs s' = tx_descs s @ [(tx_addr (xs_prev_umem_tx_frame s), 42 + len)]" "xs_prev_umem_tx_frame s' = xs_prev_umem_tx_frame s + 1" "ready s'"
    using e sent.IH by auto
  have "in_sequence s'"
    unfolding in_sequence_def
    by (rule conjI, rule exI [of _ c]) (use t c sent.hyps(4) in \<open>auto simp: add.assoc\<close>)
  with t show ?case by simp
qed



text \<open>
  With 2048 packets under way, which is a full transmit ring, the frame is written before the reservation fails: the oldest of them is replaced, and
  the send is reported as failed.
\<close>

lemma full_ring_overwrites:
  assumes "tx_reach env pr s" and "tx_descs s = past @ (a, l) # newer" and "length newer = 2047"
    and "RX_BASE \<le> off" and "off + len \<le> UMEM_BYTES" and "42 + len \<le> 4096" and m: "xs_umem s = Some m"
    and "sendSinglePacketDirect env pr io d off len s = Some (r, s')" and "fst (si_reserve io) = 0"
  shows "r = Inr False \<and> umem_bytes a (42 + len) s' = Some (frame_for env pr d (take len (drop off m))) \<and> tx_descs s' = tx_descs s"
proof -
  have rs: "ready s" "in_sequence s" using tx_reach_in_sequence [OF assms(1)] by simp_all
  let ?c = "xs_prev_umem_tx_frame s"
  obtain c where c: "?c = c + of_nat (length (tx_descs s))"
      "map fst (tx_descs s) = map (\<lambda>i. tx_addr (c + of_nat i)) [0..<length (tx_descs s)]"
    using rs(2) by (auto simp: in_sequence_def)
  have n: "length (tx_descs s) = length past + 2048" using assms(2,3) by simp
  have "map fst (tx_descs s) ! length past = tx_addr (c + of_nat (length past))" using n unfolding c(2) by simp
  then have "a = tx_addr (c + of_nat (length past))" using assms(2) by (simp add: nth_append)
  moreover have "tx_addr ?c = tx_addr (c + of_nat (length past))"
    unfolding c(1) n tx_addr_def counter_mod by (simp add: add.assoc [symmetric])
  ultimately have a: "a = tx_addr ?c" by simp
  have e: "r = Inr False" "tx_descs s' = tx_descs s" "length m = UMEM_BYTES"
      "xs_umem s' = Some (put_bytes a (frame_for env pr d (take len (drop off m))) m)"
    using sent_effect [OF rs(1) assms(4-6,8)] m assms(9) a by auto
  let ?f = "frame_for env pr d (take len (drop off m))"
  have lp: "length (take len (drop off m)) = len" using e(3) assms(5) by (simp add: UMEM_BYTES_def)
  have b: "a + length ?f \<le> length m" using lp tx_addr_bound [of ?c] a e(3) assms(6) by (simp add: RX_BASE_def UMEM_BYTES_def)
  have "umem_bytes a (42 + len) s' = Some ?f"
    using put_bytes_read_same [OF b] e(4) b lp by (simp add: umem_bytes_def)
  with e show ?thesis by simp
qed

end
