(* ===== verification/Replicator_Run.thy ===== *)
theory Replicator_Run
  imports Replicator "HOL-Library.Multiset"
begin

text \<open>
  Runs of the packet loop of a queue: no turn leaves the frame memory, no receive frame is ever lost or handed to the kernel twice, and the
  totals of the statistics are the sums over the queues.
\<close>

section \<open>The counters\<close>

definition counters_ok :: "replicator \<Rightarrow> bool" where
  "counters_ok pr \<longleftrightarrow> length (pr_recv_per_queue pr) = MAX_QUEUES \<and> length (pr_sent_per_queue pr) = MAX_QUEUES \<and>
     pr_packets_received pr = sum_list (pr_recv_per_queue pr) \<and> pr_packets_sent pr = sum_list (pr_sent_per_queue pr)"

lemma sum_list_increment: "i < length xs \<Longrightarrow> sum_list (xs[i := xs ! i + d]) = sum_list xs + (d :: u64)"
proof (induction xs arbitrary: i)
  case (Cons x xs)
  then show ?case by (cases i) (simp_all add: ac_simps)
qed simp

text \<open>What a packet of the loop keeps.\<close>

definition turn_keeps :: "nat \<Rightarrow> replicator \<Rightarrow> replicator \<Rightarrow> bool" where
  "turn_keeps q pr pr' \<longleftrightarrow> pr_num_queues pr' = pr_num_queues pr \<and> length (pr_sockets pr') = length (pr_sockets pr) \<and>
     pr_running pr' = pr_running pr \<and> pr_dests pr' = pr_dests pr \<and> pr_fallback pr' = pr_fallback pr \<and>
     (\<forall>k. k \<noteq> q \<longrightarrow> k < length (pr_sockets pr) \<longrightarrow> pr_sockets pr' ! k = pr_sockets pr ! k)"

lemma turn_keeps_trans: "turn_keeps q a b \<Longrightarrow> turn_keeps q b c \<Longrightarrow> turn_keeps q a c"
  by (simp add: turn_keeps_def)

text \<open>A packet in the receive area, inside one frame.\<close>

definition rx_packet :: "int \<times> int \<Rightarrow> bool" where
  "rx_packet p \<longleftrightarrow> int RX_BASE \<le> fst p \<and> 0 \<le> snd p \<and> snd p \<le> 4096 \<and> fst p + snd p \<le> int UMEM_BYTES"

lemma replicate_one:
  assumes "q < pr_num_queues pr" and "q < length (pr_sockets pr)" and "pr_sockets pr ! q = Some s" and "ready s"
    and "rx_packet (off, len)" and "counters_ok pr" and "q < MAX_QUEUES"
  shows "\<exists>n pr' s'. replicatePacket env ios (nat off) (nat len) q (count_packet q (nat len) pr) = Some (n, pr') \<and>
    pr_sockets (count_sends q n pr') ! q = Some s' \<and> ready s' \<and> published s' = published s \<and>
    xs_pending_recycle_addrs s' = xs_pending_recycle_addrs s \<and> counters_ok (count_sends q n pr') \<and> turn_keeps q pr (count_sends q n pr') \<and>
    pr_packets_received (count_sends q n pr') = pr_packets_received pr + 1 \<and>
    pr_bytes_received (count_sends q n pr') = pr_bytes_received pr + of_nat (nat len)"
proof -
  let ?pr1 = "count_packet q (nat len) pr"
  obtain m where m: "xs_umem s = Some m" using assms(4) by (auto simp: ready_def)
  have c: "pr_num_queues ?pr1 = pr_num_queues pr" "pr_sockets ?pr1 = pr_sockets pr" by (simp_all add: count_packet_def)
  have b: "RX_BASE \<le> nat off" "nat off + nat len \<le> UMEM_BYTES" "nat len \<le> 4096" using assms(5) by (auto simp: rx_packet_def)
  obtain n s' t where r: "replicatePacket env ios (nat off) (nat len) q ?pr1 =
      Some (n, ?pr1\<lparr>pr_sockets := (pr_sockets pr)[q := Some s'], pr_packets_sent := pr_packets_sent pr + of_nat n,
        pr_bytes_sent := pr_bytes_sent pr + of_nat (n * t)\<rparr>)"
    and s': "ready s'" "published s' = published s" "xs_pending_recycle_addrs s' = xs_pending_recycle_addrs s"
    using replicatePacket_effect [of q ?pr1 s m "nat off" "nat len" env ios] assms(1-4) m b unfolding c by (auto simp: count_packet_def)
  let ?pr2 = "?pr1\<lparr>pr_sockets := (pr_sockets pr)[q := Some s'], pr_packets_sent := pr_packets_sent pr + of_nat n,
        pr_bytes_sent := pr_bytes_sent pr + of_nat (n * t)\<rparr>"
  have "counters_ok (count_sends q n ?pr2)"
    using assms(6,7) by (auto simp: counters_ok_def count_sends_def count_packet_def sum_list_increment)
  moreover have "turn_keeps q pr (count_sends q n ?pr2)"
    by (simp add: turn_keeps_def count_sends_def count_packet_def)
  moreover have "pr_sockets (count_sends q n ?pr2) ! q = Some s'" using assms(2) by (simp add: count_sends_def)
  ultimately show ?thesis
    using r s' by (intro exI [of _ n] exI [of _ ?pr2] exI [of _ s']) (simp add: count_sends_def count_packet_def)
qed

lemma process_packets_effect:
  assumes "q < pr_num_queues pr" and "q < length (pr_sockets pr)" and "pr_sockets pr ! q = Some s" and "ready s"
    and "\<forall>p \<in> set ps. rx_packet p" and "counters_ok pr" and "q < MAX_QUEUES"
  shows "\<exists>pr' s'. process_packets env ios i ps q pr = Some pr' \<and> pr_sockets pr' ! q = Some s' \<and> ready s' \<and> published s' = published s \<and>
    xs_pending_recycle_addrs s' = xs_pending_recycle_addrs s \<and> counters_ok pr' \<and> turn_keeps q pr pr' \<and>
    pr_packets_received pr' = pr_packets_received pr + of_nat (length ps)"
  using assms
proof (induction ps arbitrary: i pr s)
  case Nil
  then show ?case by (auto simp: turn_keeps_def)
next
  case (Cons p ps)
  obtain off len where p: "p = (off, len)" by (cases p)
  have rp: "rx_packet (off, len)" using Cons.prems(5) p by simp
  obtain n pr1 s1 where 1: "replicatePacket env (ios i) (nat off) (nat len) q (count_packet q (nat len) pr) = Some (n, pr1)"
      "pr_sockets (count_sends q n pr1) ! q = Some s1" "ready s1" "published s1 = published s"
      "xs_pending_recycle_addrs s1 = xs_pending_recycle_addrs s" "counters_ok (count_sends q n pr1)" "turn_keeps q pr (count_sends q n pr1)"
      "pr_packets_received (count_sends q n pr1) = pr_packets_received pr + 1"
    using replicate_one [OF Cons.prems(1-4) rp Cons.prems(6,7), of env "ios i"] by blast
  let ?pr1 = "count_sends q n pr1"
  have k: "pr_num_queues ?pr1 = pr_num_queues pr" "length (pr_sockets ?pr1) = length (pr_sockets pr)"
    using 1(7) by (simp_all add: turn_keeps_def)
  obtain pr' s' where 2: "process_packets env ios (Suc i) ps q ?pr1 = Some pr'" "pr_sockets pr' ! q = Some s'" "ready s'"
      "published s' = published s1" "xs_pending_recycle_addrs s' = xs_pending_recycle_addrs s1" "counters_ok pr'" "turn_keeps q ?pr1 pr'"
      "pr_packets_received pr' = pr_packets_received ?pr1 + of_nat (length ps)"
    using Cons.IH [of ?pr1 s1 "Suc i"] Cons.prems 1 k by auto
  have "process_packets env ios i (p # ps) q pr = Some pr'"
    using 1(1) 2(1) p rp by (simp add: rx_packet_def)
  then show ?case using 1 2 turn_keeps_trans [OF 1(7) 2(7)] by auto
qed

section \<open>One turn\<close>

text \<open>
  What the kernel promises about a batch of the receive ring: at most as many descriptors as asked for, each with a frame of the
  receive area and a packet inside of it.  \<open>xsk_umem__extract_addr\<close> of an extracted address is the address itself.
\<close>

definition frame_no :: "(u64 \<Rightarrow> u64) \<Rightarrow> u64 \<Rightarrow> nat" where
  "frame_no ext a = unat (ext a) div 4096"

definition descs_ok :: "(u64 \<Rightarrow> u64) \<Rightarrow> (u64 \<times> u32) list \<Rightarrow> bool" where
  "descs_ok ext descs \<longleftrightarrow> length descs \<le> 64 \<and>
     (\<forall>(a, l) \<in> set descs. 2048 \<le> frame_no ext a \<and> frame_no ext a < 4096 \<and> unat (ext a) mod 4096 + unat l \<le> 4096)"

lemma desc_rx_packet:
  assumes "2048 \<le> frame_no ext a" and "frame_no ext a < 4096" and "unat (ext a) mod 4096 + unat l \<le> 4096"
  shows "rx_packet (rx_offset ext a, sint (l :: u32))"
proof -
  let ?u = "unat (ext a)"
  have d: "?u = 4096 * (?u div 4096) + ?u mod 4096" by simp
  have u: "RX_BASE \<le> ?u" "?u + unat l \<le> UMEM_BYTES"
    using assms d unfolding frame_no_def RX_BASE_def UMEM_BYTES_def by linarith+
  have "unat (ucast (ext a) :: u32) = ?u" using u(2) by (intro unat_ucast_small) (simp add: UMEM_BYTES_def)
  then have "rx_offset ext a = int ?u"
    unfolding rx_offset_def using u(2) by (subst u32_sint_small) (simp_all add: UMEM_BYTES_def)
  moreover have "sint l = int (unat l)" using assms(3) by (intro u32_sint_small) simp
  ultimately show ?thesis unfolding rx_packet_def fst_conv snd_conv using u assms(3) by linarith
qed

lemma queue_turn_effect:
  assumes "pr_running pr" and "q < pr_num_queues pr" and "q < length (pr_sockets pr)" and "pr_sockets pr ! q = Some s" and "ready s"
    and "xs_pending_recycle_addrs s = []" and "descs_ok ext (ri_descs io)" and "counters_ok pr" and "q < MAX_QUEUES"
  shows "\<exists>pr' s'. queue_turn ext env io q pr = Some pr' \<and> pr_sockets pr' ! q = Some s' \<and> ready s' \<and> xs_pending_recycle_addrs s' = [] \<and>
    published s' = published s @ map ext (take (fst (ri_reserve io)) (map fst (ri_descs io))) \<and> counters_ok pr' \<and> turn_keeps q pr pr' \<and>
    pr_packets_received pr' = pr_packets_received pr + of_nat (length (ri_descs io))"
proof -
  let ?descs = "ri_descs io"
  have o: "\<not> xs_closed s" using assms(5) by (simp add: ready_def)
  have l: "length ?descs \<le> 64" using assms(7) by (simp add: descs_ok_def)
  let ?s1 = "snd (xsk_receive ext ?descs (ri_wakeup io) (replicate 64 0) (replicate 64 0) s)"
  note e1 = xsk_receive_effect [OF o, of ext ?descs "ri_wakeup io" "replicate 64 0" "replicate 64 0"]
  have r1: "ready ?s1" using e1(3,4) assms(5) by (simp add: ready_def)
  have keeps: "turn_keeps q pr (set_socket q t pr)" for t by (simp add: turn_keeps_def set_socket_def)
  have counters: "counters_ok (set_socket q t pr)" "pr_packets_received (set_socket q t pr) = pr_packets_received pr" for t
    using assms(8) by (simp_all add: counters_ok_def set_socket_def)
  have sock: "pr_sockets (set_socket q t p) ! q = Some t" if "q < length (pr_sockets p)" for t p using that by (simp add: set_socket_def)
  show ?thesis
  proof (cases "?descs = []")
    case True
    then have "queue_turn ext env io q pr = Some (set_socket q ?s1 pr)"
      using assms(1,3,4) o by (simp add: queue_turn_def xsk_receive_def when_open_def)
    with True e1 assms r1 show ?thesis
      by (intro exI [of _ "set_socket q ?s1 pr"] exI [of _ ?s1]) (simp add: counters keeps sock)
  next
    case False
    let ?ps = "map (\<lambda>d. (rx_offset ext (fst d), sint (snd d))) ?descs"
    have rx: "fst (xsk_receive ext ?descs (ri_wakeup io) (replicate 64 0) (replicate 64 0) s) =
        Inr (length ?descs, map (\<lambda>d. rx_offset ext (fst d)) ?descs @ drop (length ?descs) (replicate 64 0),
          map (\<lambda>d. sint (snd d)) ?descs @ drop (length ?descs) (replicate 64 0))"
      using False o l by (simp add: xsk_receive_def when_open_def Let_def min_def)
    have ok: "\<forall>p \<in> set ?ps. rx_packet p"
      using assms(7) desc_rx_packet by (fastforce simp: descs_ok_def)
    let ?pr0 = "set_socket q ?s1 pr"
    have p0: "q < pr_num_queues ?pr0" "q < length (pr_sockets ?pr0)" using assms(2,3) by (simp_all add: set_socket_def)
    obtain pr1 s2 where 1: "process_packets env (ri_send io) 0 ?ps q ?pr0 = Some pr1" "pr_sockets pr1 ! q = Some s2" "ready s2"
        "published s2 = published ?s1" "xs_pending_recycle_addrs s2 = xs_pending_recycle_addrs ?s1" "counters_ok pr1" "turn_keeps q ?pr0 pr1"
        "pr_packets_received pr1 = pr_packets_received pr + of_nat (length ?descs)"
      using process_packets_effect [OF p0 sock [OF assms(3)] r1 ok counters(1) assms(9), of env "ri_send io" 0] counters(2) by auto
    let ?s3 = "snd (recycleFrames ext (ri_reserve io) (ri_fq_wakeup io) s2)"
    have o2: "\<not> xs_closed s2" using 1(3) by (simp add: ready_def)
    note e2 = recycleFrames_effect [OF o2, of ext "ri_reserve io" "ri_fq_wakeup io"]
    have z: "zip (take (length ?descs) (map (\<lambda>d. rx_offset ext (fst d)) ?descs @ x)) (take (length ?descs) (map (\<lambda>d. sint (snd d)) ?descs @ y)) = ?ps" for x y
      by (simp add: zip_map_map zip_same_conv_map)
    have t: "queue_turn ext env io q pr = Some (set_socket q ?s3 pr1)"
      using assms(1,3,4) rx False 1(1,2) z by (cases "xsk_receive ext ?descs (ri_wakeup io) (replicate 64 0) (replicate 64 0) s") (simp add: queue_turn_def)
    have lq: "q < length (pr_sockets pr1)" using 1(7) p0 by (simp add: turn_keeps_def)
    have k: "turn_keeps q pr (set_socket q ?s3 pr1)"
      using turn_keeps_trans [OF keeps [of ?s1] 1(7)] by (simp add: turn_keeps_def set_socket_def)
    show ?thesis
      using t e1 e2 1 False k lq
      by (intro exI [of _ "set_socket q ?s3 pr1"] exI [of _ ?s3]) (simp add: sock ready_def counters_ok_def set_socket_def)
  qed
qed

section \<open>Runs of a queue\<close>

fun queue_turns :: "(u64 \<Rightarrow> u64) \<Rightarrow> net_env \<Rightarrow> nat \<Rightarrow> rx_io list \<Rightarrow> replicator \<Rightarrow> replicator option" where
  "queue_turns ext env q [] pr = Some pr"
| "queue_turns ext env q (io # ios) pr = do { pr' \<leftarrow> queue_turn ext env io q pr; queue_turns ext env q ios pr' }"

definition delivered_addrs :: "rx_io list \<Rightarrow> u64 list" where
  "delivered_addrs ios = concat (map (\<lambda>io. map fst (ri_descs io)) ios)"

text \<open>
  What libxdp and the kernel promise during a run: a batch has at most 64 descriptors, a packet stays inside its frame, the kernel only delivers frames that
  it was given and has not delivered since, and a reservation in the fill ring of 4096 entries is granted when
  the entries the kernel may still have to take leave room for it.
\<close>

fun kernel_honest :: "(u64 \<Rightarrow> u64) \<Rightarrow> net_env \<Rightarrow> nat \<Rightarrow> rx_io list \<Rightarrow> u64 list \<Rightarrow> replicator \<Rightarrow> bool" where
  "kernel_honest ext env q [] delivered pr \<longleftrightarrow> True"
| "kernel_honest ext env q (io # ios) delivered pr \<longleftrightarrow>
     (case pr_sockets pr ! q of
        None \<Rightarrow> False
      | Some s \<Rightarrow>
          (let now = map fst (ri_descs io)
           in length now \<le> 64 \<and> (\<forall>(a, l) \<in> set (ri_descs io). unat (ext a) mod 4096 + unat l \<le> 4096) \<and>
              mset (map (frame_no ext) (delivered @ now)) \<subseteq># mset (map (frame_no ext) (published s)) \<and>
              (length (published s) - length (delivered @ now) + length now \<le> 4096 \<longrightarrow> fst (ri_reserve io) = length now) \<and>
              (case queue_turn ext env io q pr of None \<Rightarrow> True | Some pr' \<Rightarrow> kernel_honest ext env q ios (delivered @ now) pr')))"

text \<open>The numbers of the receive frames.\<close>

definition rx_frame_nos :: "nat list" where
  "rx_frame_nos = map (\<lambda>i. 2048 + i) [0..<2048]"

lemma rx_frame_nos_facts: "length rx_frame_nos = 2048" "set rx_frame_nos = {2048..<4096}"
proof -
  show "length rx_frame_nos = 2048" by (simp add: rx_frame_nos_def)
  have "(\<lambda>i. 2048 + i) ` {0..<2048} = {2048..<4096 :: nat}"
    by (subst image_add_atLeastLessThan) simp
  then show "set rx_frame_nos = {2048..<4096}" by (simp only: rx_frame_nos_def set_map set_upt)
qed

definition extract_masks :: "(u64 \<Rightarrow> u64) \<Rightarrow> bool" where
  "extract_masks ext \<longleftrightarrow> (\<forall>a. unat (ext a) < 2 ^ 48) \<and> (\<forall>a. unat a < 2 ^ 48 \<longrightarrow> ext a = a)"

lemma frame_no_extract: "extract_masks ext \<Longrightarrow> frame_no ext (ext a) = frame_no ext a"
  by (simp add: extract_masks_def frame_no_def)

lemma frame_no_rx_frames: "extract_masks ext \<Longrightarrow> map (frame_no ext) rx_frames = rx_frame_nos"
proof -
  assume e: "extract_masks ext"
  have "frame_no ext (of_nat ((2048 + i) * 4096)) = 2048 + i" if "i < 2048" for i
  proof -
    have u: "unat (of_nat ((2048 + i) * 4096) :: u64) = (2048 + i) * 4096" using that by (intro unat_of_nat_small) simp
    moreover have "(2048 + i) * 4096 < 2 ^ 48" using that by simp
    ultimately have "ext (of_nat ((2048 + i) * 4096)) = of_nat ((2048 + i) * 4096)" using e unfolding extract_masks_def by metis
    with u show ?thesis by (simp add: frame_no_def)
  qed
  then show ?thesis
    unfolding rx_frames_def rx_frame_nos_def map_map comp_def by (intro map_cong [OF refl]) (simp only: set_upt atLeastLessThan_iff)
qed

lemma queue_turns_conserve:
  assumes "extract_masks ext" and "pr_running pr" and "q < pr_num_queues pr" and "q < length (pr_sockets pr)" and "pr_sockets pr ! q = Some s"
    and "ready s" and "xs_pending_recycle_addrs s = []" and "counters_ok pr" and "q < MAX_QUEUES"
    and "mset (map (frame_no ext) (published s)) = mset rx_frame_nos + mset (map (frame_no ext) delivered)"
    and "kernel_honest ext env q ios delivered pr"
  shows "\<exists>pr' s'. queue_turns ext env q ios pr = Some pr' \<and> pr_sockets pr' ! q = Some s' \<and> ready s' \<and>
    mset (map (frame_no ext) (published s')) = mset rx_frame_nos + mset (map (frame_no ext) (delivered @ delivered_addrs ios)) \<and>
    counters_ok pr' \<and> pr_packets_received pr' = pr_packets_received pr + of_nat (length (delivered_addrs ios)) \<and> turn_keeps q pr pr'"
  using assms
proof (induction ios arbitrary: pr s delivered)
  case Nil
  then show ?case by (auto simp: delivered_addrs_def turn_keeps_def)
next
  case (Cons io ios)
  let ?fr = "frame_no ext" and ?now = "map fst (ri_descs io)"
  note honest = Cons.prems(11) [unfolded kernel_honest.simps Cons.prems(5) option.case Let_def]
  from honest have h: "length ?now \<le> 64" "\<forall>(a, l) \<in> set (ri_descs io). unat (ext a) mod 4096 + unat l \<le> 4096"
      "mset (map ?fr (delivered @ ?now)) \<subseteq># mset (map ?fr (published s))"
      "length (published s) - length (delivered @ ?now) + length ?now \<le> 4096 \<longrightarrow> fst (ri_reserve io) = length ?now"
    and rest: "case queue_turn ext env io q pr of None \<Rightarrow> True | Some pr' \<Rightarrow> kernel_honest ext env q ios (delivered @ ?now) pr'"
    by blast+
  have sub: "mset (map ?fr ?now) \<subseteq># mset rx_frame_nos" using h(3) Cons.prems(10) by simp
  have lp: "length (published s) = 2048 + length delivered"
    using arg_cong [OF Cons.prems(10), of size] by (simp add: rx_frame_nos_facts)
  have "size (mset (map ?fr ?now)) \<le> size (mset rx_frame_nos)" using sub by (rule size_mset_mono)
  then have "fst (ri_reserve io) = length ?now" using h(4) lp by (simp add: rx_frame_nos_facts)
  then have full: "take (fst (ri_reserve io)) ?now = ?now" by simp
  have in_rx: "?fr a \<in> {2048..<4096}" if "(a, l) \<in> set (ri_descs io)" for a l
  proof -
    have "?fr a \<in># mset (map ?fr ?now)" using that by force
    then have "?fr a \<in># mset rx_frame_nos" using sub by (meson mset_subset_eqD)
    then show ?thesis by (simp add: rx_frame_nos_facts)
  qed
  then have ok: "descs_ok ext (ri_descs io)" using h(1,2) unfolding descs_ok_def by fastforce
  obtain pr1 s1 where 1: "queue_turn ext env io q pr = Some pr1" "pr_sockets pr1 ! q = Some s1" "ready s1" "xs_pending_recycle_addrs s1 = []"
      "published s1 = published s @ map ext ?now" "counters_ok pr1" "turn_keeps q pr pr1"
      "pr_packets_received pr1 = pr_packets_received pr + of_nat (length (ri_descs io))"
    using queue_turn_effect [OF Cons.prems(2-7) ok Cons.prems(8,9), of env] unfolding full by blast
  have "map ?fr (map ext ?now) = map ?fr ?now" using frame_no_extract [OF Cons.prems(1)] by simp
  then have m1: "mset (map ?fr (published s1)) = mset rx_frame_nos + mset (map ?fr (delivered @ ?now))"
    using Cons.prems(10) 1(5) by (simp del: map_map)
  have k: "pr_running pr1" "q < pr_num_queues pr1" "q < length (pr_sockets pr1)" using 1(7) Cons.prems by (simp_all add: turn_keeps_def)
  obtain pr' s' where 2: "queue_turns ext env q ios pr1 = Some pr'" "pr_sockets pr' ! q = Some s'" "ready s'"
      "mset (map ?fr (published s')) = mset rx_frame_nos + mset (map ?fr ((delivered @ ?now) @ delivered_addrs ios))" "counters_ok pr'"
      "pr_packets_received pr' = pr_packets_received pr1 + of_nat (length (delivered_addrs ios))" "turn_keeps q pr1 pr'"
    using Cons.IH [OF Cons.prems(1) k 1(2,3,4,6) Cons.prems(9) m1 rest [unfolded 1(1) option.case]] by blast
  have d: "delivered_addrs (io # ios) = ?now @ delivered_addrs ios" by (simp add: delivered_addrs_def)
  show ?case
    using 1(1,8) 2 turn_keeps_trans [OF 1(7) 2(7)] unfolding d by (auto simp: algebra_simps)
qed

section \<open>Properties\<close>

text \<open>
  C8. Receive frames.  Starting from a bound socket, whose fill ring got the 2048 frames of the receive area, and with a kernel and rings that keep their
  promises, every run of the packet loop of a queue stays inside the frame memory, and every receive frame has been given
  to the kernel exactly once more than it was delivered: no frame is lost, none is given twice, and no transmit frame is ever in
  the fill ring.  Other queues' sockets and the destinations are unchanged.
\<close>

theorem rx_frames_conserved:
  assumes "extract_masks ext" and "pr_running pr" and "q < pr_num_queues pr" and "q < length (pr_sockets pr)" and "pr_sockets pr ! q = Some s"
    and "ready s" and "xs_pending_recycle_addrs s = []" and "counters_ok pr" and "q < MAX_QUEUES" and "published s = rx_frames"
    and "kernel_honest ext env q ios [] pr"
  shows "\<exists>pr' s'. queue_turns ext env q ios pr = Some pr' \<and> pr_sockets pr' ! q = Some s' \<and> pr_dests pr' = pr_dests pr \<and>
    mset (map (frame_no ext) (published s')) = mset rx_frame_nos + mset (map (frame_no ext) (delivered_addrs ios)) \<and>
    (\<forall>k. k \<noteq> q \<longrightarrow> k < length (pr_sockets pr) \<longrightarrow> pr_sockets pr' ! k = pr_sockets pr ! k)"
proof -
  have "mset (map (frame_no ext) (published s)) = mset rx_frame_nos + mset (map (frame_no ext) [])"
    unfolding assms(10) frame_no_rx_frames [OF assms(1)] by simp
  from queue_turns_conserve [OF assms(1-9) this assms(11)] show ?thesis by (fastforce simp: turn_keeps_def)
qed

text \<open>A replicator with one bound socket in queue 0, for the concrete runs.\<close>

definition demo_socket :: xsk_socket where
  "demo_socket = \<lparr>xs_closed = False, xs_chunk_size = 4096, xs_headroom = 0, xs_umem = Some (replicate UMEM_BYTES 0),
     xs_prev_umem_tx_frame = 0, xs_cached_completions = 0, xs_outstanding_tx = 0, xs_pending_recycle_addrs = [],
     xw_umem = True, xw_xsk = True, xw_umem_size = 16777216, xw_chunk_size = 4096, xw_xsk_map_fd = 5, xw_ifindex = 2,
     xw_outstanding_tx = 0, xs_calls = map (Fq_addr 0) rx_frames\<rparr>"

definition demo_replicator :: replicator where
  "demo_replicator = (PacketReplicator ''eth0'' ''10.0.0.71'' 9000)\<lparr>pr_sockets := [Some demo_socket], pr_running := True\<rparr>"

definition demo_send :: send_io where
  "demo_send = \<lparr>si_completions = 0, si_reserve = (1, 0), si_wakeup = True, si_sendto = 0\<rparr>"

definition demo_rx :: rx_io where
  "demo_rx = \<lparr>ri_descs = [(8388864, 60)], ri_wakeup = False, ri_send = (\<lambda>_ _. demo_send), ri_reserve = (1, 0), ri_fq_wakeup = False\<rparr>"

lemma demo_socket_facts: "ready demo_socket" "published demo_socket = rx_frames" "xs_pending_recycle_addrs demo_socket = []" "tx_descs demo_socket = []"
proof -
  show "ready demo_socket" "xs_pending_recycle_addrs demo_socket = []" by (simp_all add: ready_def demo_socket_def)
  have "concat (map fill_addr (map (Fq_addr 0) xs)) = xs" "concat (map tx_desc_of (map (Fq_addr 0) xs)) = []" for xs by (induction xs) simp_all
  then show "published demo_socket = rx_frames" "tx_descs demo_socket = []" by (simp_all add: published_def tx_descs_def demo_socket_def)
qed

lemma demo_counters: "counters_ok demo_replicator"
  by (simp add: demo_replicator_def counters_ok_def PacketReplicator_def MAX_QUEUES_def sum_list_replicate)

lemma mask_extracts: "extract_masks (\<lambda>a. take_bit 48 a)"
proof -
  have "unat (take_bit 48 a) < 2 ^ 48" for a :: u64
    unfolding unsigned_take_bit_eq by (rule take_bit_nat_less_exp)
  moreover have "take_bit 48 a = a" if "unat a < 2 ^ 48" for a :: u64
    using that by (simp add: word_unat_eq_iff unsigned_take_bit_eq take_bit_nat_eq_self)
  ultimately show ?thesis by (auto simp: extract_masks_def)
qed

theorem rx_frames_conserved_witness:
  "\<exists>pr' s'. queue_turns (take_bit 48) \<lparr>ne_ifaddr = \<lambda>_. None, ne_hwaddr = \<lambda>_. None, ne_arp = None\<rparr> 0 [demo_rx] demo_replicator = Some pr' \<and>
     pr_sockets pr' ! 0 = Some s' \<and> mset (map (frame_no (take_bit 48)) (published s')) = mset rx_frame_nos + {#2048#}"
proof -
  have d: "pr_sockets demo_replicator ! 0 = Some demo_socket" "pr_running demo_replicator" "pr_num_queues demo_replicator = 4" "length (pr_sockets demo_replicator) = 1"
    by (simp_all add: demo_replicator_def PacketReplicator_def)
  have f: "frame_no (take_bit 48) 8388864 = 2048" by (simp add: frame_no_def take_bit_word_eq_self)
  have p: "map (frame_no (take_bit 48)) (published demo_socket) = rx_frame_nos"
    unfolding demo_socket_facts(2) using mask_extracts by (rule frame_no_rx_frames)
  have sub: "mset [2048] \<subseteq># mset rx_frame_nos" by (simp add: mset_subset_eq_single rx_frame_nos_facts)
  have "kernel_honest (take_bit 48) \<lparr>ne_ifaddr = \<lambda>_. None, ne_hwaddr = \<lambda>_. None, ne_arp = None\<rparr> 0 [demo_rx] [] demo_replicator"
    using sub by (simp add: d p f demo_rx_def take_bit_word_eq_self split: option.splits)
  moreover have "map (frame_no (take_bit 48)) (delivered_addrs [demo_rx]) = [2048]" by (simp add: delivered_addrs_def demo_rx_def f)
  ultimately show ?thesis
    using rx_frames_conserved [OF mask_extracts d(2) _ _ d(1) demo_socket_facts(1,3) demo_counters _ demo_socket_facts(2),
        of "\<lparr>ne_ifaddr = \<lambda>_. None, ne_hwaddr = \<lambda>_. None, ne_arp = None\<rparr>" "[demo_rx]"] d(3,4)
    by (auto simp: MAX_QUEUES_def)
qed

text \<open>The first of two packets sent one after the other is unchanged by the second.\<close>

definition demo_env :: net_env where
  "demo_env = \<lparr>ne_ifaddr = \<lambda>_. Some 0x0A000047, ne_hwaddr = \<lambda>_. None, ne_arp = None\<rparr>"

definition demo_dest :: Destination where
  "demo_dest = \<lparr>ip_address = ''10.0.0.34'', port = 9001, sin_addr = 0x0A000022\<rparr>"


text \<open>A received frame with the payload 1, 2, 3 and one destination.\<close>

definition demo_frame :: "u8 list" where
  "demo_frame = built_frame (replicate 12 2) 1 0x0A000022 0x0A000047 5000 9000 [1, 2, 3]"

definition demo_memory :: "u8 list" where
  "demo_memory = replicate RX_BASE 0 @ demo_frame @ replicate (RX_BASE - 45) 0"

lemma demo_memory_facts: "length demo_memory = UMEM_BYTES" "take 45 (drop RX_BASE demo_memory) = demo_frame" "udp_payload demo_frame = Some [1, 2, 3]"
proof -
  have "length demo_frame = 45" by (simp add: demo_frame_def length_built_frame)
  then show "length demo_memory = UMEM_BYTES" "take 45 (drop RX_BASE demo_memory) = demo_frame"
    by (simp_all add: demo_memory_def RX_BASE_def UMEM_BYTES_def)
  show "udp_payload demo_frame = Some [1, 2, 3]"
    using built_frame_payload(2) [of "replicate 12 2" "[1, 2, 3]" _ _ _ _ _ "[]"] by (simp add: demo_frame_def)
qed

theorem replication_correct_witness:
  "\<exists>pr' s'. replicatePacket demo_env (\<lambda>_. demo_send) RX_BASE 45 0
       (demo_replicator\<lparr>pr_sockets := [Some (demo_socket\<lparr>xs_umem := Some demo_memory\<rparr>)], pr_dests := [demo_dest]\<rparr>) = Some (1, pr') \<and>
     pr_sockets pr' ! 0 = Some s' \<and>
     (\<exists>a l f. drop (length (tx_descs demo_socket)) (tx_descs s') = [(a, l)] \<and> umem_bytes a l s' = Some f \<and>
        udp_destination f = Some (0x0A000022, 9001) \<and> udp_payload f = Some [1, 2, 3])"
proof -
  let ?s = "demo_socket\<lparr>xs_umem := Some demo_memory\<rparr>"
  let ?pr = "demo_replicator\<lparr>pr_sockets := [Some ?s], pr_dests := [demo_dest]\<rparr>"
  have "ready ?s" by (simp add: ready_def demo_memory_facts demo_socket_def)
  moreover have "RX_BASE + 45 \<le> UMEM_BYTES" by (simp add: RX_BASE_def UMEM_BYTES_def)
  ultimately show ?thesis
    using replication_correct [of 0 ?pr ?s demo_memory RX_BASE 45 "[1, 2, 3]" demo_env "\<lambda>_. demo_send"]
    by (auto simp: demo_replicator_def PacketReplicator_def demo_memory_facts demo_send_def demo_dest_def demo_socket_facts tx_descs_simps list_all2_Cons2)
qed

section \<open>Packet threads and control thread together\<close>

text \<open>A run of the program: turns of the packet loops and of the control thread in any order, whatever rings, sockets and system answer.\<close>

datatype rep_event = Packet_turn net_env nat rx_io | Control_turn ctl_result

fun rep_step :: "(u64 \<Rightarrow> u64) \<Rightarrow> rep_event \<Rightarrow> replicator \<Rightarrow> replicator option" where
  "rep_step ext (Packet_turn env q io) pr = queue_turn ext env io q pr"
| "rep_step ext (Control_turn r) pr = Some (snd (control_turn r pr))"

fun rep_run :: "(u64 \<Rightarrow> u64) \<Rightarrow> rep_event list \<Rightarrow> replicator \<Rightarrow> replicator option" where
  "rep_run ext [] pr = Some pr"
| "rep_run ext (e # es) pr = do { pr' \<leftarrow> rep_step ext e pr; rep_run ext es pr' }"

definition same_counts :: "replicator \<Rightarrow> replicator \<Rightarrow> bool" where
  "same_counts pr pr' \<longleftrightarrow> pr_recv_per_queue pr' = pr_recv_per_queue pr \<and> pr_sent_per_queue pr' = pr_sent_per_queue pr \<and>
     pr_packets_received pr' = pr_packets_received pr \<and> pr_dests pr' = pr_dests pr"

lemma with_queue_counts:
  "sendToDestinationWithQueue env io d off len q pr = Some (ok, pr') \<Longrightarrow> same_counts pr pr' \<and> pr_packets_sent pr' = pr_packets_sent pr"
  by (auto simp: sendToDestinationWithQueue_def sendToDestinationFallback_def set_socket_def same_counts_def Let_def
      split: if_splits option.splits sum.splits Option.bind_splits)

lemma send_to_all_counts:
  "send_to_all env ios k ds off len q (n, pr) = Some (n', pr') \<Longrightarrow>
    same_counts pr pr' \<and> n \<le> n' \<and> pr_packets_sent pr' = pr_packets_sent pr + of_nat (n' - n)"
proof (induction ds arbitrary: k n pr)
  case Nil
  then show ?case by (simp add: same_counts_def)
next
  case (Cons d ds)
  obtain ok pr1 where 1: "sendToDestinationWithQueue env (ios k) d off len q pr = Some (ok, pr1)"
    using Cons.prems by (auto split: Option.bind_splits)
  let ?pr2 = "if ok then pr1\<lparr>pr_packets_sent := pr_packets_sent pr1 + 1, pr_bytes_sent := pr_bytes_sent pr1 + of_nat len\<rparr> else pr1"
  have "send_to_all env ios (Suc k) ds off len q (if ok then n + 1 else n, ?pr2) = Some (n', pr')"
    using Cons.prems 1 by (cases ok) simp_all
  from Cons.IH [OF this] with_queue_counts [OF 1] show ?case
    by (cases ok) (auto simp: same_counts_def of_nat_diff Suc_le_eq)
qed

lemma replicatePacket_counts:
  "replicatePacket env ios off len q pr = Some (n, pr') \<Longrightarrow> same_counts pr pr' \<and> pr_packets_sent pr' = pr_packets_sent pr + of_nat n"
  using send_to_all_counts [of env ios 0 "pr_dests pr" _ _ q 0 pr n pr']
  by (auto simp: replicatePacket_def Let_def same_counts_def split: option.splits if_splits Option.bind_splits)

lemma process_packets_counters:
  "process_packets env ios i ps q pr = Some pr' \<Longrightarrow> counters_ok pr \<Longrightarrow> q < MAX_QUEUES \<Longrightarrow> counters_ok pr' \<and> pr_dests pr' = pr_dests pr"
proof (induction ps arbitrary: i pr)
  case (Cons p ps)
  obtain off len where p: "p = (off, len)" by (cases p)
  obtain n pr1 where 1: "replicatePacket env (ios i) (nat off) (nat len) q (count_packet q (nat len) pr) = Some (n, pr1)"
      "process_packets env ios (Suc i) ps q (count_sends q n pr1) = Some pr'"
    using Cons.prems(1) p by (auto split: if_splits Option.bind_splits)
  have "counters_ok (count_sends q n pr1)"
    using replicatePacket_counts [OF 1(1)] Cons.prems(2,3)
    by (auto simp: same_counts_def counters_ok_def count_packet_def count_sends_def sum_list_increment)
  with Cons.IH [OF 1(2)] replicatePacket_counts [OF 1(1)] Cons.prems(3) show ?case
    by (simp add: same_counts_def count_packet_def count_sends_def)
qed simp

lemma queue_turn_counters:
  assumes "queue_turn ext env io q pr = Some pr'" and "counters_ok pr" and "q < MAX_QUEUES"
  shows "counters_ok pr' \<and> pr_dests pr' = pr_dests pr"
proof -
  have c: "counters_ok (set_socket q t p) = counters_ok p" "pr_dests (set_socket q t p) = pr_dests p" for t p
    by (simp_all add: counters_ok_def set_socket_def)
  show ?thesis
    using assms process_packets_counters [of env "ri_send io" 0 _ q _ _]
    by (auto simp: queue_turn_def c split: if_splits option.splits sum.splits prod.splits Option.bind_splits)
qed

lemma control_turn_counters: "counters_ok pr \<Longrightarrow> counters_ok (snd (control_turn r pr))"
  by (auto simp: control_turn_def processControlMessage_def addDestination_def removeDestination_def counters_ok_def Let_def
      split: ctl_result.splits prod.splits)

lemma control_turn_dests: "dests_ok (pr_dests pr) \<Longrightarrow> dests_ok (pr_dests (snd (control_turn r pr)))"
proof -
  assume ok: "dests_ok (pr_dests pr)"
  have "dests_ok (pr_dests (snd (processControlMessage message pr)))" for message
    using dests_ok_add [OF ok] dests_ok_remove [OF ok]
    by (auto simp: processControlMessage_def addDestination_def removeDestination_def Let_def ok split: prod.splits)
      (metis snd_conv)+
  then show ?thesis using ok by (auto simp: control_turn_def Let_def split: ctl_result.splits prod.splits) (metis snd_conv)
qed

text \<open>
  C24. The state of the replicator.  After every run of packet threads and control thread, whatever the kernel, the rings and the clients do, the totals of received and of
  sent packets are the sums over the queues, and the destinations are ascending, without duplicates, each with the number
  of its address.
\<close>

theorem replicator_invariant:
  assumes "rep_run ext es pr = Some pr'" and "counters_ok pr" and "dests_ok (pr_dests pr)"
    and "\<And>env q io. Packet_turn env q io \<in> set es \<Longrightarrow> q < MAX_QUEUES"
  shows "counters_ok pr' \<and> dests_ok (pr_dests pr')"
  using assms
proof (induction es arbitrary: pr)
  case (Cons e es)
  obtain pr1 where 1: "rep_step ext e pr = Some pr1" "rep_run ext es pr1 = Some pr'"
    using Cons.prems(1) by (auto split: Option.bind_splits)
  have "counters_ok pr1 \<and> dests_ok (pr_dests pr1)"
  proof (cases e)
    case (Packet_turn env q io)
    then have "q < MAX_QUEUES" by (simp add: Cons.prems(4) [of env q io])
    with Packet_turn 1(1) Cons.prems(2,3) show ?thesis by (simp add: queue_turn_counters)
  next
    case (Control_turn r)
    with 1(1) Cons.prems show ?thesis by (auto simp: control_turn_counters control_turn_dests)
  qed
  with Cons.IH [OF 1(2)] Cons.prems(4) show ?case by auto
qed simp

lemma demo_dests: "dests_ok (pr_dests demo_replicator)"
  by (simp add: demo_replicator_def PacketReplicator_def dests_ok_def)

theorem replicator_invariant_witness:
  "\<exists>pr'. rep_run (take_bit 48) [Control_turn (Ctl_message [1, 10, 0, 0, 34, 35, 41]), Control_turn (Ctl_message [3])] demo_replicator = Some pr' \<and>
     counters_ok pr' \<and> dests_ok (pr_dests pr')"
proof -
  let ?es = "[Control_turn (Ctl_message [1, 10, 0, 0, 34, 35, 41]), Control_turn (Ctl_message [3])]"
  obtain pr' where "rep_run (take_bit 48) ?es demo_replicator = Some pr'" by simp
  moreover from this have "counters_ok pr' \<and> dests_ok (pr_dests pr')"
    by (rule replicator_invariant) (simp_all add: demo_counters demo_dests)
  ultimately show ?thesis by blast
qed

end
