(* ===== verification/Replicator_Setup.thy ===== *)
theory Replicator_Setup
  imports Replicator_Run Xdp_Filter
begin

text \<open>
  Set-up, start, stop and end of the packet replicator, and the program around it (\<open>PacketReplicator.cpp\<close>, \<open>PacketReplicatorMain.cpp\<close>); the pool of
  buffers and the cache of destinations, which the class has and its packet loop does not use.  What the kernel and libxdp answer during
  set-up is a record of arguments.  The theorems show that a successful set-up establishes what the runs of the packet loop rely on,
  and what the end of the program leaves behind.
\<close>

section \<open>State\<close>

text \<open>
  The object with its threads (queue and core of each packet thread) and descriptors, the XDP program of the process, the entry of the filter's configuration map and the
  descriptors that have been closed.
\<close>

record rep_process =
  rp_core :: replicator
  rp_control_socket :: int
  rp_output_socket :: int
  rp_output_xdp :: "xsk_socket option"
  rp_threads :: "(nat \<times> nat option) list"
  rp_control_thread :: bool
  rp_cpu_cores :: "nat list"
  rp_xdp :: xdp_globals
  rp_config :: "unicast_config option"
  rp_closed :: "int list"

definition new_process :: "string \<Rightarrow> string \<Rightarrow> u16 \<Rightarrow> nat \<Rightarrow> xdp_globals \<Rightarrow> rep_process" where
  "new_process interface listen_ip listen_port num_cores g =
     (let core = PacketReplicator interface listen_ip listen_port
      in \<lparr>rp_core = core, rp_control_socket = - 1, rp_output_socket = - 1, rp_output_xdp = None, rp_threads = [], rp_control_thread = False,
          rp_cpu_cores = initializeCpuCores (pr_num_queues core) num_cores, rp_xdp = g, rp_config = None, rp_closed = []\<rparr>)"

section \<open>Set-up\<close>

record queue_io =
  qi_mmap :: "u64 \<Rightarrow> bool"
  qi_aligned :: bool
  qi_umem :: bool
  qi_created :: bool
  qi_fq :: "nat \<times> u32"
  qi_fd :: int
  qi_updated :: bool

text \<open>
  \<open>su_map_name fd\<close> is the name that the information about descriptor \<open>fd\<close> holds, if there is any.
\<close>

record setup_io =
  su_limits :: bool
  su_program :: "bool \<times> bool \<times> bool"
  su_map_name :: "int \<Rightarrow> string option"
  su_config_updated :: bool
  su_page_size :: int
  su_ifindex :: "string \<Rightarrow> int"
  su_bpf_obj :: bool
  su_xsks_map :: "int option"
  su_queue :: "nat \<Rightarrow> queue_io"
  su_control_fd :: int
  su_reuse :: bool
  su_bound :: bool
  su_output_fd :: int

definition find_config_map :: "(int \<Rightarrow> string option) \<Rightarrow> int option" where
  "find_config_map map_name =
     find (\<lambda>fd. case map_name fd of None \<Rightarrow> False | Some name \<Rightarrow> strstr name ''config_map'') (map int [3..<1024])"

definition configureXdpProgram :: "setup_io \<Rightarrow> rep_process \<Rightarrow> unit outcome \<times> rep_process" where
  "configureXdpProgram io rp =
     (case find_config_map (su_map_name io) of
        None \<Rightarrow> (Inr (), rp)
      | Some fd \<Rightarrow>
          (case parseIpAddress (pr_listen_ip (rp_core rp)) of
             Inl e \<Rightarrow> (Inl e, rp)
           | Inr a \<Rightarrow>
               (Inr (), if su_config_updated io
                        then rp\<lparr>rp_config := Some \<lparr>uc_target_ip = a, uc_target_port = pr_listen_port (rp_core rp)\<rparr>\<rparr> else rp)))"

text \<open>
  One queue: the socket that its slot holds at the end, \<open>None\<close> when the constructor throws, and the result.
\<close>

definition init_queue :: "setup_io \<Rightarrow> bool \<Rightarrow> string \<Rightarrow> int \<Rightarrow> nat \<Rightarrow> unit outcome \<times> xsk_socket option" where
  "init_queue io prog_loaded ifname flags q =
     (let qio = su_queue io q
      in case AFXDPSocket (su_page_size io) (qi_mmap qio) 4096 DEFAULT_UMEM_FRAMES 0 of
           Inl e \<Rightarrow> (Inl e, None)
         | Inr s0 \<Rightarrow>
             (case setupUMem (qi_aligned qio) (qi_umem qio) s0 of
                (Inl e, s1) \<Rightarrow> (Inl e, Some s1)
              | (Inr _, s1) \<Rightarrow>
                  (case bind_socket ifname (int q) flags (su_ifindex io) (qi_created qio) (qi_fq qio) s1 of
                     (Inl e, s2) \<Rightarrow> (Inl e, Some s2)
                   | (Inr _, s2) \<Rightarrow>
                       (case registerXskMap prog_loaded (su_bpf_obj io) (su_xsks_map io) (qi_fd qio) (qi_updated qio) (int q) s2 of
                          (r, s3) \<Rightarrow> (r, Some s3)))))"

fun init_queues :: "setup_io \<Rightarrow> bool \<Rightarrow> string \<Rightarrow> int \<Rightarrow> nat list \<Rightarrow> xsk_socket option list \<Rightarrow> unit outcome \<times> xsk_socket option list" where
  "init_queues io prog_loaded ifname flags [] sockets = (Inr (), sockets)"
| "init_queues io prog_loaded ifname flags (q # qs) sockets =
     (case init_queue io prog_loaded ifname flags q of
        (Inl e, slot) \<Rightarrow> (Inl e, sockets[q := slot])
      | (Inr _, slot) \<Rightarrow> init_queues io prog_loaded ifname flags qs (sockets[q := slot]))"

text \<open>The control socket and the regular output socket.\<close>

definition open_sockets :: "setup_io \<Rightarrow> rep_process \<Rightarrow> unit outcome \<times> rep_process" where
  "open_sockets io rp0 =
     (let rp = rp0\<lparr>rp_control_socket := su_control_fd io\<rparr>
      in if su_control_fd io < 0 then (Inl (Runtime_error ''Failed to create control socket''), rp)
         else if \<not> su_reuse io then (Inl (Runtime_error ''Failed to set SO_REUSEADDR''), rp)
         else if \<not> su_bound io then (Inl (Runtime_error ''Failed to bind control socket''), rp)
         else let rp' = rp\<lparr>rp_output_socket := su_output_fd io\<rparr>
              in if su_output_fd io < 0 then (Inl (Runtime_error ''Failed to create output socket''), rp') else (Inr (), rp'))"

text \<open>\<open>initialize\<close> is called on a new object, whose vector of sockets \<open>resize\<close> fills with null pointers.\<close>

definition bind_mode :: "bool \<Rightarrow> int" where
  "bind_mode use_zero_copy = (if use_zero_copy then XDP_FLAGS_ZERO_COPY else XDP_FLAGS_DRV_MODE)"

definition initialize :: "setup_io \<Rightarrow> bool \<Rightarrow> rep_process \<Rightarrow> unit outcome \<times> rep_process" where
  "initialize io use_zero_copy rp =
     (case setResourceLimits (su_limits io) of
        Inl e \<Rightarrow> (Inl e, rp)
      | Inr _ \<Rightarrow>
          (let core = rp_core rp;
               rp1 = rp\<lparr>rp_core := core\<lparr>pr_sockets := replicate (pr_num_queues core) None\<rparr>\<rparr>
           in case loadXdpProgram (su_program io) ''./unicast_filter.o'' use_zero_copy (rp_xdp rp1) of
                (Inl e, g) \<Rightarrow> (Inl e, rp1\<lparr>rp_xdp := g\<rparr>)
              | (Inr _, g) \<Rightarrow>
                  (case configureXdpProgram io (rp1\<lparr>rp_xdp := g\<rparr>) of
                     (Inl e, rp2) \<Rightarrow> (Inl e, rp2)
                   | (Inr _, rp2) \<Rightarrow>
                       (case init_queues io (xdp_prog g) (pr_interface core) (bind_mode use_zero_copy) [0..<pr_num_queues core] (pr_sockets (rp_core rp2)) of
                          (r, sockets) \<Rightarrow>
                            (let rp3 = rp2\<lparr>rp_core := (rp_core rp2)\<lparr>pr_sockets := sockets\<rparr>\<rparr>
                             in case r of Inl e \<Rightarrow> (Inl e, rp3) | Inr _ \<Rightarrow> open_sockets io rp3)))))"

text \<open>
  The AF_XDP socket for output only, and the templates in its transmit frames.  \<open>None\<close> is a write outside of the memory.
\<close>

definition prePopulateTxFrames :: "u16 \<Rightarrow> xsk_socket option \<Rightarrow> xsk_socket option option" where
  "prePopulateTxFrames listen_port output =
     (case output of
        None \<Rightarrow> Some None
      | Some s \<Rightarrow> map_option Some (fold (\<lambda>i r. do {
          s' \<leftarrow> r;
          frame \<leftarrow> umem_bytes (i * 4096) 42 s';
          write_umem (i * 4096) (fst (createBasePacketTemplate listen_port frame)) s'
        }) [0..<DEFAULT_TX_FRAMES] (Some s)))"

definition initializeOutputSocket :: "setup_io \<Rightarrow> rep_process \<Rightarrow> (unit outcome \<times> rep_process) option" where
  "initializeOutputSocket io rp =
     (let qio = su_queue io 0
      in case AFXDPSocket (su_page_size io) (qi_mmap qio) 4096 DEFAULT_UMEM_FRAMES 0 of
           Inl e \<Rightarrow> Some (Inl e, rp)
         | Inr s0 \<Rightarrow>
             (case setupUMem (qi_aligned qio) (qi_umem qio) s0 of
                (Inl e, s1) \<Rightarrow> Some (Inl e, rp\<lparr>rp_output_xdp := Some s1\<rparr>)
              | (Inr _, s1) \<Rightarrow>
                  (case bind_socket (pr_interface (rp_core rp)) 0 XDP_FLAGS_ZERO_COPY (su_ifindex io) (qi_created qio) (qi_fq qio) s1 of
                     (Inl e, s2) \<Rightarrow> Some (Inl e, rp\<lparr>rp_output_xdp := Some s2\<rparr>)
                   | (Inr _, s2) \<Rightarrow>
                       map_option (\<lambda>output. (Inr (), rp\<lparr>rp_output_xdp := output\<rparr>))
                         (prePopulateTxFrames (pr_listen_port (rp_core rp)) (Some s2)))))"

section \<open>Start and stop\<close>

text \<open>\<open>setCpuAffinity\<close>, with the flag of the class and the result of the system call: the result and the core the thread is bound to.\<close>

definition setCpuAffinity :: "bool \<Rightarrow> bool \<Rightarrow> nat \<Rightarrow> bool \<times> nat option" where
  "setCpuAffinity enabled granted cpu_core =
     (if \<not> enabled then (True, None) else if \<not> granted then (False, None) else (True, Some cpu_core))"

definition start :: "(nat \<Rightarrow> bool) \<Rightarrow> rep_process \<Rightarrow> rep_process" where
  "start granted rp =
     (if pr_running (rp_core rp) then rp
      else rp\<lparr>rp_core := (rp_core rp)\<lparr>pr_running := True\<rparr>,
        rp_threads := map (\<lambda>q. (q, if q < length (rp_cpu_cores rp) then snd (setCpuAffinity True (granted q) (rp_cpu_cores rp ! q)) else None))
          [0..<pr_num_queues (rp_core rp)],
        rp_control_thread := True\<rparr>)"

definition stop :: "rep_process \<Rightarrow> rep_process" where
  "stop rp =
     (if pr_running (rp_core rp)
      then rp\<lparr>rp_core := (rp_core rp)\<lparr>pr_running := False\<rparr>, rp_threads := [], rp_control_thread := False, rp_xdp := unloadXdpProgram True (rp_xdp rp)\<rparr>
      else rp)"

definition isRunning :: "rep_process \<Rightarrow> bool" where
  "isRunning rp = pr_running (rp_core rp)"

text \<open>
  The destructor: its body, and the sockets, which are closed with the vector.  \<open>closing q\<close> is what the kernel answers for the socket of queue \<open>q\<close>.
\<close>

definition close_descriptor :: "int \<Rightarrow> rep_process \<Rightarrow> rep_process" where
  "close_descriptor fd rp = (if fd \<ge> 0 then rp\<lparr>rp_closed := rp_closed rp @ [fd]\<rparr> else rp)"

definition destroy_replicator :: "(nat \<Rightarrow> (u32 \<times> bool) list \<times> (u32 \<Rightarrow> int option) \<times> int) \<Rightarrow> rep_process \<Rightarrow> rep_process" where
  "destroy_replicator closing rp0 =
     (let rp = stop rp0;
          rp1 = close_descriptor (rp_output_socket rp) (close_descriptor (rp_control_socket rp) rp);
          sockets = pr_sockets (rp_core rp1)
      in rp1\<lparr>rp_core := (rp_core rp1)\<lparr>pr_sockets :=
           map (\<lambda>q. map_option (case closing q of (results, map_entry, fd) \<Rightarrow> destroy_socket results map_entry fd) (sockets ! q)) [0..<length sockets]\<rparr>\<rparr>)"

text \<open>
  Moving: the new object takes sockets, descriptors, threads and counters; the cores, the output socket and the buffer pool are those of a new object, the
  cores being empty.  The second value is what is left of the other object, whose containers are empty.  The program and the
  descriptors belong to the process and agree in both.
\<close>

definition moved_from :: "rep_process \<Rightarrow> rep_process" where
  "moved_from other = other\<lparr>rp_core := (rp_core other)\<lparr>pr_interface := [], pr_listen_ip := [], pr_sockets := [], pr_running := False, pr_dests := []\<rparr>,
     rp_control_socket := - 1, rp_output_socket := - 1, rp_threads := [], rp_control_thread := False\<rparr>"

definition move_construct :: "rep_process \<Rightarrow> rep_process \<times> rep_process" where
  "move_construct other = (other\<lparr>rp_output_xdp := None, rp_cpu_cores := []\<rparr>, moved_from other)"

definition move_assign :: "rep_process \<Rightarrow> rep_process \<Rightarrow> rep_process \<times> rep_process" where
  "move_assign this other =
     (let this1 = stop this;
          other1 = other\<lparr>rp_xdp := rp_xdp this1\<rparr>
      in (other1\<lparr>rp_output_xdp := rp_output_xdp this1, rp_cpu_cores := rp_cpu_cores this1\<rparr>, moved_from other1))"

section \<open>Statistics\<close>

record Statistics =
  st_packets_received :: u64
  st_packets_sent :: u64
  st_bytes_received :: u64
  st_bytes_sent :: u64
  st_destinations_count :: nat

definition getStatistics :: "replicator \<Rightarrow> Statistics" where
  "getStatistics pr =
     \<lparr>st_packets_received = pr_packets_received pr, st_packets_sent = pr_packets_sent pr, st_bytes_received = pr_bytes_received pr,
      st_bytes_sent = pr_bytes_sent pr, st_destinations_count = length (pr_dests pr)\<rparr>"

definition printStatistics :: "replicator \<Rightarrow> string list" where
  "printStatistics pr =
     (let stats = getStatistics pr
      in [''=== PacketReplicator Statistics ==='',
          ''Packets received: '' @ show_dec (unat (st_packets_received stats)),
          ''Packets sent: '' @ show_dec (unat (st_packets_sent stats)),
          ''Bytes received: '' @ show_dec (unat (st_bytes_received stats)),
          ''Bytes sent: '' @ show_dec (unat (st_bytes_sent stats)),
          ''Active destinations: '' @ show_dec (st_destinations_count stats),
          ''================================='' ])"

section \<open>The program\<close>

text \<open>
  The flag \<open>g_running\<close> and the object.  A signal may arrive before the loop, during a turn's sleep, or after its test: the two flags of a turn.
  The loop without further turns still runs: \<open>None\<close>.  The second value tells whether the message about an unexpected stop is
  printed.
\<close>

definition signalHandler :: "bool \<times> rep_process \<Rightarrow> bool \<times> rep_process" where
  "signalHandler s = (False, stop (snd s))"

fun main_loop :: "(bool \<times> bool) list \<Rightarrow> bool \<times> rep_process \<Rightarrow> (rep_process \<times> bool) option" where
  "main_loop [] (g_running, rp) = (if g_running then None else Some (rp, False))"
| "main_loop ((in_sleep, after_test) # turns) (g_running, rp) =
     (if \<not> g_running then Some (rp, False)
      else let (g1, rp1) = (if in_sleep then signalHandler (g_running, rp) else (g_running, rp))
           in if \<not> isRunning rp1 then Some (rp1, True)
              else main_loop turns (if after_test then signalHandler (g1, rp1) else (g1, rp1)))"

text \<open>Statistics are printed every ten seconds as long as the program runs: the flag and the object after each sleep.\<close>

fun printStatisticsLoop :: "(bool \<times> replicator) list \<Rightarrow> string list list" where
  "printStatisticsLoop [] = []"
| "printStatisticsLoop ((g_running, pr) # after) = (if g_running then printStatistics pr # printStatisticsLoop after else [])"

datatype main_exit = Exit int | Uncaught cpp_exception

definition run_replicator ::
  "setup_io \<Rightarrow> (nat \<Rightarrow> bool) \<Rightarrow> bool \<Rightarrow> (bool \<times> bool) list \<Rightarrow> bool \<Rightarrow> rep_process \<Rightarrow> (main_exit \<times> rep_process) option" where
  "run_replicator io granted early_signal turns use_zero_copy rp =
     (case initialize io use_zero_copy rp of
        (Inl e, rp1) \<Rightarrow> Some (Exit 1, rp1)
      | (Inr _, rp1) \<Rightarrow>
          (case main_loop turns (\<not> early_signal, start granted rp1) of
             None \<Rightarrow> None
           | Some (rp2, unexpected) \<Rightarrow> Some (Exit 0, stop rp2)))"

text \<open>\<open>main\<close>: the arguments without the program's name.  \<open>std::stoi\<close> is outside of the \<open>try\<close> block.\<close>

definition replicator_main ::
  "string list \<Rightarrow> nat \<Rightarrow> nat \<Rightarrow> setup_io \<Rightarrow> (nat \<Rightarrow> bool) \<Rightarrow> bool \<Rightarrow> (bool \<times> bool) list \<Rightarrow> (main_exit \<times> rep_process option) option" where
  "replicator_main args uid num_cores io granted early_signal turns =
     (if length args < 3 \<or> 4 < length args then Some (Exit 1, None)
      else if uid \<noteq> 0 then Some (Exit 1, None)
      else case stoi (args ! 2) of
             Inl e \<Rightarrow> Some (Uncaught e, None)
           | Inr n \<Rightarrow>
               (let use_zero_copy = (length args < 4 \<or> args ! 3 = ''true'' \<or> args ! 3 = ''1'');
                    rp = new_process (args ! 0) (args ! 1) (word_of_int n) num_cores initial_xdp_globals
                in map_option (\<lambda>(r, rp'). (r, Some rp')) (run_replicator io granted early_signal turns use_zero_copy rp)))"

section \<open>The pool of buffers\<close>

definition BUFFER_POOL_SIZE :: nat where "BUFFER_POOL_SIZE = 1024"

record buffer_pool =
  bp_in_use :: "bool list"
  bp_timestamp :: "u64 list"
  bp_index :: u32

definition new_pool :: buffer_pool where
  "new_pool = \<lparr>bp_in_use = replicate BUFFER_POOL_SIZE False, bp_timestamp = replicate BUFFER_POOL_SIZE 0, bp_index = 0\<rparr>"

text \<open>
  \<open>getBufferFromPool\<close> with \<open>n\<close> attempts left; the weak exchange may fail spuriously, and \<open>now\<close> is the clock.  The result is the index of the buffer.
\<close>

fun pool_attempts :: "(nat \<Rightarrow> bool) \<Rightarrow> u64 \<Rightarrow> nat \<Rightarrow> buffer_pool \<Rightarrow> nat option \<times> buffer_pool" where
  "pool_attempts spurious now 0 bp = (None, bp)"
| "pool_attempts spurious now (Suc n) bp =
     (let index = unat (bp_index bp AND (of_nat BUFFER_POOL_SIZE - 1));
          bp1 = bp\<lparr>bp_index := bp_index bp + 1\<rparr>
      in if \<not> bp_in_use bp1 ! index \<and> \<not> spurious n
         then (Some index, bp1\<lparr>bp_in_use := (bp_in_use bp1)[index := True], bp_timestamp := (bp_timestamp bp1)[index := now]\<rparr>)
         else pool_attempts spurious now n bp1)"

definition getBufferFromPool :: "(nat \<Rightarrow> bool) \<Rightarrow> u64 \<Rightarrow> buffer_pool \<Rightarrow> nat option \<times> buffer_pool" where
  "getBufferFromPool spurious now bp = pool_attempts spurious now BUFFER_POOL_SIZE bp"

definition returnBufferToPool :: "nat option \<Rightarrow> buffer_pool \<Rightarrow> buffer_pool" where
  "returnBufferToPool buffer bp =
     (case buffer of None \<Rightarrow> bp | Some i \<Rightarrow> bp\<lparr>bp_in_use := (bp_in_use bp)[i := False]\<rparr>)"

definition getNextFrameIndexFast :: "u32 \<Rightarrow> u32 \<Rightarrow> u32 \<times> u32" where
  "getNextFrameIndexFast tx_frames counter = (counter AND (tx_frames - 1), counter + 1)"

section \<open>The cache of destinations\<close>

text \<open>Times are nanoseconds of the steady clock; the time-out is 100 ms.\<close>

record dest_cache =
  dc_cached :: "Destination list"
  dc_last_update :: int

definition updateDestinationCache :: "int \<Rightarrow> Destination list \<Rightarrow> dest_cache \<Rightarrow> dest_cache" where
  "updateDestinationCache now dests c = c\<lparr>dc_cached := dests, dc_last_update := now\<rparr>"

definition getCachedDestinations :: "int \<Rightarrow> int \<Rightarrow> Destination list \<Rightarrow> dest_cache \<Rightarrow> Destination list \<times> dest_cache" where
  "getCachedDestinations now now' dests c =
     (let c' = (if dc_cached c = [] \<or> now - dc_last_update c > 100000000 then updateDestinationCache now' dests c else c)
      in (dc_cached c', c'))"

section \<open>A successful set-up\<close>

lemma bound_calls:
  assumes "AFXDPSocket page mmap_ok 4096 DEFAULT_UMEM_FRAMES 0 = Inr s0" and "setupUMem a c s0 = (Inr (), s1)"
    and "bind_socket ifname q flags names b fq s1 = (Inr (), s2)"
  shows "a \<and> c \<and> b \<and> (\<exists>bf e f g i. bind_flags_of flags = Some bf \<and>
    xs_calls s2 = [Umem_create e f g (DEFAULT_RX_FRAMES * 2) (DEFAULT_TX_FRAMES * 2), Socket_create ifname q bf, Fq_reserve DEFAULT_RX_FRAMES] @
      map (\<lambda>k. Fq_addr (snd fq + of_nat k) (map (rx_frame_addr i) [0..<fst fq] ! k)) [0..<fst fq] @ [Fq_submit (fst fq)])"
proof -
  have "xs_calls s0 = []" using assms(1) by (auto simp: AFXDPSocket_def Let_def split: if_splits sum.splits)
  moreover from this obtain e f g where "a" "c" "xs_calls s1 = [Umem_create e f g (DEFAULT_RX_FRAMES * 2) (DEFAULT_TX_FRAMES * 2)]"
    using assms(2) by (auto simp: setupUMem_def when_open_def Let_def xsk_call_def split: if_splits)
  ultimately show ?thesis
    using assms(3) by (auto simp: bind_socket_def when_open_def Let_def xsk_call_def write_fill_addrs_def simp del: upt_conv_Cons split: if_splits option.splits prod.splits)
qed

text \<open>What \<open>initialize\<close> leaves in the slot of a queue: all that the packet loop of the queue relies on.\<close>

definition queue_prepared :: "string \<Rightarrow> int \<Rightarrow> nat \<Rightarrow> xsk_socket \<Rightarrow> bool" where
  "queue_prepared ifname flags q s \<longleftrightarrow> ready s \<and> published s = rx_frames \<and> xs_pending_recycle_addrs s = [] \<and> tx_descs s = [] \<and>
     (\<exists>bf. bind_flags_of flags = Some bf \<and> Socket_create ifname (int q) bf \<in> set (xs_calls s)) \<and> Map_update (of_nat q) \<in> set (xs_calls s)"

lemma register_effect:
  assumes "registerXskMap pl ob fd sfd u q s = (Inr (), s')"
  shows "xs_calls s' = xs_calls s @ [Map_update (word_of_int q)] \<and> xs_closed s' = xs_closed s \<and> xs_umem s' = xs_umem s \<and>
    xs_pending_recycle_addrs s' = xs_pending_recycle_addrs s \<and> published s' = published s \<and> tx_descs s' = tx_descs s"
  using assms by (auto simp: registerXskMap_def when_open_def Let_def xsk_call_def published_def tx_descs_def split: if_splits option.splits)

lemma init_queue_ready:
  assumes "init_queue io pl ifname flags q = (Inr (), slot)" and page: "su_page_size io = 4096" and fq: "fst (qi_fq (su_queue io q)) = 2048"
  shows "\<exists>s. slot = Some s \<and> queue_prepared ifname flags q s"
proof -
  let ?q = "su_queue io q"
  obtain idx where fq': "qi_fq ?q = (2048, idx)" using fq by (metis prod.collapse)
  obtain s0 s1 s2 s where s: "AFXDPSocket 4096 (qi_mmap ?q) 4096 DEFAULT_UMEM_FRAMES 0 = Inr s0" "setupUMem (qi_aligned ?q) (qi_umem ?q) s0 = (Inr (), s1)"
      "bind_socket ifname (int q) flags (su_ifindex io) (qi_created ?q) (2048, idx) s1 = (Inr (), s2)"
      "registerXskMap pl (su_bpf_obj io) (su_xsks_map io) (qi_fd ?q) (qi_updated ?q) (int q) s2 = (Inr (), s)" "slot = Some s"
    using assms(1) page unfolding init_queue_def Let_def fq' by (auto split: sum.splits prod.splits)
  note calls = bound_calls [OF s(1-3)]
  have f: "published s2 = rx_frames \<and> \<not> xs_closed s2 \<and> xs_pending_recycle_addrs s2 = [] \<and> xs_umem s2 = Some (replicate (4096 * 4096) 0)"
    using socket_ready [of "qi_mmap ?q" s0 s1 ifname "int q" flags "su_ifindex io" idx s2] s(1-3) calls by simp
  have none: "concat (map tx_desc_of (map (\<lambda>k. Fq_addr (x k) (y k)) ks)) = []" for x y and ks :: "nat list" by (induction ks) simp_all
  have t: "tx_descs s2 = []" using calls none unfolding tx_descs_def by (auto simp del: upt_conv_Cons map_map)
  have "\<exists>bf. bind_flags_of flags = Some bf \<and> Socket_create ifname (int q) bf \<in> set (xs_calls s2)" using calls by (auto simp del: upt_conv_Cons)
  with f t register_effect [OF s(4)] s(5) show ?thesis
    unfolding queue_prepared_def ready_def UMEM_BYTES_def by auto
qed

lemma init_queues_effect:
  assumes "init_queues io pl ifname flags qs sockets = (Inr (), sockets')" and "distinct qs" and "\<forall>q \<in> set qs. q < length sockets"
  shows "length sockets' = length sockets \<and> (\<forall>k. k \<notin> set qs \<longrightarrow> sockets' ! k = sockets ! k) \<and>
    (\<forall>q \<in> set qs. init_queue io pl ifname flags q = (Inr (), sockets' ! q))"
  using assms
proof (induction qs arbitrary: sockets)
  case (Cons q qs)
  then show ?case by (fastforce split: prod.splits sum.splits)
qed simp

lemma configure_effect:
  "configureXdpProgram io rp = (r, rp') \<Longrightarrow> rp_core rp' = rp_core rp \<and> rp_xdp rp' = rp_xdp rp \<and> rp_threads rp' = rp_threads rp \<and>
    rp_control_thread rp' = rp_control_thread rp"
  by (auto simp: configureXdpProgram_def split: option.splits sum.splits if_splits)

lemma open_sockets_effect:
  "open_sockets io rp = (r, rp') \<Longrightarrow> rp_core rp' = rp_core rp \<and> rp_xdp rp' = rp_xdp rp \<and> rp_threads rp' = rp_threads rp \<and>
    rp_control_thread rp' = rp_control_thread rp \<and> rp_config rp' = rp_config rp \<and>
    (r = Inr () \<longrightarrow> 0 \<le> rp_control_socket rp' \<and> 0 \<le> rp_output_socket rp')"
  by (auto simp: open_sockets_def Let_def split: if_splits)

text \<open>The steps of a successful \<open>initialize\<close>.\<close>

lemma initialize_steps:
  assumes "initialize io zc rp = (Inr (), rp')"
  obtains g rp2 sockets where "loadXdpProgram (su_program io) ''./unicast_filter.o'' zc (rp_xdp rp) = (Inr (), g)"
    "configureXdpProgram io (rp\<lparr>rp_core := (rp_core rp)\<lparr>pr_sockets := replicate (pr_num_queues (rp_core rp)) None\<rparr>, rp_xdp := g\<rparr>) = (Inr (), rp2)"
    "init_queues io (xdp_prog g) (pr_interface (rp_core rp)) (bind_mode zc) [0..<pr_num_queues (rp_core rp)] (replicate (pr_num_queues (rp_core rp)) None) =
       (Inr (), sockets)"
    "open_sockets io (rp2\<lparr>rp_core := (rp_core rp2)\<lparr>pr_sockets := sockets\<rparr>\<rparr>) = (Inr (), rp')"
    "rp_core rp2 = (rp_core rp)\<lparr>pr_sockets := replicate (pr_num_queues (rp_core rp)) None\<rparr>" "rp_xdp rp2 = g"
proof -
  let ?n = "pr_num_queues (rp_core rp)"
  let ?rp1 = "rp\<lparr>rp_core := (rp_core rp)\<lparr>pr_sockets := replicate ?n None\<rparr>\<rparr>"
  obtain g where g: "loadXdpProgram (su_program io) ''./unicast_filter.o'' zc (rp_xdp rp) = (Inr (), g)"
    using assms by (auto simp: initialize_def Let_def split: sum.splits prod.splits)
  obtain rp2 where 2: "configureXdpProgram io (?rp1\<lparr>rp_xdp := g\<rparr>) = (Inr (), rp2)"
    using assms g by (auto simp: initialize_def Let_def split: sum.splits prod.splits)
  have c: "rp_core rp2 = (rp_core rp)\<lparr>pr_sockets := replicate ?n None\<rparr>" "rp_xdp rp2 = g" using configure_effect [OF 2] by simp_all
  have "\<exists>sockets. init_queues io (xdp_prog g) (pr_interface (rp_core rp)) (bind_mode zc) [0..<?n] (replicate ?n None) = (Inr (), sockets) \<and>
      open_sockets io (rp2\<lparr>rp_core := (rp_core rp2)\<lparr>pr_sockets := sockets\<rparr>\<rparr>) = (Inr (), rp')"
    using assms g 2 c by (auto simp: initialize_def Let_def split: sum.splits prod.splits)
  then show ?thesis using that g 2 c by auto
qed

definition registered :: "rep_process \<Rightarrow> u32 \<Rightarrow> bool" where
  "registered rp k = list_ex (\<lambda>slot. case slot of None \<Rightarrow> False | Some s \<Rightarrow> Map_update k \<in> set (xs_calls s)) (pr_sockets (rp_core rp))"

lemma initialize_sockets:
  assumes "initialize io zc (new_process ifname ip p cores g0) = (Inr (), rp)"
    and "su_page_size io = 4096" and "\<And>q. fst (qi_fq (su_queue io q)) = 2048"
  shows "length (pr_sockets (rp_core rp)) = 4 \<and> (\<forall>q<4. \<exists>s. pr_sockets (rp_core rp) ! q = Some s \<and> queue_prepared ifname (bind_mode zc) q s) \<and>
    rp_core rp = (PacketReplicator ifname ip p)\<lparr>pr_sockets := pr_sockets (rp_core rp)\<rparr>"
proof -
  let ?n = "new_process ifname ip p cores g0"
  have n: "rp_core ?n = PacketReplicator ifname ip p" "pr_num_queues (PacketReplicator ifname ip p) = 4"
      "pr_interface (PacketReplicator ifname ip p) = ifname"
    by (simp_all add: new_process_def PacketReplicator_def)
  obtain g :: xdp_globals and rp2 sockets where i: "init_queues io (xdp_prog g) ifname (bind_mode zc) [0..<4] (replicate 4 None) = (Inr (), sockets)"
      "rp_core rp2 = (PacketReplicator ifname ip p)\<lparr>pr_sockets := replicate 4 None\<rparr>"
      "open_sockets io (rp2\<lparr>rp_core := (rp_core rp2)\<lparr>pr_sockets := sockets\<rparr>\<rparr>) = (Inr (), rp)"
    by (rule initialize_steps [OF assms(1), unfolded n]) (rule that, assumption+)
  have "rp_core rp = (PacketReplicator ifname ip p)\<lparr>pr_sockets := sockets\<rparr>" using open_sockets_effect [OF i(3)] i(2) by simp
  moreover have "length sockets = 4" "\<forall>q<4. init_queue io (xdp_prog g) ifname (bind_mode zc) q = (Inr (), sockets ! q)"
    using init_queues_effect [OF i(1)] by simp_all
  moreover have "\<forall>q<4. \<exists>s. sockets ! q = Some s \<and> queue_prepared ifname (bind_mode zc) q s"
    using calculation(3) init_queue_ready [OF _ assms(2,3)] by blast
  ultimately show ?thesis by simp
qed

text \<open>
  C16. A successful set-up.  When \<open>initialize\<close> returns, each of the four queues has an open socket of its own, bound to the interface and that queue in the mode asked for, with its entry in the filter's map,
  with 2048 receive frames in the fill ring and no packet under way; the counters and destinations are consistent and nothing runs yet.
  These are the conditions of the theorems about replication and about runs of the packet loop.
\<close>

theorem initialize_ready:
  assumes "initialize io zc (new_process ifname ip p cores g0) = (Inr (), rp)"
    and "su_page_size io = 4096" and "\<And>q. fst (qi_fq (su_queue io q)) = 2048"
  shows "pr_num_queues (rp_core rp) = 4 \<and> length (pr_sockets (rp_core rp)) = 4 \<and>
    (\<forall>q<4. \<exists>s. pr_sockets (rp_core rp) ! q = Some s \<and> queue_prepared ifname (bind_mode zc) q s) \<and>
    counters_ok (rp_core rp) \<and> dests_ok (pr_dests (rp_core rp)) \<and> \<not> isRunning rp \<and> 0 \<le> rp_control_socket rp \<and> 0 \<le> rp_output_socket rp"
proof -
  note f = initialize_sockets [OF assms]
  have core: "rp_core rp = (PacketReplicator ifname ip p)\<lparr>pr_sockets := pr_sockets (rp_core rp)\<rparr>" using f by simp
  have "pr_num_queues (rp_core rp) = 4" "counters_ok (rp_core rp)" "dests_ok (pr_dests (rp_core rp))" "\<not> isRunning rp"
    unfolding isRunning_def by (subst core, simp add: PacketReplicator_def counters_ok_def dests_ok_def MAX_QUEUES_def sum_list_replicate)+
  moreover have "0 \<le> rp_control_socket rp \<and> 0 \<le> rp_output_socket rp"
    by (rule initialize_steps [OF assms(1)]) (simp add: open_sockets_effect)
  ultimately show ?thesis using f by simp
qed

text \<open>A machine on which every call succeeds.\<close>

definition demo_setup :: setup_io where
  "demo_setup = \<lparr>su_limits = True, su_program = (True, True, True), su_map_name = (\<lambda>fd. if fd = 7 then Some ''config_map'' else None),
     su_config_updated = True, su_page_size = 4096, su_ifindex = (\<lambda>_. 2), su_bpf_obj = True, su_xsks_map = Some 6,
     su_queue = (\<lambda>q. \<lparr>qi_mmap = \<lambda>_. True, qi_aligned = True, qi_umem = True, qi_created = True, qi_fq = (2048, 0), qi_fd = 10 + int q, qi_updated = True\<rparr>),
     su_control_fd = 20, su_reuse = True, su_bound = True, su_output_fd = 21\<rparr>"

lemma demo_queue: "fst (init_queue demo_setup True ''eth0'' XDP_FLAGS_ZERO_COPY q) = Inr ()"
proof -
  let ?n = "aligned_size 4096 (sint (of_nat (unat (4096 :: u32) * DEFAULT_UMEM_FRAMES) :: u32))"
  have n: "unat ?n = 16777216"
    by (simp add: aligned_size_def DEFAULT_UMEM_FRAMES_def DEFAULT_TX_FRAMES_def DEFAULT_RX_FRAMES_def)
  have "\<exists>s0. AFXDPSocket 4096 (\<lambda>_. True) 4096 DEFAULT_UMEM_FRAMES 0 = Inr s0 \<and> \<not> xs_closed s0 \<and> (\<exists>m. xs_umem s0 = Some m \<and> length m = 16777216) \<and> xs_chunk_size s0 = 4096"
    using n by (simp add: AFXDPSocket_def allocateAlignedBuffer_def Let_def DEFAULT_UMEM_FRAMES_def DEFAULT_TX_FRAMES_def DEFAULT_RX_FRAMES_def)
  then obtain s0 m where s0: "AFXDPSocket 4096 (\<lambda>_. True) 4096 DEFAULT_UMEM_FRAMES 0 = Inr s0" "\<not> xs_closed s0" "xs_umem s0 = Some m"
      "length m = 16777216" "xs_chunk_size s0 = 4096"
    by blast
  obtain s1 where s1: "setupUMem True True s0 = (Inr (), s1)" "\<not> xs_closed s1" "xw_umem s1"
    using s0 by (simp add: setupUMem_def when_open_def Let_def umem_size_def DEFAULT_UMEM_FRAMES_def DEFAULT_TX_FRAMES_def DEFAULT_RX_FRAMES_def xsk_call_def)
  obtain s2 where s2: "bind_socket ''eth0'' (int q) XDP_FLAGS_ZERO_COPY (\<lambda>_. 2) True (2048, 0) s1 = (Inr (), s2)" "\<not> xs_closed s2"
    using s1 by (simp add: bind_socket_def when_open_def Let_def bind_flags_of_def XDP_FLAGS_ZERO_COPY_def XDP_FLAGS_SKB_MODE_def XDP_FLAGS_DRV_MODE_def
        XDP_FLAGS_HW_MODE_def xsk_call_def write_fill_addrs_def del: upt_conv_Cons)
  have "fst (registerXskMap True True (Some 6) (10 + int q) True (int q) s2) = Inr ()"
    using s2 by (simp add: registerXskMap_def when_open_def Let_def)
  then show ?thesis
    unfolding init_queue_def Let_def demo_setup_def
    by (cases "registerXskMap True True (Some 6) (10 + int q) True (int q) s2") (simp add: s0 s1 s2)
qed

lemma demo_initialize:
  "\<exists>rp. initialize demo_setup True (new_process ''eth0'' ''10.0.0.71'' 9000 8 initial_xdp_globals) = (Inr (), rp) \<and>
     rp_config rp = Some \<lparr>uc_target_ip = 0x0A000047, uc_target_port = 9000\<rparr>"
proof -
  let ?rp = "new_process ''eth0'' ''10.0.0.71'' 9000 8 initial_xdp_globals"
  have q: "\<exists>sockets'. init_queues demo_setup True ''eth0'' XDP_FLAGS_ZERO_COPY qs sockets = (Inr (), sockets')" for qs sockets
  proof (induction qs arbitrary: sockets)
    case (Cons q qs)
    then show ?case using demo_queue [of q] by (cases "init_queue demo_setup True ''eth0'' XDP_FLAGS_ZERO_COPY q") simp
  qed simp
  have "find_config_map (su_map_name demo_setup) \<noteq> None"
    by (simp add: find_config_map_def find_None_iff demo_setup_def bex_Un image_iff)
  moreover have "inet_aton ''10.0.0.71'' = Some 0x0A000047" by code_simp
  ultimately show ?thesis
    using q [of "[0..<4]" "replicate 4 None"]
    by (auto simp: initialize_def new_process_def PacketReplicator_def setResourceLimits_def demo_setup_def loadXdpProgram_def configureXdpProgram_def
        parseIpAddress_def bind_mode_def open_sockets_def xdp_log_def Let_def split: prod.splits sum.splits)
qed

theorem initialize_ready_witness:
  "\<exists>rp. initialize demo_setup True (new_process ''eth0'' ''10.0.0.71'' 9000 8 initial_xdp_globals) = (Inr (), rp) \<and>
     (\<exists>s. pr_sockets (rp_core rp) ! 3 = Some s \<and> queue_prepared ''eth0'' XDP_FLAGS_ZERO_COPY 3 s)"
proof -
  obtain rp where rp: "initialize demo_setup True (new_process ''eth0'' ''10.0.0.71'' 9000 8 initial_xdp_globals) = (Inr (), rp)"
    using demo_initialize by blast
  moreover have "su_page_size demo_setup = 4096" "fst (qi_fq (su_queue demo_setup q)) = 2048" for q by (simp_all add: demo_setup_def)
  ultimately have "\<exists>s. pr_sockets (rp_core rp) ! 3 = Some s \<and> queue_prepared ''eth0'' (bind_mode True) 3 s"
    using initialize_ready [OF rp] by simp
  with rp show ?thesis by (auto simp: bind_mode_def)
qed

section \<open>The filter of a running replicator\<close>

lemma initialize_config:
  assumes "initialize io zc (new_process ifname ip p cores g0) = (Inr (), rp)" and "find_config_map (su_map_name io) \<noteq> None" and "su_config_updated io"
  shows "\<exists>a. inet_aton ip = Some a \<and> rp_config rp = Some \<lparr>uc_target_ip = a, uc_target_port = p\<rparr>"
proof -
  have n: "rp_core (new_process ifname ip p cores g0) = PacketReplicator ifname ip p" by (simp add: new_process_def Let_def)
  obtain g :: xdp_globals and rp2 sockets where c:
      "configureXdpProgram io ((new_process ifname ip p cores g0)\<lparr>rp_core := (PacketReplicator ifname ip p)\<lparr>pr_sockets := replicate (pr_num_queues (PacketReplicator ifname ip p)) None\<rparr>, rp_xdp := g\<rparr>) = (Inr (), rp2)"
      "open_sockets io (rp2\<lparr>rp_core := (rp_core rp2)\<lparr>pr_sockets := sockets\<rparr>\<rparr>) = (Inr (), rp)"
    by (rule initialize_steps [OF assms(1), unfolded n]) (rule that, assumption+)
  then have "rp_config rp = rp_config rp2" using open_sockets_effect [OF c(2)] by simp
  with c(1) assms(2,3) show ?thesis
    by (auto simp: configureXdpProgram_def parseIpAddress_def PacketReplicator_def split: option.splits sum.splits)
qed

lemma filter_after_setup:
  assumes "initialize io zc (new_process ifname ip p cores g0) = (Inr (), rp)" and "find_config_map (su_map_name io) \<noteq> None" and "su_config_updated io"
    and "su_page_size io = 4096" and "\<And>q. fst (qi_fq (su_queue io q)) = 2048" and "q < 4"
  shows "\<exists>a. inet_aton ip = Some a \<and>
    unicast_filter (rp_config rp) (registered rp) (of_nat q) frame =
      Some (if udp_destination frame = Some (a, p) then XDP_REDIRECT_MAP (of_nat q) else XDP_PASS)"
proof -
  obtain a where a: "inet_aton ip = Some a" "rp_config rp = Some \<lparr>uc_target_ip = a, uc_target_port = p\<rparr>"
    using initialize_config [OF assms(1-3)] by blast
  obtain s where s: "pr_sockets (rp_core rp) ! q = Some s" "queue_prepared ifname (bind_mode zc) q s" "length (pr_sockets (rp_core rp)) = 4"
    using initialize_sockets [OF assms(1,4,5)] assms(6) by blast
  then have "Some s \<in> set (pr_sockets (rp_core rp))" using assms(6) by (metis nth_mem)
  with s(2) have "registered rp (of_nat q)" by (force simp: registered_def list_ex_iff queue_prepared_def)
  with a show ?thesis unfolding unicast_filter_decision by auto
qed

text \<open>
  The installed filter.  After a successful set-up in which the configuration map was found and written, the XDP program hands a frame of one of the four queues
  to the replicator's socket exactly when it is a UDP packet for the address and port on the command line; every other frame stays with the kernel.
\<close>

theorem filter_installed:
  assumes "initialize io zc (new_process ifname ip p cores g0) = (Inr (), rp)" and "find_config_map (su_map_name io) \<noteq> None" and "su_config_updated io"
    and "su_page_size io = 4096" and "\<And>q. fst (qi_fq (su_queue io q)) = 2048" and "q < 4"
  shows "\<exists>a. inet_aton ip = Some a \<and>
    unicast_filter (rp_config rp) (registered rp) (of_nat q) frame =
      Some (if udp_destination frame = Some (a, p) then XDP_REDIRECT_MAP (of_nat q) else XDP_PASS)"
  using assms by (rule filter_after_setup)

theorem filter_installed_witness:
  "\<exists>rp. initialize demo_setup True (new_process ''eth0'' ''10.0.0.71'' 9000 8 initial_xdp_globals) = (Inr (), rp) \<and>
     unicast_filter (rp_config rp) (registered rp) 2 demo_frame = Some (XDP_REDIRECT_MAP 2)"
proof -
  let ?rp = "new_process ''eth0'' ''10.0.0.71'' 9000 8 initial_xdp_globals"
  obtain rp where rp: "initialize demo_setup True ?rp = (Inr (), rp)" "rp_config rp = Some \<lparr>uc_target_ip = 0x0A000047, uc_target_port = 9000\<rparr>"
    using demo_initialize by blast
  have c: "find_config_map (su_map_name demo_setup) \<noteq> None"
    by (simp add: find_config_map_def find_None_iff demo_setup_def bex_Un image_iff)
  have d: "su_config_updated demo_setup" "su_page_size demo_setup = 4096" "fst (qi_fq (su_queue demo_setup q)) = 2048" for q by (simp_all add: demo_setup_def)
  have "udp_destination demo_frame = Some (0x0A000047, 9000)"
    using built_frame_destination [of "replicate 12 2" _ _ _ _ _ _ "[]"] by (simp add: demo_frame_def)
  moreover have "inet_aton ''10.0.0.71'' = Some 0x0A000047" by code_simp
  ultimately show ?thesis using filter_installed [OF rp(1) c d, of 2 demo_frame] rp(1) by auto
qed

section \<open>The end of the program\<close>

lemma stop_stopped: "\<not> isRunning (stop rp)"
  by (simp add: stop_def isRunning_def)

lemma stop_idle: "\<not> isRunning rp \<Longrightarrow> stop rp = rp"
  by (simp add: stop_def isRunning_def)

lemma main_loop_cases:
  assumes "main_loop turns (g, rp) = Some (rp', unexpected)"
  shows "rp' = rp \<or> rp' = stop rp"
  using assms
proof (induction turns "(g, rp)" arbitrary: g rp rule: main_loop.induct)
  case (2 in_sleep after_test turns g_running rp)
  then show ?case
    by (cases in_sleep; cases after_test) (auto simp: signalHandler_def stop_idle stop_stopped split: if_splits)
qed (auto split: if_splits)

text \<open>
  C31. Shutdown.  When the program ends with status 0, the packet threads and the control thread have ended and the XDP program has been detached, once,
  in the mode in which it was attached.
\<close>

theorem shutdown_detaches:
  assumes "run_replicator io granted early turns zc (new_process ifname ip p cores initial_xdp_globals) = Some (Exit 0, rp)"
  shows "\<not> isRunning rp \<and> rp_threads rp = [] \<and> \<not> rp_control_thread rp \<and> \<not> xdp_prog (rp_xdp rp) \<and>
    (\<exists>mode. xdp_calls (rp_xdp rp) = [Xdp_open ''./unicast_filter.o'', Xdp_attach mode, Xdp_detach mode, Xdp_close])"
proof -
  let ?n = "new_process ifname ip p cores initial_xdp_globals"
  obtain rp1 rp2 u where 1: "initialize io zc ?n = (Inr (), rp1)" "main_loop turns (\<not> early, start granted rp1) = Some (rp2, u)" "rp = stop rp2"
    using assms by (auto simp: run_replicator_def split: prod.splits sum.splits option.splits)
  obtain g rp' sockets where g: "loadXdpProgram (su_program io) ''./unicast_filter.o'' zc initial_xdp_globals = (Inr (), g)"
      "open_sockets io (rp'\<lparr>rp_core := (rp_core rp')\<lparr>pr_sockets := sockets\<rparr>\<rparr>) = (Inr (), rp1)" "rp_xdp rp' = g" "\<not> pr_running (rp_core rp')"
    by (rule initialize_steps [OF 1(1)]) (rule that, auto simp: new_process_def PacketReplicator_def)
  have x: "rp_xdp rp1 = g" "\<not> isRunning rp1" using open_sockets_effect [OF g(2)] g(3,4) by (simp_all add: isRunning_def)
  have "su_program io = (True, True, True)"
    using g(1) by (auto simp: loadXdpProgram_def Let_def split: prod.splits if_splits)
  then have d: "\<exists>mode. xdp_calls (unloadXdpProgram True g) = [Xdp_open ''./unicast_filter.o'', Xdp_attach mode, Xdp_detach mode, Xdp_close] \<and> \<not> xdp_prog (unloadXdpProgram True g)"
    using g(1) by (intro detached_as_attached) simp
  have "rp = stop (start granted rp1)"
    using main_loop_cases [OF 1(2)] 1(3) by (auto simp: stop_idle stop_stopped)
  then show ?thesis using x d by (simp add: stop_def start_def isRunning_def)
qed

theorem shutdown_detaches_witness:
  "\<exists>rp mode. run_replicator demo_setup (\<lambda>_. True) False [(False, False), (True, False)] True
       (new_process ''eth0'' ''10.0.0.71'' 9000 8 initial_xdp_globals) = Some (Exit 0, rp) \<and>
     xdp_calls (rp_xdp rp) = [Xdp_open ''./unicast_filter.o'', Xdp_attach mode, Xdp_detach mode, Xdp_close]"
proof -
  obtain rp1 where "initialize demo_setup True (new_process ''eth0'' ''10.0.0.71'' 9000 8 initial_xdp_globals) = (Inr (), rp1)"
    using demo_initialize by blast
  then have "\<exists>rp. run_replicator demo_setup (\<lambda>_. True) False [(False, False), (True, False)] True
      (new_process ''eth0'' ''10.0.0.71'' 9000 8 initial_xdp_globals) = Some (Exit 0, rp)"
    by (simp add: run_replicator_def signalHandler_def stop_stopped start_def isRunning_def)
  then show ?thesis using shutdown_detaches by blast
qed

text \<open>A signal in any turn ends the program.\<close>

lemma signal_ends_loop: "t \<in> set turns \<Longrightarrow> fst t \<or> snd t \<Longrightarrow> main_loop turns (g, rp) \<noteq> None"
proof (induction turns arbitrary: g rp)
  case (Cons u turns)
  have ended: "main_loop ts (False, rp) \<noteq> None" for ts rp by (cases ts) auto
  obtain a b where u: "u = (a, b)" by (cases u)
  show ?case
    using Cons ended unfolding u by (auto simp: signalHandler_def stop_stopped split: prod.splits)
qed simp

text \<open>A signal that arrives while the main thread sleeps makes the loop report an unexpected stop.\<close>

lemma interrupt_reported_unexpected: "main_loop ((True, b) # turns) (True, rp) = Some (stop rp, True)"
  by (simp add: signalHandler_def stop_stopped)

text \<open>
  When the set-up fails after the program was attached, the destructor finds nothing running and does not detach it.
\<close>

lemma failed_setup_keeps_program:
  assumes "initialize io zc (new_process ifname ip p cores initial_xdp_globals) = (Inl e, rp)" and "su_limits io" and "su_program io = (True, True, True)"
  shows "xdp_prog (rp_xdp (destroy_replicator closing rp)) \<and>
    (\<exists>mode. xdp_calls (rp_xdp (destroy_replicator closing rp)) = [Xdp_open ''./unicast_filter.o'', Xdp_attach mode])"
proof -
  let ?n = "new_process ifname ip p cores initial_xdp_globals"
  obtain g where g: "loadXdpProgram (su_program io) ''./unicast_filter.o'' zc initial_xdp_globals = (Inr (), g)"
    using assms(3) by (auto simp: loadXdpProgram_def Let_def)
  have g': "xdp_prog g \<and> (\<exists>mode. xdp_calls g = [Xdp_open ''./unicast_filter.o'', Xdp_attach mode])"
    using g assms(3) by (auto simp: loadXdpProgram_def Let_def unload_current_def select_mode_def initial_xdp_globals_def xdp_log_def)
  have n: "rp_xdp ?n = initial_xdp_globals" "\<not> pr_running (rp_core ?n)" by (simp_all add: new_process_def PacketReplicator_def)
  have "rp_xdp rp = g \<and> \<not> isRunning rp"
    using assms(1,2) g n
    by (auto simp: initialize_def setResourceLimits_def Let_def isRunning_def dest!: configure_effect open_sockets_effect split: prod.splits sum.splits)
  then have "rp_xdp (destroy_replicator closing rp) = g"
    by (simp add: destroy_replicator_def stop_idle close_descriptor_def Let_def)
  with g' show ?thesis by simp
qed

section \<open>The pool of buffers\<close>

lemma pool_index: "unat ((c + of_nat k :: u32) AND (of_nat BUFFER_POOL_SIZE - 1)) = (unat c + k) mod 1024"
proof -
  have "of_nat BUFFER_POOL_SIZE - 1 = (2 ^ 10 - 1 :: u32)" by (simp add: BUFFER_POOL_SIZE_def)
  then have "unat ((c + of_nat k :: u32) AND (of_nat BUFFER_POOL_SIZE - 1)) = unat (c + of_nat k) mod 1024"
    by (simp only: unat_and_mask) simp
  also have "unat (c + of_nat k) = (unat c + k) mod 2 ^ 32" by (simp add: unat_word_ariths unat_of_nat mod_simps)
  also have "\<dots> mod 1024 = (unat c + k) mod 1024" by (rule mod_mod_cancel) simp
  finally show ?thesis .
qed

text \<open>The attempts visit the buffers from the index on, cyclically.\<close>

lemma pool_attempts_result:
  assumes "length (bp_in_use bp) = 1024" and "pool_attempts spurious now n bp = (r, bp')"
  shows "case r of
      Some i \<Rightarrow> i < 1024 \<and> \<not> bp_in_use bp ! i \<and> bp_in_use bp' = (bp_in_use bp)[i := True]
    | None \<Rightarrow> bp_in_use bp' = bp_in_use bp \<and> ((\<forall>k. \<not> spurious k) \<longrightarrow> (\<forall>k<n. bp_in_use bp ! ((unat (bp_index bp) + k) mod 1024)))"
  using assms
proof (induction n arbitrary: bp)
  case (Suc n)
  let ?i = "unat (bp_index bp AND (of_nat BUFFER_POOL_SIZE - 1))" and ?bp1 = "bp\<lparr>bp_index := bp_index bp + 1\<rparr>"
  have i: "?i = unat (bp_index bp) mod 1024" using pool_index [of "bp_index bp" 0] by simp
  show ?case
  proof (cases "\<not> bp_in_use bp ! ?i \<and> \<not> spurious n")
    case True
    then show ?thesis using Suc.prems i by (auto simp: Let_def)
  next
    case False
    then have rest: "pool_attempts spurious now n ?bp1 = (r, bp')" using Suc.prems(2) by (auto simp: Let_def split: if_splits)
    have shift: "(unat (bp_index bp + 1) + k) mod 1024 = (unat (bp_index bp) + Suc k) mod 1024" for k
      using pool_index [of "bp_index bp + 1" k] pool_index [of "bp_index bp" "Suc k"] by (simp add: add.assoc)
    show ?thesis
    proof (cases r)
      case (Some a)
      then show ?thesis using Suc.IH [OF _ rest] Suc.prems(1) by simp
    next
      case None
      then have IH: "bp_in_use bp' = bp_in_use bp"
          "(\<forall>k. \<not> spurious k) \<longrightarrow> (\<forall>k<n. bp_in_use bp ! ((unat (bp_index bp) + Suc k) mod 1024))"
        using Suc.IH [OF _ rest] Suc.prems(1) shift by simp_all
      have "bp_in_use bp ! ((unat (bp_index bp) + k) mod 1024)" if "\<forall>k. \<not> spurious k" "k < Suc n" for k
        using that IH(2) False i by (cases k) auto
      with None IH(1) show ?thesis by simp
    qed
  qed
qed simp

text \<open>
  The pool of buffers.  A buffer that is handed out was free and is marked, and no other buffer changes.  Nothing is handed out only when all
  buffers are taken, unless an exchange fails spuriously: the 1024 attempts reach every buffer from any index, also where the index wraps.
\<close>

theorem pool_allocation:
  assumes "length (bp_in_use bp) = BUFFER_POOL_SIZE" and "getBufferFromPool spurious now bp = (r, bp')"
  shows "case r of
      Some i \<Rightarrow> i < BUFFER_POOL_SIZE \<and> \<not> bp_in_use bp ! i \<and> bp_in_use bp' = (bp_in_use bp)[i := True]
    | None \<Rightarrow> bp_in_use bp' = bp_in_use bp \<and> ((\<forall>k. \<not> spurious k) \<longrightarrow> (\<forall>i<BUFFER_POOL_SIZE. bp_in_use bp ! i))"
proof -
  note res = pool_attempts_result [of bp spurious now 1024 r bp']
  have all: "\<forall>i<1024. P i" if "\<forall>k<1024. P ((c + k) mod 1024)" for P and c :: nat
  proof (intro allI impI)
    fix i :: nat assume i: "i < 1024"
    let ?k = "(i + (1024 - c mod 1024)) mod 1024"
    have "(c + ?k) mod 1024 = (c + (i + (1024 - c mod 1024))) mod 1024" by (rule mod_add_right_eq)
    also have "\<dots> = (c mod 1024 + (i + (1024 - c mod 1024))) mod 1024" by (rule mod_add_left_eq [symmetric])
    also have "c mod 1024 + (i + (1024 - c mod 1024)) = i + 1024" using mod_less_divisor [of 1024 c] by linarith
    finally have "(c + ?k) mod 1024 = i" using i by simp
    with that [rule_format, of ?k] show "P i" by simp
  qed
  show ?thesis
    using res assms all [of "\<lambda>j. bp_in_use bp ! j" "unat (bp_index bp)"]
    by (auto simp: getBufferFromPool_def BUFFER_POOL_SIZE_def split: option.splits)
qed

theorem pool_allocation_witness:
  "fst (getBufferFromPool (\<lambda>_. False) 5 (new_pool\<lparr>bp_index := - 1\<rparr>)) \<noteq> None"
proof
  assume n: "fst (getBufferFromPool (\<lambda>_. False) 5 (new_pool\<lparr>bp_index := - 1\<rparr>)) = None"
  obtain bp' where "getBufferFromPool (\<lambda>_. False) 5 (new_pool\<lparr>bp_index := - 1\<rparr>) = (None, bp')" using n by (metis prod.collapse)
  from pool_allocation [OF _ this] have "\<forall>i<BUFFER_POOL_SIZE. bp_in_use new_pool ! i" by (simp add: new_pool_def)
  then have "bp_in_use new_pool ! 0" by (simp add: BUFFER_POOL_SIZE_def)
  then show False by (simp add: new_pool_def BUFFER_POOL_SIZE_def)
qed

lemma pool_return: "i < length (bp_in_use bp) \<Longrightarrow> \<not> bp_in_use bp ! i \<Longrightarrow>
    bp_in_use (returnBufferToPool (Some i) (bp\<lparr>bp_in_use := (bp_in_use bp)[i := True]\<rparr>)) = bp_in_use bp"
  by (simp add: returnBufferToPool_def list_update_same_conv)

text \<open>The fast index agrees with that of the socket for 2048 frames.\<close>

lemma fast_index: "unat (fst (getNextFrameIndexFast 2048 c)) = unat c mod 2048"
  using unat_and_mask [of c 11] by (simp add: getNextFrameIndexFast_def)

section \<open>The cache of destinations\<close>

text \<open>With \<open>D t\<close> the destinations at time \<open>t\<close>: what the cache delivers was current at most 100 ms ago.\<close>

lemma cache_fresh:
  assumes "dc_cached c = D (dc_last_update c)" and "now \<le> now'" and "dests = D now'" and "getCachedDestinations now now' dests c = (ds, c')"
  shows "dc_cached c' = D (dc_last_update c') \<and> (\<exists>t. now - 100000000 \<le> t \<and> ds = D t \<and> (t = now' \<or> t = dc_last_update c))"
proof (cases "dc_cached c = [] \<or> now - dc_last_update c > 100000000")
  case True
  then show ?thesis
    using assms by (intro conjI exI [of _ now']) (auto simp: getCachedDestinations_def updateDestinationCache_def)
next
  case False
  then show ?thesis
    using assms by (intro conjI exI [of _ "dc_last_update c"]) (auto simp: getCachedDestinations_def)
qed

end
