(* ===== verification/Control_Client.thy ===== *)
theory Control_Client
  imports Replicator_Run
begin

text \<open>
  The control client, \<open>ControlClient.cpp\<close>: the messages it builds, its exchange with the replicator, and the list it prints.  The exchange is an argument
  of the operations, on a state of its own; the theorems instantiate it with the control thread of the replicator.  A client whose
  answer never comes waits forever, which is \<open>None\<close>.
\<close>

section \<open>The client\<close>

datatype reply = Send_failed | Recv_failed | No_reply | Reply "u8 list"

type_synonym 's transport = "u32 \<Rightarrow> u8 list \<Rightarrow> 's \<Rightarrow> reply \<times> 's"

text \<open>An empty datagram leaves the byte of the answer as it was, \<open>stale\<close>.\<close>

definition sendMessage :: "'s transport \<Rightarrow> u8 \<Rightarrow> string \<Rightarrow> u8 list \<Rightarrow> 's \<Rightarrow> (bool \<times> reply \<times> 's) option" where
  "sendMessage net stale server message s =
     (case inet_aton server of
        None \<Rightarrow> Some (False, No_reply, s)
      | Some a \<Rightarrow>
          (let (reply, s') = net a message s
           in if reply = Send_failed then Some (False, reply, s')
              else if message ! 0 = CTRL_ADD_DESTINATION \<or> message ! 0 = CTRL_REMOVE_DESTINATION
              then (case reply of
                      Reply bs \<Rightarrow> Some ((case bs of [] \<Rightarrow> stale = 1 | response # _ \<Rightarrow> response = 1), reply, s')
                    | No_reply \<Rightarrow> None
                    | _ \<Rightarrow> Some (False, reply, s'))
              else Some (True, reply, s')))"

definition change_message :: "u8 \<Rightarrow> u32 \<Rightarrow> u16 \<Rightarrow> u8 list" where
  "change_message command a p = [command] @ htonl_bytes a @ htons_bytes p"

definition client_addDestination :: "'s transport \<Rightarrow> u8 \<Rightarrow> string \<Rightarrow> string \<Rightarrow> u16 \<Rightarrow> 's \<Rightarrow> (bool \<times> 's) option" where
  "client_addDestination net stale server text p s =
     (case inet_aton text of
        None \<Rightarrow> Some (False, s)
      | Some a \<Rightarrow> map_option (\<lambda>(ok, _, s'). (ok, s')) (sendMessage net stale server (change_message CTRL_ADD_DESTINATION a p) s))"

definition client_removeDestination :: "'s transport \<Rightarrow> u8 \<Rightarrow> string \<Rightarrow> string \<Rightarrow> u16 \<Rightarrow> 's \<Rightarrow> (bool \<times> 's) option" where
  "client_removeDestination net stale server text p s =
     (case inet_aton text of
        None \<Rightarrow> Some (False, s)
      | Some a \<Rightarrow> map_option (\<lambda>(ok, _, s'). (ok, s')) (sendMessage net stale server (change_message CTRL_REMOVE_DESTINATION a p) s))"

text \<open>A line of the list, and the loop over the answer: \<open>n\<close> entries are left.\<close>

definition dest_line :: "nat \<Rightarrow> u32 \<Rightarrow> u16 \<Rightarrow> string" where
  "dest_line i a p = ''  '' @ show_dec (i + 1) @ ''. '' @ inet_ntop a @ '':'' @ show_dec (unat p)"

fun list_lines :: "nat \<Rightarrow> nat \<Rightarrow> nat \<Rightarrow> u8 list \<Rightarrow> string list" where
  "list_lines 0 i offset response = []"
| "list_lines (Suc n) i offset response =
     (if offset + 6 \<le> length response
      then dest_line i (ntohl_at offset response) (ntohs_at (offset + 4) response) # list_lines n (i + 1) (offset + 6) response
      else [])"

definition listDestinations :: "'s transport \<Rightarrow> u8 \<Rightarrow> string \<Rightarrow> 's \<Rightarrow> ((bool \<times> string list) \<times> 's) option" where
  "listDestinations net stale server s = do {
     (sent, reply, s') \<leftarrow> sendMessage net stale server [CTRL_LIST_DESTINATIONS] s;
     if \<not> sent then Some ((False, []), s')
     else case reply of
            Reply bytes \<Rightarrow>
              (let response = take 1024 bytes
               in if response = [] then Some ((True, [''No destinations configured'']), s')
                  else let count = unat (response ! 0)
                       in Some ((True, (''Active destinations ('' @ show_dec count @ ''):'') # list_lines count 0 1 response), s'))
          | No_reply \<Rightarrow> None
          | _ \<Rightarrow> Some ((False, []), s')
   }"

text \<open>\<open>main\<close>: the arguments without the program's name; all exceptions are caught.  The result is the exit status and the printed list.\<close>

definition control_main :: "'s transport \<Rightarrow> u8 \<Rightarrow> bool \<Rightarrow> string list \<Rightarrow> 's \<Rightarrow> ((int \<times> string list) \<times> 's) option" where
  "control_main net stale socket_ok args s =
     (if length args < 2 \<or> \<not> socket_ok then Some ((1, []), s)
      else let server_ip = args ! 0; command = args ! 1; change = (\<lambda>operation.
                 if length args \<noteq> 4 then Some ((1, []), s)
                 else case stoi (args ! 3) of
                        Inl e \<Rightarrow> Some ((1, []), s)
                      | Inr n \<Rightarrow> map_option (\<lambda>(ok, s'). ((if ok then 0 else 1, []), s')) (operation server_ip (args ! 2) (word_of_int n) s))
           in if command = ''add'' then change (client_addDestination net stale)
              else if command = ''remove'' then change (client_removeDestination net stale)
              else if command = ''list''
              then map_option (\<lambda>((ok, printed), s'). ((if ok then 0 else 1, printed), s')) (listDestinations net stale server_ip s)
              else Some ((1, []), s))"

section \<open>Client and replicator\<close>

text \<open>A network that delivers every message to the control thread and its answer back.\<close>

definition deliver :: "replicator transport" where
  "deliver a message pr =
     (case control_turn (Ctl_message message) pr of
        (Inr (Some response), pr') \<Rightarrow> (Reply response, pr')
      | (_, pr') \<Rightarrow> (No_reply, pr'))"

lemma ntohs_htons: "ntohs_at (length xs) (xs @ htons_bytes w @ ys) = w"
  by (simp add: ntohs_at_def htons_bytes_def nth_append word16_bytes)

lemma change_message_reads:
  "length (change_message c a p) = 7" "change_message c a p ! 0 = c" "ntohl_at 1 (change_message c a p) = a" "ntohs_at 5 (change_message c a p) = p"
  using ntohl_htonl [of "[c]" a "htons_bytes p"] ntohs_htons [of "[c] @ htonl_bytes a" p "[]"] by (simp_all add: change_message_def)

lemma deliver_add:
  "pr_running pr \<Longrightarrow> deliver x (change_message CTRL_ADD_DESTINATION a p) pr = (Reply [1], pr\<lparr>pr_dests := registry_add a p (pr_dests pr)\<rparr>)"
  using change_message_reads [of CTRL_ADD_DESTINATION a p]
  by (auto simp: deliver_def control_turn_def processControlMessage_def addDestination_def registry_add_def formatIpAddress_def add_to_set_def
      make_destination_ntop success_byte_def Let_def)

lemma deliver_remove:
  "pr_running pr \<Longrightarrow> deliver x (change_message CTRL_REMOVE_DESTINATION a p) pr = (Reply [1], pr\<lparr>pr_dests := registry_remove a p (pr_dests pr)\<rparr>)"
  using change_message_reads [of CTRL_REMOVE_DESTINATION a p]
  by (auto simp: deliver_def control_turn_def processControlMessage_def removeDestination_def registry_remove_def formatIpAddress_def remove_from_set_def
      make_destination_ntop success_byte_def Let_def CTRL_ADD_DESTINATION_def CTRL_REMOVE_DESTINATION_def)

section \<open>Sessions\<close>

text \<open>A sequence of calls of the client with their results, and the commands they stand for: a text that is no address stands for none.\<close>

datatype request = Add_request string u16 | Remove_request string u16

fun request_command :: "request \<Rightarrow> command option" where
  "request_command (Add_request text p) = map_option (\<lambda>a. Add a p) (inet_aton text)"
| "request_command (Remove_request text p) = map_option (\<lambda>a. Remove a p) (inet_aton text)"

fun request_call :: "'s transport \<Rightarrow> u8 \<Rightarrow> string \<Rightarrow> request \<Rightarrow> 's \<Rightarrow> (bool \<times> 's) option" where
  "request_call net stale server (Add_request text p) s = client_addDestination net stale server text p s"
| "request_call net stale server (Remove_request text p) s = client_removeDestination net stale server text p s"

fun session :: "'s transport \<Rightarrow> u8 \<Rightarrow> string \<Rightarrow> request list \<Rightarrow> 's \<Rightarrow> (bool list \<times> 's) option" where
  "session net stale server [] s = Some ([], s)"
| "session net stale server (r # rs) s = do {
     (ok, s1) \<leftarrow> request_call net stale server r s;
     (oks, s2) \<leftarrow> session net stale server rs s1;
     Some (ok # oks, s2)
   }"

lemma request_call_executes:
  assumes "pr_running pr" and "inet_aton server = Some x"
  shows "request_call deliver stale server r pr =
    (case request_command r of
       None \<Rightarrow> Some (False, pr)
     | Some c \<Rightarrow> Some (True, pr\<lparr>pr_dests := execute registry_add registry_remove c (pr_dests pr)\<rparr>))"
proof (cases r)
  case (Add_request t p)
  then show ?thesis
    using assms change_message_reads(2) [of CTRL_ADD_DESTINATION _ p]
    by (cases "inet_aton t") (simp_all add: client_addDestination_def sendMessage_def deliver_add execute_def)
next
  case (Remove_request t p)
  then show ?thesis
    using assms change_message_reads(2) [of CTRL_REMOVE_DESTINATION _ p]
    by (cases "inet_aton t") (simp_all add: client_removeDestination_def sendMessage_def deliver_remove execute_def)
qed

lemma session_executes:
  assumes "pr_running pr" and "inet_aton server = Some x"
  shows "session deliver stale server rs pr =
    Some (map (\<lambda>r. request_command r \<noteq> None) rs,
      pr\<lparr>pr_dests := fold (execute registry_add registry_remove) (map the (filter (\<lambda>c. c \<noteq> None) (map request_command rs))) (pr_dests pr)\<rparr>)"
  using assms(1)
proof (induction rs arbitrary: pr)
  case (Cons r rs)
  then show ?case by (simp add: request_call_executes [OF _ assms(2)] split: option.splits)
qed simp

text \<open>
  C10. The control protocol as a registry.  Whatever a client asks for in a row, each call succeeds exactly when the text is an address, and afterwards an address and port is subscribed exactly
  when the last request about it was an addition, or it was subscribed before and nobody asked about it; other spellings of the same
  address count as the same.
\<close>

theorem control_session_registry:
  assumes "pr_running pr" and "canonical (pr_dests pr)" and "inet_aton server = Some x"
  shows "\<exists>pr'. session deliver stale server rs pr = Some (map (\<lambda>r. request_command r \<noteq> None) rs, pr') \<and> canonical (pr_dests pr') \<and>
    (\<forall>k. k \<in> subscribers (pr_dests pr') \<longleftrightarrow>
      last_is_add k (map the (filter (\<lambda>c. c \<noteq> None) (map request_command rs))) (k \<in> subscribers (pr_dests pr)))"
  using session_executes [OF assms(1,3), of stale rs] dests.ok_run [OF assms(2)] dests.members_run [OF assms(2)] by simp

theorem control_session_registry_witness:
  "\<exists>pr'. session deliver 0 ''10.0.0.71'' [Add_request ''10.0.0.34'' 9001, Add_request ''nowhere'' 1, Remove_request ''10.34'' 9001, Add_request ''10.0.0.35'' 7] demo_replicator =
       Some ([True, False, True, True], pr') \<and>
     (0x0A000022, 9001) \<notin> subscribers (pr_dests pr') \<and> (0x0A000023, 7) \<in> subscribers (pr_dests pr')"
proof -
  have a: "inet_aton ''10.0.0.71'' = Some 0x0A000047" "inet_aton ''10.0.0.34'' = Some 0x0A000022" "inet_aton ''nowhere'' = None"
      "inet_aton ''10.34'' = Some 0x0A000022" "inet_aton ''10.0.0.35'' = Some 0x0A000023"
    by code_simp+
  have "pr_running demo_replicator" "canonical (pr_dests demo_replicator)" by (simp_all add: demo_replicator_def PacketReplicator_def canonical_def)
  from control_session_registry [OF this a(1), of 0
      "[Add_request ''10.0.0.34'' 9001, Add_request ''nowhere'' 1, Remove_request ''10.34'' 9001, Add_request ''10.0.0.35'' 7]"]
  show ?thesis unfolding last_is_add_def by (fastforce simp: a)
qed

section \<open>The list\<close>

definition list_response :: "Destination list \<Rightarrow> u8 list" where
  "list_response ds = of_nat (length ds) # concat (map (\<lambda>d. htonl_bytes (sin_addr d) @ htons_bytes (port d)) ds)"

lemma list_entries_dests:
  "\<forall>d \<in> set ds. inet_aton (ip_address d) = Some (sin_addr d) \<Longrightarrow>
    list_entries ds = Inr (concat (map (\<lambda>d. htonl_bytes (sin_addr d) @ htons_bytes (port d)) ds))"
  by (induction ds) (simp_all add: list_entry_def parseIpAddress_def)

lemma deliver_list:
  assumes "pr_running pr" and "dests_ok (pr_dests pr)"
  shows "deliver x [CTRL_LIST_DESTINATIONS] pr = (Reply (list_response (pr_dests pr)), pr)"
  using assms
  by (simp add: deliver_def control_turn_def processControlMessage_def CTRL_LIST_DESTINATIONS_def CTRL_ADD_DESTINATION_def CTRL_REMOVE_DESTINATION_def
      list_response_def getDestinations_def list_entries_dests dests_ok_def)

lemma reads_at:
  assumes "drop k bs = htonl_bytes a @ htons_bytes p @ rest" and "k \<le> length bs"
  shows "ntohl_at k bs = a \<and> ntohs_at (k + 4) bs = p"
proof -
  have bs: "bs = take k bs @ htonl_bytes a @ htons_bytes p @ rest" using assms(1) by (metis append_take_drop_id)
  have l: "length (take k bs) = k" using assms(2) by simp
  have "ntohl_at (length (take k bs)) (take k bs @ htonl_bytes a @ htons_bytes p @ rest) = a" by (rule ntohl_htonl)
  moreover have "ntohs_at (length (take k bs @ htonl_bytes a)) ((take k bs @ htonl_bytes a) @ htons_bytes p @ rest) = p" by (rule ntohs_htons)
  ultimately show ?thesis unfolding length_append append_assoc l length_htonl_bytes bs [symmetric] by simp
qed

lemma list_lines_entries:
  assumes "drop offset response = take L (concat (map (\<lambda>d. htonl_bytes (sin_addr d) @ htons_bytes (port d)) ds))" and "offset \<le> length response"
  shows "list_lines n i offset response = map (\<lambda>(k, d). dest_line k (sin_addr d) (port d)) (enumerate i (take (min n (L div 6)) ds))"
  using assms
proof (induction n arbitrary: i offset L ds)
  case (Suc n)
  have len: "length response = offset + length (drop offset response)" using Suc.prems(2) by simp
  show ?case
  proof (cases "ds = [] \<or> L < 6")
    case True
    then have "length (drop offset response) < 6" using Suc.prems(1) by auto
    then have "\<not> offset + 6 \<le> length response" using len by linarith
    then show ?thesis using True by auto
  next
    case False
    then obtain d rest where ds: "ds = d # rest" by (cases ds) auto
    let ?e = "\<lambda>d. htonl_bytes (sin_addr d) @ htons_bytes (port d)"
    have d: "drop offset response = htonl_bytes (sin_addr d) @ htons_bytes (port d) @ take (L - 6) (concat (map ?e rest))"
      using Suc.prems(1) False ds by simp
    have long: "offset + 6 \<le> length response" using len unfolding d by simp
    have "ntohl_at offset response = sin_addr d" "ntohs_at (offset + 4) response = port d"
      using reads_at [OF d Suc.prems(2)] by simp_all
    moreover have "drop (offset + 6) response = take (L - 6) (concat (map ?e rest))"
    proof -
      have "drop (offset + 6) response = drop 6 (drop offset response)" by (simp add: add.commute)
      then show ?thesis unfolding d by simp
    qed
    moreover have "min (Suc n) (L div 6) = Suc (min n ((L - 6) div 6))" using False by (simp add: le_div_geq)
    ultimately show ?thesis
      using Suc.IH [of "offset + 6" "L - 6" rest "i + 1"] long ds by simp
  qed
qed simp

text \<open>
  C27. Listing the destinations.  The client prints the destinations of the replicator in their order, numbered, all of them as long as there are at most 170; beyond
  that it prints only what fits its buffer of 1024 bytes, and the announced number is the true one modulo 256, which also limits what is printed.
\<close>

theorem list_prints_destinations:
  assumes "pr_running pr" and "dests_ok (pr_dests pr)" and "inet_aton server = Some x"
  shows "listDestinations deliver stale server pr =
    Some ((True, (''Active destinations ('' @ show_dec (length (pr_dests pr) mod 256) @ ''):'') #
      map (\<lambda>(k, d). dest_line k (sin_addr d) (port d)) (enumerate 0 (take (min (length (pr_dests pr) mod 256) 170) (pr_dests pr)))), pr)"
proof -
  let ?ds = "pr_dests pr" and ?r = "take 1024 (list_response (pr_dests pr))"
  have r: "?r = of_nat (length ?ds) # take 1023 (concat (map (\<lambda>d. htonl_bytes (sin_addr d) @ htons_bytes (port d)) ?ds))"
    by (simp add: list_response_def)
  have "list_lines (length ?ds mod 256) 0 1 ?r = map (\<lambda>(k, d). dest_line k (sin_addr d) (port d)) (enumerate 0 (take (min (length ?ds mod 256) (1023 div 6)) ?ds))"
    by (rule list_lines_entries) (simp_all add: r)
  then have l: "list_lines (length ?ds mod 256) 0 1 ?r = map (\<lambda>(k, d). dest_line k (sin_addr d) (port d)) (enumerate 0 (take (min (length ?ds mod 256) 170) ?ds))"
    by simp
  have c: "list_response ?ds \<noteq> []" "unat (list_response ?ds ! 0) = length ?ds mod 256" by (simp_all add: list_response_def unat_of_nat)
  have "sendMessage deliver stale server [CTRL_LIST_DESTINATIONS] pr = Some (True, Reply (list_response ?ds), pr)"
    using deliver_list [OF assms(1,2)] assms(3)
    by (simp add: sendMessage_def CTRL_ADD_DESTINATION_def CTRL_REMOVE_DESTINATION_def CTRL_LIST_DESTINATIONS_def)
  then show ?thesis unfolding listDestinations_def using l by (simp add: Let_def c)
qed

theorem list_prints_destinations_witness:
  "listDestinations deliver 0 ''10.0.0.71'' (demo_replicator\<lparr>pr_dests := [demo_dest]\<rparr>) =
     Some ((True, [''Active destinations (1):'', ''  1. 10.0.0.34:9001'']), demo_replicator\<lparr>pr_dests := [demo_dest]\<rparr>)"
proof -
  let ?pr = "demo_replicator\<lparr>pr_dests := [demo_dest]\<rparr>"
  have a: "inet_aton ''10.0.0.71'' = Some 0x0A000047" "inet_aton ''10.0.0.34'' = Some 0x0A000022" by code_simp+
  have l: "dest_line 0 0x0A000022 9001 = ''  1. 10.0.0.34:9001''" "show_dec 1 = ''1''" by code_simp+
  have "pr_running ?pr" "dests_ok (pr_dests ?pr)"
    by (simp_all add: demo_replicator_def PacketReplicator_def dests_ok_def demo_dest_def a)
  from list_prints_destinations [OF this a(1), of 0] show ?thesis using l by (simp add: demo_dest_def)
qed

end
