(* ===== verification/Market_Data.thy ===== *)
theory Market_Data
  imports Cpp_Lib Net_Packet Binary64 "HOL-Library.Multiset"
begin

text \<open>
  The benchmark client of the packet replicator, \<open>MarketDataProviderClient.cpp\<close>: the trade message with its number, the bookkeeping of messages under way by the sending and
  the receiving thread, and the statistics at the end.  Clock readings are nanoseconds, results of system calls are arguments, floating point numbers are rounded as in
  \<open>Binary64\<close>.  The hash map of the messages is the list of its entries; that the order of the entries is of no consequence is proved.
\<close>

section \<open>The trade message\<close>

definition message_template :: "u8 list" where
  "message_template = map of_char ''{\"e\":\"trade\",\"E\":1234567890123,\"s\":\"BTC-USDT\",\"t\":0000000000,\"p\":\"45000\",\"q\":\"1.5\",\"b\":1000000001,\"a\":1000000002,\"T\":1234567890000,\"S\":\"1\",\"X\":\"MARKET\"}''"

definition trade_id_offset :: nat where "trade_id_offset = 38"

text \<open>The loop from the last digit to the first: \<open>n\<close> digits are left.\<close>

fun write_digits :: "nat \<Rightarrow> u64 \<Rightarrow> u8 list \<Rightarrow> u8 list" where
  "write_digits 0 trade_id buffer = buffer"
| "write_digits (Suc i) trade_id buffer = write_digits i (trade_id div 10) (buffer[trade_id_offset + i := 48 + ucast (trade_id mod 10)])"

definition generateTradeMessage :: "u64 \<Rightarrow> u8 list \<Rightarrow> u8 list \<times> nat" where
  "generateTradeMessage trade_id buffer =
     (let b1 = put_bytes 0 message_template buffer;
          b2 = write_digits 10 trade_id b1;
          len = length message_template
      in (b2[len := 0], len))"

fun read_digits :: "nat \<Rightarrow> u8 list \<Rightarrow> u64 \<Rightarrow> u64" where
  "read_digits (Suc n) (c # cs) trade_id = (if c < 48 \<or> 57 < c then 0 else read_digits n cs (trade_id * 10 + ucast (c - 48)))"
| "read_digits _ _ trade_id = trade_id"

definition extractTradeId :: "u8 list \<Rightarrow> u64" where
  "extractTradeId message =
     (if length message < trade_id_offset + 10 then 0 else read_digits 10 (drop trade_id_offset message) 0)"

section \<open>Messages under way\<close>

record TradeTimingInfo =
  send_time :: int
  received :: bool
  rtt_us :: u64

record bench =
  b_running :: bool
  b_timing :: "(u64 \<times> TradeTimingInfo) list"
  b_sent :: u64
  b_received :: u64
  b_lost :: u64
  b_histogram :: "u64 list"
  b_over_10ms :: u64

definition new_bench :: bench where
  "new_bench = \<lparr>b_running = True, b_timing = [], b_sent = 0, b_received = 0, b_lost = 0, b_histogram = replicate 10000 0, b_over_10ms = 0\<rparr>"

fun timing_put :: "u64 \<Rightarrow> TradeTimingInfo \<Rightarrow> (u64 \<times> TradeTimingInfo) list \<Rightarrow> (u64 \<times> TradeTimingInfo) list" where
  "timing_put k v [] = [(k, v)]"
| "timing_put k v ((k', v') # es) = (if k = k' then (k, v) # es else (k', v') # timing_put k v es)"

text \<open>\<open>duration_cast\<close> to microseconds truncates towards zero.\<close>

definition rtt_of :: "int \<Rightarrow> int \<Rightarrow> int" where
  "rtt_of sent recv = (if recv \<ge> sent then (recv - sent) div 1000 else - ((sent - recv) div 1000))"

text \<open>A negative time indexes the histogram outside of its bounds: \<open>None\<close>.\<close>

definition processReceivedMessage :: "u64 \<Rightarrow> int \<Rightarrow> bench \<Rightarrow> bench option" where
  "processReceivedMessage trade_id recv_time b =
     (case map_of (b_timing b) trade_id of
        None \<Rightarrow> Some b
      | Some t \<Rightarrow>
          (if received t then Some b
           else let rtt = rtt_of (send_time t) recv_time;
                    b1 = b\<lparr>b_timing := timing_put trade_id (t\<lparr>received := True, rtt_us := word_of_int rtt\<rparr>) (b_timing b)\<rparr>
                in if rtt < 10000
                   then (if rtt < 0 then None
                         else Some (b1\<lparr>b_histogram := (b_histogram b1)[nat rtt := b_histogram b1 ! nat rtt + 1], b_received := b_received b1 + 1\<rparr>))
                   else Some (b1\<lparr>b_over_10ms := b_over_10ms b1 + 1, b_received := b_received b1 + 1\<rparr>)))"

text \<open>One turn of the receiver: a time-out of \<open>poll\<close> or an error is \<open>None\<close>, else the datagram.\<close>

definition bench_receive_turn :: "u8 list option \<Rightarrow> int \<Rightarrow> bench \<Rightarrow> bench option" where
  "bench_receive_turn datagram recv_time b =
     (if \<not> b_running b then Some b
      else case datagram of
             None \<Rightarrow> Some b
           | Some bytes \<Rightarrow>
               (let buffer = take 2047 bytes
                in if buffer = [] then Some b
                   else let trade_id = extractTradeId buffer
                        in if trade_id > 0 then processReceivedMessage trade_id recv_time b else Some b))"

text \<open>
  The sending loop, one message per turn: the clock, whether \<open>sendto\<close> succeeds, and the state with the next number and the time of the
  next message.  A failed send skips the pacing.
\<close>

record bench_run =
  br_bench :: bench
  br_trade_id :: u64
  br_next_send_time :: int
  br_output :: "u8 list list"

definition bench_send_turn :: "u64 \<Rightarrow> u64 \<Rightarrow> int \<Rightarrow> bool \<Rightarrow> bench_run \<Rightarrow> bench_run" where
  "bench_send_turn total_messages messages_per_sec now sent_ok r =
     (if br_trade_id r \<le> total_messages \<and> b_running (br_bench r)
      then let (buffer, len) = generateTradeMessage (br_trade_id r) (replicate 512 0);
               b = br_bench r;
               b1 = b\<lparr>b_timing := timing_put (br_trade_id r) \<lparr>send_time = now, received = False, rtt_us = 0\<rparr> (b_timing b)\<rparr>;
               r1 = r\<lparr>br_trade_id := br_trade_id r + 1\<rparr>
           in if \<not> sent_ok then r1\<lparr>br_bench := b1\<rparr>
              else r1\<lparr>br_bench := b1\<lparr>b_sent := b_sent b1 + 1\<rparr>, br_output := br_output r1 @ [take len buffer],
                     br_next_send_time := br_next_send_time r1 + 1000 * uint (1000000 div messages_per_sec)\<rparr>
      else r)"

datatype bench_event = Send_turn int bool | Receive_turn "u8 list option" int | Stop_signal

fun bench_step :: "u64 \<Rightarrow> u64 \<Rightarrow> bench_event \<Rightarrow> bench_run \<Rightarrow> bench_run option" where
  "bench_step total_messages rate (Send_turn now sent_ok) r = Some (bench_send_turn total_messages rate now sent_ok r)"
| "bench_step total_messages rate (Receive_turn datagram now) r = map_option (\<lambda>b. r\<lparr>br_bench := b\<rparr>) (bench_receive_turn datagram now (br_bench r))"
| "bench_step total_messages rate Stop_signal r = Some (r\<lparr>br_bench := (br_bench r)\<lparr>b_running := False\<rparr>\<rparr>)"

fun bench_steps :: "u64 \<Rightarrow> u64 \<Rightarrow> bench_event list \<Rightarrow> bench_run \<Rightarrow> bench_run option" where
  "bench_steps total_messages rate [] r = Some r"
| "bench_steps total_messages rate (e # es) r = (case bench_step total_messages rate e r of None \<Rightarrow> None | Some r' \<Rightarrow> bench_steps total_messages rate es r')"

section \<open>Statistics\<close>

text \<open>The loop over the map: lost messages, sum, least and greatest time, and all times.\<close>

definition collect_entry :: "TradeTimingInfo \<Rightarrow> u64 \<times> u64 \<times> u64 \<times> u64 \<times> u64 list \<Rightarrow> u64 \<times> u64 \<times> u64 \<times> u64 \<times> u64 list" where
  "collect_entry t s =
     (case s of (lost, total_rtt, min_rtt, max_rtt, all_rtts) \<Rightarrow>
        if \<not> received t then (lost + 1, total_rtt, min_rtt, max_rtt, all_rtts)
        else (lost, total_rtt + rtt_us t, min min_rtt (rtt_us t), max max_rtt (rtt_us t), all_rtts @ [rtt_us t]))"

definition collect :: "(u64 \<times> TradeTimingInfo) list \<Rightarrow> u64 \<times> u64 \<times> u64 \<times> u64 \<times> u64 list" where
  "collect es = fold (\<lambda>e. collect_entry (snd e)) es (0, 0, - 1, 0, [])"

definition percentile_index :: "nat \<Rightarrow> rat \<Rightarrow> nat" where
  "percentile_index n p = min (n - 1) (nat \<lfloor>fl64 (fl64 (fl64 (of_nat n) * p) / 100)\<rfloor>)"

definition percentile :: "u64 list \<Rightarrow> rat \<Rightarrow> u64" where
  "percentile all_rtts p = all_rtts ! percentile_index (length all_rtts) p"

text \<open>The literals of the calls; \<open>99.9\<close> is rounded.\<close>

definition bench_percentiles :: "rat list" where
  "bench_percentiles = [50, 90, 95, 99, fl64 (999 / 10)]"

text \<open>\<open>std::sort\<close> does not fix the order of buckets with equal counts; here they keep the order of the times.\<close>

definition histogram_buckets :: "u64 list \<Rightarrow> (nat \<times> u64) list" where
  "histogram_buckets hist = take 10 (sort_key (\<lambda>b. - uint (snd b)) (filter (\<lambda>b. snd b > 0) (enumerate 0 hist)))"

definition percentage :: "u64 \<Rightarrow> u64 \<Rightarrow> rat" where
  "percentage part whole = fl64 (fl64 (100 * fl64 (of_nat (unat part))) / fl64 (of_nat (unat whole)))"

text \<open>What is printed; the second part only when something was received, with the percentiles when there is a time.\<close>

record latency_report =
  lr_min :: u64
  lr_avg :: rat
  lr_max :: u64
  lr_percentiles :: "u64 list"
  lr_buckets :: "((nat \<times> u64) \<times> rat) list"
  lr_over_10ms :: "(u64 \<times> rat) option"

record bench_report =
  rep_sent :: u64
  rep_received :: u64
  rep_lost :: u64
  rep_loss_rate :: rat
  rep_send_rate :: rat
  rep_latency :: "latency_report option"

definition calculateStatistics :: "u64 \<Rightarrow> bench \<Rightarrow> bench_report \<times> bench" where
  "calculateStatistics send_duration_ms b =
     (let (lost, total_rtt, min_rtt, max_rtt, all_rtts) = collect (b_timing b);
          sorted_rtts = sort all_rtts;
          latency = \<lparr>lr_min = min_rtt, lr_avg = fl64 (fl64 (of_nat (unat total_rtt)) / fl64 (of_nat (unat (b_received b)))), lr_max = max_rtt,
            lr_percentiles = (if all_rtts = [] then [] else map (percentile sorted_rtts) bench_percentiles),
            lr_buckets = map (\<lambda>bucket. (bucket, percentage (snd bucket) (b_received b))) (histogram_buckets (b_histogram b)),
            lr_over_10ms = (if b_over_10ms b > 0 then Some (b_over_10ms b, percentage (b_over_10ms b) (b_received b)) else None)\<rparr>
      in (\<lparr>rep_sent = b_sent b, rep_received = b_received b, rep_lost = lost,
           rep_loss_rate = (if b_sent b > 0 then percentage lost (b_sent b) else 0),
           rep_send_rate = (if send_duration_ms > 0
             then fl64 (fl64 (fl64 (of_nat (unat (b_sent b))) * 1000) / fl64 (of_nat (unat send_duration_ms))) else 0),
           rep_latency = (if b_received b > 0 then Some latency else None)\<rparr>, b\<lparr>b_lost := lost\<rparr>))"

section \<open>Set-up and program\<close>

text \<open>
  The results of the system calls: the descriptors, \<open>bind\<close>, and the status of the control client that is started to subscribe.
\<close>

record bench_io =
  bi_send_fd :: int
  bi_recv_fd :: int
  bi_bound :: bool
  bi_system :: "string \<Rightarrow> int"

definition subscribe_command :: "string \<Rightarrow> string \<Rightarrow> u16 \<Rightarrow> string" where
  "subscribe_command multiplexer_ip local_ip local_port =
     ''./control_client '' @ multiplexer_ip @ '' add '' @ local_ip @ '' '' @ show_dec (unat local_port)"

definition addSelfAsSubscriber :: "bench_io \<Rightarrow> string \<Rightarrow> string \<Rightarrow> u16 \<Rightarrow> bool" where
  "addSelfAsSubscriber io multiplexer_ip local_ip local_port = (bi_system io (subscribe_command multiplexer_ip local_ip local_port) = 0)"

definition bench_initialize :: "bench_io \<Rightarrow> string \<Rightarrow> string \<Rightarrow> u16 \<Rightarrow> bool" where
  "bench_initialize io multiplexer_ip local_ip local_port =
     (if bi_send_fd io < 0 then False
      else if inet_aton multiplexer_ip = None then False
      else if bi_recv_fd io < 0 then False
      else if inet_aton local_ip = None then False
      else if \<not> bi_bound io then False
      else addSelfAsSubscriber io multiplexer_ip local_ip local_port)"

text \<open>\<open>runBenchmark\<close>: both threads, then the receiver alone during the wait; \<open>send_duration\<close> is the time of the sending in milliseconds.\<close>

definition runBenchmark :: "u64 \<Rightarrow> u64 \<Rightarrow> int \<Rightarrow> u64 \<Rightarrow> bench_event list \<Rightarrow> (bench_report \<times> bench_run) option" where
  "runBenchmark total_messages rate start_time send_duration events =
     map_option (\<lambda>r. let b = (br_bench r)\<lparr>b_running := False\<rparr>; (report, b') = calculateStatistics send_duration b in (report, r\<lparr>br_bench := b'\<rparr>))
       (bench_steps total_messages rate events \<lparr>br_bench = new_bench, br_trade_id = 1, br_next_send_time = start_time, br_output = []\<rparr>)"

text \<open>The conversions of \<open>main\<close>, none of which is inside the \<open>try\<close> block, and the exit status; \<open>None\<close> in the pair is a run of the benchmark.\<close>

definition bench_arguments :: "string list \<Rightarrow> (string \<times> u16 \<times> string \<times> u16 \<times> u64 \<times> u64) outcome" where
  "bench_arguments args =
     (case (stoi (args ! 1), stoi (args ! 3), stoull (args ! 4), stoull (args ! 5)) of
        (Inl e, _) \<Rightarrow> Inl e
      | (_, Inl e, _) \<Rightarrow> Inl e
      | (_, _, Inl e, _) \<Rightarrow> Inl e
      | (_, _, _, Inl e) \<Rightarrow> Inl e
      | (Inr mp, Inr lp, Inr total_messages, Inr rate) \<Rightarrow> Inr (args ! 0, word_of_int mp, args ! 2, word_of_int lp, total_messages, rate))"

datatype bench_exit = Bench_exit int | Bench_uncaught cpp_exception | Bench_run bench_report bench_run

definition bench_main :: "bench_io \<Rightarrow> int \<Rightarrow> u64 \<Rightarrow> bench_event list \<Rightarrow> string list \<Rightarrow> bench_exit option" where
  "bench_main io start_time send_duration events args =
     (if length args \<noteq> 6 then Some (Bench_exit 1)
      else case bench_arguments args of
             Inl e \<Rightarrow> Some (Bench_uncaught e)
           | Inr (multiplexer_ip, multiplexer_port, local_ip, local_port, total_messages, rate) \<Rightarrow>
               (if total_messages = 0 \<or> rate = 0 then Some (Bench_exit 1)
                else if \<not> bench_initialize io multiplexer_ip local_ip local_port then Some (Bench_exit 1)
                else map_option (\<lambda>(report, r). Bench_run report r) (runBenchmark total_messages rate start_time send_duration events)))"

section \<open>The number in the message\<close>

fun digit_bytes :: "nat \<Rightarrow> u64 \<Rightarrow> u8 list" where
  "digit_bytes 0 k = []"
| "digit_bytes (Suc n) k = (48 + ucast (k mod 10)) # digit_bytes n (k div 10)"

lemma length_digit_bytes [simp]: "length (digit_bytes n k) = n"
  by (induction n arbitrary: k) simp_all

lemma write_digits_bytes:
  assumes "length pre = trade_id_offset" and "length old = n"
  shows "write_digits n k (pre @ old @ post) = pre @ rev (digit_bytes n k) @ post"
  using assms(2)
proof (induction n arbitrary: k old post)
  case (Suc n)
  obtain old' x where o: "old = old' @ [x]" "length old' = n" using Suc.prems by (cases old rule: rev_cases) auto
  have "(pre @ old @ post)[trade_id_offset + n := 48 + ucast (k mod 10)] = pre @ old' @ (48 + ucast (k mod 10)) # post"
    using assms(1) o by (simp add: list_update_append)
  then show ?case using Suc.IH [OF o(2), of "k div 10" "(48 + ucast (k mod 10)) # post"] by simp
qed simp

text \<open>A digit is read back as it was written.\<close>

lemma digit_byte:
  fixes k :: u64
  shows "\<not> (48 + ucast (k mod 10) :: u8) < 48" "\<not> 57 < (48 + ucast (k mod 10) :: u8)" "ucast (48 + ucast (k mod 10) - 48 :: u8) = k mod 10"
proof -
  have m: "unat (k mod 10) = unat k mod 10" by (simp add: unat_mod)
  then have k: "unat (k mod 10) < 10" by simp
  then have u: "unat (ucast (k mod 10) :: u8) = unat (k mod 10)" by (intro unat_ucast_small) simp
  have a: "unat (48 + ucast (k mod 10) :: u8) = 48 + unat (k mod 10)" using k u by (simp add: unat_word_ariths)
  show "\<not> (48 + ucast (k mod 10) :: u8) < 48" "\<not> 57 < (48 + ucast (k mod 10) :: u8)" using a k by (simp_all add: word_less_nat_alt)
  have "unat (ucast (ucast (k mod 10) :: u8) :: u64) = unat (k mod 10)" using u by (subst unat_ucast_small) (use k in simp_all)
  then show "ucast (48 + ucast (k mod 10) - 48 :: u8) = k mod 10" by (simp add: word_unat_eq_iff)
qed

lemma read_digits_append:
  assumes "\<forall>c \<in> set xs. \<not> c < 48 \<and> \<not> 57 < c"
  shows "read_digits (length xs + m) (xs @ ys) acc = read_digits m ys (read_digits (length xs) xs acc)"
  using assms by (induction xs arbitrary: acc) simp_all

lemma digit_bytes_digits: "\<forall>c \<in> set (digit_bytes n k). \<not> c < 48 \<and> \<not> 57 < c"
proof (induction n arbitrary: k)
  case (Suc n)
  then show ?case using digit_byte(1,2) [of k] by simp
qed simp

lemma mod_step: "x mod 10 ^ Suc n = 10 * (x div 10 mod 10 ^ n) + x mod (10 :: nat)"
  using mod_mult2_eq [of x 10 "10 ^ n"] by simp

lemma unat_numeral_10: "unat (10 :: u64) = 10"
  by simp

lemma digit_value: "(k :: u64) mod 10 = of_nat (unat k mod 10)"
proof -
  have "of_nat (unat (k mod 10)) = k mod 10" by simp
  then show ?thesis unfolding unat_mod unat_numeral_10 by (rule sym)
qed

lemma read_digit_bytes: "read_digits n (rev (digit_bytes n k)) acc = acc * 10 ^ n + of_nat (unat k mod 10 ^ n)"
proof (induction n arbitrary: k acc)
  case (Suc n)
  let ?d = "48 + ucast (k mod 10) :: u8"
  have "read_digits (Suc n) (rev (digit_bytes n (k div 10)) @ [?d]) acc = read_digits (Suc 0) [?d] (read_digits n (rev (digit_bytes n (k div 10))) acc)"
    using read_digits_append [of "rev (digit_bytes n (k div 10))" "Suc 0" "[?d]" acc] digit_bytes_digits [of n "k div 10"] by simp
  also have "\<dots> = (acc * 10 ^ n + of_nat (unat (k div 10) mod 10 ^ n)) * 10 + k mod 10"
    using Suc.IH [of "k div 10" acc] digit_byte [of k] by simp
  also have "\<dots> = acc * 10 ^ Suc n + of_nat (unat k mod 10 ^ Suc n)"
    unfolding mod_step unat_div unat_numeral_10 digit_value [of k] by (simp add: algebra_simps)
  finally show ?case by simp
qed simp

lemma length_template: "length message_template = 152"
  by (simp add: message_template_def)

lemma generated_message:
  assumes "153 \<le> length buffer"
  shows "snd (generateTradeMessage k buffer) = 152 \<and> length (fst (generateTradeMessage k buffer)) = length buffer \<and>
    take 152 (fst (generateTradeMessage k buffer)) = take 38 message_template @ rev (digit_bytes 10 k) @ drop 48 message_template"
proof -
  let ?t = message_template
  have t: "?t = take 38 ?t @ take 10 (drop 38 ?t) @ drop 48 ?t"
    using append_take_drop_id [of 38 ?t] append_take_drop_id [of 10 "drop 38 ?t"] by simp
  have l: "length (take 38 ?t) = trade_id_offset" "length (take 10 (drop 38 ?t)) = 10" by (simp_all add: length_template trade_id_offset_def)
  have "put_bytes 0 ?t buffer = take 38 ?t @ take 10 (drop 38 ?t) @ drop 48 ?t @ drop 152 buffer"
    using t by (simp add: put_bytes_def length_template)
  then have w: "write_digits 10 k (put_bytes 0 ?t buffer) = take 38 ?t @ rev (digit_bytes 10 k) @ drop 48 ?t @ drop 152 buffer"
    using write_digits_bytes [OF l] by simp
  have n: "length (take 38 ?t @ rev (digit_bytes 10 k) @ drop 48 ?t) = 152" by (simp add: length_template)
  have "take 152 (take 38 ?t @ rev (digit_bytes 10 k) @ drop 48 ?t @ drop 152 buffer) = take 38 ?t @ rev (digit_bytes 10 k) @ drop 48 ?t"
    using n by (simp add: length_template)
  then show ?thesis using assms w by (simp add: generateTradeMessage_def length_template Let_def)
qed

lemma extract_generated:
  assumes "153 \<le> length buffer" and "generateTradeMessage trade_id buffer = (buffer', len)"
  shows "len = 152 \<and> extractTradeId (take len buffer') = of_nat (unat trade_id mod 10 ^ 10)"
proof -
  have g: "len = 152" "take 152 buffer' = take 38 message_template @ rev (digit_bytes 10 trade_id) @ drop 48 message_template"
    using generated_message [OF assms(1), of trade_id] assms(2) by simp_all
  have "drop trade_id_offset (take 152 buffer') = rev (digit_bytes 10 trade_id) @ drop 48 message_template"
    unfolding g(2) by (simp add: trade_id_offset_def length_template)
  moreover have "read_digits (length (rev (digit_bytes 10 trade_id)) + 0) (rev (digit_bytes 10 trade_id) @ drop 48 message_template) 0 =
      read_digits 0 (drop 48 message_template) (read_digits (length (rev (digit_bytes 10 trade_id))) (rev (digit_bytes 10 trade_id)) 0)"
    using digit_bytes_digits [of 10 trade_id] by (intro read_digits_append) simp
  moreover have "\<not> length (take 152 buffer') < trade_id_offset + 10"
    unfolding g(2) by (simp add: trade_id_offset_def length_template)
  ultimately show ?thesis
    using g(1) by (simp add: extractTradeId_def read_digit_bytes del: digit_bytes.simps)
qed

text \<open>
  The number of a message.  What the receiver extracts from a generated message is the number that was put into it, modulo \<open>10^10\<close>, for all 64-bit numbers and any content of the
  buffer.  The message has 152 bytes.
\<close>

theorem trade_id_roundtrip:
  assumes "153 \<le> length buffer" and "generateTradeMessage trade_id buffer = (buffer', len)"
  shows "len = 152 \<and> extractTradeId (take len buffer') = of_nat (unat trade_id mod 10 ^ 10)"
  using assms by (rule extract_generated)

theorem trade_id_roundtrip_witness:
  "extractTradeId (take 152 (fst (generateTradeMessage 1234567 (replicate 512 7)))) = 1234567"
proof -
  obtain buffer' len where g: "generateTradeMessage 1234567 (replicate 512 7) = (buffer', len)" by (cases "generateTradeMessage 1234567 (replicate 512 7)")
  from trade_id_roundtrip [OF _ g] show ?thesis using g by auto
qed

text \<open>
  The place of the number is not that of the field \<open>t\<close>: the number replaces the end of the symbol and the name of the field.
\<close>

lemma wrong_offset:
  "take 10 (drop trade_id_offset message_template) = map of_char ''C-USDT\",\"t'' \<and> take 10 (drop 50 message_template) = map of_char ''0000000000''"
  by (simp add: trade_id_offset_def message_template_def)

lemma message_for_one:
  "take 64 (fst (generateTradeMessage 1 (replicate 512 0))) = map of_char ''{\"e\":\"trade\",\"E\":1234567890123,\"s\":\"BT0000000001\":0000000000,\"p\"''"
proof -
  have m: "take 64 (fst (generateTradeMessage 1 (replicate 512 0))) = take 64 (take 152 (fst (generateTradeMessage 1 (replicate 512 0))))" by simp
  have d: "rev (digit_bytes 10 1) = map of_char ''0000000001''" by code_simp
  have "take 152 (fst (generateTradeMessage 1 (replicate 512 0))) = take 38 message_template @ rev (digit_bytes 10 1) @ drop 48 message_template"
    using generated_message [of "replicate 512 0" 1] by simp
  then show ?thesis unfolding m d by (simp add: message_template_def)
qed

section \<open>Accounting\<close>

text \<open>
  The state of a run: the numbers \<open>1 .. n\<close> have been used once each, everything received is in the histogram or above it, and counted once.
\<close>

definition received_count :: "(u64 \<times> TradeTimingInfo) list \<Rightarrow> nat" where
  "received_count es = length (filter (\<lambda>e. received (snd e)) es)"

definition bench_ok :: "bench \<Rightarrow> bool" where
  "bench_ok b \<longleftrightarrow> distinct (map fst (b_timing b)) \<and> b_received b = of_nat (received_count (b_timing b)) \<and> length (b_histogram b) = 10000 \<and>
     of_nat (received_count (b_timing b)) = sum_list (b_histogram b) + b_over_10ms b"

lemma keys_timing_put: "fst ` set (timing_put k v es) = insert k (fst ` set es)"
  by (induction k v es rule: timing_put.induct) auto

lemma distinct_timing_put: "distinct (map fst es) \<Longrightarrow> distinct (map fst (timing_put k v es))"
proof (induction k v es rule: timing_put.induct)
  case (2 k v k' v' es)
  then show ?case using keys_timing_put [of k v es] by (auto simp: image_iff)
qed simp

lemma received_count_put_new: "k \<notin> fst ` set es \<Longrightarrow> received_count (timing_put k v es) = received_count es + (if received v then 1 else 0)"
  by (induction k v es rule: timing_put.induct) (auto simp: received_count_def)

lemma received_count_put:
  "distinct (map fst es) \<Longrightarrow> map_of es k = Some t \<Longrightarrow> \<not> received t \<Longrightarrow> received v \<Longrightarrow> received_count (timing_put k v es) = received_count es + 1"
  by (induction k v es rule: timing_put.induct) (auto simp: received_count_def split: if_splits)

lemma length_timing_put: "length (timing_put k v es) = (if k \<in> fst ` set es then length es else length es + 1)"
  by (induction k v es rule: timing_put.induct) auto

lemma sum_list_bump: "i < length xs \<Longrightarrow> sum_list (xs[i := xs ! i + 1]) = sum_list xs + (1 :: u64)"
proof (induction xs arbitrary: i)
  case (Cons x xs)
  then show ?case by (cases i) (simp_all add: ac_simps)
qed simp

lemma processReceivedMessage_ok:
  assumes "bench_ok b" and "processReceivedMessage k t b = Some b'"
  shows "bench_ok b' \<and> fst ` set (b_timing b') = fst ` set (b_timing b) \<and> length (b_timing b') = length (b_timing b) \<and> b_sent b' = b_sent b \<and> b_running b' = b_running b"
proof (cases "map_of (b_timing b) k")
  case None
  then show ?thesis using assms by (simp add: processReceivedMessage_def)
next
  case (Some ti)
  have k: "k \<in> fst ` set (b_timing b)" using Some by (metis map_of_eq_None_iff option.distinct(1))
  show ?thesis
  proof (cases "received ti")
    case True
    then show ?thesis using Some assms by (simp add: processReceivedMessage_def)
  next
    case False
    let ?rtt = "rtt_of (send_time ti) t"
    let ?es = "timing_put k (ti\<lparr>received := True, rtt_us := word_of_int ?rtt\<rparr>) (b_timing b)"
    have "distinct (map fst (b_timing b))" using assms(1) by (simp add: bench_ok_def)
    then have es: "distinct (map fst ?es)" "received_count ?es = received_count (b_timing b) + 1" "fst ` set ?es = fst ` set (b_timing b)" "length ?es = length (b_timing b)"
      using received_count_put [OF _ Some False] k by (simp_all add: distinct_timing_put keys_timing_put length_timing_put insert_absorb)
    have inv: "of_nat (received_count (b_timing b)) = sum_list (b_histogram b) + b_over_10ms b"
      using assms(1) by (metis bench_ok_def)
    consider "0 \<le> ?rtt" "?rtt < 10000" | "10000 \<le> ?rtt"
      using assms(2) Some False by (fastforce simp: processReceivedMessage_def Let_def split: if_splits)
    then show ?thesis
    proof cases
      case 1
      have "nat ?rtt < length (b_histogram b)" using 1 assms(1) by (simp add: bench_ok_def)
      then have h: "sum_list ((b_histogram b)[nat ?rtt := b_histogram b ! nat ?rtt + 1]) = sum_list (b_histogram b) + 1" by (rule sum_list_bump)
      have "b' = b\<lparr>b_timing := ?es, b_histogram := (b_histogram b)[nat ?rtt := b_histogram b ! nat ?rtt + 1], b_received := b_received b + 1\<rparr>"
        using assms(2) Some False 1 by (simp add: processReceivedMessage_def Let_def)
      then show ?thesis using assms(1) es h inv by (simp add: bench_ok_def)
    next
      case 2
      have "b' = b\<lparr>b_timing := ?es, b_over_10ms := b_over_10ms b + 1, b_received := b_received b + 1\<rparr>"
        using assms(2) Some False 2 by (simp add: processReceivedMessage_def Let_def)
      then show ?thesis using assms(1) es inv by (simp add: bench_ok_def)
    qed
  qed
qed

text \<open>The numbers of the messages are those below the next one; the number of messages is far below \<open>2^64\<close>.\<close>

definition run_ok :: "u64 \<Rightarrow> bench_run \<Rightarrow> bool" where
  "run_ok total_messages r \<longleftrightarrow> bench_ok (br_bench r) \<and> fst ` set (b_timing (br_bench r)) = {1..<br_trade_id r} \<and>
     1 \<le> br_trade_id r \<and> br_trade_id r \<le> total_messages + 1 \<and> unat (b_sent (br_bench r)) \<le> length (b_timing (br_bench r)) \<and>
     length (b_timing (br_bench r)) = unat (br_trade_id r) - 1 \<and> unat (b_sent (br_bench r)) = length (br_output r)"

lemma unat_plus_one: "unat (k :: u64) < 2 ^ 64 - 1 \<Longrightarrow> unat (k + 1) = unat k + 1"
  by (simp add: unat_word_ariths)

lemma bench_send_turn_ok:
  assumes "run_ok n r" and n: "unat n < 2 ^ 64 - 1"
  shows "run_ok n (bench_send_turn n rate now sent_ok r)"
proof (cases "br_trade_id r \<le> n \<and> b_running (br_bench r)")
  case True
  let ?k = "br_trade_id r" and ?b = "br_bench r"
  let ?es = "timing_put ?k \<lparr>send_time = now, received = False, rtt_us = 0\<rparr> (b_timing ?b)"
  note ok = assms(1) [unfolded run_ok_def]
  have s: "unat (?k + 1) = unat ?k + 1" "unat (n + 1) = unat n + 1"
    using True n by (simp_all add: unat_plus_one word_le_nat_alt)
  have new: "?k \<notin> fst ` set (b_timing ?b)" using ok by simp
  have "x \<in> insert ?k {1..<?k} \<longleftrightarrow> x \<in> {1..<?k + 1}" for x
    using ok s by (auto simp: word_le_nat_alt word_less_nat_alt word_unat_eq_iff)
  then have "insert ?k {1..<?k} = {1..<?k + 1}" by (rule set_eqI)
  then have keys: "fst ` set ?es = {1..<?k + 1}" using ok by (simp add: keys_timing_put)
  have len: "length ?es = length (b_timing ?b) + 1" using new by (simp add: length_timing_put)
  have es: "bench_ok (?b\<lparr>b_timing := ?es\<rparr>)" "bench_ok (?b\<lparr>b_timing := ?es, b_sent := x\<rparr>)" for x
    using ok new by (simp_all add: bench_ok_def distinct_timing_put received_count_put_new)
  have le: "1 \<le> ?k + 1" "?k + 1 \<le> n + 1" using s True by (simp_all add: word_le_nat_alt)
  have pos: "0 < unat ?k" using ok by (simp add: word_le_nat_alt)
  have "unat (b_sent ?b) \<le> unat ?k - 1" using ok by simp
  moreover have "unat ?k \<le> unat n" using True by (simp add: word_le_nat_alt)
  ultimately have "unat (b_sent ?b) < 2 ^ 64 - 1" using n by linarith
  then have sent: "unat (b_sent ?b + 1) = unat (b_sent ?b) + 1" by (rule unat_plus_one)
  show ?thesis
    using True ok keys len es le s sent pos by (cases sent_ok) (auto simp: bench_send_turn_def run_ok_def Let_def split: prod.splits)
next
  case False
  then show ?thesis using assms(1) by (auto simp: bench_send_turn_def)
qed

lemma bench_step_ok:
  assumes "run_ok n r" and "unat n < 2 ^ 64 - 1" and "bench_step n rate e r = Some r'"
  shows "run_ok n r'"
proof (cases e)
  case (Send_turn now sent_ok)
  then show ?thesis using bench_send_turn_ok [OF assms(1,2)] assms(3) by auto
next
  case (Receive_turn datagram now)
  obtain b' where b': "bench_receive_turn datagram now (br_bench r) = Some b'" "r' = r\<lparr>br_bench := b'\<rparr>"
    using assms(3) Receive_turn by auto
  have "b' = br_bench r \<or> (\<exists>k. processReceivedMessage k now (br_bench r) = Some b')"
    using b'(1) by (auto simp: bench_receive_turn_def Let_def split: if_splits option.splits)
  with processReceivedMessage_ok [of "br_bench r" _ now b'] assms(1) b'(2) show ?thesis by (auto simp: run_ok_def)
next
  case Stop_signal
  then have "r' = r\<lparr>br_bench := (br_bench r)\<lparr>b_running := False\<rparr>\<rparr>" using assms(3) by simp
  then show ?thesis using assms(1) by (simp add: run_ok_def bench_ok_def)
qed

lemma bench_steps_ok: "run_ok n r \<Longrightarrow> unat n < 2 ^ 64 - 1 \<Longrightarrow> bench_steps n rate es r = Some r' \<Longrightarrow> run_ok n r'"
proof (induction es arbitrary: r)
  case (Cons e es)
  obtain r1 where "bench_step n rate e r = Some r1" "bench_steps n rate es r1 = Some r'" using Cons.prems(3) by (auto split: option.splits)
  then show ?case using Cons.IH bench_step_ok [OF Cons.prems(1,2)] Cons.prems(2) by blast
qed simp

lemma new_run_ok: "unat n < 2 ^ 64 - 1 \<Longrightarrow> run_ok n \<lparr>br_bench = new_bench, br_trade_id = 1, br_next_send_time = t, br_output = []\<rparr>"
  using unat_plus_one [of n]
  by (simp add: run_ok_def new_bench_def bench_ok_def received_count_def sum_list_replicate word_le_nat_alt)

section \<open>The statistics\<close>

definition rtts :: "(u64 \<times> TradeTimingInfo) list \<Rightarrow> u64 list" where
  "rtts es = map (\<lambda>e. rtt_us (snd e)) (filter (\<lambda>e. received (snd e)) es)"

lemma collect_entry_cases:
  "received t \<Longrightarrow> collect_entry t (l, s, mn, mx, xs) = (l, s + rtt_us t, min mn (rtt_us t), max mx (rtt_us t), xs @ [rtt_us t])"
  "\<not> received t \<Longrightarrow> collect_entry t (l, s, mn, mx, xs) = (l + 1, s, mn, mx, xs)"
  by (simp_all add: collect_entry_def)

lemma collect_fold:
  "fold (\<lambda>e. collect_entry (snd e)) es (l, s, mn, mx, xs) =
    (l + of_nat (length es - received_count es), s + sum_list (rtts es), fold min (rtts es) mn, fold max (rtts es) mx, xs @ rtts es)"
proof (induction es arbitrary: l s mn mx xs)
  case (Cons e es)
  have le: "received_count es \<le> length es" by (simp add: received_count_def)
  show ?case
  proof (cases "received (snd e)")
    case True
    then have "received_count (e # es) = Suc (received_count es)" "rtts (e # es) = rtt_us (snd e) # rtts es"
      by (simp_all add: received_count_def rtts_def)
    with True show ?thesis by (simp add: Cons.IH collect_entry_cases min.commute max.commute)
  next
    case False
    then have "received_count (e # es) = received_count es" "rtts (e # es) = rtts es" by (simp_all add: received_count_def rtts_def)
    with False le show ?thesis by (simp add: Cons.IH collect_entry_cases Suc_diff_le)
  qed
qed (simp add: received_count_def rtts_def)

lemma collect_result:
  "collect es = (of_nat (length es - received_count es), sum_list (rtts es), fold min (rtts es) (- 1), fold max (rtts es) 0, rtts es)"
  by (simp add: collect_def collect_fold)

lemma rtts_mset: "mset es = mset es' \<Longrightarrow> mset (rtts es) = mset (rtts es')"
  by (simp add: rtts_def)

lemma received_count_mset: "mset es = mset es' \<Longrightarrow> received_count es = received_count es'"
  unfolding received_count_def by (metis mset_filter size_mset)

lemma fold_min_set: "fold min xs a = Min (insert a (set xs))" and fold_max_set: "fold max xs a = Max (insert a (set xs))" for xs :: "u64 list"
  using Min.set_eq_fold [of a xs] Max.set_eq_fold [of a xs] by simp_all

text \<open>
  The order of the hash map.  The report depends only on which entries the map has: an enumeration of it in another order gives the same report.
\<close>

theorem report_order_irrelevant:
  assumes "mset (b_timing b) = mset es"
  shows "fst (calculateStatistics ms (b\<lparr>b_timing := es\<rparr>)) = fst (calculateStatistics ms b)"
proof -
  have r: "mset (rtts es) = mset (rtts (b_timing b))" using rtts_mset assms by metis
  then have s: "set (rtts es) = set (rtts (b_timing b))" "sum_list (rtts es) = sum_list (rtts (b_timing b))" "sort (rtts es) = sort (rtts (b_timing b))"
      "rtts es = [] \<longleftrightarrow> rtts (b_timing b) = []"
    by (metis mset_eq_setD, metis sum_mset_sum_list, metis properties_for_sort mset_sort sorted_sort, metis mset_zero_iff_right mset_zero_iff)
  have n: "length es = length (b_timing b)" "received_count es = received_count (b_timing b)"
    using assms received_count_mset by (metis size_mset)+
  show ?thesis unfolding calculateStatistics_def collect_result fold_min_set fold_max_set by (simp add: s n)
qed

theorem report_order_irrelevant_witness:
  "fst (calculateStatistics 5 (new_bench\<lparr>b_timing := [(2, \<lparr>send_time = 0, received = False, rtt_us = 0\<rparr>), (1, \<lparr>send_time = 0, received = True, rtt_us = 7\<rparr>)]\<rparr>)) =
   fst (calculateStatistics 5 (new_bench\<lparr>b_timing := [(1, \<lparr>send_time = 0, received = True, rtt_us = 7\<rparr>), (2, \<lparr>send_time = 0, received = False, rtt_us = 0\<rparr>)]\<rparr>))"
  using report_order_irrelevant [of "new_bench\<lparr>b_timing := [(1, \<lparr>send_time = 0, received = True, rtt_us = 7\<rparr>), (2, \<lparr>send_time = 0, received = False, rtt_us = 0\<rparr>)]\<rparr>"
      "[(2, \<lparr>send_time = 0, received = False, rtt_us = 0\<rparr>), (1, \<lparr>send_time = 0, received = True, rtt_us = 7\<rparr>)]" 5]
  by (simp add: add_mset_commute)

text \<open>
  C20. Accounting of a benchmark run.  Whatever arrives, in whatever interleaving with the sends and however often, the report adds up: every message of the loop was received or is lost, and not both; the received ones are exactly those in the
  histogram and above it; as many datagrams were sent as are counted.
\<close>

theorem benchmark_accounting:
  assumes "runBenchmark n rate start ms events = Some (report, r)" and "unat n < 2 ^ 64 - 1"
  shows "unat (rep_received report) + unat (rep_lost report) = length (b_timing (br_bench r)) \<and>
    rep_received report = sum_list (b_histogram (br_bench r)) + b_over_10ms (br_bench r) \<and>
    unat (rep_sent report) = length (br_output r) \<and> fst ` set (b_timing (br_bench r)) = {1..<br_trade_id r}"
proof -
  obtain r0 where r0: "bench_steps n rate events \<lparr>br_bench = new_bench, br_trade_id = 1, br_next_send_time = start, br_output = []\<rparr> = Some r0"
      "report = fst (calculateStatistics ms ((br_bench r0)\<lparr>b_running := False\<rparr>))"
      "r = r0\<lparr>br_bench := snd (calculateStatistics ms ((br_bench r0)\<lparr>b_running := False\<rparr>))\<rparr>"
    using assms(1) by (auto simp: runBenchmark_def Let_def case_prod_beta)
  have ok: "run_ok n r0" using bench_steps_ok [OF new_run_ok [OF assms(2)] assms(2) r0(1)] .
  let ?es = "b_timing (br_bench r0)"
  have t: "b_timing (br_bench r) = ?es" "b_histogram (br_bench r) = b_histogram (br_bench r0)" "b_over_10ms (br_bench r) = b_over_10ms (br_bench r0)"
      "br_output r = br_output r0" "br_trade_id r = br_trade_id r0"
    using r0(3) by (simp_all add: calculateStatistics_def Let_def collect_result)
  have rep: "rep_received report = b_received (br_bench r0)" "rep_sent report = b_sent (br_bench r0)"
      "rep_lost report = of_nat (length ?es - received_count ?es)"
    using r0(2) by (simp_all add: calculateStatistics_def Let_def collect_result)
  have le: "received_count ?es \<le> length ?es" by (simp add: received_count_def)
  have "length ?es < 2 ^ 64" using ok u64_bound [of "br_trade_id r0"] by (simp add: run_ok_def)
  then have u: "unat (of_nat (received_count ?es) :: u64) = received_count ?es" "unat (of_nat (length ?es - received_count ?es) :: u64) = length ?es - received_count ?es"
    using le by (auto intro!: unat_of_nat_small simp del: of_nat_diff)
  have b: "b_received (br_bench r0) = of_nat (received_count ?es)" "of_nat (received_count ?es) = sum_list (b_histogram (br_bench r0)) + b_over_10ms (br_bench r0)"
    using ok by (simp_all add: run_ok_def bench_ok_def)
  have "unat (rep_received report) + unat (rep_lost report) = length ?es" unfolding rep b(1) u using le by simp
  moreover have "rep_received report = sum_list (b_histogram (br_bench r0)) + b_over_10ms (br_bench r0)" unfolding rep b(1) by (rule b(2))
  ultimately show ?thesis using ok unfolding t rep(2) run_ok_def by blast
qed

theorem benchmark_accounting_witness:
  "\<exists>report r. runBenchmark 3 1000 0 9 [Send_turn 0 True, Receive_turn (Some [1, 2, 3]) 70, Send_turn 5 False, Stop_signal] = Some (report, r) \<and>
     unat (rep_received report) + unat (rep_lost report) = length (b_timing (br_bench r))"
proof -
  have "\<exists>report r. runBenchmark 3 1000 0 9 [Send_turn 0 True, Receive_turn (Some [1, 2, 3]) 70, Send_turn 5 False, Stop_signal] = Some (report, r)"
    by (simp add: runBenchmark_def bench_receive_turn_def extractTradeId_def trade_id_offset_def case_prod_beta Let_def)
  then show ?thesis using benchmark_accounting [of 3 1000 0 9] by fastforce
qed

text \<open>A failed send is among the lost messages and not among the sent ones: the loss rate of one failed and one unanswered message is 200 percent.\<close>

lemma loss_rate_over_100:
  "map_option (\<lambda>x. rep_loss_rate (fst x)) (runBenchmark 2 1000 0 9 [Send_turn 0 True, Send_turn 5 False]) = Some 200"
proof -
  have f: "percentage 2 1 = 200" by code_simp
  have "b_sent (br_bench r) = 1 \<and> collect (b_timing (br_bench r)) = (2, 0, - 1, 0, [])"
    if "bench_steps 2 1000 [Send_turn 0 True, Send_turn 5 False] \<lparr>br_bench = new_bench, br_trade_id = 1, br_next_send_time = 0, br_output = []\<rparr> = Some r" for r
    using that by (auto simp: bench_send_turn_def new_bench_def Let_def collect_def collect_entry_cases case_prod_beta)
  then show ?thesis using f by (auto simp: runBenchmark_def Let_def case_prod_beta calculateStatistics_def)
qed

section \<open>Percentiles\<close>

lemma percentile_index_bound: "0 < n \<Longrightarrow> percentile_index n p < n"
  by (simp add: percentile_index_def)

lemma percentile_index_mono:
  assumes "0 \<le> p" and "p \<le> p'"
  shows "percentile_index n p \<le> percentile_index n p'"
proof -
  let ?n = "fl64 (of_nat n)"
  have n: "0 \<le> ?n" using fl64_mono [of 0 "of_nat n"] by simp
  have "?n * p \<le> ?n * p'" using n assms(2) by (rule mult_left_mono [rotated])
  then have "fl64 (?n * p) \<le> fl64 (?n * p')" using n assms(1) by (intro fl64_mono) simp_all
  moreover have "0 \<le> fl64 (?n * p)" using fl64_mono [of 0 "?n * p"] n assms(1) by simp
  ultimately have "fl64 (fl64 (?n * p) / 100) \<le> fl64 (fl64 (?n * p') / 100)" by (intro fl64_mono) simp_all
  then have "nat \<lfloor>fl64 (fl64 (?n * p) / 100)\<rfloor> \<le> nat \<lfloor>fl64 (fl64 (?n * p') / 100)\<rfloor>" by (intro nat_mono floor_mono)
  then show ?thesis unfolding percentile_index_def by (intro min.mono) simp_all
qed

lemma percentile_mono:
  assumes "xs \<noteq> []" and "0 \<le> p" and "p \<le> p'"
  shows "percentile (sort xs) p \<le> percentile (sort xs) p'"
proof -
  have "percentile_index (length (sort xs)) p' < length (sort xs)" using assms(1) by (intro percentile_index_bound) simp
  with percentile_index_mono [OF assms(2,3)] show ?thesis unfolding percentile_def by (intro sorted_nth_mono sorted_sort)
qed

text \<open>
  The reported latencies.  When something was received, the five percentiles are measured times, ascend from the first to the last and lie between the
  reported minimum and maximum.
\<close>

theorem percentiles_ordered:
  assumes "rtts (b_timing b) \<noteq> []" and "b_received b > 0" and "rep_latency (fst (calculateStatistics ms b)) = Some l"
  shows "sorted (lr_percentiles l) \<and> length (lr_percentiles l) = 5 \<and>
    (\<forall>v \<in> set (lr_percentiles l). v \<in> set (rtts (b_timing b)) \<and> lr_min l \<le> v \<and> v \<le> lr_max l)"
proof -
  let ?xs = "rtts (b_timing b)"
  have l: "lr_percentiles l = map (percentile (sort ?xs)) bench_percentiles" "lr_min l = Min (insert (- 1) (set ?xs))" "lr_max l = Max (insert 0 (set ?xs))"
    using assms by (auto simp: calculateStatistics_def Let_def collect_result fold_min_set fold_max_set)
  have p: "(99 :: rat) \<le> fl64 (999 / 10)" using fl64_mono [of 99 "999 / 10"] fl64_exact_nat [of 99] by simp
  have "sorted (map (percentile (sort ?xs)) bench_percentiles)"
    unfolding bench_percentiles_def using p by (auto intro!: percentile_mono [OF assms(1)])
  moreover have "percentile (sort ?xs) q \<in> set ?xs" for q
    unfolding percentile_def using assms(1) percentile_index_bound [of "length ?xs" q]
    by (metis length_greater_0_conv length_sort nth_mem set_sort)
  moreover have "lr_min l \<le> v" "v \<le> lr_max l" if "v \<in> set ?xs" for v using that l by simp_all
  ultimately show ?thesis unfolding l(1) by (auto simp: bench_percentiles_def)
qed

theorem percentiles_ordered_witness:
  "\<exists>l. rep_latency (fst (calculateStatistics 5 (new_bench\<lparr>b_timing := [(1, \<lparr>send_time = 0, received = True, rtt_us = 7\<rparr>)], b_received := 1\<rparr>))) = Some l \<and>
     sorted (lr_percentiles l) \<and> set (lr_percentiles l) \<subseteq> {7}"
proof -
  let ?b = "new_bench\<lparr>b_timing := [(1, \<lparr>send_time = 0, received = True, rtt_us = 7\<rparr>)], b_received := 1\<rparr>"
  obtain l where l: "rep_latency (fst (calculateStatistics 5 ?b)) = Some l" by (auto simp: calculateStatistics_def Let_def collect_result)
  have "rtts (b_timing ?b) = [7]" by (simp add: rtts_def)
  with percentiles_ordered [OF _ _ l] l show ?thesis by auto
qed

end
