(* ===== verification/Replication_Path.thy ===== *)
theory Replication_Path
  imports Replicator_Setup Control_Client Market_Data
begin

text \<open>
  The programs of the AF_XDP benchmark together: a trade message of the benchmark client travels as a UDP frame to the filter, is handed to a queue of
  the replicator, and leaves it as one frame for every subscriber, from which each receiver reads the number of the trade.
\<close>

text \<open>
  C3. A trade message on its way.  After a successful set-up, a frame that carries a generated message to the address and port of the replicator is handed to the socket of its queue; the
  replicator submits one frame for every destination whose reservation is granted, addressed to it, and the number that a receiver extracts from it is the number of the message, modulo \<open>10^10\<close>.
\<close>

theorem trade_reaches_subscribers:
  assumes "initialize io zc (new_process ifname ip p cores g0) = (Inr (), rp)" and "find_config_map (su_map_name io) \<noteq> None" and "su_config_updated io"
    and "su_page_size io = 4096" and "\<And>q. fst (qi_fq (su_queue io q)) = 2048" and "q < 4"
    and "pr_num_queues pr = 4" and "q < length (pr_sockets pr)" and "pr_sockets pr ! q = Some s" and "ready s" and "xs_umem s = Some m"
    and "RX_BASE \<le> off" and "off + len \<le> UMEM_BYTES" and "len \<le> 4096" and "length (pr_dests pr) \<le> 2048"
    and "generateTradeMessage trade_id (replicate 512 0) = (buffer, n)"
    and "udp_payload (take len (drop off m)) = Some (take n buffer)" and "udp_destination (take len (drop off m)) = Some (a, p)" and "inet_aton ip = Some a"
  shows "unicast_filter (rp_config rp) (registered rp) (of_nat q) (take len (drop off m)) = Some (XDP_REDIRECT_MAP (of_nat q)) \<and>
    (\<exists>sent pr' s'. replicatePacket env ios off len q pr = Some (sent, pr') \<and> pr_sockets pr' ! q = Some s' \<and>
      list_all2 (\<lambda>(x, l) d. \<exists>f payload. umem_bytes x l s' = Some f \<and> udp_destination f = Some (sin_addr d, port d) \<and> udp_payload f = Some payload \<and>
          extractTradeId payload = of_nat (unat trade_id mod 10 ^ 10))
        (drop (length (tx_descs s)) (tx_descs s'))
        (map (nth (pr_dests pr)) (filter (\<lambda>i. fst (si_reserve (ios i)) = 1) [0..<length (pr_dests pr)])))"
proof -
  have "unicast_filter (rp_config rp) (registered rp) (of_nat q) (take len (drop off m)) = Some (XDP_REDIRECT_MAP (of_nat q))"
    using filter_after_setup [OF assms(1-6), of "take len (drop off m)"] assms(18,19) by simp
  moreover have nq: "q < pr_num_queues pr" using assms(6,7) by simp
  have x: "extractTradeId (take n buffer) = of_nat (unat trade_id mod 10 ^ 10)" using extract_generated [OF _ assms(16)] by auto
  obtain sent pr' s' where r: "replicatePacket env ios off len q pr = Some (sent, pr')" "pr_sockets pr' ! q = Some s'"
      "list_all2 (\<lambda>(x, l) d. \<exists>f. umem_bytes x l s' = Some f \<and> udp_destination f = Some (sin_addr d, port d) \<and> udp_payload f = Some (take n buffer) \<and>
          checksum_accepted (take 20 (drop 14 f)))
        (drop (length (tx_descs s)) (tx_descs s'))
        (map (nth (pr_dests pr)) (filter (\<lambda>i. fst (si_reserve (ios i)) = 1) [0..<length (pr_dests pr)]))"
    using replicated_frames [OF nq assms(8-14,17,15), of env ios] by blast
  have "list_all2 (\<lambda>(x, l) d. \<exists>f payload. umem_bytes x l s' = Some f \<and> udp_destination f = Some (sin_addr d, port d) \<and> udp_payload f = Some payload \<and>
          extractTradeId payload = of_nat (unat trade_id mod 10 ^ 10))
        (drop (length (tx_descs s)) (tx_descs s'))
        (map (nth (pr_dests pr)) (filter (\<lambda>i. fst (si_reserve (ios i)) = 1) [0..<length (pr_dests pr)]))"
    using r(3) by (rule list_all2_mono) (use x in auto)
  with r(1,2) show ?thesis using calculation by blast
qed

text \<open>Trade 42 in a frame at the start of the receive area of queue 0, and one subscriber.\<close>

definition demo_message :: "u8 list" where
  "demo_message = take 152 (fst (generateTradeMessage 42 (replicate 512 0)))"

definition demo_trade_frame :: "u8 list" where
  "demo_trade_frame = built_frame (replicate 12 2) 1 0x0A000022 0x0A000047 5000 9000 demo_message"

definition demo_trade_socket :: xsk_socket where
  "demo_trade_socket = demo_socket\<lparr>xs_umem := Some (replicate RX_BASE 0 @ demo_trade_frame @ replicate (RX_BASE - 194) 0)\<rparr>"

lemma demo_trade_facts:
  "ready demo_trade_socket" "udp_payload demo_trade_frame = Some demo_message" "udp_destination demo_trade_frame = Some (0x0A000047, 9000)"
  "take 194 (drop RX_BASE (replicate RX_BASE 0 @ demo_trade_frame @ replicate (RX_BASE - 194) 0)) = demo_trade_frame"
  "tx_descs demo_trade_socket = []"
proof -
  have m: "length demo_message = 152" using generated_message [of "replicate 512 0" 42] by (simp add: demo_message_def length_template)
  then have l: "length demo_trade_frame = 194" by (simp add: demo_trade_frame_def length_built_frame)
  then show "ready demo_trade_socket" by (simp add: ready_def demo_trade_socket_def demo_socket_def RX_BASE_def UMEM_BYTES_def)
  show "udp_payload demo_trade_frame = Some demo_message" "udp_destination demo_trade_frame = Some (0x0A000047, 9000)"
    using built_frame_payload(2) [of "replicate 12 2" demo_message _ _ _ _ _ "[]"] built_frame_destination [of "replicate 12 2" _ _ _ _ _ _ "[]"] m
    by (simp_all add: demo_trade_frame_def)
  show "take 194 (drop RX_BASE (replicate RX_BASE 0 @ demo_trade_frame @ replicate (RX_BASE - 194) 0)) = demo_trade_frame"
    using l by simp
  show "tx_descs demo_trade_socket = []" using demo_socket_facts(4) by (simp add: demo_trade_socket_def tx_descs_simps)
qed

theorem trade_reaches_subscribers_witness:
  "\<exists>rp. initialize demo_setup True (new_process ''eth0'' ''10.0.0.71'' 9000 8 initial_xdp_globals) = (Inr (), rp) \<and>
     unicast_filter (rp_config rp) (registered rp) 0 demo_trade_frame = Some (XDP_REDIRECT_MAP 0) \<and>
     (\<exists>sent pr' s' x l f payload. replicatePacket demo_env (\<lambda>_. demo_send) RX_BASE 194 0
           (demo_replicator\<lparr>pr_sockets := [Some demo_trade_socket], pr_dests := [demo_dest]\<rparr>) = Some (sent, pr') \<and>
        pr_sockets pr' ! 0 = Some s' \<and> tx_descs s' = [(x, l)] \<and> umem_bytes x l s' = Some f \<and> udp_destination f = Some (0x0A000022, 9001) \<and>
        udp_payload f = Some payload \<and> extractTradeId payload = 42)"
proof -
  let ?pr = "demo_replicator\<lparr>pr_sockets := [Some demo_trade_socket], pr_dests := [demo_dest]\<rparr>"
  let ?m = "replicate RX_BASE 0 @ demo_trade_frame @ replicate (RX_BASE - 194) 0"
  obtain rp where rp: "initialize demo_setup True (new_process ''eth0'' ''10.0.0.71'' 9000 8 initial_xdp_globals) = (Inr (), rp)"
    using demo_initialize by blast
  have c: "find_config_map (su_map_name demo_setup) \<noteq> None"
    by (simp add: find_config_map_def find_None_iff demo_setup_def bex_Un image_iff)
  have d: "su_config_updated demo_setup" "su_page_size demo_setup = 4096" "fst (qi_fq (su_queue demo_setup q)) = 2048" for q by (simp_all add: demo_setup_def)
  have pr: "pr_num_queues ?pr = 4" "0 < length (pr_sockets ?pr)" "pr_sockets ?pr ! 0 = Some demo_trade_socket" "length (pr_dests ?pr) \<le> 2048" "pr_dests ?pr = [demo_dest]"
      "xs_umem demo_trade_socket = Some ?m"
    by (simp_all add: demo_replicator_def PacketReplicator_def demo_trade_socket_def)
  have b: "RX_BASE \<le> RX_BASE" "RX_BASE + 194 \<le> UMEM_BYTES" "194 \<le> (4096 :: nat)" by (simp_all add: RX_BASE_def UMEM_BYTES_def)
  have a: "inet_aton ''10.0.0.71'' = Some 0x0A000047" by code_simp
  obtain buffer where g: "generateTradeMessage 42 (replicate 512 0) = (buffer, 152)" "demo_message = take 152 buffer"
    using generated_message [of "replicate 512 0" 42] by (cases "generateTradeMessage 42 (replicate 512 0)") (simp add: demo_message_def)
  note f = demo_trade_facts [unfolded g(2)]
  have u: "udp_payload (take 194 (drop RX_BASE ?m)) = Some (take 152 buffer)" "udp_destination (take 194 (drop RX_BASE ?m)) = Some (0x0A000047, 9000)"
    unfolding f(4) by (rule f(2), rule f(3))
  have io: "fst (si_reserve demo_send) = 1" by (simp add: demo_send_def)
  from trade_reaches_subscribers [OF rp c d zero_less_numeral pr(1,2,3) f(1) pr(6) b pr(4) g(1) u a, of demo_env "\<lambda>_. demo_send"]
  show ?thesis
    using rp unfolding f(4,5) pr(5) by (auto simp: io list_all2_Cons2 demo_dest_def)
qed

end
