(* ===== verification/Xdp_Tools.thy ===== *)
theory Xdp_Tools
  imports Cpp_Lib Net_Packet Binary64
begin

text \<open>
  Two smaller programs beside the replicator: the configuration of a network interface (\<open>NetworkInterfaceConfigurator.cpp\<close>), a sequence of shell commands whose results are an
  argument, and the client that sends test packets (\<open>TestClient.cpp\<close>).
\<close>

section \<open>Commands\<close>

text \<open>\<open>shell\<close> is \<open>std::system\<close>: the status as \<open>wait\<close> encodes it, or -1.\<close>

definition executeCommand :: "(string \<Rightarrow> int) \<Rightarrow> string \<Rightarrow> int" where
  "executeCommand shell command =
     (let result = shell command in if result = - 1 then - 1 else (result div 256) mod 256)"

text \<open>\<open>fgets\<close> into 128 bytes until the end; of each piece the text up to the first zero character is appended.\<close>

definition executeCommandWithOutput :: "(string \<Rightarrow> string option) \<Rightarrow> string \<Rightarrow> string" where
  "executeCommandWithOutput popen command = (case popen command of None \<Rightarrow> [] | Some out \<Rightarrow> concat (map (takeWhile (\<lambda>c. c \<noteq> CHR 0x00)) (fgets_lines 128 out)))"

section \<open>The network interface\<close>

definition driver_command :: "string \<Rightarrow> string" where
  "driver_command ifname =
     ''ethtool -i '' @ ifname @ '' 2>/dev/null | grep '' @ [CHR 0x27] @ ''^driver:'' @ [CHR 0x27] @ '' | cut -d: -f2 | tr -d '' @
     [CHR 0x27, CHR 0x20, CHR 0x27]"

definition getDriverName :: "(string \<Rightarrow> string option) \<Rightarrow> string \<Rightarrow> string" where
  "getDriverName popen ifname =
     (let out = executeCommandWithOutput popen (driver_command ifname)
      in if out = [] then ''unknown'' else if last out = CHR 0x0A then butlast out else out)"

definition determineHeadroom :: "string \<Rightarrow> int" where
  "determineHeadroom driver =
     (if driver = ''i40e'' \<or> driver = ''ixgbe'' \<or> driver = ''ixgbevf'' then 256
      else if driver = ''ena'' then 0
      else if driver = ''mlx5_core'' then 192
      else if driver = ''ice'' then 128
      else if driver = ''e1000'' \<or> driver = ''e1000e'' then 32
      else 0)"

definition hasRootPrivileges :: "nat \<Rightarrow> bool" where
  "hasRootPrivileges uid = (uid = 0)"

text \<open>The result, the commands in their order, and whether each of the two settings failed with a warning.\<close>

definition configureForXdp :: "(string \<Rightarrow> int) \<Rightarrow> (string \<Rightarrow> string option) \<Rightarrow> string \<Rightarrow> int outcome \<times> string list \<times> bool list" where
  "configureForXdp shell popen ifname =
     (let check = ''ip link show '' @ ifname @ '' > /dev/null 2>&1'';
          multicast = ''ip link set '' @ ifname @ '' multicast on'';
          forwarding = ''sysctl -w net.ipv4.conf.'' @ ifname @ ''.mc_forwarding=1 > /dev/null 2>&1''
      in if executeCommand shell check \<noteq> 0 then (Inl (Runtime_error (''Interface '' @ ifname @ '' does not exist'')), [check], [])
         else (Inr (determineHeadroom (getDriverName popen ifname)), [check, multicast, forwarding],
               [executeCommand shell multicast \<noteq> 0, executeCommand shell forwarding \<noteq> 0]))"

definition optimizeForXdp :: "nat \<Rightarrow> string \<Rightarrow> string list" where
  "optimizeForXdp uid ifname =
     (if \<not> hasRootPrivileges uid then []
      else [''ethtool -G '' @ ifname @ '' rx 4096 > /dev/null 2>&1'',
            ''ethtool -K '' @ ifname @ '' gro off > /dev/null 2>&1'',
            ''ethtool -K '' @ ifname @ '' gso off > /dev/null 2>&1'',
            ''ethtool -K '' @ ifname @ '' tso off > /dev/null 2>&1'',
            ''ethtool -K '' @ ifname @ '' lro off > /dev/null 2>&1''])"

section \<open>The test client\<close>

definition test_packet :: "string \<Rightarrow> u64 \<Rightarrow> string" where
  "test_packet message packet_count = message @ '' #'' @ show_dec (unat (packet_count + 1))"

text \<open>
  The loop: one turn per result of \<open>sendto\<close>, with a flag whether a signal arrives before the next turn.  The result is the number of packets,
  what was sent, and the numbers at which progress is printed; without further turns the loop still runs.
\<close>

fun test_loop :: "string \<Rightarrow> int \<Rightarrow> (int \<times> bool) list \<Rightarrow> bool \<Rightarrow> u64 \<times> string list \<times> u64 list \<Rightarrow> (u64 \<times> string list \<times> u64 list) option" where
  "test_loop message interval_ms [] g_running s = (if g_running then None else Some s)"
| "test_loop message interval_ms ((sent, signal) # turns) g_running (count, out, progress) =
     (if \<not> g_running then Some (count, out, progress)
      else if sent < 0 then Some (count, out, progress)
      else let count' = count + 1
           in test_loop message interval_ms turns (\<not> signal)
                (count', out @ [test_packet message count],
                 if count' mod 10 = 0 \<or> interval_ms \<ge> 1000 then progress @ [count'] else progress))"

text \<open>The average rate, when the clock has moved.\<close>

definition average_rate :: "u64 \<Rightarrow> int \<Rightarrow> rat option" where
  "average_rate packet_count total_time =
     (if total_time > 0 then Some (fl64 (fl64 (fl64 (of_nat (unat packet_count)) * 1000) / fl64 (of_int total_time))) else None)"

datatype test_exit = Test_exit int | Test_uncaught cpp_exception | Test_stopped u64 "string list" "rat option"

definition test_main :: "bool \<Rightarrow> (int \<times> bool) list \<Rightarrow> int \<Rightarrow> string list \<Rightarrow> test_exit option" where
  "test_main socket_ok turns total_time args =
     (if length args < 2 \<or> 4 < length args then Some (Test_exit 1)
      else case stoi (args ! 1) of
             Inl e \<Rightarrow> Some (Test_uncaught e)
           | Inr target_port \<Rightarrow>
               (case (if 3 \<le> length args then stoi (args ! 2) else Inr 1000) of
                  Inl e \<Rightarrow> Some (Test_uncaught e)
                | Inr interval_ms \<Rightarrow>
                    (let message = (if 4 \<le> length args then args ! 3 else ''Test packet'')
                     in if \<not> socket_ok \<or> inet_aton (args ! 0) = None then Some (Test_exit 1)
                        else map_option (\<lambda>(count, out, _). Test_stopped count out (average_rate count total_time))
                               (test_loop message interval_ms turns True (0, [], [])))))"

section \<open>Properties\<close>

text \<open>The output of a command is collected completely, in however many pieces, when it has no zero characters.\<close>

lemma fgets_split: "fgets n s = (l, r) \<Longrightarrow> s = l @ r"
  by (induction n s arbitrary: l r rule: fgets.induct) (auto split: if_splits prod.splits)

lemma concat_fgets_lines: "2 \<le> n \<Longrightarrow> concat (fgets_lines n s) = s"
proof (induction n s rule: fgets_lines.induct)
  case (1 n s)
  then show ?case
    using fgets_split [of n s] by (subst fgets_lines.simps) (auto split: prod.splits)
qed

lemma command_output_complete:
  assumes "popen command = Some s" and "CHR 0x00 \<notin> set s"
  shows "executeCommandWithOutput popen command = s"
proof -
  have "set (concat (fgets_lines 128 s)) = set s" by (simp add: concat_fgets_lines)
  then have "takeWhile (\<lambda>c. c \<noteq> CHR 0x00) l = l" if "l \<in> set (fgets_lines 128 s)" for l
    using that assms(2) by (auto simp: takeWhile_eq_all_conv)
  then have "map (takeWhile (\<lambda>c. c \<noteq> CHR 0x00)) (fgets_lines 128 s) = fgets_lines 128 s" by (simp add: map_idI)
  then show ?thesis using assms(1) by (simp add: executeCommandWithOutput_def concat_fgets_lines)
qed

lemma driver_name_trimmed:
  assumes "popen (driver_command ifname) = Some (name @ [CHR 0x0A])" and "CHR 0x00 \<notin> set name"
  shows "getDriverName popen ifname = name"
proof -
  have "CHR 0x00 \<notin> set (name @ [CHR 0x0A])" using assms(2) by simp
  from command_output_complete [of popen "driver_command ifname", OF assms(1) this] show ?thesis by (simp add: getDriverName_def)
qed

text \<open>The packets of a run are numbered from 1 without gaps.\<close>

lemma test_loop_packets:
  assumes "test_loop message interval_ms turns g_running (of_nat k, map (\<lambda>i. test_packet message (of_nat i)) [0..<k], progress) = Some (count, out, progress')"
  shows "\<exists>n. count = of_nat n \<and> out = map (\<lambda>i. test_packet message (of_nat i)) [0..<n]"
  using assms
proof (induction turns arbitrary: g_running k progress)
  case Nil
  then show ?case by (auto split: if_splits)
next
  case (Cons turn turns)
  obtain sent signal where t: "turn = (sent, signal)" by (cases turn)
  have s: "(of_nat k + 1 :: u64) = of_nat (Suc k)" by simp
  show ?case
    using Cons.prems Cons.IH [of "\<not> signal" "Suc k"] unfolding t by (auto simp: Let_def add.commute split: if_splits)
qed

end
