(* ===== verification/Json_Text.thy ===== *)
theory Json_Text
  imports Cpp_Lib
begin

text \<open>
  JSON values and their compact texts, as RFC 8259 describes them: the vocabulary in which the messages between trading
  client and exchange are stated.  The JSON libraries of both programs (nlohmann, serde) are parameters of the models that use them; what those models
  rely on is stated with the definitions of this theory, and \<^term>\<open>json_read\<close> is a concrete reader that satisfies it.
\<close>

section \<open>Values and texts\<close>

datatype json = JNull | JBool bool | JNum int | JStr string | JArr "json list" | JObj "(string \<times> json) list"

text \<open>Member of an object; the value of a missing one is null.\<close>

definition member_of :: "(string \<times> json) list \<Rightarrow> string \<Rightarrow> json" where
  "member_of kvs k = (case map_of kvs k of None \<Rightarrow> JNull | Some v \<Rightarrow> v)"

abbreviation quote :: char where
  "quote \<equiv> CHR 0x22"

text \<open>Characters that stand for themselves in a JSON string (printable ASCII but the quote and the backslash).\<close>

definition json_char :: "char \<Rightarrow> bool" where
  "json_char c \<longleftrightarrow> 32 \<le> char_code c \<and> char_code c < 127 \<and> c \<noteq> quote \<and> c \<noteq> CHR 0x5C"

definition quoted :: "string \<Rightarrow> string" where
  "quoted s = quote # s @ [quote]"

fun comma_sep :: "string list \<Rightarrow> string" where
  "comma_sep [] = []"
| "comma_sep [x] = x"
| "comma_sep (x # y # zs) = x @ CHR '','' # comma_sep (y # zs)"

definition show_int :: "int \<Rightarrow> string" where
  "show_int i = (if i < 0 then CHR ''-'' # show_dec (nat (- i)) else show_dec (nat i))"

fun json_print :: "json \<Rightarrow> string" where
  "json_print JNull = ''null''"
| "json_print (JBool b) = (if b then ''true'' else ''false'')"
| "json_print (JNum i) = show_int i"
| "json_print (JStr s) = quoted s"
| "json_print (JArr js) = ''['' @ comma_sep (map json_print js) @ '']''"
| "json_print (JObj kvs) = ''{'' @ comma_sep (map (\<lambda>kv. quoted (fst kv) @ '':'' @ json_print (snd kv)) kvs) @ ''}''"

text \<open>Values all of whose strings are plain, so that no escape sequence is needed.\<close>

fun json_plain :: "json \<Rightarrow> bool" where
  "json_plain (JStr s) = list_all json_char s"
| "json_plain (JArr js) = list_all json_plain js"
| "json_plain (JObj kvs) = list_all (\<lambda>kv. list_all json_char (fst kv) \<and> json_plain (snd kv)) kvs"
| "json_plain j = True"

text \<open>Values in which no object has two members with the same key.\<close>

fun json_distinct :: "json \<Rightarrow> bool" where
  "json_distinct (JArr js) = list_all json_distinct js"
| "json_distinct (JObj kvs) = (distinct (map fst kvs) \<and> list_all (\<lambda>kv. json_distinct (snd kv)) kvs)"
| "json_distinct j = True"

text \<open>Equality up to the order of the members of objects, which JSON libraries do not keep.\<close>

inductive json_same :: "json \<Rightarrow> json \<Rightarrow> bool" where
  same_null: "json_same JNull JNull"
| same_bool: "json_same (JBool b) (JBool b)"
| same_num: "json_same (JNum i) (JNum i)"
| same_str: "json_same (JStr s) (JStr s)"
| same_arr: "list_all2 json_same xs ys \<Longrightarrow> json_same (JArr xs) (JArr ys)"
| same_obj: "(\<And>k. rel_option json_same (map_of xs k) (map_of ys k)) \<Longrightarrow> json_same (JObj xs) (JObj ys)"
  monos list.rel_mono option.rel_mono

inductive_cases same_strE: "json_same (JStr s) j"
inductive_cases same_arrE: "json_same (JArr xs) j"
inductive_cases same_objE: "json_same (JObj xs) j"

section \<open>A reader\<close>

text \<open>The text up to the next quote.\<close>

fun read_string :: "string \<Rightarrow> (string \<times> string) option" where
  "read_string [] = None"
| "read_string (c # cs) = (if c = quote then Some ([], cs) else map_option (\<lambda>(s, r). (c # s, r)) (read_string cs))"

definition read_int :: "string \<Rightarrow> (int \<times> string) option" where
  "read_int s = map_option (\<lambda>(neg, n, r). (if neg then - int n else int n, r)) (scan_number s)"

text \<open>
  Values, the rest of an array and the rest of an object (behind their first bracket).  Every call takes one unit of the first argument; twice
  the length of the text is enough.
\<close>

fun read_value :: "nat \<Rightarrow> string \<Rightarrow> (json \<times> string) option"
  and read_elems :: "nat \<Rightarrow> string \<Rightarrow> (json list \<times> string) option"
  and read_members :: "nat \<Rightarrow> string \<Rightarrow> ((string \<times> json) list \<times> string) option" where
  "read_value 0 s = None"
| "read_value (Suc n) s =
     (if take 4 s = ''null'' then Some (JNull, drop 4 s)
      else if take 4 s = ''true'' then Some (JBool True, drop 4 s)
      else if take 5 s = ''false'' then Some (JBool False, drop 5 s)
      else if take 1 s = [quote] then map_option (\<lambda>(t, r). (JStr t, r)) (read_string (tl s))
      else if take 2 s = ''[]'' then Some (JArr [], drop 2 s)
      else if take 1 s = ''['' then map_option (\<lambda>(js, r). (JArr js, r)) (read_elems n (tl s))
      else if take 2 s = ''{}'' then Some (JObj [], drop 2 s)
      else if take 1 s = ''{'' then map_option (\<lambda>(kvs, r). (JObj kvs, r)) (read_members n (tl s))
      else map_option (\<lambda>(i, r). (JNum i, r)) (read_int s))"
| "read_elems 0 s = None"
| "read_elems (Suc n) s =
     (case read_value n s of
        None \<Rightarrow> None
      | Some (j, r) \<Rightarrow>
          if take 1 r = '']'' then Some ([j], tl r)
          else if take 1 r = '','' then map_option (\<lambda>(js, r'). (j # js, r')) (read_elems n (tl r))
          else None)"
| "read_members 0 s = None"
| "read_members (Suc n) s =
     (if take 1 s = [quote] then
        (case read_string (tl s) of
           None \<Rightarrow> None
         | Some (k, r) \<Rightarrow>
             if take 1 r = '':'' then
               (case read_value n (tl r) of
                  None \<Rightarrow> None
                | Some (j, r') \<Rightarrow>
                    if take 1 r' = ''}'' then Some ([(k, j)], tl r')
                    else if take 1 r' = '','' then map_option (\<lambda>(kvs, r''). ((k, j) # kvs, r'')) (read_members n (tl r'))
                    else None)
             else None)
      else None)"

definition json_read :: "string \<Rightarrow> json option" where
  "json_read s = (case read_value (2 * length s + 2) s of Some (j, []) \<Rightarrow> Some j | _ \<Rightarrow> None)"

section \<open>Equality up to order\<close>

lemma json_same_refl [simp, intro]: "json_same j j"
proof (induction j)
  case (JArr xs)
  then show ?case by (auto intro!: json_same.intros list.rel_refl_strong)
next
  case (JObj xs)
  have "rel_option json_same (map_of xs k) (map_of xs k)" for k
  proof (cases "map_of xs k")
    case (Some v)
    then have "(k, v) \<in> set xs" by (rule map_of_SomeD)
    then show ?thesis using JObj [of "(k, v)" v] Some by simp
  qed simp
  then show ?case by (rule same_obj)
qed (auto intro: json_same.intros)

lemma json_same_str [simp]: "json_same (JStr s) j \<longleftrightarrow> j = JStr s"
  by (auto elim: same_strE)

lemma json_same_obj_cases:
  assumes "json_same (JObj xs) j"
  obtains ys where "j = JObj ys" "\<And>k. json_same (member_of xs k) (member_of ys k)"
proof (rule same_objE [OF assms])
  fix ys assume j: "j = JObj ys" and r: "\<And>k. rel_option json_same (map_of xs k) (map_of ys k)"
  have "json_same (member_of xs k) (member_of ys k)" for k
    using r [of k] by (cases "map_of xs k"; cases "map_of ys k") (auto simp: member_of_def)
  then show thesis using j that by blast
qed

section \<open>The reader returns what was printed\<close>

definition stops_number :: "string \<Rightarrow> bool" where
  "stops_number r \<longleftrightarrow> (case r of c # _ \<Rightarrow> \<not> is_digit c | [] \<Rightarrow> True)"

lemma read_string_plain: "list_all json_char s \<Longrightarrow> read_string (s @ quote # r) = Some (s, r)"
  by (induction s) (auto simp: json_char_def)

lemma show_int_head: "\<exists>c cs. show_int i = c # cs \<and> (is_digit c \<or> c = CHR ''-'')"
  using show_dec_Cons [of "nat i"] by (auto simp: show_int_def)

lemma read_int_show_int:
  assumes "stops_number r"
  shows "read_int (show_int i @ r) = Some (i, r)"
proof (cases "i < 0")
  case False
  then show ?thesis using assms by (simp add: read_int_def show_int_def stops_number_def scan_number_show_dec)
next
  case True
  obtain c cs where c: "show_dec (nat (- i)) = c # cs" "is_digit c" using show_dec_Cons by blast
  have "scan_digits 0 (c # cs @ r) = (nat (- i), r)"
    using scan_show_dec [of r "nat (- i)"] assms c(1) by (simp add: stops_number_def)
  then have "scan_number (CHR ''-'' # c # cs @ r) = Some (True, nat (- i), r)"
    using c(2) by (simp add: scan_number_def isspace_def char_code_def)
  then show ?thesis using True c(1) by (simp add: read_int_def show_int_def)
qed

text \<open>The statement about a value, with what follows it and enough units for the reader.\<close>

definition reads_back :: "json \<Rightarrow> bool" where
  "reads_back j \<longleftrightarrow>
     (\<forall>n r. 2 * length (json_print j) < n \<longrightarrow> stops_number r \<longrightarrow> read_value n (json_print j @ r) = Some (j, r))"

lemma stops_number_delims [simp]:
  "stops_number (CHR '']'' # r)" "stops_number (CHR ''}'' # r)" "stops_number (CHR '','' # r)" "stops_number []"
  by (simp_all add: stops_number_def is_digit_def char_code_def)

lemma read_elems_back:
  assumes "js \<noteq> []" "list_all reads_back js" "2 * length (comma_sep (map json_print js)) + 1 < n"
  shows "read_elems n (comma_sep (map json_print js) @ CHR '']'' # r) = Some (js, r)"
  using assms
proof (induction js arbitrary: n rule: list_nonempty_induct)
  case (single j)
  then show ?case by (cases n) (auto simp: reads_back_def)
next
  case (cons j js)
  obtain m where n: "n = Suc m" using cons.prems by (cases n) auto
  obtain k ks where js: "js = k # ks" using cons.hyps by (cases js) auto
  have "read_value m (json_print j @ CHR '','' # comma_sep (map json_print js) @ CHR '']'' # r)
      = Some (j, CHR '','' # comma_sep (map json_print js) @ CHR '']'' # r)"
    using cons.prems n js by (auto simp: reads_back_def)
  moreover have "read_elems m (comma_sep (map json_print js) @ CHR '']'' # r) = Some (js, r)"
    using cons.prems n js by (intro cons.IH) auto
  ultimately show ?case using n js by simp
qed

abbreviation print_member :: "string \<times> json \<Rightarrow> string" where
  "print_member \<equiv> (\<lambda>kv. quoted (fst kv) @ '':'' @ json_print (snd kv))"

lemma read_members_back:
  assumes "kvs \<noteq> []" "list_all (\<lambda>kv. list_all json_char (fst kv) \<and> reads_back (snd kv)) kvs"
    "2 * length (comma_sep (map print_member kvs)) + 1 < n"
  shows "read_members n (comma_sep (map print_member kvs) @ CHR ''}'' # r) = Some (kvs, r)"
  using assms
proof (induction kvs arbitrary: n rule: list_nonempty_induct)
  case (single kv)
  then show ?case by (cases n; cases kv) (auto simp: reads_back_def quoted_def read_string_plain)
next
  case (cons kv kvs)
  obtain m where n: "n = Suc m" using cons.prems by (cases n) auto
  obtain k ks where kvs: "kvs = k # ks" using cons.hyps by (cases kvs) auto
  let ?t = "CHR '','' # comma_sep (map print_member kvs) @ CHR ''}'' # r"
  have "read_value m (json_print (snd kv) @ ?t) = Some (snd kv, ?t)"
    using cons.prems n kvs by (auto simp: reads_back_def quoted_def)
  moreover have "read_members m (comma_sep (map print_member kvs) @ CHR ''}'' # r) = Some (kvs, r)"
    using cons.prems n kvs by (intro cons.IH) (auto simp: quoted_def)
  ultimately show ?case using n kvs cons.prems
    by (cases kv) (simp add: quoted_def read_string_plain)
qed

lemma digit_first_char:
  assumes "is_digit c \<or> c = CHR ''-''"
  shows "c \<noteq> CHR ''n''" "c \<noteq> CHR ''t''" "c \<noteq> CHR ''f''" "c \<noteq> quote" "c \<noteq> CHR ''[''" "c \<noteq> CHR ''{''"
  using assms by (auto simp: is_digit_def char_code_def)

lemma comma_sep_first:
  assumes "js \<noteq> []"
  shows "\<exists>r. comma_sep (map f js) = f (hd js) @ r"
  using assms by (cases js; cases "tl js") auto

lemma json_print_first: "\<exists>c cs. json_print j = c # cs \<and> c \<noteq> CHR '']''"
proof (cases j)
  case (JNum i)
  then show ?thesis using show_int_head [of i] by (auto simp: is_digit_def char_code_def)
qed (auto simp: quoted_def)

lemma reads_backI:
  assumes "\<And>m r. 2 * length (json_print j) \<le> m \<Longrightarrow> stops_number r \<Longrightarrow> read_value (Suc m) (json_print j @ r) = Some (j, r)"
  shows "reads_back j"
  unfolding reads_back_def
proof (intro allI impI)
  fix n r assume "2 * length (json_print j) < n" "stops_number r"
  then show "read_value n (json_print j @ r) = Some (j, r)" using assms [of "n - 1" r] by (cases n) auto
qed

lemma json_reads_back: "json_plain j \<Longrightarrow> reads_back j"
proof (induction j)
  case (JNum i)
  obtain c cs where c: "show_int i = c # cs" "is_digit c \<or> c = CHR ''-''" using show_int_head by blast
  show ?case
  proof (rule reads_backI)
    fix m r assume "stops_number r"
    then show "read_value (Suc m) (json_print (JNum i) @ r) = Some (JNum i, r)"
      using read_int_show_int [of r i] digit_first_char [OF c(2)] c(1) by simp
  qed
next
  case (JStr s)
  then show ?case by (intro reads_backI) (simp add: quoted_def read_string_plain)
next
  case (JArr js)
  have all: "list_all reads_back js" using JArr by (auto simp: list_all_iff)
  show ?case
  proof (cases "js = []")
    case False
    obtain r0 where "comma_sep (map json_print js) = json_print (hd js) @ r0" using comma_sep_first [OF False] by blast
    then obtain c cs where c: "comma_sep (map json_print js) = c # cs" "c \<noteq> CHR '']''"
      using json_print_first [of "hd js"] by auto
    show ?thesis
    proof (rule reads_backI)
      fix m r assume "2 * length (json_print (JArr js)) \<le> m"
      then have "read_elems m (comma_sep (map json_print js) @ CHR '']'' # r) = Some (js, r)"
        by (intro read_elems_back [OF False all]) auto
      then show "read_value (Suc m) (json_print (JArr js) @ r) = Some (JArr js, r)" using c by simp
    qed
  qed (simp add: reads_backI)
next
  case (JObj kvs)
  have all: "list_all (\<lambda>kv. list_all json_char (fst kv) \<and> reads_back (snd kv)) kvs"
    using JObj by (auto simp: list_all_iff)
  show ?case
  proof (cases "kvs = []")
    case False
    obtain r0 where "comma_sep (map print_member kvs) = print_member (hd kvs) @ r0" using comma_sep_first [OF False] by blast
    then obtain cs where c: "comma_sep (map print_member kvs) = quote # cs" by (auto simp: quoted_def)
    show ?thesis
    proof (rule reads_backI)
      fix m r assume "2 * length (json_print (JObj kvs)) \<le> m"
      then have "read_members m (comma_sep (map print_member kvs) @ CHR ''}'' # r) = Some (kvs, r)"
        by (intro read_members_back [OF False all]) auto
      then show "read_value (Suc m) (json_print (JObj kvs) @ r) = Some (JObj kvs, r)" using c by simp
    qed
  qed (simp add: reads_backI)
qed (simp_all add: reads_backI)

theorem json_read_print:
  assumes "json_plain j"
  shows "json_read (json_print j) = Some j"
proof -
  have "2 * length (json_print j) < 2 * length (json_print j) + 2" by simp
  then have "read_value (2 * length (json_print j) + 2) (json_print j @ []) = Some (j, [])"
    using json_reads_back [OF assms] stops_number_delims(4) unfolding reads_back_def by blast
  then show ?thesis unfolding json_read_def append_Nil2 by (simp only: option.case prod.case list.case)
qed

end
