(* ===== verification/Exchange_Protocol.thy ===== *)
theory Exchange_Protocol
  imports Json_Text
begin

unbundle bit_operations_syntax

text \<open>
  \<open>src/hft_client/cpp-client/ExchangeProtocol.cpp\<close> and \<open>uuid_v4_gen\<close>: the messages of the trading client.  A message is copied piece by piece into
  a buffer on the stack; a piece that does not fit is the value \<open>None\<close>, where the code writes past the end of the buffer.
\<close>

section \<open>Constants\<close>

definition AUTH_MSG_HEADER :: string where
  \<open>AUTH_MSG_HEADER = ''{"type":"AUTHENTICATE","api_token":"''\<close>
definition HEADER :: string where
  \<open>HEADER = ''{"type":"CREATE_ORDER","order":{"instrument_code":"''\<close>
definition SYMBOL_END :: string where
  \<open>SYMBOL_END = ''","client_id":"''\<close>
definition CLIENT_ID_END :: string where
  \<open>CLIENT_ID_END = ''","side":"''\<close>
definition BUY_SIDE :: string where
  \<open>BUY_SIDE = ''BUY''\<close>
definition SELL_SIDE :: string where
  \<open>SELL_SIDE = ''SELL''\<close>
definition SIDE_END :: string where
  \<open>SIDE_END = ''","type":"''\<close>
definition DUMMY_TYPE :: string where
  \<open>DUMMY_TYPE = ''LIMIT''\<close>
definition TYPE_END :: string where
  \<open>TYPE_END = ''","price":"''\<close>
definition DUMMY_BUY_PRICE :: string where
  \<open>DUMMY_BUY_PRICE = ''1''\<close>
definition DUMMY_SELL_PRICE :: string where
  \<open>DUMMY_SELL_PRICE = ''2''\<close>
definition PRICE_END :: string where
  \<open>PRICE_END = ''","amount":"''\<close>
definition DUMMY_AMOUNT :: string where
  \<open>DUMMY_AMOUNT = ''1''\<close>
definition AMOUNT_END :: string where
  \<open>AMOUNT_END = ''","time_in_force":"''\<close>
definition DUMMY_TIME_IN_FORCE :: string where
  \<open>DUMMY_TIME_IN_FORCE = ''GOOD_TILL_CANCELLED''\<close>
definition TIME_IN_FORCE_END :: string where
  \<open>TIME_IN_FORCE_END = ''"}}''\<close>
definition CANCEL_ORDER_HEADER :: string where
  \<open>CANCEL_ORDER_HEADER = ''{"type":"CANCEL_ORDER","client_id":"''\<close>
definition CANCEL_ORDER_CLIENT_ID_END :: string where
  \<open>CANCEL_ORDER_CLIENT_ID_END = ''","instrument_code":"''\<close>
definition MSG_END :: string where
  \<open>MSG_END = ''"}''\<close>
definition SUBSCRIBE_MSG :: string where
  \<open>SUBSCRIBE_MSG = ''{"type":"SUBSCRIBE","channels":[{"name":"ORDERS"}]}''\<close>
definition MAX_ORDER_SIZE :: nat where
  "MAX_ORDER_SIZE = 256"
definition MAX_CANCEL_ORDER_SIZE :: nat where
  "MAX_CANCEL_ORDER_SIZE = 128"

lemmas message_parts = AUTH_MSG_HEADER_def HEADER_def SYMBOL_END_def CLIENT_ID_END_def BUY_SIDE_def SELL_SIDE_def SIDE_END_def
  DUMMY_TYPE_def TYPE_END_def DUMMY_BUY_PRICE_def DUMMY_SELL_PRICE_def PRICE_END_def DUMMY_AMOUNT_def AMOUNT_END_def
  DUMMY_TIME_IN_FORCE_def TIME_IN_FORCE_END_def CANCEL_ORDER_HEADER_def CANCEL_ORDER_CLIENT_ID_END_def MSG_END_def SUBSCRIBE_MSG_def

section \<open>Messages\<close>

text \<open>The lambda \<open>write\<close>: \<open>std::copy\<close> to the end of what has been written into a buffer of \<open>n\<close> bytes.\<close>

definition write_part :: "nat \<Rightarrow> string option \<Rightarrow> string \<Rightarrow> string option" where
  "write_part n buf str = (case buf of
     None \<Rightarrow> None
   | Some b \<Rightarrow> if length b + length str \<le> n then Some (b @ str) else None)"

definition createBuyOrder :: "string \<Rightarrow> string \<Rightarrow> string option" where
  "createBuyOrder pair clientId = foldl (write_part MAX_ORDER_SIZE) (Some [])
     [HEADER, pair, SYMBOL_END, clientId, CLIENT_ID_END, BUY_SIDE, SIDE_END, DUMMY_TYPE, TYPE_END, DUMMY_BUY_PRICE, PRICE_END,
      DUMMY_AMOUNT, AMOUNT_END, DUMMY_TIME_IN_FORCE, TIME_IN_FORCE_END]"

definition createSellOrder :: "string \<Rightarrow> string \<Rightarrow> string option" where
  "createSellOrder pair clientId = foldl (write_part MAX_ORDER_SIZE) (Some [])
     [HEADER, pair, SYMBOL_END, clientId, CLIENT_ID_END, SELL_SIDE, SIDE_END, DUMMY_TYPE, TYPE_END, DUMMY_SELL_PRICE, PRICE_END,
      DUMMY_AMOUNT, AMOUNT_END, DUMMY_TIME_IN_FORCE, TIME_IN_FORCE_END]"

definition createOrder :: "string \<Rightarrow> string \<Rightarrow> string \<Rightarrow> string \<Rightarrow> string \<Rightarrow> string \<Rightarrow> string option" where
  "createOrder pair type uuid side price qty = foldl (write_part MAX_ORDER_SIZE) (Some [])
     [HEADER, pair, SYMBOL_END, uuid, CLIENT_ID_END, side, SIDE_END, type, TYPE_END, price, PRICE_END,
      qty, AMOUNT_END, DUMMY_TIME_IN_FORCE, TIME_IN_FORCE_END]"

definition createCancelOrder :: "string \<Rightarrow> string \<Rightarrow> string option" where
  "createCancelOrder pair clientId = foldl (write_part MAX_CANCEL_ORDER_SIZE) (Some [])
     [CANCEL_ORDER_HEADER, clientId, CANCEL_ORDER_CLIENT_ID_END, pair, MSG_END]"

text \<open>\<open>authMessage\<close> of the handler.\<close>

definition authMessage :: "int \<Rightarrow> string" where
  "authMessage apiToken = AUTH_MSG_HEADER @ show_int apiToken @ MSG_END"

section \<open>Client ids\<close>

text \<open>The number with the given bytes, the lowest first, and \<open>%0wx\<close> of a number below \<open>16^w\<close>.\<close>

definition le_value :: "u8 list \<Rightarrow> nat" where
  "le_value bs = foldr (\<lambda>b a. unat b + 256 * a) bs 0"

primrec show_hex_pad :: "nat \<Rightarrow> nat \<Rightarrow> string" where
  "show_hex_pad 0 n = []"
| "show_hex_pad (Suc w) n = show_hex_pad w (n div 16) @ [hex_digit (n mod 16)]"

text \<open>\<open>uuid_v4_gen\<close>: the sixteen bytes that \<open>RAND_bytes\<close> wrote are the argument.\<close>

definition uuid_v4_gen :: "u8 list \<Rightarrow> string" where
  "uuid_v4_gen rnd =
     (let time_low = le_value (take 4 rnd);
          time_mid = le_value (take 2 (drop 4 rnd));
          time_hi_and_version = ((of_nat (le_value (take 2 (drop 6 rnd))) :: u16) AND 0x0FFF) OR 0x4000;
          clk_seq_hi_res = ((rnd ! 8) AND 0x3F) OR 0x80;
          clk_seq_low = rnd ! 9;
          node = drop 10 rnd
      in bounded_copy 37
          (show_hex_pad 8 time_low @ ''-'' @ show_hex_pad 4 time_mid @ ''-'' @ show_hex_pad 4 (unat time_hi_and_version) @ ''-'' @
           show_hex_pad 2 (unat clk_seq_hi_res) @ show_hex_pad 2 (unat clk_seq_low) @ ''-'' @
           concat (map (\<lambda>b. show_hex_pad 2 (unat b)) node)))"

section \<open>What the messages say\<close>

lemma write_part_simps [simp]:
  "write_part n None s = None"
  "write_part n (Some b) s = (if length b + length s \<le> n then Some (b @ s) else None)"
  by (simp_all add: write_part_def)

lemma foldl_write_None: "foldl (write_part n) None ss = None"
  by (induction ss) simp_all

lemma foldl_write_part:
  "length b \<le> n \<Longrightarrow>
     foldl (write_part n) (Some b) ss = (if length b + length (concat ss) \<le> n then Some (b @ concat ss) else None)"
  by (induction ss arbitrary: b) (simp_all add: foldl_write_None)

lemma foldl_write_Nil: "foldl (write_part n) (Some []) ss = (if length (concat ss) \<le> n then Some (concat ss) else None)"
  using foldl_write_part [of "[]" n ss] by simp

definition order_json :: "string \<Rightarrow> string \<Rightarrow> string \<Rightarrow> string \<Rightarrow> string \<Rightarrow> string \<Rightarrow> json" where
  "order_json pair type clientId side price amount =
     JObj [(''type'', JStr ''CREATE_ORDER''),
           (''order'', JObj [(''instrument_code'', JStr pair), (''client_id'', JStr clientId), (''side'', JStr side), (''type'', JStr type),
                           (''price'', JStr price), (''amount'', JStr amount), (''time_in_force'', JStr ''GOOD_TILL_CANCELLED'')])]"

definition cancel_json :: "string \<Rightarrow> string \<Rightarrow> json" where
  "cancel_json pair clientId =
     JObj [(''type'', JStr ''CANCEL_ORDER''), (''client_id'', JStr clientId), (''instrument_code'', JStr pair)]"

definition auth_json :: "int \<Rightarrow> json" where
  "auth_json token = JObj [(''type'', JStr ''AUTHENTICATE''), (''api_token'', JStr (show_int token))]"

definition subscribe_json :: json where
  "subscribe_json = JObj [(''type'', JStr ''SUBSCRIBE''), (''channels'', JArr [JObj [(''name'', JStr ''ORDERS'')]])]"

lemmas message_jsons = order_json_def cancel_json_def auth_json_def subscribe_json_def

text \<open>
  Every message is the compact JSON text of its value when it fits its buffer; this is exactly when the variable parts together
  have at most 106, 96, 95 or 69 characters.
\<close>

lemma createOrder_text:
  "createOrder pair type uuid side price qty =
     (if length pair + length type + length uuid + length side + length price + length qty \<le> 106
      then Some (json_print (order_json pair type uuid side price qty)) else None)"
  unfolding createOrder_def foldl_write_Nil by (simp add: MAX_ORDER_SIZE_def message_jsons quoted_def message_parts)

lemma createBuyOrder_text:
  "createBuyOrder pair clientId =
     (if length pair + length clientId \<le> 96 then Some (json_print (order_json pair ''LIMIT'' clientId ''BUY'' ''1'' ''1'')) else None)"
proof -
  have "createBuyOrder pair clientId = createOrder pair DUMMY_TYPE clientId BUY_SIDE DUMMY_BUY_PRICE DUMMY_AMOUNT"
    by (simp only: createBuyOrder_def createOrder_def)
  then show ?thesis by (simp add: createOrder_text message_parts)
qed

lemma createSellOrder_text:
  "createSellOrder pair clientId =
     (if length pair + length clientId \<le> 95 then Some (json_print (order_json pair ''LIMIT'' clientId ''SELL'' ''2'' ''1'')) else None)"
proof -
  have "createSellOrder pair clientId = createOrder pair DUMMY_TYPE clientId SELL_SIDE DUMMY_SELL_PRICE DUMMY_AMOUNT"
    by (simp only: createSellOrder_def createOrder_def)
  then show ?thesis by (simp add: createOrder_text message_parts)
qed

lemma createCancelOrder_text:
  "createCancelOrder pair clientId =
     (if length pair + length clientId \<le> 69 then Some (json_print (cancel_json pair clientId)) else None)"
  unfolding createCancelOrder_def foldl_write_Nil by (simp add: MAX_CANCEL_ORDER_SIZE_def message_jsons quoted_def message_parts)

lemma authMessage_text: "authMessage token = json_print (auth_json token)"
  by (simp add: authMessage_def message_jsons quoted_def message_parts)

lemma SUBSCRIBE_MSG_text: "SUBSCRIBE_MSG = json_print subscribe_json"
  by (simp add: message_jsons quoted_def message_parts)

lemma show_int_plain: "list_all json_char (show_int i)"
proof -
  have "is_digit c \<Longrightarrow> json_char c" for c by (auto simp: is_digit_def json_char_def char_code_def)
  then have "list_all json_char (show_dec n)" for n using show_dec_digits [of n] by (auto simp: list_all_iff)
  then show ?thesis by (auto simp: show_int_def json_char_def char_code_def)
qed

lemma message_jsons_plain:
  assumes "list_all json_char pair" "list_all json_char clientId"
  shows "json_plain (order_json pair ''LIMIT'' clientId ''BUY'' ''1'' ''1'')" "json_plain (order_json pair ''LIMIT'' clientId ''SELL'' ''2'' ''1'')"
    "json_plain (cancel_json pair clientId)" "json_plain (auth_json token)" "json_plain subscribe_json"
  using assms show_int_plain [of token] by (simp_all add: message_jsons json_char_def char_code_def)

section \<open>Shape of the client ids\<close>

lemma le_value_simps [simp]: "le_value [] = 0" "le_value (b # bs) = unat b + 256 * le_value bs"
  by (simp_all add: le_value_def)

lemma show_hex_pad_byte: "show_hex_pad (w + 2) (unat b + 256 * a) = show_hex_pad w a @ show_hex2 b"
proof -
  have n: "unat b + 256 * a = unat b + (16 * a) * 16" by simp
  have q: "(unat b + 256 * a) div 16 = unat b div 16 + 16 * a" by simp
  have r: "(unat b + 256 * a) mod 16 = unat b mod 16" unfolding n by (simp only: mod_mult_self1)
  have d: "unat b div 16 < 16" using u8_bound [of b] by (simp add: less_mult_imp_div_less)
  have "(unat b div 16 + 16 * a) div 16 = a" "(unat b div 16 + 16 * a) mod 16 = unat b div 16" using d by simp_all
  then show ?thesis unfolding add_2_eq_Suc' show_hex_pad.simps q r by (simp add: show_hex2_def)
qed

lemma show_hex_pad_2: "show_hex_pad 2 (unat b) = show_hex2 b"
  using show_hex_pad_byte [of 0 b 0] by (simp only: add_0 mult_0_right add_0_right show_hex_pad.simps append_Nil)

lemma show_hex_pad_le4: "show_hex_pad 4 (le_value [a, b]) = show_hex2 b @ show_hex2 a"
  using show_hex_pad_byte [of 2 a "unat b"] show_hex_pad_2 [of b] by simp

lemma show_hex_pad_le8: "show_hex_pad 8 (le_value [a, b, c, d]) = show_hex2 d @ show_hex2 c @ show_hex2 b @ show_hex2 a"
  using show_hex_pad_byte [of 6 a "le_value [b, c, d]"] show_hex_pad_byte [of 4 b "le_value [c, d]"] show_hex_pad_le4 [of c d]
  by simp

text \<open>The version byte and the variant byte.\<close>

definition version_byte :: "u8 \<Rightarrow> u8" where
  "version_byte b = (b AND 0x0F) OR 0x40"

definition variant_byte :: "u8 \<Rightarrow> u8" where
  "variant_byte b = (b AND 0x3F) OR 0x80"

lemma fixed_bits_add:
  "version_byte b = (b AND 0x0F) + 0x40" "variant_byte b = (b AND 0x3F) + 0x80"
  "((x :: u16) AND 0x0FFF) OR 0x4000 = (x AND 0x0FFF) + 0x4000"
  by (simp_all add: version_byte_def variant_byte_def disjunctive_add_eq_or and.assoc)

lemma unat_low_bits:
  "unat ((b :: u8) AND 0x0F) = unat b mod 16" "unat ((b :: u8) AND 0x3F) = unat b mod 64" "unat ((x :: u16) AND 0x0FFF) = unat x mod 4096"
  using unat_and_mask [of b 4] unat_and_mask [of b 6] unat_and_mask [of x 12]
  by (simp_all add: mask_eq_exp_minus_1)

lemma unat_fixed_bytes: "unat (version_byte b) = unat b mod 16 + 64" "unat (variant_byte b) = unat b mod 64 + 128"
proof -
  have "unat (b AND 0x0F) + 64 < 256" "unat (b AND 0x3F) + 128 < 256"
    unfolding unat_low_bits by (simp_all add: pos_mod_bound [THEN order_less_trans])
  then show "unat (version_byte b) = unat b mod 16 + 64" "unat (variant_byte b) = unat b mod 64 + 128"
    by (simp_all add: fixed_bits_add unat_word_ariths unat_low_bits)
qed

lemma version_field: "unat (((of_nat (le_value [a, b]) :: u16) AND 0x0FFF) OR 0x4000) = le_value [a, version_byte b]"
proof -
  have v: "unat (of_nat (le_value [a, b]) :: u16) = unat a + 256 * unat b"
    using u8_bound [of a] u8_bound [of b] by (subst unat_of_nat_small) simp_all
  have "(unat a + 256 * unat b) mod 4096 = unat a + 256 * (unat b mod 16)"
    using u8_bound [of a] mod_mult2_eq [of "unat a + 256 * unat b" 256 16] by simp
  then have "unat ((of_nat (le_value [a, b]) :: u16) AND 0x0FFF) = unat a + 256 * (unat b mod 16)"
    by (simp only: unat_low_bits v)
  moreover have "unat a + 256 * (unat b mod 16) + 16384 < 65536"
    using u8_bound [of a] mod_less_divisor [of 16 "unat b"] by linarith
  ultimately show ?thesis by (simp add: fixed_bits_add(3) unat_word_ariths unat_fixed_bytes)
qed

text \<open>The id, byte by byte.\<close>

definition uuid_text :: "u8 list \<Rightarrow> string" where
  "uuid_text bs = concat (map show_hex2 (take 4 bs)) @ ''-'' @ concat (map show_hex2 (take 2 (drop 4 bs))) @ ''-'' @
     concat (map show_hex2 (take 2 (drop 6 bs))) @ ''-'' @ concat (map show_hex2 (take 2 (drop 8 bs))) @ ''-'' @ concat (map show_hex2 (drop 10 bs))"

definition uuid_bytes :: "u8 list \<Rightarrow> u8 list" where
  "uuid_bytes rnd = rev (take 4 rnd) @ rev (take 2 (drop 4 rnd)) @ [version_byte (rnd ! 7), rnd ! 6, variant_byte (rnd ! 8)] @ drop 9 rnd"

lemma list_of_16:
  assumes "length xs = 16"
  obtains a b c d e f g h i j k l m n p q where "xs = [a, b, c, d, e, f, g, h, i, j, k, l, m, n, p, q]"
proof -
  have "16 = Suc (Suc (Suc (Suc (Suc (Suc (Suc (Suc (Suc (Suc (Suc (Suc (Suc (Suc (Suc (Suc 0)))))))))))))))" by simp
  then show thesis using assms that by (auto simp only: length_Suc_conv length_0_conv)
qed

lemma uuid_v4_gen_text:
  assumes "length rnd = 16"
  shows "uuid_v4_gen rnd = uuid_text (uuid_bytes rnd)"
proof -
  obtain a b c d e f g h i j k l m n p q where "rnd = [a, b, c, d, e, f, g, h, i, j, k, l, m, n, p, q]"
    using list_of_16 [OF assms] .
  then have r: "take 4 rnd = [a, b, c, d]" "take 2 (drop 4 rnd) = [e, f]" "take 2 (drop 6 rnd) = [g, h]" "rnd ! 7 = h" "rnd ! 6 = g"
    "rnd ! 8 = i" "rnd ! 9 = j" "drop 10 rnd = [k, l, m, n, p, q]" "drop 9 rnd = [j, k, l, m, n, p, q]"
    by simp_all
  show ?thesis
    unfolding uuid_v4_gen_def uuid_bytes_def r version_field variant_byte_def [symmetric] Let_def show_hex_pad_le8 show_hex_pad_le4 show_hex_pad_2
    by (simp add: uuid_text_def bounded_copy_def show_hex2_def)
qed

lemma show_hex2_eq [simp]: "show_hex2 a = show_hex2 b \<longleftrightarrow> a = b"
proof
  assume e: "show_hex2 a = show_hex2 b"
  have h: "unat x div 16 < 16" for x :: u8 using u8_bound [of x] by (simp add: less_mult_imp_div_less)
  have "hex_val (hex_digit (unat a div 16)) = hex_val (hex_digit (unat b div 16))"
    "hex_val (hex_digit (unat a mod 16)) = hex_val (hex_digit (unat b mod 16))"
    using e by (simp_all add: show_hex2_def)
  then have "unat a div 16 = unat b div 16" "unat a mod 16 = unat b mod 16" using h by (simp_all add: hex_digit_facts)
  then have "unat a = unat b" by (metis div_mult_mod_eq)
  then show "a = b" by (rule word_eq_iff_unsigned [THEN iffD2])
qed simp

lemma length_show_hex2 [simp]: "length (show_hex2 b) = 2"
  by (simp add: show_hex2_def)

lemma show_hex2_append_eq [simp]: "show_hex2 a @ s = show_hex2 b @ t \<longleftrightarrow> a = b \<and> s = t"
  by (simp add: append_eq_append_conv)

lemma uuid_text_inj:
  assumes "length bs = 16" "length cs = 16"
  shows "uuid_text bs = uuid_text cs \<longleftrightarrow> bs = cs"
proof -
  obtain a b c d e f g h i j k l m n p q where bs: "bs = [a, b, c, d, e, f, g, h, i, j, k, l, m, n, p, q]"
    using list_of_16 [OF assms(1)] .
  obtain a' b' c' d' e' f' g' h' i' j' k' l' m' n' p' q' where cs: "cs = [a', b', c', d', e', f', g', h', i', j', k', l', m', n', p', q']"
    using list_of_16 [OF assms(2)] .
  show ?thesis unfolding bs cs uuid_text_def by simp
qed

text \<open>The random bits that reach the id: all but the four of the version and the two of the variant.\<close>

definition uuid_entropy :: "u8 list \<Rightarrow> u8 list" where
  "uuid_entropy rnd = take 7 rnd @ [rnd ! 7 AND 0x0F, rnd ! 8 AND 0x3F] @ drop 9 rnd"

lemma uuid_v4_inj:
  assumes "length r = 16" "length s = 16"
  shows "uuid_v4_gen r = uuid_v4_gen s \<longleftrightarrow> uuid_entropy r = uuid_entropy s"
proof -
  have l: "length (uuid_bytes r) = 16" "length (uuid_bytes s) = 16" using assms by (simp_all add: uuid_bytes_def)
  obtain a b c d e f g h i j k l m n p q where r: "r = [a, b, c, d, e, f, g, h, i, j, k, l, m, n, p, q]"
    using list_of_16 [OF assms(1)] .
  obtain a' b' c' d' e' f' g' h' i' j' k' l' m' n' p' q' where s: "s = [a', b', c', d', e', f', g', h', i', j', k', l', m', n', p', q']"
    using list_of_16 [OF assms(2)] .
  have "uuid_bytes r = uuid_bytes s \<longleftrightarrow> uuid_entropy r = uuid_entropy s"
    unfolding r s uuid_bytes_def uuid_entropy_def by (auto simp: fixed_bits_add)
  then show ?thesis by (simp add: uuid_v4_gen_text assms uuid_text_inj [OF l])
qed

lemma hex_digit_values: "hex_digit 4 = CHR ''4''" "hex_digit 8 = CHR ''8''" "hex_digit 9 = CHR ''9''" "hex_digit 10 = CHR ''a''"
  "hex_digit 11 = CHR ''b''"
  by code_simp+

lemma hex_digit_plain: "d < 16 \<Longrightarrow> json_char (hex_digit d)"
proof -
  assume d: "d < 16"
  have c: "char_code (hex_digit d) = (if d < 10 then 48 + d else 87 + d)"
    using d by (simp add: hex_digit_def char_code_def)
  have "char_code (hex_digit d) \<notin> {34, 92}" using d unfolding c by auto
  then have "hex_digit d \<noteq> quote" "hex_digit d \<noteq> CHR 0x5C" by (auto simp: char_code_def)
  then show ?thesis using d by (simp add: json_char_def c)
qed

lemma show_hex2_plain [simp]: "list_all json_char (show_hex2 b)"
  using u8_bound [of b] by (simp add: show_hex2_def hex_digit_plain less_mult_imp_div_less)

lemma uuid_v4_shape:
  assumes "length rnd = 16"
  shows "length (uuid_v4_gen rnd) = 36" "list_all json_char (uuid_v4_gen rnd)"
    "uuid_v4_gen rnd ! 14 = CHR ''4''" "uuid_v4_gen rnd ! 19 \<in> set ''89ab''"
    "\<forall>i \<in> {8, 13, 18, 23}. uuid_v4_gen rnd ! i = CHR ''-''"
proof -
  obtain a b c d e f g h i j k l m n p q where r: "rnd = [a, b, c, d, e, f, g, h, i, j, k, l, m, n, p, q]"
    using list_of_16 [OF assms] .
  have u: "uuid_v4_gen rnd = uuid_text [d, c, b, a, f, e, version_byte h, g, variant_byte i, j, k, l, m, n, p, q]"
    unfolding uuid_v4_gen_text [OF assms] unfolding r uuid_bytes_def by simp
  show "length (uuid_v4_gen rnd) = 36" unfolding u by (simp add: uuid_text_def)
  show "list_all json_char (uuid_v4_gen rnd)" unfolding u by (simp add: uuid_text_def json_char_def char_code_def)
  have "(unat h mod 16 + 64) div 16 = 4" by simp
  then show "uuid_v4_gen rnd ! 14 = CHR ''4''"
    unfolding u by (simp add: uuid_text_def show_hex2_def unat_fixed_bytes hex_digit_values)
  show "\<forall>i \<in> {8, 13, 18, 23}. uuid_v4_gen rnd ! i = CHR ''-''"
    unfolding u by (simp add: uuid_text_def show_hex2_def)
  have "unat i mod 64 div 16 < 4" by (simp add: less_mult_imp_div_less)
  moreover have "(unat i mod 64 + 128) div 16 = unat i mod 64 div 16 + 8" by simp
  ultimately have "(unat i mod 64 + 128) div 16 \<in> {8, 9, 10, 11}" by auto
  then show "uuid_v4_gen rnd ! 19 \<in> set ''89ab''"
    unfolding u by (auto simp: uuid_text_def show_hex2_def unat_fixed_bytes hex_digit_values)
qed

section \<open>Messages and ids as a whole\<close>

text \<open>
  C22. Every message of the client is a JSON text that says what was meant: read by any reader of compact JSON, it yields the order, the cancel, the authentication or
  the subscription with the given pair and client id.  The message is complete exactly when pair and client id have together at most 96, 95 or 69 characters; otherwise
  the copy runs past the end of the buffer.
\<close>

theorem messages_roundtrip:
  assumes "list_all json_char pair" "list_all json_char clientId"
  shows "map_option json_read (createBuyOrder pair clientId) =
      (if length pair + length clientId \<le> 96 then Some (Some (order_json pair ''LIMIT'' clientId ''BUY'' ''1'' ''1'')) else None)
    \<and> map_option json_read (createSellOrder pair clientId) =
      (if length pair + length clientId \<le> 95 then Some (Some (order_json pair ''LIMIT'' clientId ''SELL'' ''2'' ''1'')) else None)
    \<and> map_option json_read (createCancelOrder pair clientId) =
      (if length pair + length clientId \<le> 69 then Some (Some (cancel_json pair clientId)) else None)
    \<and> json_read (authMessage token) = Some (auth_json token)
    \<and> json_read SUBSCRIBE_MSG = Some subscribe_json"
  unfolding createBuyOrder_text createSellOrder_text createCancelOrder_text authMessage_text SUBSCRIBE_MSG_text
  by (simp add: json_read_print message_jsons_plain [OF assms])

text \<open>Witness: the pair of the default configuration and a client id.\<close>

theorem messages_roundtrip_witness:
  "map_option json_read (createBuyOrder ''BTC_EUR'' ''42'') = Some (Some (order_json ''BTC_EUR'' ''LIMIT'' ''42'' ''BUY'' ''1'' ''1''))"
proof -
  have "list_all json_char ''BTC_EUR''" "list_all json_char ''42''" by (simp_all add: json_char_def char_code_def)
  from messages_roundtrip [OF this, of 3002] show ?thesis by simp
qed

text \<open>
  C29. A client id is a version 4 identifier of RFC 4122: 36 characters, dashes at four places, the version digit 4 and the variant digit 8, 9, a or b.  Two ids are equal exactly
  when the 122 random bits that are not fixed are equal: no randomness is lost.
\<close>

theorem client_ids_unique:
  assumes "length rnd = 16" "length rnd' = 16"
  shows "length (uuid_v4_gen rnd) = 36 \<and> list_all json_char (uuid_v4_gen rnd)
    \<and> uuid_v4_gen rnd ! 14 = CHR ''4'' \<and> uuid_v4_gen rnd ! 19 \<in> set ''89ab''
    \<and> uuid_v4_gen rnd ! 8 = CHR ''-'' \<and> uuid_v4_gen rnd ! 13 = CHR ''-'' \<and> uuid_v4_gen rnd ! 18 = CHR ''-'' \<and> uuid_v4_gen rnd ! 23 = CHR ''-''
    \<and> (uuid_v4_gen rnd = uuid_v4_gen rnd' \<longleftrightarrow> uuid_entropy rnd = uuid_entropy rnd')"
  using uuid_v4_shape [OF assms(1)] uuid_v4_inj [OF assms] by simp

text \<open>Witness: two random inputs that differ only in the bits that the version and the variant replace.\<close>

theorem client_ids_unique_witness:
  "length (uuid_v4_gen (replicate 16 0)) = 36
     \<and> (uuid_v4_gen (replicate 16 0) = uuid_v4_gen ((replicate 16 0)[7 := 0xF0, 8 := 0xC0])
          \<longleftrightarrow> uuid_entropy (replicate 16 0) = uuid_entropy ((replicate 16 0)[7 := 0xF0, 8 := 0xC0]))"
  using client_ids_unique [of "replicate 16 0" "(replicate 16 0)[7 := 0xF0, 8 := 0xC0]"] by simp

end
