(* ===== verification/Hft_Config.thy ===== *)
theory Hft_Config
  imports Cpp_Lib
begin

text \<open>
  \<open>src/hft_client/cpp-client/Config.cpp\<close>: the properties file of the trading client.  The content of \<open>config.properties\<close> is an argument
  (\<open>None\<close> when the file cannot be opened).  Every function yields what it prints beside its result, and a number that cannot be
  converted is the exception of \<open>std::stoi\<close> or \<open>std::stol\<close>, which ends the program before \<open>main\<close>.
\<close>

section \<open>Reading a property\<close>

type_synonym 'a printed = "string list \<times> 'a outcome"

definition and_then :: "'a printed \<Rightarrow> ('a \<Rightarrow> 'b printed) \<Rightarrow> 'b printed" where
  "and_then p f = (case snd p of
     Inl e \<Rightarrow> (fst p, Inl e)
   | Inr x \<Rightarrow> (fst p @ fst (f x), snd (f x)))"

text \<open>
  The loop over the lines.  An empty line fails the first \<open>getline\<close>; the first line with the key ends the loop, and
  the value is what follows its first equals sign, or nothing when it has none.
\<close>

fun find_property :: "string \<Rightarrow> string list \<Rightarrow> string" where
  "find_property key [] = []"
| "find_property key (l # ls) =
     (if l \<noteq> [] \<and> takeWhile (\<lambda>c. c \<noteq> CHR ''='') l = key then tl (dropWhile (\<lambda>c. c \<noteq> CHR ''='') l)
      else find_property key ls)"

definition getProperty :: "string option \<Rightarrow> string \<Rightarrow> string \<Rightarrow> string list \<times> string" where
  "getProperty file key defaultValue =
     (let value = (case file of None \<Rightarrow> [] | Some t \<Rightarrow> find_property key (getlines t));
          missing = (if value = [] then [key @ '' config doesn't exist, defaulting to '' @ defaultValue] else []);
          v = (if value = [] then defaultValue else value)
      in (missing @ [''Found property in the config '' @ key @ '':'' @ v], v))"

definition getStringProperty :: "string option \<Rightarrow> string \<Rightarrow> string \<Rightarrow> string printed" where
  "getStringProperty file key defaultValue = (case getProperty file key defaultValue of (out, v) \<Rightarrow> (out, Inr v))"

definition getListProperty :: "string option \<Rightarrow> string \<Rightarrow> string \<Rightarrow> string list printed" where
  "getListProperty file key defaultValue =
     (case getProperty file key defaultValue of (out, v) \<Rightarrow> (out, Inr (getline_all (CHR '','') v)))"

definition getIntegerProperty :: "string option \<Rightarrow> string \<Rightarrow> string \<Rightarrow> int printed" where
  "getIntegerProperty file key defaultValue = (case getProperty file key defaultValue of (out, v) \<Rightarrow> (out, stoi v))"

definition getLongProperty :: "string option \<Rightarrow> string \<Rightarrow> string \<Rightarrow> int printed" where
  "getLongProperty file key defaultValue = (case getProperty file key defaultValue of (out, v) \<Rightarrow> (out, stol v))"

definition tolower :: "char \<Rightarrow> char" where
  "tolower c = (if 65 \<le> char_code c \<and> char_code c \<le> 90 then char_of (char_code c + 32) else c)"

definition getBooleanProperty :: "string option \<Rightarrow> string \<Rightarrow> string \<Rightarrow> bool printed" where
  "getBooleanProperty file key defaultValue =
     (case getProperty file key defaultValue of (out, v) \<Rightarrow> (out, Inr (map tolower v = ''true'')))"

section \<open>The static members\<close>

record hft_config =
  COIN_PAIRS :: "string list"
  API_TOKEN :: int
  HOST :: string
  HTTP_PORT :: int
  WEBSOCKET_PORT :: int
  TEST_SIZE :: int
  WARMUP_COUNT :: int
  USE_IOURING :: bool
  EXCHANGE_CLIENT_COUNT :: int
  USE_SSL :: bool
  KEY_STORE_PASSWORD :: string
  KEY_STORE_PATH :: string
  CIPHERS :: string

text \<open>Their initialisers, in the order of the file.\<close>

definition load_config :: "string option \<Rightarrow> hft_config printed" where
  "load_config file =
     and_then (getListProperty file ''COINPAIRS'' ''BTC_EUR'') (\<lambda>pairs.
     and_then (getIntegerProperty file ''API_TOKEN'' ''3002'') (\<lambda>token.
     and_then (getStringProperty file ''HOST'' ''localhost'') (\<lambda>host.
     and_then (getIntegerProperty file ''HTTP_PORT'' ''8888'') (\<lambda>http.
     and_then (getIntegerProperty file ''WEBSOCKET_PORT'' ''8888'') (\<lambda>ws.
     and_then (getIntegerProperty file ''TEST_SIZE'' ''10000'') (\<lambda>size.
     and_then (getLongProperty file ''WARMUP_COUNT'' ''5'') (\<lambda>warmup.
     and_then (getBooleanProperty file ''USE_IOURING'' ''false'') (\<lambda>iouring.
     and_then (getIntegerProperty file ''EXCHANGE_CLIENT_COUNT'' ''16'') (\<lambda>clients.
     and_then (getBooleanProperty file ''USE_SSL'' ''false'') (\<lambda>ssl.
     and_then (getStringProperty file ''KEY_STORE_PASSWORD'' ''123456'') (\<lambda>pass.
     and_then (getStringProperty file ''KEY_STORE_PATH'' ''keystore.p12'') (\<lambda>path.
     and_then (getStringProperty file ''CIPHERS'' ''AES256-GCM-SHA384'') (\<lambda>ciphers.
       ([], Inr \<lparr> COIN_PAIRS = pairs, API_TOKEN = token, HOST = host, HTTP_PORT = http, WEBSOCKET_PORT = ws, TEST_SIZE = size,
                 WARMUP_COUNT = warmup, USE_IOURING = iouring, EXCHANGE_CLIENT_COUNT = clients, USE_SSL = ssl,
                 KEY_STORE_PASSWORD = pass, KEY_STORE_PATH = path, CIPHERS = ciphers \<rparr>))))))))))))))"

section \<open>Properties\<close>








lemma and_then_Inr:
  "snd (and_then p f) = Inr y \<longleftrightarrow> (\<exists>x. snd p = Inr x \<and> snd (f x) = Inr y)"
  by (auto simp: and_then_def split: sum.splits)

lemma and_then_Inl:
  "snd (and_then p f) = Inl e \<longleftrightarrow> snd p = Inl e \<or> (\<exists>x. snd p = Inr x \<and> snd (f x) = Inl e)"
  by (auto simp: and_then_def split: sum.splits)

lemmas getter_defs =
  getStringProperty_def getListProperty_def getIntegerProperty_def getLongProperty_def getBooleanProperty_def

lemma getProperty_nonempty: "d \<noteq> [] \<Longrightarrow> snd (getProperty file key d) \<noteq> []"
  by (auto simp: getProperty_def Let_def)


definition default_config :: hft_config where
  "default_config = \<lparr> COIN_PAIRS = [''BTC_EUR''], API_TOKEN = 3002, HOST = ''localhost'', HTTP_PORT = 8888, WEBSOCKET_PORT = 8888, TEST_SIZE = 10000,
     WARMUP_COUNT = 5, USE_IOURING = False, EXCHANGE_CLIENT_COUNT = 16, USE_SSL = False, KEY_STORE_PASSWORD = ''123456'', KEY_STORE_PATH = ''keystore.p12'',
     CIPHERS = ''AES256-GCM-SHA384'' \<rparr>"

lemma load_default_config: "snd (load_config None) = Inr default_config"
  by code_simp



lemma stoi_range: "stoi s = Inr v \<Longrightarrow> - (2 ^ 31) \<le> v \<and> v < 2 ^ 31"
  by (auto simp: stoi_def Let_def split: option.splits prod.splits if_splits)

text \<open>Whatever the file contains, there is a first pair to trade, and the sizes fit an \<open>int\<close>.\<close>

lemma load_config_wf:
  assumes "snd (load_config file) = Inr c"
  shows "COIN_PAIRS c \<noteq> []" "- (2 ^ 31) \<le> TEST_SIZE c" "TEST_SIZE c < 2 ^ 31" "- (2 ^ 31) \<le> API_TOKEN c" "API_TOKEN c < 2 ^ 31"
proof -
  have n: "snd (getProperty file ''COINPAIRS'' ''BTC_EUR'') \<noteq> []" by (rule getProperty_nonempty) simp
  show "COIN_PAIRS c \<noteq> []"
    using assms getline_all_nonempty [OF n]
    unfolding load_config_def and_then_Inr by (auto simp: getter_defs split: prod.splits)
  have "\<exists>t s. stoi t = Inr (TEST_SIZE c) \<and> stoi s = Inr (API_TOKEN c)"
    using assms unfolding load_config_def and_then_Inr by (auto simp: getter_defs split: prod.splits)
  then show "- (2 ^ 31) \<le> TEST_SIZE c" "TEST_SIZE c < 2 ^ 31" "- (2 ^ 31) \<le> API_TOKEN c" "API_TOKEN c < 2 ^ 31"
    using stoi_range by blast+
qed

end
