(* ===== verification/Latency_Handler.thy ===== *)
theory Latency_Handler
  imports Complex_Main Exchange_Protocol Hft_Config
begin

text \<open>
  \<open>src/hft_client/cpp-client/ExchangeClientLatencyTestHandler.cpp\<close>: the handler of the trading client, which sends an order, cancels it when it is booked, sends the
  next one when the cancel is done, and records the time each answer took.  Clock readings, random bytes and the results of file operations are arguments; websocketpp's
  sends are events; nlohmann's \<open>json::parse\<close> and the queries of HdrHistogram are functions given as arguments.  Exceptions and undefined behaviour are errors.
\<close>

section \<open>State, effects and library\<close>

datatype hft_error =
    Buffer_overrun \<comment> \<open>a message that does not fit its stack buffer\<close>
  | No_pair \<comment> \<open>\<open>COIN_PAIRS[0]\<close> of an empty vector\<close>
  | Uninitialised \<comment> \<open>the start time of the histogram is read before it is set\<close>
  | Division_by_zero
  | Bad_alloc
  | Json_exception string \<comment> \<open>an exception of the JSON library that no handler catches\<close>

datatype hft_event =
    Logged string
  | Dumped string json \<comment> \<open>a text followed by \<open>dump()\<close> of a value\<close>
  | Sent string
  | Recorded int \<comment> \<open>a call of \<open>hdr_record_value\<close>\<close>
  | Printed string
  | Made_directory string
  | Log_written string string "int \<times> int" "int \<times> int" "int list" \<comment> \<open>path, comment, start, end and values of an interval\<close>
  | Close_sent string

record latency_handler =
  m_apiToken :: int
  orderSentTimeMap :: "string \<rightharpoonup> int"
  cancelSentTimeMap :: "string \<rightharpoonup> int"
  orderResponseCount :: u64
  testStartTime :: int
  histogram :: "int list" \<comment> \<open>the values recorded since the last reset\<close>
  histogramStartTimeSpec :: "(int \<times> int) option"

text \<open>What HdrHistogram answers: whether it takes a value, percentiles and the maximum of what was recorded.\<close>

record hdr_library =
  hdr_accepts :: "int \<Rightarrow> bool"
  hdr_value_at_percentile :: "int list \<Rightarrow> rat \<Rightarrow> int"
  hdr_max :: "int list \<Rightarrow> int"

text \<open>What a message finds around it: the clock when it arrives, the clock when a subscription starts the test, the clock behind the next send, random bytes, the wall clock and whether the log file opens.\<close>

record surroundings =
  receive_time :: int
  start_time :: int
  send_time :: int
  random_bytes :: "u8 list"
  wall_clock :: "int \<times> int"
  log_opens :: bool

type_synonym turn_result = "hft_error + latency_handler \<times> hft_event list"

section \<open>Construction\<close>

text \<open>The maps get \<open>TEST_SIZE\<close> buckets; \<open>buckets_ok\<close> tells which bucket counts can be allocated.\<close>

definition new_handler :: "hft_config \<Rightarrow> (u64 \<Rightarrow> bool) \<Rightarrow> int \<Rightarrow> hft_error + latency_handler" where
  "new_handler c buckets_ok apiToken =
     (if \<not> buckets_ok (of_int (TEST_SIZE c)) then Inl Bad_alloc
      else Inr \<lparr> m_apiToken = apiToken, orderSentTimeMap = Map.empty, cancelSentTimeMap = Map.empty, orderResponseCount = 0, testStartTime = 0,
                 histogram = [], histogramStartTimeSpec = None \<rparr>)"

section \<open>Round trips and the report\<close>

text \<open>\<open>std::unordered_map::insert\<close> keeps the entry that is there.\<close>

definition map_insert :: "('k \<rightharpoonup> 'v) \<Rightarrow> 'k \<Rightarrow> 'v \<Rightarrow> ('k \<rightharpoonup> 'v)" where
  "map_insert m k v = (if m k = None then m(k \<mapsto> v) else m)"

definition calculateRoundTrip ::
  "hdr_library \<Rightarrow> int \<Rightarrow> string \<Rightarrow> (string \<rightharpoonup> int) \<Rightarrow> int list \<Rightarrow> bool \<times> (string \<rightharpoonup> int) \<times> int list \<times> hft_event list" where
  "calculateRoundTrip lib eventReceiveTime clientId sentTimeMap hist =
     (case sentTimeMap clientId of
        None \<Rightarrow> (True, sentTimeMap, hist, [Logged (''no order sent time found for order '' @ clientId)])
      | Some sent \<Rightarrow>
          if eventReceiveTime < sent then (True, sentTimeMap, hist, [Logged (''no order sent time found for order '' @ clientId)])
          else (let roundTripTime = eventReceiveTime - sent
                in if 0 < roundTripTime
                   then (False, sentTimeMap(clientId := None), if hdr_accepts lib roundTripTime then hist @ [roundTripTime] else hist, [Recorded roundTripTime])
                   else (False, sentTimeMap(clientId := None), hist, [])))"

definition percentile_line :: "string \<Rightarrow> int \<Rightarrow> string \<Rightarrow> string" where
  "percentile_line label v end_of_line =
     ''        '' @ quoted label @ '':'' @ quoted (show_int v @ ''ns'') @ end_of_line @ [CHR 0x0A]"

definition percentile_report :: "hdr_library \<Rightarrow> int list \<Rightarrow> string" where
  "percentile_report lib hist =
     ''Percentiles: {'' @ [CHR 0x0A] @
     percentile_line ''50.0%'' (hdr_value_at_percentile lib hist 50) '','' @
     percentile_line ''90.0%'' (hdr_value_at_percentile lib hist 90) '','' @
     percentile_line ''95.0%'' (hdr_value_at_percentile lib hist 95) '','' @
     percentile_line ''99.0%'' (hdr_value_at_percentile lib hist 99) '','' @
     percentile_line ''99.9%'' (hdr_value_at_percentile lib hist (999 / 10)) '','' @
     percentile_line ''99.99%'' (hdr_value_at_percentile lib hist (9999 / 100)) '','' @
     percentile_line ''W'' (hdr_max lib hist) '''' @
     ''}''"

definition saveHistogramToFile :: "hft_config \<Rightarrow> surroundings \<Rightarrow> latency_handler \<Rightarrow> turn_result" where
  "saveHistogramToFile c e h =
     (let folder = map (\<lambda>ch. if ch = CHR ''.'' then CHR ''_'' else ch) (HOST c);
          path = folder @ ''/histogram_cpp.hlog''
      in if \<not> log_opens e then Inr (h, [Made_directory folder, Logged (''Failed to open histogram log file: '' @ path)])
         else (case histogramStartTimeSpec h of
                 None \<Rightarrow> Inl Uninitialised
               | Some start \<Rightarrow>
                   Inr (h\<lparr>histogramStartTimeSpec := Some (wall_clock e)\<rparr>,
                        [Made_directory folder, Log_written path ''C++ HFT Client 0.0.1'' start (wall_clock e) (histogram h), Logged (''Histogram saved to '' @ path)])))"

definition hdrPrint :: "hft_config \<Rightarrow> hdr_library \<Rightarrow> surroundings \<Rightarrow> latency_handler \<Rightarrow> turn_result" where
  "hdrPrint c lib e h = (case saveHistogramToFile c e h of
     Inl err \<Rightarrow> Inl err
   | Inr (h', evs) \<Rightarrow> Inr (h'\<lparr>histogram := []\<rparr>, Printed (percentile_report lib (histogram h)) # evs))"

section \<open>Sending\<close>

definition sendOrder :: "hft_config \<Rightarrow> surroundings \<Rightarrow> latency_handler \<Rightarrow> turn_result" where
  "sendOrder c e h = (case COIN_PAIRS c of
     [] \<Rightarrow> Inl No_pair
   | pair # _ \<Rightarrow>
       (let clientId = uuid_v4_gen (random_bytes e)
        in case createBuyOrder pair clientId of
             None \<Rightarrow> Inl Buffer_overrun
           | Some order \<Rightarrow>
               Inr (h\<lparr>orderSentTimeMap := map_insert (orderSentTimeMap h) clientId (send_time e), orderResponseCount := orderResponseCount h + 1\<rparr>,
                    [Sent order])))"

definition sendCancelOrder :: "surroundings \<Rightarrow> string \<Rightarrow> string \<Rightarrow> latency_handler \<Rightarrow> turn_result" where
  "sendCancelOrder e clientId pair h = (case createCancelOrder pair clientId of
     None \<Rightarrow> Inl Buffer_overrun
   | Some cancelOrder \<Rightarrow>
       Inr (h\<lparr>cancelSentTimeMap := map_insert (cancelSentTimeMap h) clientId (send_time e), orderResponseCount := orderResponseCount h + 1\<rparr>,
            [Sent cancelOrder]))"

section \<open>Callbacks\<close>

text \<open>\<open>parsedObject[k].get<string_view>()\<close>: a missing member is null, which is no string; only objects (and null) can be indexed.\<close>

definition get_string :: "json \<Rightarrow> string \<Rightarrow> hft_error + string" where
  "get_string j k = (case j of
     JObj kvs \<Rightarrow> (case member_of kvs k of JStr s \<Rightarrow> Inr s | _ \<Rightarrow> Inl (Json_exception ''type_error.302''))
   | JNull \<Rightarrow> Inl (Json_exception ''type_error.302'')
   | _ \<Rightarrow> Inl (Json_exception ''type_error.305''))"

text \<open>One callback after the other: the events add up, an error ends the program.\<close>

definition then_do :: "turn_result \<Rightarrow> (latency_handler \<Rightarrow> turn_result) \<Rightarrow> turn_result" where
  "then_do r f = (case r of
     Inl err \<Rightarrow> Inl err
   | Inr (h, evs) \<Rightarrow> (case f h of Inl err \<Rightarrow> Inl err | Inr (h', evs') \<Rightarrow> Inr (h', evs @ evs')))"

text \<open>What follows the answer to a request: the report and the end of the test when the count is a multiple of the test size.\<close>

definition check_complete :: "hft_config \<Rightarrow> hdr_library \<Rightarrow> surroundings \<Rightarrow> latency_handler \<Rightarrow> turn_result" where
  "check_complete c lib e h =
     (if TEST_SIZE c = 0 then Inl Division_by_zero
      else if orderResponseCount h mod of_int (TEST_SIZE c) = 0 then
        then_do (hdrPrint c lib e h) (\<lambda>h. Inr (h,
          [Logged (''Test completed. Reached TEST_SIZE: '' @ show_int (TEST_SIZE c) @ ''. Exiting gracefully.''), Close_sent ''test complete'']))
      else Inr (h, []))"

definition on_booked :: "hdr_library \<Rightarrow> surroundings \<Rightarrow> string \<Rightarrow> json \<Rightarrow> latency_handler \<Rightarrow> hft_error + bool \<times> latency_handler \<times> hft_event list" where
  "on_booked lib e clientId parsedObject h =
     (case calculateRoundTrip lib (receive_time e) clientId (orderSentTimeMap h) (histogram h) of
        (failed, m, hist, evs) \<Rightarrow>
          (let h1 = h\<lparr>orderSentTimeMap := m, histogram := hist\<rparr>
           in if failed then Inr (True, h1, evs)
              else case get_string parsedObject ''instrument_code'' of
                     Inl err \<Rightarrow> Inl err
                   | Inr pair \<Rightarrow> (case sendCancelOrder e clientId pair h1 of
                       Inl err \<Rightarrow> Inl err
                     | Inr (h2, evs') \<Rightarrow> Inr (False, h2, evs @ evs'))))"

definition on_done :: "hft_config \<Rightarrow> hdr_library \<Rightarrow> surroundings \<Rightarrow> string \<Rightarrow> latency_handler \<Rightarrow> hft_error + bool \<times> latency_handler \<times> hft_event list" where
  "on_done c lib e clientId h =
     (case calculateRoundTrip lib (receive_time e) clientId (cancelSentTimeMap h) (histogram h) of
        (failed, m, hist, evs) \<Rightarrow>
          (let h1 = h\<lparr>cancelSentTimeMap := m, histogram := hist\<rparr>
           in if failed then Inr (True, h1, evs)
              else case sendOrder c e h1 of
                     Inl err \<Rightarrow> Inl err
                   | Inr (h2, evs') \<Rightarrow> Inr (False, h2, evs @ evs')))"

definition on_message ::
  "hft_config \<Rightarrow> hdr_library \<Rightarrow> (string \<Rightarrow> json option) \<Rightarrow> surroundings \<Rightarrow> string \<Rightarrow> latency_handler \<Rightarrow> turn_result" where
  "on_message c lib parse e payload h =
     (case parse payload of
        None \<Rightarrow> Inl (Json_exception ''parse_error'')
      | Some parsedObject \<Rightarrow>
         (case get_string parsedObject ''type'' of
            Inl err \<Rightarrow> Inl err
          | Inr type \<Rightarrow>
              if type = ''BOOKED'' \<or> type = ''DONE'' then
                (case get_string parsedObject ''client_id'' of
                   Inl err \<Rightarrow> Inl err
                 | Inr clientId \<Rightarrow>
                     (case (if type = ''BOOKED'' then on_booked lib e clientId parsedObject h else on_done c lib e clientId h) of
                        Inl err \<Rightarrow> Inl err
                      | Inr (returned, h1, evs) \<Rightarrow>
                          if returned then Inr (h1, evs) else then_do (Inr (h1, evs)) (check_complete c lib e)))
              else if type = ''AUTHENTICATED'' then Inr (h, [Dumped '''' parsedObject, Sent SUBSCRIBE_MSG])
              else if type = ''SUBSCRIPTIONS'' then
                then_do (Inr (h\<lparr>testStartTime := start_time e, histogramStartTimeSpec := Some (wall_clock e)\<rparr>, [Dumped '''' parsedObject])) (sendOrder c e)
              else Inr (h, [Dumped ''Unhandled object '' parsedObject])))"

text \<open>\<open>on_open\<close>: the argument is the message of the error that the send reports, if any.\<close>

definition on_open :: "string option \<Rightarrow> latency_handler \<Rightarrow> hft_event list" where
  "on_open ec h =
     [Logged ''WebSocket client is connected'', Sent (authMessage (m_apiToken h)),
      (case ec of
         Some msg \<Rightarrow> Logged (''Error sending message: '' @ msg)
       | None \<Rightarrow> Logged (''WebSocket client is authenticating for '' @ show_int (m_apiToken h)))]"

definition on_close :: "hft_event list" where
  "on_close = [Logged ''Connection closed'']"

text \<open>The messages of a connection, one after the other.\<close>

fun on_messages ::
  "hft_config \<Rightarrow> hdr_library \<Rightarrow> (string \<Rightarrow> json option) \<Rightarrow> (surroundings \<times> string) list \<Rightarrow> latency_handler \<Rightarrow> turn_result" where
  "on_messages c lib parse [] h = Inr (h, [])"
| "on_messages c lib parse ((e, payload) # ms) h = then_do (on_message c lib parse e payload h) (on_messages c lib parse ms)"

section \<open>Accounting\<close>

text \<open>Requests sent, values recorded, and the values recorded since the last report, read off the events.\<close>

fun is_request :: "hft_event \<Rightarrow> bool" where
  "is_request (Sent t) = (is_prefix HEADER t \<or> is_prefix CANCEL_ORDER_HEADER t)"
| "is_request _ = False"

fun recorded_value :: "hft_event \<Rightarrow> int option" where
  "recorded_value (Recorded v) = Some v"
| "recorded_value _ = None"

definition requests :: "hft_event list \<Rightarrow> nat" where
  "requests evs = length (filter is_request evs)"

definition recorded :: "hft_event list \<Rightarrow> int list" where
  "recorded evs = List.map_filter recorded_value evs"

fun interval_step :: "hdr_library \<Rightarrow> int list \<Rightarrow> hft_event \<Rightarrow> int list" where
  "interval_step lib vs (Recorded v) = (if hdr_accepts lib v then vs @ [v] else vs)"
| "interval_step lib vs (Printed _) = []"
| "interval_step lib vs _ = vs"

definition interval_values :: "hdr_library \<Rightarrow> hft_event list \<Rightarrow> int list" where
  "interval_values lib evs = foldl (interval_step lib) [] evs"

lemma event_simps [simp]:
  "requests [] = 0" "requests (e # evs) = (if is_request e then Suc (requests evs) else requests evs)"
  "requests (evs @ evs') = requests evs + requests evs'"
  "recorded [] = []" "recorded (e # evs) = (case recorded_value e of None \<Rightarrow> recorded evs | Some v \<Rightarrow> v # recorded evs)"
  "recorded (evs @ evs') = recorded evs @ recorded evs'"
  "interval_values lib [] = []" "interval_values lib (evs @ evs') = foldl (interval_step lib) (interval_values lib evs) evs'"
  by (simp_all add: requests_def recorded_def interval_values_def map_filter_def split: option.splits)

text \<open>
  The state of the handler and what it has done: the count is the number of requests; the histogram has the values since the last report; every value
  is positive; the entries of the maps and the values recorded are together no more than the requests.
\<close>

definition accounted :: "hdr_library \<Rightarrow> hft_event list \<Rightarrow> latency_handler \<Rightarrow> bool" where
  "accounted lib evs h \<longleftrightarrow>
     orderResponseCount h = of_nat (requests evs)
     \<and> histogram h = interval_values lib evs
     \<and> (\<forall>v \<in> set (recorded evs). 0 < v)
     \<and> finite (dom (orderSentTimeMap h)) \<and> finite (dom (cancelSentTimeMap h))
     \<and> length (recorded evs) + card (dom (orderSentTimeMap h)) + card (dom (cancelSentTimeMap h)) \<le> requests evs
     \<and> (0 < requests evs \<longrightarrow> histogramStartTimeSpec h \<noteq> None)"

lemma dom_map_insert: "dom (map_insert m k v) = insert k (dom m)"
  by (auto simp: map_insert_def split: if_splits)

lemma order_is_request: "createBuyOrder pair clientId = Some t \<Longrightarrow> is_request (Sent t)"
  by (auto simp: createBuyOrder_text message_jsons quoted_def message_parts split: if_splits)

lemma cancel_is_request: "createCancelOrder pair clientId = Some t \<Longrightarrow> is_request (Sent t)"
  by (auto simp: createCancelOrder_text message_jsons quoted_def message_parts split: if_splits)

lemma card_insert_le_Suc: "finite A \<Longrightarrow> card (insert x A) \<le> Suc (card A)"
  by (simp add: card_insert_if)

lemma sendOrder_accounted:
  assumes "accounted lib evs h" "histogramStartTimeSpec h \<noteq> None" "sendOrder c e h = Inr (h', evs')"
  shows "accounted lib (evs @ evs') h'" "histogramStartTimeSpec h' \<noteq> None" "0 < requests (evs @ evs')"
proof -
  obtain pair t where t: "createBuyOrder pair (uuid_v4_gen (random_bytes e)) = Some t" "evs' = [Sent t]"
    "h' = h\<lparr>orderSentTimeMap := map_insert (orderSentTimeMap h) (uuid_v4_gen (random_bytes e)) (send_time e),
            orderResponseCount := orderResponseCount h + 1\<rparr>"
    using assms(3) by (auto simp: sendOrder_def Let_def split: list.splits option.splits)
  have "finite (dom (orderSentTimeMap h))" using assms(1) by (simp add: accounted_def)
  note card_insert_le_Suc [OF this, of "uuid_v4_gen (random_bytes e)"]
  then show "accounted lib (evs @ evs') h'"
    using assms(1,2) order_is_request [OF t(1)] unfolding accounted_def t(2,3) by (simp add: dom_map_insert)
  show "histogramStartTimeSpec h' \<noteq> None" "0 < requests (evs @ evs')"
    using assms(2) t order_is_request [OF t(1)] by simp_all
qed

lemma sendCancelOrder_accounted:
  assumes "accounted lib evs h" "histogramStartTimeSpec h \<noteq> None" "sendCancelOrder e clientId pair h = Inr (h', evs')"
  shows "accounted lib (evs @ evs') h'" "histogramStartTimeSpec h' \<noteq> None"
proof -
  obtain t where t: "createCancelOrder pair clientId = Some t" "evs' = [Sent t]"
    "h' = h\<lparr>cancelSentTimeMap := map_insert (cancelSentTimeMap h) clientId (send_time e), orderResponseCount := orderResponseCount h + 1\<rparr>"
    using assms(3) by (auto simp: sendCancelOrder_def split: option.splits)
  have "finite (dom (cancelSentTimeMap h))" using assms(1) by (simp add: accounted_def)
  note card_insert_le_Suc [OF this, of clientId]
  then show "accounted lib (evs @ evs') h'"
    using assms(1,2) cancel_is_request [OF t(1)] unfolding accounted_def t(2,3) by (simp add: dom_map_insert)
  show "histogramStartTimeSpec h' \<noteq> None" using assms(2) t by simp
qed

lemma calculateRoundTrip_facts:
  assumes "calculateRoundTrip lib r clientId m hist = (failed, m', hist', evs)"
  shows "requests evs = 0" "hist' = foldl (interval_step lib) hist evs" "\<forall>v \<in> set (recorded evs). 0 < v"
    "failed \<Longrightarrow> m' = m \<and> recorded evs = []" "\<not> failed \<Longrightarrow> m clientId \<noteq> None \<and> m' = m(clientId := None) \<and> length (recorded evs) \<le> 1"
  using assms by (auto simp: calculateRoundTrip_def Let_def split: option.splits if_splits)

lemma card_dom_remove:
  assumes "finite (dom m)" "m k \<noteq> None"
  shows "Suc (card (dom (m(k := None)))) = card (dom m)"
  using assms card_Suc_Diff1 [of "dom m" k] by (simp add: domIff)

text \<open>The answer to a request that is in a map leaves one entry less and records at most one value.\<close>

lemma roundTrip_accounted_order:
  assumes a: "accounted lib evs h" and r: "calculateRoundTrip lib t clientId (orderSentTimeMap h) (histogram h) = (failed, m', hist', evs')"
  shows "accounted lib (evs @ evs') (h\<lparr>orderSentTimeMap := m', histogram := hist'\<rparr>)" "\<not> failed \<Longrightarrow> histogramStartTimeSpec h \<noteq> None"
proof -
  note f = calculateRoundTrip_facts [OF r]
  have c: "\<not> failed \<Longrightarrow> Suc (card (dom m')) = card (dom (orderSentTimeMap h))"
    using a f(5) card_dom_remove [of "orderSentTimeMap h" clientId] by (simp add: accounted_def)
  then show "accounted lib (evs @ evs') (h\<lparr>orderSentTimeMap := m', histogram := hist'\<rparr>)"
    using a f by (cases failed) (auto simp: accounted_def)
  show "\<not> failed \<Longrightarrow> histogramStartTimeSpec h \<noteq> None" using a c by (auto simp: accounted_def)
qed

lemma roundTrip_accounted_cancel:
  assumes a: "accounted lib evs h" and r: "calculateRoundTrip lib t clientId (cancelSentTimeMap h) (histogram h) = (failed, m', hist', evs')"
  shows "accounted lib (evs @ evs') (h\<lparr>cancelSentTimeMap := m', histogram := hist'\<rparr>)" "\<not> failed \<Longrightarrow> histogramStartTimeSpec h \<noteq> None"
proof -
  note f = calculateRoundTrip_facts [OF r]
  have c: "\<not> failed \<Longrightarrow> Suc (card (dom m')) = card (dom (cancelSentTimeMap h))"
    using a f(5) card_dom_remove [of "cancelSentTimeMap h" clientId] by (simp add: accounted_def)
  then show "accounted lib (evs @ evs') (h\<lparr>cancelSentTimeMap := m', histogram := hist'\<rparr>)"
    using a f by (cases failed) (auto simp: accounted_def)
  show "\<not> failed \<Longrightarrow> histogramStartTimeSpec h \<noteq> None" using a c by (auto simp: accounted_def)
qed

lemma on_booked_accounted:
  assumes "accounted lib evs h" "on_booked lib e clientId j h = Inr (returned, h', evs')"
  shows "accounted lib (evs @ evs') h'" "\<not> returned \<Longrightarrow> histogramStartTimeSpec h' \<noteq> None"
proof -
  obtain failed m hist evs1
    where r: "calculateRoundTrip lib (receive_time e) clientId (orderSentTimeMap h) (histogram h) = (failed, m, hist, evs1)"
    by (cases "calculateRoundTrip lib (receive_time e) clientId (orderSentTimeMap h) (histogram h)")
  let ?h = "h\<lparr>orderSentTimeMap := m, histogram := hist\<rparr>"
  note a = roundTrip_accounted_order [OF assms(1) r]
  have "accounted lib (evs @ evs') h' \<and> (\<not> returned \<longrightarrow> histogramStartTimeSpec h' \<noteq> None)"
  proof (cases failed)
    case True
    then show ?thesis using assms(2) a(1) r by (simp add: on_booked_def)
  next
    case False
    then obtain pair evs2 where s: "sendCancelOrder e clientId pair ?h = Inr (h', evs2)" "evs' = evs1 @ evs2"
      using assms(2) r by (auto simp: on_booked_def split: sum.splits)
    have "histogramStartTimeSpec ?h \<noteq> None" using a(2) False by simp
    then show ?thesis using sendCancelOrder_accounted [OF a(1) _ s(1)] s(2) by simp
  qed
  then show "accounted lib (evs @ evs') h'" "\<not> returned \<Longrightarrow> histogramStartTimeSpec h' \<noteq> None" by blast+
qed

lemma on_done_accounted:
  assumes "accounted lib evs h" "on_done c lib e clientId h = Inr (returned, h', evs')"
  shows "accounted lib (evs @ evs') h'" "\<not> returned \<Longrightarrow> histogramStartTimeSpec h' \<noteq> None"
proof -
  obtain failed m hist evs1
    where r: "calculateRoundTrip lib (receive_time e) clientId (cancelSentTimeMap h) (histogram h) = (failed, m, hist, evs1)"
    by (cases "calculateRoundTrip lib (receive_time e) clientId (cancelSentTimeMap h) (histogram h)")
  let ?h = "h\<lparr>cancelSentTimeMap := m, histogram := hist\<rparr>"
  note a = roundTrip_accounted_cancel [OF assms(1) r]
  have "accounted lib (evs @ evs') h' \<and> (\<not> returned \<longrightarrow> histogramStartTimeSpec h' \<noteq> None)"
  proof (cases failed)
    case True
    then show ?thesis using assms(2) a(1) r by (simp add: on_done_def)
  next
    case False
    then obtain evs2 where s: "sendOrder c e ?h = Inr (h', evs2)" "evs' = evs1 @ evs2"
      using assms(2) r by (auto simp: on_done_def split: sum.splits)
    have "histogramStartTimeSpec ?h \<noteq> None" using a(2) False by simp
    then show ?thesis using sendOrder_accounted [OF a(1) _ s(1)] s(2) by simp
  qed
  then show "accounted lib (evs @ evs') h'" "\<not> returned \<Longrightarrow> histogramStartTimeSpec h' \<noteq> None" by blast+
qed

lemma check_complete_accounted:
  assumes "accounted lib evs h" "check_complete c lib e h = Inr (h', evs')"
  shows "accounted lib (evs @ evs') h'"
  using assms
  by (auto simp: check_complete_def then_do_def hdrPrint_def saveHistogramToFile_def Let_def accounted_def
      split: if_splits sum.splits option.splits)


text \<open>The ways through \<open>on_message\<close>.\<close>

lemma then_do_Inr:
  "then_do (Inr (h, evs)) f = (case f h of Inl err \<Rightarrow> Inl err | Inr (h', evs') \<Rightarrow> Inr (h', evs @ evs'))"
  by (simp add: then_do_def)

lemma on_message_cases:
  assumes "on_message c lib parse e payload h = res"
  obtains (failed) s where "res = Inl (Json_exception s)"
  | (answer) j clientId where "parse payload = Some j"
      "res = (case (if get_string j ''type'' = Inr ''BOOKED'' then on_booked lib e clientId j h else on_done c lib e clientId h) of
                Inl err \<Rightarrow> Inl err
              | Inr (returned, h1, evs) \<Rightarrow> if returned then Inr (h1, evs) else then_do (Inr (h1, evs)) (check_complete c lib e))"
  | (quiet) evs where "res = Inr (h, evs)" "requests evs = 0" "recorded evs = []" "\<And>vs. foldl (interval_step lib) vs evs = vs"
  | (subscribed) j where "parse payload = Some j"
      "res = then_do (Inr (h\<lparr>testStartTime := start_time e, histogramStartTimeSpec := Some (wall_clock e)\<rparr>, [Dumped '''' j])) (sendOrder c e)"
proof (cases "parse payload")
  case None
  then show thesis using assms failed by (auto simp: on_message_def)
next
  case (Some j)
  have exn: "get_string j k = Inl err \<Longrightarrow> \<exists>s. err = Json_exception s" for k err
    by (auto simp: get_string_def split: json.splits)
  show thesis
  proof (cases "get_string j ''type''")
    case (Inl err)
    then show thesis using assms failed Some exn by (auto simp: on_message_def)
  next
    case (Inr type)
    consider "type = ''BOOKED'' \<or> type = ''DONE''" | "type = ''SUBSCRIPTIONS''" | "type \<notin> {''BOOKED'', ''DONE'', ''SUBSCRIPTIONS''}"
      by blast
    then show thesis
    proof cases
      case 1
      then show thesis
      proof (cases "get_string j ''client_id''")
        case (Inl err)
        then show thesis using assms failed Some Inr 1 exn by (auto simp: on_message_def)
      next
        case (Inr clientId)
        then show thesis using assms Some \<open>get_string j ''type'' = Inr type\<close> 1
          by (intro answer [OF Some, of clientId]) (auto simp: on_message_def)
      qed
    next
      case 2
      then show thesis using assms Some Inr by (intro subscribed [OF Some]) (auto simp: on_message_def)
    next
      case 3
      let ?evs = "if type = ''AUTHENTICATED'' then [Dumped '''' j, Sent SUBSCRIBE_MSG] else [Dumped ''Unhandled object '' j]"
      have "res = Inr (h, ?evs)" using Some Inr 3 unfolding assms [symmetric] by (simp add: on_message_def)
      then show thesis by (rule quiet) (simp_all add: message_parts)
    qed
  qed
qed

lemma on_message_accounted:
  assumes a: "accounted lib evs h" and m: "on_message c lib parse e payload h = Inr (h', evs')"
  shows "accounted lib (evs @ evs') h'"
  using m
proof (cases rule: on_message_cases)
  case (answer j clientId)
  let ?turn = "if get_string j ''type'' = Inr ''BOOKED'' then on_booked lib e clientId j h else on_done c lib e clientId h"
  obtain returned h1 evs1 where t: "?turn = Inr (returned, h1, evs1)" using answer(2) by (auto split: sum.splits)
  have a1: "accounted lib (evs @ evs1) h1"
    using t on_booked_accounted(1) [OF a] on_done_accounted(1) [OF a] by (auto split: if_splits)
  show ?thesis
  proof (cases returned)
    case True
    then show ?thesis using answer(2) t a1 by simp
  next
    case False
    then obtain evs2 where "check_complete c lib e h1 = Inr (h', evs2)" "evs' = evs1 @ evs2"
      using answer(2) t by (auto simp: then_do_Inr split: sum.splits)
    then show ?thesis using check_complete_accounted [OF a1] by simp
  qed
next
  case (quiet evs1)
  then show ?thesis using a by (simp add: accounted_def)
next
  case (subscribed j)
  let ?h = "h\<lparr>testStartTime := start_time e, histogramStartTimeSpec := Some (wall_clock e)\<rparr>"
  obtain evs1 where s: "sendOrder c e ?h = Inr (h', evs1)" "evs' = Dumped '''' j # evs1"
    using subscribed(2) by (auto simp: then_do_Inr split: sum.splits)
  have "accounted lib (evs @ [Dumped '''' j]) ?h" using a by (simp add: accounted_def)
  then have "accounted lib ((evs @ [Dumped '''' j]) @ evs1) h'" using _ s(1) by (rule sendOrder_accounted(1)) simp
  then show ?thesis using s(2) by simp
qed simp

lemma on_messages_accounted:
  "accounted lib evs h \<Longrightarrow> on_messages c lib parse ms h = Inr (h', evs') \<Longrightarrow> accounted lib (evs @ evs') h'"
proof (induction ms arbitrary: evs h evs')
  case (Cons m ms)
  obtain e payload where m: "m = (e, payload)" by (cases m)
  obtain h1 evs1 evs2 where "on_message c lib parse e payload h = Inr (h1, evs1)" "on_messages c lib parse ms h1 = Inr (h', evs2)"
    "evs' = evs1 @ evs2"
    using Cons.prems(2) by (auto simp: m then_do_def split: sum.splits prod.splits)
  then show ?case using Cons.IH [of "evs @ evs1" h1 evs2] on_message_accounted [OF Cons.prems(1)] by simp
qed simp

lemma new_handler_accounted: "new_handler c buckets_ok token = Inr h \<Longrightarrow> accounted lib [] h"
  by (auto simp: new_handler_def accounted_def split: if_splits)

section \<open>Errors\<close>




section \<open>Answers in detail\<close>

definition record_latency :: "hdr_library \<Rightarrow> int \<Rightarrow> int list \<Rightarrow> int list" where
  "record_latency lib v hist = (if hdr_accepts lib v then hist @ [v] else hist)"

lemma on_message_booked:
  assumes j: "parse payload = Some j" "get_string j ''type'' = Inr ''BOOKED''" "get_string j ''client_id'' = Inr clientId"
      "get_string j ''instrument_code'' = Inr pair"
    and t: "orderSentTimeMap h clientId = Some t" "t < receive_time e" and "length pair + length clientId \<le> 69"
  shows "on_message c lib parse e payload h =
    then_do (Inr (h\<lparr>orderSentTimeMap := (orderSentTimeMap h)(clientId := None), histogram := record_latency lib (receive_time e - t) (histogram h),
                   cancelSentTimeMap := map_insert (cancelSentTimeMap h) clientId (send_time e), orderResponseCount := orderResponseCount h + 1\<rparr>,
                  [Recorded (receive_time e - t), Sent (json_print (cancel_json pair clientId))])) (check_complete c lib e)"
  using assms
  by (simp add: on_message_def on_booked_def calculateRoundTrip_def sendCancelOrder_def createCancelOrder_text record_latency_def Let_def)

lemma on_message_done:
  assumes j: "parse payload = Some j" "get_string j ''type'' = Inr ''DONE''" "get_string j ''client_id'' = Inr clientId"
    and t: "cancelSentTimeMap h clientId = Some t" "t < receive_time e"
    and "COIN_PAIRS c = pair # pairs" "length pair \<le> 60" and rnd: "length (random_bytes e) = 16"
  shows "on_message c lib parse e payload h =
    then_do (Inr (h\<lparr>cancelSentTimeMap := (cancelSentTimeMap h)(clientId := None), histogram := record_latency lib (receive_time e - t) (histogram h),
                   orderSentTimeMap := map_insert (orderSentTimeMap h) (uuid_v4_gen (random_bytes e)) (send_time e),
                   orderResponseCount := orderResponseCount h + 1\<rparr>,
                  [Recorded (receive_time e - t), Sent (json_print (order_json pair ''LIMIT'' (uuid_v4_gen (random_bytes e)) ''BUY'' ''1'' ''1''))]))
      (check_complete c lib e)"
  using assms uuid_v4_shape(1) [OF rnd]
  by (simp add: on_message_def on_done_def calculateRoundTrip_def sendOrder_def createBuyOrder_text record_latency_def Let_def)

lemma on_message_authenticated:
  assumes "parse payload = Some j" "get_string j ''type'' = Inr ''AUTHENTICATED''"
  shows "on_message c lib parse e payload h = Inr (h, [Dumped '''' j, Sent (json_print subscribe_json)])"
  using assms by (simp add: on_message_def SUBSCRIBE_MSG_text)

lemma on_message_subscriptions:
  assumes "parse payload = Some j" "get_string j ''type'' = Inr ''SUBSCRIPTIONS''"
    and "COIN_PAIRS c = pair # pairs" "length pair \<le> 60" and rnd: "length (random_bytes e) = 16"
  shows "on_message c lib parse e payload h =
    Inr (h\<lparr>testStartTime := start_time e, histogramStartTimeSpec := Some (wall_clock e),
           orderSentTimeMap := map_insert (orderSentTimeMap h) (uuid_v4_gen (random_bytes e)) (send_time e),
           orderResponseCount := orderResponseCount h + 1\<rparr>,
         [Dumped '''' j, Sent (json_print (order_json pair ''LIMIT'' (uuid_v4_gen (random_bytes e)) ''BUY'' ''1'' ''1''))])"
  using assms uuid_v4_shape(1) [OF rnd]
  by (simp add: on_message_def then_do_Inr sendOrder_def createBuyOrder_text Let_def)

text \<open>An answer to nothing the handler has sent, or to something it has already accounted for, only leaves a line in the log.\<close>

lemma on_message_unknown:
  assumes "parse payload = Some j" "get_string j ''type'' = Inr type" "get_string j ''client_id'' = Inr clientId"
    and "type = ''BOOKED'' \<and> orderSentTimeMap h clientId = None \<or> type = ''DONE'' \<and> cancelSentTimeMap h clientId = None"
  shows "on_message c lib parse e payload h = Inr (h, [Logged (''no order sent time found for order '' @ clientId)])"
  using assms by (auto simp: on_message_def on_booked_def on_done_def calculateRoundTrip_def Let_def)

text \<open>The pair in a booked answer is the exchange's choice: one that does not fit the 128 bytes is copied past the end of the buffer.\<close>

theorem booked_overruns_buffer:
  assumes "parse payload = Some j" "get_string j ''type'' = Inr ''BOOKED''" "get_string j ''client_id'' = Inr clientId"
      "get_string j ''instrument_code'' = Inr pair"
    and "orderSentTimeMap h clientId = Some t" "t \<le> receive_time e" and "69 < length pair + length clientId"
  shows "on_message c lib parse e payload h = Inl Buffer_overrun"
  using assms
  by (simp add: on_message_def on_booked_def calculateRoundTrip_def sendCancelOrder_def createCancelOrder_text Let_def)

lemma check_complete_counting:
  assumes "orderResponseCount h = of_nat n" "0 < n" "int n < TEST_SIZE c" "TEST_SIZE c < 2 ^ 31"
  shows "check_complete c lib e h = Inr (h, [])"
proof -
  have i: "(of_int (TEST_SIZE c) :: u64) = of_nat (nat (TEST_SIZE c))" using assms by simp
  have "unat (of_nat n :: u64) = n" "unat (of_int (TEST_SIZE c) :: u64) = nat (TEST_SIZE c)"
    unfolding i using assms by (subst unat_of_nat_small; simp)+
  then have "unat (orderResponseCount h mod of_int (TEST_SIZE c)) = n" using assms by (simp add: unat_mod nat_less_iff)
  then have "orderResponseCount h mod of_int (TEST_SIZE c) \<noteq> 0" using assms(2) by (metis unat_0 less_irrefl)
  then show ?thesis using assms by (simp add: check_complete_def)
qed

lemma check_complete_reached:
  assumes "orderResponseCount h = of_int (TEST_SIZE c)" "0 < TEST_SIZE c" "TEST_SIZE c < 2 ^ 31" and start: "histogramStartTimeSpec h \<noteq> None"
  shows "\<exists>h' evs. check_complete c lib e h = Inr (h', Printed (percentile_report lib (histogram h)) # evs @ [Close_sent ''test complete''])
    \<and> histogram h' = [] \<and> requests evs = 0 \<and> recorded evs = [] \<and> (\<forall>m. Close_sent m \<notin> set evs)"
proof -
  have "orderResponseCount h mod of_int (TEST_SIZE c) = 0" using assms(1) by simp
  then show ?thesis using assms(2,3) start
    by (auto simp: check_complete_def then_do_def hdrPrint_def saveHistogramToFile_def Let_def)
qed

section \<open>The handler against any exchange\<close>

text \<open>
  C21. Whatever an exchange sends, in whatever order and at whatever times: the count of the handler is the number of orders and cancels
  it has sent, modulo \<open>2^64\<close>; its histogram has exactly the values it has recorded since the last report, as far as the histogram takes them; each recorded value is
  positive; and the values recorded and the requests still waiting for an answer are together no more than the requests that were sent, so that no request is measured
  twice and none is measured that was not sent.
\<close>

theorem latency_accounting:
  assumes "new_handler c buckets_ok token = Inr h0" and "on_messages c lib parse ms h0 = Inr (h, evs)"
  shows "orderResponseCount h = of_nat (requests evs)
    \<and> histogram h = interval_values lib evs
    \<and> list_all (\<lambda>v. 0 < v) (recorded evs)
    \<and> length (recorded evs) + card (dom (orderSentTimeMap h)) + card (dom (cancelSentTimeMap h)) \<le> requests evs"
  using on_messages_accounted [OF new_handler_accounted [OF assms(1)] assms(2)]
  by (simp add: accounted_def list_all_iff)

definition sample_config :: hft_config where
  "sample_config = \<lparr> COIN_PAIRS = [''BTC_EUR''], API_TOKEN = 3002, HOST = ''localhost'', HTTP_PORT = 8888, WEBSOCKET_PORT = 8888, TEST_SIZE = 3,
     WARMUP_COUNT = 5, USE_IOURING = False, EXCHANGE_CLIENT_COUNT = 16, USE_SSL = False, KEY_STORE_PASSWORD = ''123456'', KEY_STORE_PATH = ''keystore.p12'',
     CIPHERS = ''AES256-GCM-SHA384'' \<rparr>"

definition sample_library :: hdr_library where
  "sample_library = \<lparr> hdr_accepts = (\<lambda>v. v \<le> 3600000000000), hdr_value_at_percentile = (\<lambda>vs p. if vs = [] then 0 else hd vs), hdr_max = (\<lambda>vs. fold max vs 0) \<rparr>"

definition sample_surroundings :: "int \<Rightarrow> surroundings" where
  "sample_surroundings t = \<lparr> receive_time = t, start_time = t, send_time = t + 1, random_bytes = replicate 16 0, wall_clock = (t, 0), log_opens = True \<rparr>"

definition fresh_handler :: latency_handler where
  "fresh_handler = \<lparr> m_apiToken = 3002, orderSentTimeMap = Map.empty, cancelSentTimeMap = Map.empty, orderResponseCount = 0, testStartTime = 0,
     histogram = [], histogramStartTimeSpec = None \<rparr>"

lemma new_handler_fresh: "new_handler sample_config (\<lambda>_. True) 3002 = Inr fresh_handler"
  by (simp add: new_handler_def fresh_handler_def)

text \<open>A parser that knows two messages, for a session with one order.\<close>

definition sample_parse :: "string \<Rightarrow> json option" where
  "sample_parse s = (if s = ''S'' then Some (JObj [(''type'', JStr ''SUBSCRIPTIONS'')]) else
     Some (JObj [(''type'', JStr ''BOOKED''), (''client_id'', JStr (uuid_v4_gen (replicate 16 0))), (''instrument_code'', JStr ''BTC_EUR'')]))"

lemma sample_messages:
  "\<exists>h. on_messages sample_config sample_library sample_parse [(sample_surroundings 5, ''S''), (sample_surroundings 9, ''B'')] fresh_handler
     = Inr (h, [Dumped '''' (JObj [(''type'', JStr ''SUBSCRIPTIONS'')]),
                Sent (json_print (order_json ''BTC_EUR'' ''LIMIT'' (uuid_v4_gen (replicate 16 0)) ''BUY'' ''1'' ''1'')), Recorded 3,
                Sent (json_print (cancel_json ''BTC_EUR'' (uuid_v4_gen (replicate 16 0))))]) \<and> histogram h = [3]"
proof -
  let ?e = "sample_surroundings 5" and ?f = "sample_surroundings 9" and ?id = "uuid_v4_gen (replicate 16 0)"
  have l: "length ?id = 36" by (rule uuid_v4_shape) simp
  have 1: "on_message sample_config sample_library sample_parse ?e ''S'' fresh_handler =
    Inr (fresh_handler\<lparr>testStartTime := 5, histogramStartTimeSpec := Some (5, 0), orderSentTimeMap := [?id \<mapsto> 6], orderResponseCount := 1\<rparr>,
      [Dumped '''' (JObj [(''type'', JStr ''SUBSCRIPTIONS'')]), Sent (json_print (order_json ''BTC_EUR'' ''LIMIT'' ?id ''BUY'' ''1'' ''1''))])"
    by (subst on_message_subscriptions [where j = "JObj [(''type'', JStr ''SUBSCRIPTIONS'')]" and pair = "''BTC_EUR''" and pairs = "[]"])
      (simp_all add: sample_parse_def get_string_def member_of_def sample_config_def sample_surroundings_def fresh_handler_def map_insert_def)
  let ?h = "fresh_handler\<lparr>testStartTime := 5, histogramStartTimeSpec := Some (5, 0), orderSentTimeMap := [?id \<mapsto> 6], orderResponseCount := 1\<rparr>"
  let ?g = "?h\<lparr>orderSentTimeMap := Map.empty, histogram := [3], cancelSentTimeMap := [?id \<mapsto> 10], orderResponseCount := 2\<rparr>"
  have "check_complete sample_config sample_library ?f ?g = Inr (?g, [])"
    by (rule check_complete_counting [where n = 2]) (simp_all add: sample_config_def)
  then have 2: "on_message sample_config sample_library sample_parse ?f ''B'' ?h =
    Inr (?g, [Recorded 3, Sent (json_print (cancel_json ''BTC_EUR'' ?id))])"
    by (subst on_message_booked [where clientId = ?id and pair = "''BTC_EUR''" and t = 6
          and j = "JObj [(''type'', JStr ''BOOKED''), (''client_id'', JStr ?id), (''instrument_code'', JStr ''BTC_EUR'')]"])
      (simp_all add: sample_parse_def get_string_def member_of_def sample_surroundings_def fresh_handler_def map_insert_def l then_do_Inr
        record_latency_def sample_library_def)
  show ?thesis by (simp add: 1 2 then_do_Inr)
qed

text \<open>Witness: an order is booked three nanoseconds after it was sent.\<close>

theorem latency_accounting_witness:
  "\<exists>h evs. on_messages sample_config sample_library sample_parse [(sample_surroundings 5, ''S''), (sample_surroundings 9, ''B'')] fresh_handler = Inr (h, evs)
     \<and> length (recorded evs) = 1 \<and> histogram h = [3] \<and> orderResponseCount h = of_nat (requests evs)"
proof -
  let ?evs = "[Dumped [] (JObj [(''type'', JStr ''SUBSCRIPTIONS'')]),
      Sent (json_print (order_json ''BTC_EUR'' ''LIMIT'' (uuid_v4_gen (replicate 16 0)) ''BUY'' ''1'' ''1'')), Recorded 3,
      Sent (json_print (cancel_json ''BTC_EUR'' (uuid_v4_gen (replicate 16 0))))]"
  obtain h where m: "on_messages sample_config sample_library sample_parse [(sample_surroundings 5, ''S''), (sample_surroundings 9, ''B'')] fresh_handler
     = Inr (h, ?evs)" "histogram h = [3]"
    using sample_messages by blast
  moreover have "length (recorded ?evs) = 1" by simp
  moreover have "orderResponseCount h = of_nat (requests ?evs)" using latency_accounting [OF new_handler_fresh m(1)] by blast
  ultimately show ?thesis by blast
qed




text \<open>A test size of zero: the first answer divides by zero.\<close>

theorem test_size_zero_fails:
  assumes "TEST_SIZE c = 0" "parse payload = Some j" "get_string j ''type'' = Inr ''BOOKED''" "get_string j ''client_id'' = Inr clientId"
      "get_string j ''instrument_code'' = Inr pair" "orderSentTimeMap h clientId = Some t" "t < receive_time e" "length pair + length clientId \<le> 69"
  shows "on_message c lib parse e payload h = Inl Division_by_zero"
  unfolding on_message_booked [where parse = parse and payload = payload and c = c, OF assms(2-8)] using assms(1)
  by (simp add: then_do_Inr check_complete_def)

end
