(* ===== verification/Exchange_Client.thy ===== *)
theory Exchange_Client
  imports Latency_Handler
begin

text \<open>
  \<open>src/hft_client/cpp-client/ExchangeClient.cpp\<close> and \<open>main.cpp\<close>: the client around the handler.  Calls of websocketpp and OpenSSL are recorded; their results are
  arguments, and the callbacks that \<open>run()\<close> delivers are a list.
\<close>

section \<open>Calls and callbacks\<close>

datatype endpoint_call =
    Make_endpoint bool \<comment> \<open>with or without TLS\<close>
  | Set_tls_init_handler
  | Init_asio
  | Set_open_handler
  | Set_close_handler
  | Set_message_handler
  | Clear_log_channels
  | Get_connection string
  | Connect
  | Run
  | Stop_endpoint
  | Join_thread
  | Set_options
  | Set_cipher_list string
  | Handler_event hft_event

datatype callback = Opened "string option" | Message surroundings string | Closed

record exchange_client =
  client_apiToken :: int
  m_uri :: string
  m_handler :: latency_handler
  m_thread_joinable :: bool

text \<open>The error of an operation with the message of its \<open>error_code\<close>.\<close>

type_synonym error_code = "string option"

definition log_call :: "string \<Rightarrow> endpoint_call" where
  "log_call s = Handler_event (Logged s)"

section \<open>Construction and destruction\<close>

definition new_exchange_client ::
  "hft_config \<Rightarrow> (u64 \<Rightarrow> bool) \<Rightarrow> int \<Rightarrow> string \<Rightarrow> hft_error + exchange_client \<times> endpoint_call list" where
  "new_exchange_client c buckets_ok apiToken uri = (case new_handler c buckets_ok apiToken of
     Inl err \<Rightarrow> Inl err
   | Inr h \<Rightarrow>
       Inr (\<lparr> client_apiToken = apiToken, m_uri = uri, m_handler = h, m_thread_joinable = False \<rparr>,
            (if USE_SSL c then [log_call ''Using SSL'', Make_endpoint True, Set_tls_init_handler]
             else [log_call ''Not using SSL'', Make_endpoint False]) @
            [Init_asio, Set_open_handler, Set_close_handler, Set_message_handler, Clear_log_channels]))"

definition delete_exchange_client :: "exchange_client \<Rightarrow> endpoint_call list" where
  "delete_exchange_client cl = Stop_endpoint # (if m_thread_joinable cl then [Join_thread] else [])"

section \<open>The connection\<close>

fun run_callback ::
  "hft_config \<Rightarrow> hdr_library \<Rightarrow> (string \<Rightarrow> json option) \<Rightarrow> callback \<Rightarrow> latency_handler \<Rightarrow> turn_result" where
  "run_callback c lib parse (Opened ec) h = Inr (h, on_open ec h)"
| "run_callback c lib parse (Message e payload) h = on_message c lib parse e payload h"
| "run_callback c lib parse Closed h = Inr (h, on_close)"

fun run_callbacks ::
  "hft_config \<Rightarrow> hdr_library \<Rightarrow> (string \<Rightarrow> json option) \<Rightarrow> callback list \<Rightarrow> latency_handler \<Rightarrow> turn_result" where
  "run_callbacks c lib parse [] h = Inr (h, [])"
| "run_callbacks c lib parse (cb # cbs) h = then_do (run_callback c lib parse cb h) (run_callbacks c lib parse cbs)"

definition connect ::
  "hft_config \<Rightarrow> hdr_library \<Rightarrow> (string \<Rightarrow> json option) \<Rightarrow> error_code \<Rightarrow> callback list \<Rightarrow> exchange_client
     \<Rightarrow> hft_error + exchange_client \<times> endpoint_call list" where
  "connect c lib parse ec cbs cl =
     (let uri = (if USE_SSL c then ''wss://'' else ''ws://'') @ m_uri cl
      in case ec of
           Some msg \<Rightarrow>
             Inr (cl, [Get_connection uri, log_call ((if USE_SSL c then ''Failed to create SSL connection: '' else ''Failed to create non-SSL connection: '') @ msg)])
         | None \<Rightarrow>
             (case run_callbacks c lib parse cbs (m_handler cl) of
                Inl err \<Rightarrow> Inl err
              | Inr (h, evs) \<Rightarrow> Inr (cl\<lparr>m_handler := h\<rparr>, [Get_connection uri, Connect, Run] @ map Handler_event evs)))"

text \<open>
  \<open>get_hdl\<close> returns the member \<open>hdl\<close> of the handler, which no code assigns: it is an expired handle, and \<open>close\<close> and \<open>get_con_from_hdl\<close> of websocketpp throw on
  such a handle.
\<close>

datatype connection_hdl = Expired_hdl

definition get_hdl :: "latency_handler \<Rightarrow> connection_hdl" where
  "get_hdl h = Expired_hdl"

definition close_on :: "connection_hdl \<Rightarrow> endpoint_call list outcome" where
  "close_on hdl = (case hdl of Expired_hdl \<Rightarrow> Inl (Runtime_error ''Bad Connection''))"

definition close_client :: "exchange_client \<Rightarrow> endpoint_call list \<times> endpoint_call list outcome" where
  "close_client cl = ([log_call ''WebSocket Client sending close''], close_on (get_hdl (m_handler cl)))"

definition disconnect :: "exchange_client \<Rightarrow> endpoint_call list \<times> endpoint_call list outcome" where
  "disconnect cl = ([log_call ''Disconnecting...''], close_on (get_hdl (m_handler cl)))"

definition tls_init_handler :: "hft_config \<Rightarrow> error_code \<Rightarrow> int \<Rightarrow> endpoint_call list" where
  "tls_init_handler c ec cipher_result =
     [Set_options] @ (case ec of Some msg \<Rightarrow> [Handler_event (Printed (''Error setting SSL options: '' @ msg))] | None \<Rightarrow> []) @
     [Handler_event (Printed (''Setting cipher list: '' @ CIPHERS c)), Set_cipher_list (CIPHERS c)] @
     (if cipher_result \<noteq> 1 then [Handler_event (Printed ''Error setting cipher list'')] else [])"

text \<open>\<open>std::string::find\<close> and \<open>substr\<close>, with the positions of \<open>size_t\<close>.\<close>

fun find_sub :: "string \<Rightarrow> string \<Rightarrow> nat option" where
  "find_sub [] p = (if p = [] then Some 0 else None)"
| "find_sub (c # cs) p = (if is_prefix p (c # cs) then Some 0 else map_option Suc (find_sub cs p))"

definition string_find :: "string \<Rightarrow> string \<Rightarrow> u64" where
  "string_find s p = (case find_sub s p of None \<Rightarrow> - 1 | Some n \<Rightarrow> of_nat n)"

definition substr :: "string \<Rightarrow> u64 \<Rightarrow> u64 \<Rightarrow> string outcome" where
  "substr s pos n = (if length s < unat pos then Inl (Out_of_range ''basic_string::substr'') else Inr (take (unat n) (drop (unat pos) s)))"

text \<open>\<open>addBalances\<close> puts an address together and does nothing with it.\<close>

definition addBalances :: "exchange_client \<Rightarrow> string \<Rightarrow> string \<times> endpoint_call list" where
  "addBalances cl qt =
     (let pos = string_find (m_uri cl) ''://'' + 3
      in case substr (m_uri cl) 0 pos of
           Inl e \<Rightarrow> ('''', [log_call ''Error: basic_string::substr''])
         | Inr a \<Rightarrow> (case substr (m_uri cl) pos (- 1) of
             Inl e \<Rightarrow> ('''', [log_call ''Error: basic_string::substr''])
           | Inr b \<Rightarrow> (a @ b @ ''/private/account/user/balances/'' @ show_int (client_apiToken cl) @ ''/'' @ qt @ ''/100000000'', [])))"

section \<open>The program\<close>

text \<open>\<open>main\<close>: an exception before or in it ends the program; otherwise its calls, with the destructor of the client at the end.\<close>

datatype program_end = Terminated | Handler_failed hft_error | Exit0 "endpoint_call list" latency_handler

definition main_client ::
  "string option \<Rightarrow> (u64 \<Rightarrow> bool) \<Rightarrow> hdr_library \<Rightarrow> (string \<Rightarrow> json option) \<Rightarrow> error_code \<Rightarrow> callback list \<Rightarrow> program_end" where
  "main_client file buckets_ok lib parse ec cbs = (case snd (load_config file) of
     Inl e \<Rightarrow> Terminated
   | Inr c \<Rightarrow>
       (let uri = HOST c @ '':'' @ show_int (WEBSOCKET_PORT c)
        in case new_exchange_client c buckets_ok (API_TOKEN c) uri of
             Inl err \<Rightarrow> Handler_failed err
           | Inr (cl, calls) \<Rightarrow>
               (case connect c lib parse ec cbs cl of
                  Inl err \<Rightarrow> Handler_failed err
                | Inr (cl', calls') \<Rightarrow> Exit0 (calls @ calls' @ delete_exchange_client cl') (m_handler cl'))))"

section \<open>What the program does\<close>

text \<open>The values of the events among the calls.\<close>

fun handler_event :: "endpoint_call \<Rightarrow> hft_event option" where
  "handler_event (Handler_event e) = Some e"
| "handler_event _ = None"

definition handler_events :: "endpoint_call list \<Rightarrow> hft_event list" where
  "handler_events calls = List.map_filter handler_event calls"

lemma handler_events_simps [simp]:
  "handler_events [] = []" "handler_events (a # calls) = (case handler_event a of None \<Rightarrow> handler_events calls | Some e \<Rightarrow> e # handler_events calls)"
  "handler_events (calls @ calls') = handler_events calls @ handler_events calls'"
  by (simp_all add: handler_events_def map_filter_def split: option.splits)

lemma handler_events_map [simp]: "handler_events (map Handler_event evs) = evs"
  by (induction evs) simp_all

lemma auth_not_request: "\<not> is_request (Sent (authMessage token))"
  by (simp add: authMessage_def message_parts)

lemma run_callback_accounted:
  assumes "accounted lib evs h" "run_callback c lib parse cb h = Inr (h', evs')"
  shows "accounted lib (evs @ evs') h'"
proof (cases cb)
  case (Opened ec)
  then show ?thesis using assms auth_not_request [of "m_apiToken h"]
    by (auto simp: on_open_def accounted_def split: option.splits)
next
  case (Message e payload)
  then show ?thesis using assms on_message_accounted by simp
next
  case Closed
  then show ?thesis using assms by (auto simp: on_close_def accounted_def)
qed

lemma run_callbacks_accounted:
  "accounted lib evs h \<Longrightarrow> run_callbacks c lib parse cbs h = Inr (h', evs') \<Longrightarrow> accounted lib (evs @ evs') h'"
proof (induction cbs arbitrary: evs h evs')
  case (Cons cb cbs)
  obtain h1 evs1 evs2 where "run_callback c lib parse cb h = Inr (h1, evs1)" "run_callbacks c lib parse cbs h1 = Inr (h', evs2)"
    "evs' = evs1 @ evs2"
    using Cons.prems(2) by (auto simp: then_do_def split: sum.splits prod.splits)
  then show ?case using Cons.IH [of "evs @ evs1" h1 evs2] run_callback_accounted [OF Cons.prems(1)] by simp
qed simp

lemma run_callbacks_messages: "run_callbacks c lib parse (map (\<lambda>(e, p). Message e p) ms) h = on_messages c lib parse ms h"
proof (induction ms arbitrary: h)
  case (Cons m ms)
  have "run_callbacks c lib parse (map (\<lambda>(e, p). Message e p) ms) = on_messages c lib parse ms" using Cons.IH by (rule ext)
  then show ?case by (cases m) simp
qed simp

text \<open>
  When the program ends normally, it has read its configuration, connected to the host and port configured there, in the way the use of TLS
  asks for, and released its endpoint once, as the last call; and what the handler has recorded is accounted for: the count is the number of orders and cancels sent, the
  histogram has the values since the last report, all of them positive.
\<close>

theorem client_program_runs:
  assumes "main_client file buckets_ok lib parse None cbs = Exit0 calls h"
  shows "\<exists>c. snd (load_config file) = Inr c
    \<and> Get_connection ((if USE_SSL c then ''wss://'' else ''ws://'') @ HOST c @ '':'' @ show_int (WEBSOCKET_PORT c)) \<in> set calls
    \<and> (Make_endpoint True \<in> set calls \<longleftrightarrow> USE_SSL c) \<and> (Make_endpoint False \<in> set calls \<longleftrightarrow> \<not> USE_SSL c)
    \<and> last calls = Stop_endpoint \<and> count_list calls Stop_endpoint = 1
    \<and> orderResponseCount h = of_nat (requests (handler_events calls))
    \<and> histogram h = interval_values lib (handler_events calls) \<and> list_all (\<lambda>v. 0 < v) (recorded (handler_events calls))"
proof -
  obtain c h0 evs where c: "snd (load_config file) = Inr c" "new_handler c buckets_ok (API_TOKEN c) = Inr h0"
    "run_callbacks c lib parse cbs h0 = Inr (h, evs)"
    and calls: "calls = (if USE_SSL c then [log_call ''Using SSL'', Make_endpoint True, Set_tls_init_handler] else [log_call ''Not using SSL'', Make_endpoint False]) @
      [Init_asio, Set_open_handler, Set_close_handler, Set_message_handler, Clear_log_channels] @
      [Get_connection ((if USE_SSL c then ''wss://'' else ''ws://'') @ HOST c @ '':'' @ show_int (WEBSOCKET_PORT c)), Connect, Run] @ map Handler_event evs @ [Stop_endpoint]"
    using assms
    by (auto simp: main_client_def new_exchange_client_def connect_def delete_exchange_client_def Let_def split: sum.splits prod.splits)
  let ?first = "[Logged (if USE_SSL c then ''Using SSL'' else ''Not using SSL'')]"
  have "accounted lib ?first h0" using new_handler_accounted [OF c(2), of lib] by (simp add: accounted_def interval_values_def)
  then have a: "accounted lib (?first @ evs) h" using c(3) by (rule run_callbacks_accounted)
  have e: "handler_events calls = ?first @ evs" by (simp add: calls log_call_def)
  have m: "x \<notin> set (map Handler_event evs)" "count_list (map Handler_event evs) x = 0" if "\<forall>y. x \<noteq> Handler_event y" for x
    using that by (auto simp: count_list_0_iff)
  have "Get_connection ((if USE_SSL c then ''wss://'' else ''ws://'') @ HOST c @ '':'' @ show_int (WEBSOCKET_PORT c)) \<in> set calls"
    "Make_endpoint True \<in> set calls \<longleftrightarrow> USE_SSL c" "Make_endpoint False \<in> set calls \<longleftrightarrow> \<not> USE_SSL c" "last calls = Stop_endpoint"
    unfolding calls by (auto simp: log_call_def)
  moreover have "count_list calls Stop_endpoint = 1" unfolding calls using m(2) [of Stop_endpoint] by (simp add: log_call_def)
  moreover have "orderResponseCount h = of_nat (requests (handler_events calls)) \<and> histogram h = interval_values lib (handler_events calls)
    \<and> list_all (\<lambda>v. 0 < v) (recorded (handler_events calls))"
    using a unfolding e accounted_def list_all_iff by blast
  ultimately show ?thesis using c(1) by blast
qed

text \<open>Witness: without a configuration file, a connection that is opened and closed.\<close>

theorem client_program_runs_witness:
  "\<exists>calls h. main_client None (\<lambda>_. True) sample_library (\<lambda>_. None) None [Opened None, Closed] = Exit0 calls h
     \<and> last calls = Stop_endpoint \<and> orderResponseCount h = of_nat (requests (handler_events calls))"
proof -
  obtain calls h where m: "main_client None (\<lambda>_. True) sample_library (\<lambda>_. None) None [Opened None, Closed] = Exit0 calls h"
    by (simp add: main_client_def load_default_config new_exchange_client_def new_handler_def connect_def then_do_def Let_def)
  show ?thesis using client_program_runs [OF m] m by blast
qed

text \<open>The address that \<open>addBalances\<close> builds is the address of the exchange followed by a path, although the scheme it looks for is not there.\<close>

lemma addBalances_address:
  assumes "find_sub (m_uri cl) ''://'' = None" "2 \<le> length (m_uri cl)" "length (m_uri cl) < 2 ^ 64"
  shows "addBalances cl qt = (m_uri cl @ ''/private/account/user/balances/'' @ show_int (client_apiToken cl) @ ''/'' @ qt @ ''/100000000'', [])"
proof -
  have p: "string_find (m_uri cl) ''://'' + 3 = 2" using assms(1) by (simp add: string_find_def)
  have "unat (- 1 :: u64) = 2 ^ 64 - 1" by (simp add: unsigned_minus_1_eq_mask mask_eq_exp_minus_1)
  then have "take (unat (- 1 :: u64)) (drop 2 (m_uri cl)) = drop 2 (m_uri cl)" using assms(3) by simp
  then show ?thesis using assms(2) unfolding addBalances_def p by (simp add: substr_def)
qed

end
