(* ===== verification/Mock_Exchange.thy ===== *)
theory Mock_Exchange
  imports Json_Text
begin

text \<open>
  \<open>src/mock-trading-server/src/websocket.rs\<close>: the WebSocket actor of the mock exchange, the peer of the trading clients.  \<open>serde_json\<close> is a parameter:
  \<open>from_str\<close> yields the members of a text in their order, \<open>to_string\<close> the text of a value.  What the derived \<open>Deserialize\<close> instances of
  \<open>websocket_message_types.rs\<close> accept is written out.  A panic is the value \<open>None\<close>.
\<close>

section \<open>Messages and state\<close>

record web_socket_actor =
  user_id :: "string option"

datatype ws_message = Text string | Close "string option" | Other_message | Protocol_error

datatype actor_event = Text_out string | Close_out "string option" | Stopped | Error_logged string

text \<open>The clock in milliseconds since the epoch, the random sequence number and the identifier of an order.\<close>

record exchange_input =
  clock_millis :: int
  book_sequence :: int
  order_uuid :: string

section \<open>Deserialisation\<close>

text \<open>\<open>payload[k].as_str()\<close> on a \<open>Value\<close>: the last member with the key counts.\<close>

definition value_str :: "json \<Rightarrow> string \<Rightarrow> string option" where
  "value_str j k = (case j of
     JObj kvs \<Rightarrow> (case map_of (rev kvs) k of Some (JStr s) \<Rightarrow> Some s | _ \<Rightarrow> None)
   | _ \<Rightarrow> None)"

text \<open>A derived \<open>Deserialize\<close>: the fields of an object, each exactly once, or the elements of an array in the order of the declaration.\<close>

definition unique_field :: "(string \<times> json) list \<Rightarrow> string \<Rightarrow> json option" where
  "unique_field kvs k = (case filter (\<lambda>kv. fst kv = k) kvs of [kv] \<Rightarrow> Some (snd kv) | _ \<Rightarrow> None)"

definition struct_fields :: "string list \<Rightarrow> json \<Rightarrow> json list option" where
  "struct_fields names j = (case j of
     JObj kvs \<Rightarrow> those (map (unique_field kvs) names)
   | JArr js \<Rightarrow> if length js = length names then Some js else None
   | _ \<Rightarrow> None)"

fun str_value :: "json \<Rightarrow> string option" where
  "str_value (JStr s) = Some s"
| "str_value _ = None"

definition string_fields :: "string list \<Rightarrow> json \<Rightarrow> string list option" where
  "string_fields names j = Option.bind (struct_fields names j) (\<lambda>js. those (map str_value js))"

definition AuthRequest :: "json \<Rightarrow> string option" where
  "AuthRequest j = map_option hd (string_fields [''api_token''] j)"

definition Channel :: "json \<Rightarrow> string option" where
  "Channel j = map_option hd (string_fields [''name''] j)"

definition SubscriptionRequest :: "json \<Rightarrow> string list option" where
  "SubscriptionRequest j = (case struct_fields [''channels''] j of
     Some [JArr cs] \<Rightarrow> those (map Channel cs)
   | _ \<Rightarrow> None)"

record order_request =
  ord_instrument_code :: string
  ord_client_id :: string
  ord_side :: string
  ord_price :: string
  ord_amount :: string

definition Order :: "json \<Rightarrow> order_request option" where
  "Order j = (case string_fields [''instrument_code'', ''client_id'', ''side'', ''price'', ''amount''] j of
     Some [code, client, side, price, amount] \<Rightarrow>
       Some \<lparr> ord_instrument_code = code, ord_client_id = client, ord_side = side, ord_price = price, ord_amount = amount \<rparr>
   | _ \<Rightarrow> None)"

definition LimitOrderRequest :: "json \<Rightarrow> order_request option" where
  "LimitOrderRequest j = (case struct_fields [''order''] j of Some [ord] \<Rightarrow> Order ord | _ \<Rightarrow> None)"

text \<open>The client id and the instrument of a cancel request.\<close>

definition CancelOrderRequest :: "json \<Rightarrow> (string \<times> string) option" where
  "CancelOrderRequest j = (case string_fields [''client_id'', ''instrument_code''] j of Some [client, code] \<Rightarrow> Some (client, code) | _ \<Rightarrow> None)"

section \<open>The handler\<close>

definition new_actor :: web_socket_actor where
  "new_actor = \<lparr> user_id = None \<rparr>"

definition authenticated_json :: json where
  "authenticated_json = JObj [(''type'', JStr ''AUTHENTICATED'')]"

definition subscriptions_json :: "json list \<Rightarrow> int \<Rightarrow> json" where
  "subscriptions_json channels millis = JObj [(''type'', JStr ''SUBSCRIPTIONS''), (''channels'', JArr channels), (''time'', JNum millis)]"

definition booked_json :: "exchange_input \<Rightarrow> string \<Rightarrow> order_request \<Rightarrow> json" where
  "booked_json i uid ord =
     JObj [(''type'', JStr ''BOOKED''), (''order_book_sequence'', JNum (book_sequence i)), (''side'', JStr (ord_side ord)), (''uid'', JStr uid),
           (''amount'', JStr (ord_amount ord)), (''price'', JStr (ord_price ord)), (''instrument_code'', JStr (ord_instrument_code ord)),
           (''client_id'', JStr (ord_client_id ord)), (''order_id'', JStr (order_uuid i)), (''channel_name'', JStr ''TRADING''),
           (''time'', JNum (clock_millis i))]"

definition done_json :: "exchange_input \<Rightarrow> string \<Rightarrow> string \<Rightarrow> string \<Rightarrow> json" where
  "done_json i uid client code =
     JObj [(''type'', JStr ''DONE''), (''status'', JStr ''CANCELLED''), (''order_book_sequence'', JNum (book_sequence i)), (''uid'', JStr uid),
           (''instrument_code'', JStr code), (''client_id'', JStr client), (''order_id'', JStr (order_uuid i)), (''channel_name'', JStr ''TRADING''),
           (''time'', JNum (clock_millis i))]"

text \<open>The branches of the match on the type of a payload.\<close>

definition handle_subscribe :: "(json \<Rightarrow> string) \<Rightarrow> exchange_input \<Rightarrow> json \<Rightarrow> web_socket_actor \<Rightarrow> actor_event list option" where
  "handle_subscribe to_string i payload a =
     (if clock_millis i < 0 then None
      else case SubscriptionRequest payload of
        None \<Rightarrow> None
      | Some names \<Rightarrow>
          (case (if names = [] then Some [] else user_id a) of
             None \<Rightarrow> None
           | Some uid \<Rightarrow>
               Some [Text_out (to_string (subscriptions_json (map (\<lambda>n. JObj [(''account_id'', JStr uid), (''name'', JStr n)]) names) (clock_millis i)))]))"

definition handle_create :: "(json \<Rightarrow> string) \<Rightarrow> exchange_input \<Rightarrow> json \<Rightarrow> web_socket_actor \<Rightarrow> actor_event list option" where
  "handle_create to_string i payload a =
     (if clock_millis i < 0 then None
      else case (LimitOrderRequest payload, user_id a) of
        (Some ord, Some uid) \<Rightarrow> Some [Text_out (to_string (booked_json i uid ord))]
      | _ \<Rightarrow> None)"

definition handle_cancel :: "(json \<Rightarrow> string) \<Rightarrow> exchange_input \<Rightarrow> json \<Rightarrow> web_socket_actor \<Rightarrow> actor_event list option" where
  "handle_cancel to_string i payload a =
     (if clock_millis i < 0 then None
      else case (CancelOrderRequest payload, user_id a) of
        (Some (client, code), Some uid) \<Rightarrow> Some [Text_out (to_string (done_json i uid client code))]
      | _ \<Rightarrow> None)"

definition handle_text ::
  "(string \<Rightarrow> json option) \<Rightarrow> (json \<Rightarrow> string) \<Rightarrow> exchange_input \<Rightarrow> string \<Rightarrow> web_socket_actor \<Rightarrow> (web_socket_actor \<times> actor_event list) option" where
  "handle_text from_str to_string i text a =
     (case from_str text of
        None \<Rightarrow> Some (a, [Error_logged (''Payload is invalid JSON: '' @ text)])
      | Some payload \<Rightarrow>
         (case value_str payload ''type'' of
            None \<Rightarrow> Some (a, [Error_logged (''Payload does not have a 'type' field: '' @ to_string payload)])
          | Some payload_type \<Rightarrow>
             if payload_type = ''AUTHENTICATE'' then
               map_option (\<lambda>token. (a\<lparr>user_id := Some token\<rparr>, [Text_out (to_string authenticated_json)])) (AuthRequest payload)
             else if payload_type = ''SUBSCRIBE'' then map_option (Pair a) (handle_subscribe to_string i payload a)
             else if payload_type = ''CREATE_ORDER'' then map_option (Pair a) (handle_create to_string i payload a)
             else if payload_type = ''CANCEL_ORDER'' then map_option (Pair a) (handle_cancel to_string i payload a)
             else Some (a, [Error_logged (''Ignoring unknown message type: '' @ to_string payload)])))"

definition handle ::
  "(string \<Rightarrow> json option) \<Rightarrow> (json \<Rightarrow> string) \<Rightarrow> exchange_input \<Rightarrow> ws_message \<Rightarrow> web_socket_actor \<Rightarrow> (web_socket_actor \<times> actor_event list) option" where
  "handle from_str to_string i msg a = (case msg of
     Text text \<Rightarrow> handle_text from_str to_string i text a
   | Close reason \<Rightarrow> Some (a, [Close_out reason, Stopped])
   | _ \<Rightarrow> Some (a, []))"

end
