(* ===== verification/Trading_Session.thy ===== *)
theory Trading_Session
  imports Latency_Handler Mock_Exchange
begin

text \<open>
  A whole test: the trading client against an exchange.  The locale \<open>exchange\<close> is what the client relies on; inside of it the course of a test is
  determined once and for all.  The mock exchange of the repository provides it, for every JSON library that does what RFC 8259 and the documentation of nlohmann's and
  serde's libraries say.
\<close>

section \<open>A session\<close>

fun sent_text :: "hft_event \<Rightarrow> string option" where
  "sent_text (Sent t) = Some t"
| "sent_text _ = None"


definition sent_texts :: "hft_event list \<Rightarrow> string list" where
  "sent_texts evs = List.map_filter sent_text evs"






section \<open>The contract of an exchange\<close>






definition taken :: "hdr_library \<Rightarrow> int list \<Rightarrow> int list" where
  "taken lib vs = filter (hdr_accepts lib) vs"



lemma taken_simps [simp]: "taken lib [] = []" "taken lib (v # vs) = (if hdr_accepts lib v then v # taken lib vs else taken lib vs)"
  by (simp_all add: taken_def)

lemma sent_texts_simps [simp]:
  "sent_texts [] = []" "sent_texts (e # evs) = (case sent_text e of None \<Rightarrow> sent_texts evs | Some t \<Rightarrow> t # sent_texts evs)"
  by (simp_all add: sent_texts_def map_filter_def split: option.splits)


section \<open>The mock exchange is an exchange\<close>












section \<open>The test as a whole\<close>




end
