(* ===== verification/Spec2Isabelle.thy ===== *)
theory Spec2Isabelle
  imports Csv_Buffer Csv_Join Return_Queue Stats_Analysis Config Client Pacing Server Engine_Setup Xdp_Filter Log_Roundtrip
    End_To_End Replication_Path Xdp_Tools Exchange_Client Trading_Session
begin

text \<open>
  Verification of the EC2 timestamping programs (\<open>src/ec2_timestamping_programs\<close>), of the AF_XDP benchmark
  (\<open>src/af_xdp_zero_copy_perf_benchmark\<close>), and of the C++ trading client (\<open>src/hft_client/cpp-client\<close>) with the WebSocket actor of its test peer
  (\<open>src/mock-trading-server\<close>).

  \<^bold>\<open>The program.\<close>  A UDP client sends numbered packets, one-way or with an answer from the server, and records application, kernel
  and counter timestamps of each; a server records the arrival of packets and, in round-trip mode, returns the
  sequence number to the port the client asks for.  Both programs log through a lock-free ring to a writer thread that
  appends CSV lines to a file, and collect statistics in an overwriting ring that is analysed at the end of the run.  A third program
  joins the logs of client and server on the sequence number and computes deltas.

  The AF_XDP benchmark replicates UDP packets.  An XDP program hands the frames of one UDP
  destination to AF_XDP sockets, one per receive queue, and everything else to the kernel.  The replicator takes each frame from its socket, extracts the
  payload and sends it in a frame of its own to every subscriber, through the same frame memory; a control thread adds, removes and lists subscribers on request
  of a control client.  A benchmark client sends numbered trade messages to the replicator, receives them back as a subscriber and reports losses and
  latencies.

  The trading client connects to an exchange by WebSocket, authenticates, subscribes, and then sends an order, cancels it when it is booked and sends the next one when
  the cancel is done.  It records the time every answer takes, and reports and ends when it has sent as many requests as configured.  The mock exchange answers it.

  \<^bold>\<open>Theories and sources.\<close>

  \<^item> \<open>C_Prelude\<close>, \<open>C_Lib\<close>, \<open>Getopt\<close>, \<open>Binary64\<close>: machine integers, the C library functions the sources call (decimal conversion, splitting,
    \<open>fgets\<close>, \<open>qsort\<close>, \<open>getopt_long\<close>), and doubles as rationals that are rounded to 53 bits after every operation.
  \<^item> \<open>Ring_Queue\<close>, \<open>Spsc_Protocol\<close>: the ring algorithm that \<open>timestamp_common.h\<close> and \<open>timestamp_server.c\<close> share.  The locale \<open>bounded_fifo\<close> is
    the contract of a bounded queue; the step relations \<open>producer_step\<close> and \<open>consumer_step\<close> interleave the atomic accesses of the two threads.
  \<^item> \<open>Csv_Buffer\<close>: log entries, the log ring (an instance of \<open>bounded_fifo\<close>), the text format, the writer thread, creation and destruction
    (\<open>timestamp_common.h\<close>, \<open>timestamp_common.c\<close>).
  \<^item> \<open>Return_Queue\<close>: the queue of return packets (\<open>timestamp_server.c\<close>), the second instance of the contract.
  \<^item> \<open>Stats_Collector\<close>, \<open>Stats_Analysis\<close>: the statistics ring, the updates that complete an entry, histograms, percentiles and the report
    (\<open>timestamp_common.h\<close>, \<open>timestamp_common.c\<close>).
  \<^item> \<open>Logging\<close>, \<open>Config\<close>: console messages (\<open>timestamp_logging.h\<close>, \<open>timestamp_logging.c\<close>) and the command lines with their validation.
  \<^item> \<open>Net_Packet\<close>: what the packet engines share: byte order, \<open>struct timespec\<close>, control messages, the loop over the error queue of a
    socket and its drain, the run time check, counter conversion and calibration, the packet rate report.  The locale \<open>errq_logger\<close>
    is the contract of a program that logs its kernel send timestamps; client and server both interpret it.
  \<^item> \<open>Client\<close>: the packet engine of \<open>timestamp_client.c\<close>.  The record \<open>client_state\<close> holds its globals; \<open>client_oneway_turn\<close> and
    \<open>client_roundtrip_turn\<close> are one turn of the two send loops, \<open>client_rx_turn\<close> one turn of \<open>rx_thread_func\<close>, and \<open>client_run\<close> lets
    the threads take turns in any order.  The locale \<open>send_mode\<close> is what the send loop asks of a mode.
  \<^item> \<open>Pacing\<close>: the delay behind each batch of a send loop, measured with the cycle counter (\<open>precise_delay_cycles\<close>), and the packet rate it allows.
  \<^item> \<open>Server\<close>: the packet engine of \<open>timestamp_server.c\<close>: \<open>server_state\<close>, one turn of the receive loops (\<open>server_oneway_turn\<close>,
    \<open>server_roundtrip_turn\<close>), one turn of \<open>tx_thread_func\<close> (\<open>server_tx_turn\<close>), and runs of the three threads (\<open>server_run\<close>).
  \<^item> \<open>Engine_Setup\<close>: the set-up and the end of the four engines, with every error exit, as steps that acquire and release sockets, buffers and
    threads, and the functions of \<open>timestamp_common.c\<close> they call for that.
  \<^item> \<open>Csv_Parse\<close>, \<open>Csv_Join\<close>: the join tool \<open>timestamp_csvjoin.c\<close>.
  \<^item> \<open>Log_Roundtrip\<close>, \<open>End_To_End\<close>: these components together.
  \<^item> \<open>Xdp_Filter\<close>: the XDP program \<open>unicast_filter.c\<close>, with every access to the frame bounds-checked.
  \<^item> \<open>Inet_Addr\<close>, \<open>Cpp_Lib\<close>: address texts in both directions, and what the C++ sources use of their library: exceptions as values, number conversion, streams.
  \<^item> \<open>Udp_Frame\<close>: extraction of a UDP payload and building of a frame (\<open>PacketReplicator.cpp\<close>), with the Internet checksum and its acceptance by a receiver.
  \<^item> \<open>Xsk_Socket\<close>: the class \<open>AFXDPSocket\<close>.  The record \<open>xsk_socket\<close> has the frame memory, the counters and the list of calls made to libxdp.
  \<^item> \<open>Destinations\<close>: the ordered set of destinations.  The locale \<open>registry\<close> is the contract of a set of subscribers; the set interprets it.
  \<^item> \<open>Replicator\<close>, \<open>Replicator_Run\<close>: the class \<open>PacketReplicator\<close>: \<open>queue_turn\<close> is a turn of \<open>processPacketsForQueue\<close>, \<open>control_turn\<close> one of
    \<open>handleControlProtocol\<close>, and \<open>rep_run\<close> lets the threads take turns in any order.
  \<^item> \<open>Replicator_Setup\<close>: \<open>initialize\<close> with its error exits, start, stop and end, the statistics, and \<open>PacketReplicatorMain.cpp\<close>.
  \<^item> \<open>Control_Client\<close>, \<open>Market_Data\<close>, \<open>Xdp_Tools\<close>: \<open>ControlClient.cpp\<close>, \<open>MarketDataProviderClient.cpp\<close>, \<open>NetworkInterfaceConfigurator.cpp\<close> and
    \<open>TestClient.cpp\<close>.
  \<^item> \<open>Replication_Path\<close>: benchmark client, filter, replicator and subscriber together.
  \<^item> \<open>Json_Text\<close>: JSON values, their compact texts and a reader that is proved to return what was printed.  It is the vocabulary for the messages and the instance that
    shows that what is relied on of the JSON libraries can hold.
  \<^item> \<open>Hft_Config\<close>, \<open>Exchange_Protocol\<close>, \<open>Latency_Handler\<close>, \<open>Exchange_Client\<close>: \<open>Config.cpp\<close>; \<open>ExchangeProtocol.cpp\<close> and the client ids; the class
    \<open>ExchangeClientLatencyTestHandler\<close>, whose record is \<open>latency_handler\<close> and whose callback is \<open>on_message\<close>; \<open>ExchangeClient.cpp\<close> and \<open>main.cpp\<close>.
  \<^item> \<open>Mock_Exchange\<close>: the actor of \<open>websocket.rs\<close> with the requests of \<open>websocket_message_types.rs\<close>.
  \<^item> \<open>Trading_Session\<close>: client and exchange together.  The locale \<open>exchange\<close> is the contract of an exchange; \<open>json_libraries\<close> is what is relied on of the JSON libraries; a
    \<open>sublocale\<close> shows that the mock exchange then keeps the contract.

  \<^bold>\<open>What the lemmas show.\<close>

  \<^item> Rings: first-in first-out under every sequence of operations and under every interleaving of the two threads'
    atomic accesses, without a data race on a slot; the operations of the code are runs of that protocol.
  \<^item> Logs: a batch of entries is formatted completely and fits its buffer, the writer thread appends a gap-free prefix of the accepted entries,
    and the join tool reads back exactly what was logged.
  \<^item> Statistics: the ring keeps the latest entries, an update reaches the newest entry of its number, the analysis counts every delta
    where the list of deltas prescribes, and no percentile is read out of range.
  \<^item> Client and server: sequence numbers without gap, timestamps correlated with their packet, return packets in order without invention or duplication, complete
    logs, drains that end, loops that end when their run time is over, a packet rate bounded by the delays, and resources that are released exactly once.
  \<^item> Join: the tool refines a declarative specification of the joined file.
  \<^item> Composition: the round trip of a packet through client, server and client, and the way of a packet from the wire
    to the rows that the join tool reads.

  \<^item> Frames: what is extracted is the payload of the reference description of a packet, a built frame carries its payload to its destination with a checksum that is accepted.
  \<^item> Replicator: a successful set-up establishes what the packet loop relies on; every payload reaches each subscriber once for each granted reservation; receive frames are never lost or handed over
    twice, frames under way are not overwritten while the ring has room, totals are the sums over the queues; shutdown detaches the XDP program.
  \<^item> Control protocol: client and control thread implement a registry, and the printed list is the list of subscribers as far as it fits.
  \<^item> Benchmark client: the number of a message is read back, every message is received or lost and counted once, and the report does not depend on the order of the hash map.

  \<^item> Trading client: its messages are read back as what they stand for and fit their buffers exactly up to the proved lengths; client ids lose no randomness; the configuration file
    is read like a map; against every exchange the bookkeeping is exact and the possible failures are the listed ones; against the mock exchange a test runs to its end and reports the latencies
    of its answers, each measured once.

  \<^bold>\<open>Modelling choices.\<close>  Results of system calls, clock readings and allocation results are arguments of the definitions.  A thread is modelled by its turns: a turn of a packet loop is
  atomic in \<open>Client\<close> and \<open>Server\<close>, while the hand-over between threads is analysed access by access in \<open>Spsc_Protocol\<close>, under sequentially
  consistent memory.  A turn of the replicator's packet loop or control thread is atomic as well; each queue has its own socket, and the set of destinations is read under its mutex.  The rings of
  libxdp are arguments: what they promise (\<open>kernel_honest\<close>, \<open>extract_masks\<close>) is a named hypothesis of the theorems that need it, as are the laws of the JSON libraries (\<open>parses_json\<close>, \<open>reads_members\<close>, \<open>prints_json\<close>); websocketpp, HdrHistogram and OpenSSL
  are recorded calls with their results as arguments.  Loops end by structural recursion or by a measure (the binary search of the join, the drain of the error queue, the
  reading of lines), so that no fuel is needed; only the reference reader of JSON counts its calls, and twice the length of the text is proved to be enough.  A buffer overrun is a value (\<open>None\<close> or \<open>Memory_error\<close>) and its absence is proved.

  \<^bold>\<open>Not modelled.\<close>  Addresses, interface names, affinity and priorities in the set-up of the engines' sockets and threads, the printed
  totals of the engines, progress messages, weak memory effects between turns, the Java and Rust trading clients, the HTTP server
  around the mock exchange, and the deployment code, which are not C or C++ and consist of configuration and calls of frameworks for the greater part.
\<close>

end
